(* ===== verification/Prelude.thy ===== *)
theory Prelude
  imports Main "HOL-Library.Word" "HOL-Library.Product_Lexorder" "HOL-Library.Multiset"
    "HOL-Library.Code_Target_Numeral"
begin

text \<open>
  Shared vocabulary of the development: exceptions as values, ranges of the unsigned machine
  integers, keyed lookup in vectors, index maps that accompany a vector, and the writer-style
  concatenation of diagnostics.

  Unsigned C++ integers (\<open>uint16_t\<close>, \<open>uint32_t\<close>, \<open>uint64_t\<close>, \<open>size_t\<close>) are \<^typ>\<open>nat\<close>; wherever
  the code computes a value that may leave the range of its type, the wrap-around or the code's
  own overflow guard is written out with the constants below.  Control-word chunks, where bits
  matter, are 32-bit words.
\<close>

section \<open>Collections\<close>

named_theorems diag_simps \<open>when a checker reports nothing\<close>
named_theorems result_simps \<open>inversion of computations that may raise\<close>

section \<open>Exceptions as values\<close>

datatype exn =
    Out_Of_Range
  | Invalid_Argument
  | Runtime_Error
  | Logic_Error
  | Overflow_Error
  | Bad_Optional_Access
  | Bad_Variant_Access

type_synonym 'a result = "exn + 'a"

text \<open>
  Sequencing is the same for exceptions and for the early returns of a function, which are the left
  values of a sum type of their own.
\<close>

definition bindR :: "'e + 'a \<Rightarrow> ('a \<Rightarrow> 'e + 'b) \<Rightarrow> 'e + 'b" where
  "bindR r f = (case r of Inl e \<Rightarrow> Inl e | Inr a \<Rightarrow> f a)"

lemma bindR_Inl [simp]: "bindR (Inl e) f = Inl e"
  by (simp add: bindR_def)

lemma bindR_Inr [simp]: "bindR (Inr a) f = f a"
  by (simp add: bindR_def)

lemma bindR_eq_Inr [result_simps]: "bindR r f = Inr b \<longleftrightarrow> (\<exists>a. r = Inr a \<and> f a = Inr b)"
  by (cases r) auto

text \<open>A loop whose body may raise: it stops at the first exception.\<close>

fun foldR :: "('s \<Rightarrow> 'a \<Rightarrow> 'e + 's) \<Rightarrow> 's \<Rightarrow> 'a list \<Rightarrow> 'e + 's" where
  "foldR f s [] = Inr s"
| "foldR f s (x # xs) = bindR (f s x) (\<lambda>s'. foldR f s' xs)"

lemma foldR_append: "foldR f s (xs @ ys) = bindR (foldR f s xs) (\<lambda>s'. foldR f s' ys)"
proof (induction xs arbitrary: s)
  case Nil
  then show ?case by simp
next
  case (Cons x xs)
  then show ?case by (cases "f s x") simp_all
qed

lemma foldR_invariant:
  assumes "foldR f s xs = Inr t" and "I s"
    and "\<And>s x s'. x \<in> set xs \<Longrightarrow> I s \<Longrightarrow> f s x = Inr s' \<Longrightarrow> I s'"
  shows "I t"
  using assms
proof (induction xs arbitrary: s)
  case Nil
  then show ?case by simp
next
  case (Cons x xs)
  from Cons.prems(1) obtain s' where s': "f s x = Inr s'" "foldR f s' xs = Inr t"
    by (auto simp: bindR_eq_Inr)
  have "I s'" using Cons.prems(3) [of x s s'] Cons.prems(2) s'(1) by simp
  with s'(2) show ?case by (rule Cons.IH) (use Cons.prems(3) in auto)
qed

text \<open>
  A checker loop carries a state and a report that only grows.  If it ends with an empty report,
  every iteration was silent, so an invariant of the silent iterations holds at the end.
\<close>

lemma foldR_report_Nil:
  assumes "foldR f (T, ds) xs = Inr (T', [])"
    and "\<And>T ds x T' ds'. x \<in> set xs \<Longrightarrow> f (T, ds) x = Inr (T', ds') \<Longrightarrow> \<exists>y. ds' = ds @ y"
  shows "ds = []"
  using assms
proof (induction xs arbitrary: T ds)
  case (Cons x xs)
  from Cons.prems(1) obtain T1 ds1 where 1: "f (T, ds) x = Inr (T1, ds1)" "foldR f (T1, ds1) xs = Inr (T', [])"
    by (auto simp: bindR_eq_Inr)
  have "ds1 = []" by (rule Cons.IH [OF 1(2)]) (rule Cons.prems(2), simp_all)
  with Cons.prems(2) [OF _ 1(1)] show ?case by auto
qed simp

lemma foldR_silent:
  assumes "foldR f (T, ds) xs = Inr (T', [])"
    and grows: "\<And>T ds x T' ds'. x \<in> set xs \<Longrightarrow> f (T, ds) x = Inr (T', ds') \<Longrightarrow> \<exists>y. ds' = ds @ y"
    and step: "\<And>T pre x T'. x \<in> set xs \<Longrightarrow> I T pre \<Longrightarrow> f (T, []) x = Inr (T', []) \<Longrightarrow> I T' (pre @ [x])"
    and "I T pre"
  shows "ds = [] \<and> I T' (pre @ xs)"
  using assms
proof (induction xs arbitrary: T ds pre)
  case Nil
  then show ?case by simp
next
  case (Cons x xs)
  from Cons.prems(1) obtain T1 ds1 where 1: "f (T, ds) x = Inr (T1, ds1)" "foldR f (T1, ds1) xs = Inr (T', [])"
    by (auto simp: bindR_eq_Inr)
  have ds1: "ds1 = []" by (rule foldR_report_Nil [OF 1(2)]) (rule Cons.prems(2), simp_all)
  with Cons.prems(2) [OF _ 1(1)] have ds: "ds = []" by auto
  have "I T1 (pre @ [x])"
    by (rule Cons.prems(3)) (use Cons.prems(4) 1(1) ds ds1 in auto)
  then have "ds1 = [] \<and> I T' ((pre @ [x]) @ xs)"
    by (intro Cons.IH [OF 1(2)]) (blast intro: Cons.prems(2,3) list.set_intros(2))+
  with ds show ?case by simp
qed

section \<open>Ranges of the machine integers\<close>

abbreviation u32_max :: nat where "u32_max \<equiv> 4294967295"
abbreviation u64_max :: nat where "u64_max \<equiv> 18446744073709551615"
abbreviation i64_max :: int where "i64_max \<equiv> 9223372036854775807"
abbreviation i64_min :: int where "i64_min \<equiv> - 9223372036854775808"

definition wrap32 :: "nat \<Rightarrow> nat" where
  "wrap32 n = n mod 4294967296"

lemma wrap32_small [simp]: "n < 4294967296 \<Longrightarrow> wrap32 n = n"
  by (simp add: wrap32_def)

lemma wrap32_less [simp]: "wrap32 n < 4294967296"
  by (simp add: wrap32_def)

section \<open>Keyed lookup in a vector\<close>

text \<open>
  \<open>std::find_if\<close> on an id, and equally \<open>find\<close> on a map filled with \<open>emplace\<close>, which keeps the
  first entry of a key: the first element with the requested key.
\<close>

definition find_by :: "('a \<Rightarrow> 'k) \<Rightarrow> 'k \<Rightarrow> 'a list \<Rightarrow> 'a option" where
  "find_by key k xs = List.find (\<lambda>x. key x = k) xs"

lemma find_by_Nil [simp]: "find_by key k [] = None"
  by (simp add: find_by_def)

lemma find_by_Cons [simp]:
  "find_by key k (x # xs) = (if key x = k then Some x else find_by key k xs)"
  by (simp add: find_by_def)

lemma find_by_SomeD: "find_by key k xs = Some x \<Longrightarrow> x \<in> set xs \<and> key x = k"
  by (induction xs) (auto split: if_splits)

lemma find_by_None_iff: "find_by key k xs = None \<longleftrightarrow> k \<notin> key ` set xs"
  by (induction xs) auto

lemma find_by_distinct: "distinct (map key xs) \<Longrightarrow> x \<in> set xs \<Longrightarrow> find_by key (key x) xs = Some x"
  by (induction xs) auto

lemma find_by_append:
  "find_by key k (xs @ ys) = (case find_by key k xs of None \<Rightarrow> find_by key k ys | Some x \<Rightarrow> Some x)"
  by (induction xs) auto

lemma find_by_ex: "k \<in> key ` set xs \<Longrightarrow> \<exists>x. find_by key k xs = Some x \<and> x \<in> set xs \<and> key x = k"
  by (metis find_by_None_iff find_by_SomeD option.exhaust)

section \<open>Index maps\<close>

text \<open>
  The classes keep, beside a vector, a hash map from id to position.  \<open>index_ok key xs m\<close> says the
  map is exactly the position table of the vector (in particular ids are distinct).
\<close>

definition index_ok :: "('a \<Rightarrow> nat) \<Rightarrow> 'a list \<Rightarrow> (nat \<rightharpoonup> nat) \<Rightarrow> bool" where
  "index_ok key xs m \<longleftrightarrow> (\<forall>i k. m i = Some k \<longleftrightarrow> k < length xs \<and> key (xs ! k) = i)"

lemma index_ok_empty [simp]: "index_ok key [] Map.empty"
  by (simp add: index_ok_def)

lemma index_ok_dom: "index_ok key xs m \<Longrightarrow> m i \<noteq> None \<longleftrightarrow> i \<in> key ` set xs"
proof -
  assume ok: "index_ok key xs m"
  have "m i \<noteq> None \<longleftrightarrow> (\<exists>k. m i = Some k)" by simp
  also have "\<dots> \<longleftrightarrow> (\<exists>k < length xs. key (xs ! k) = i)" using ok by (simp add: index_ok_def)
  also have "\<dots> \<longleftrightarrow> i \<in> key ` set xs" by (auto simp: image_iff Bex_def in_set_conv_nth)
  finally show ?thesis .
qed

lemma index_ok_None: "index_ok key xs m \<Longrightarrow> m i = None \<longleftrightarrow> i \<notin> key ` set xs"
  using index_ok_dom [of key xs m i] by blast

lemma index_ok_nth: "index_ok key xs m \<Longrightarrow> k < length xs \<Longrightarrow> m (key (xs ! k)) = Some k"
  by (simp add: index_ok_def)

lemma index_ok_distinct: "index_ok key xs m \<Longrightarrow> distinct (map key xs)"
  by (auto simp: index_ok_def distinct_conv_nth) (metis option.inject)

lemma index_ok_append:
  assumes "index_ok key xs m" and "m (key x) = None"
  shows "index_ok key (xs @ [x]) (m(key x \<mapsto> length xs))"
  unfolding index_ok_def
proof (intro allI)
  fix i k
  have fresh: "k < length xs \<Longrightarrow> key (xs ! k) \<noteq> key x" for k
    using assms by (metis index_ok_nth option.distinct(1))
  show "(m(key x \<mapsto> length xs)) i = Some k \<longleftrightarrow>
        k < length (xs @ [x]) \<and> key ((xs @ [x]) ! k) = i"
  proof (cases "i = key x")
    case True
    with fresh show ?thesis by (auto simp: nth_append less_Suc_eq)
  next
    case False
    with assms(1) show ?thesis by (auto simp: nth_append less_Suc_eq index_ok_def)
  qed
qed

lemma index_ok_find_by:
  assumes "index_ok key xs m"
  shows "find_by key i xs = map_option (\<lambda>k. xs ! k) (m i)"
proof (cases "m i")
  case None
  with index_ok_None [OF assms] have "find_by key i xs = None" by (simp add: find_by_None_iff)
  with None show ?thesis by simp
next
  case (Some k)
  then have k: "k < length xs" "key (xs ! k) = i" using assms by (auto simp: index_ok_def)
  have "find_by key (key (xs ! k)) xs = Some (xs ! k)"
    by (rule find_by_distinct) (use index_ok_distinct [OF assms] k in auto)
  with k Some show ?thesis by simp
qed

text \<open>A map from the elements of a vector to their first position.\<close>

fun index_of :: "'a \<Rightarrow> 'a list \<Rightarrow> nat option" where
  "index_of x [] = None"
| "index_of x (y # ys) = (if x = y then Some 0 else map_option Suc (index_of x ys))"

lemma index_of_SomeD: "index_of x xs = Some i \<Longrightarrow> i < length xs \<and> xs ! i = x"
  by (induction xs arbitrary: i) (auto split: if_splits)

lemma index_of_None_iff [simp]: "index_of x xs = None \<longleftrightarrow> x \<notin> set xs"
  by (induction xs) auto

lemma index_of_ex: "x \<in> set xs \<Longrightarrow> \<exists>i < length xs. index_of x xs = Some i \<and> xs ! i = x"
  by (metis index_of_None_iff index_of_SomeD option.exhaust)

lemma index_of_nth: "distinct xs \<Longrightarrow> i < length xs \<Longrightarrow> index_of (xs ! i) xs = Some i"
  by (induction xs arbitrary: i) (auto simp: nth_Cons split: nat.splits)

section \<open>Reports\<close>

text \<open>
  A report is only ever appended to, so a check is the list of what it appends.  A report without
  diagnostics is the concatenation of checks that are all silent.
\<close>

definition report_if :: "bool \<Rightarrow> 'd \<Rightarrow> 'd list" where
  "report_if c d = (if c then [d] else [])"

lemma report_if_Nil [simp, diag_simps]: "report_if c d = [] \<longleftrightarrow> \<not> c"
  by (simp add: report_if_def)

lemma set_report_if [simp]: "set (report_if c d) = (if c then {d} else {})"
  by (simp add: report_if_def)

lemma concat_map_Nil [diag_simps]: "concat (map f xs) = [] \<longleftrightarrow> (\<forall>x \<in> set xs. f x = [])"
  by simp

text \<open>Loops that insert each key into a set and report the repeated ones.\<close>

fun duplicates :: "('a \<Rightarrow> 'k) \<Rightarrow> 'k set \<Rightarrow> 'a list \<Rightarrow> 'a list" where
  "duplicates key seen [] = []"
| "duplicates key seen (x # xs) =
     (if key x \<in> seen then x # duplicates key seen xs
      else duplicates key (insert (key x) seen) xs)"

lemma duplicates_Nil_gen:
  "duplicates key seen xs = [] \<longleftrightarrow> distinct (map key xs) \<and> key ` set xs \<inter> seen = {}"
  by (induction xs arbitrary: seen) auto

lemma duplicates_Nil [diag_simps]: "duplicates key {} xs = [] \<longleftrightarrow> distinct (map key xs)"
  by (simp add: duplicates_Nil_gen)

section \<open>Sorting by a key\<close>

lemma distinct_map_sort_key [simp]: "distinct (map f (sort_key g xs)) \<longleftrightarrow> distinct (map f xs)"
proof -
  have "mset (map f (sort_key g xs)) = mset (map f xs)" by simp
  then show ?thesis by (metis mset_eq_imp_distinct_iff)
qed

section \<open>Containers that refuse a repeated id\<close>

text \<open>
  The interface the graph containers offer to code that builds a graph: appending an element with a
  fresh id succeeds, extends the vector by it and keeps the invariant; a repeated id raises.  The
  loops that materialise a graph rest on its lemmas.
\<close>

locale keyed_append =
  fixes inv :: "'s \<Rightarrow> bool"
    and elems :: "'s \<Rightarrow> 'a list"
    and key :: "'a \<Rightarrow> nat"
    and admissible :: "'s \<Rightarrow> 'a \<Rightarrow> bool"
    and append :: "'a \<Rightarrow> 's \<Rightarrow> 's result"
  assumes append_fresh:
      "inv s \<Longrightarrow> key x \<notin> key ` set (elems s) \<Longrightarrow> admissible s x \<Longrightarrow>
         \<exists>s'. append x s = Inr s' \<and> inv s' \<and> elems s' = elems s @ [x] \<and>
              (\<forall>y. admissible s y \<longrightarrow> admissible s' y)"
    and append_duplicate: "inv s \<Longrightarrow> key x \<in> key ` set (elems s) \<Longrightarrow> \<exists>e. append x s = Inl e"
begin

text \<open>A loop that appends elements with pairwise different fresh ids never raises and stores them in
  order.\<close>

lemma append_all:
  assumes "inv s" and "distinct (map key (elems s @ xs))" and "\<forall>x \<in> set xs. admissible s x"
  shows "\<exists>s'. foldR (\<lambda>s x. append x s) s xs = Inr s' \<and> inv s' \<and> elems s' = elems s @ xs \<and>
              (\<forall>y. admissible s y \<longrightarrow> admissible s' y)"
  using assms
proof (induction xs arbitrary: s)
  case Nil
  then show ?case by simp
next
  case (Cons x xs)
  from Cons.prems have "key x \<notin> key ` set (elems s)" by auto
  then obtain s' where s': "append x s = Inr s'" "inv s'"
      "elems s' = elems s @ [x]" "\<forall>y. admissible s y \<longrightarrow> admissible s' y"
    using append_fresh [of s x] Cons.prems(1,3) by auto
  have "\<exists>t. foldR (\<lambda>s x. append x s) s' xs = Inr t \<and> inv t \<and> elems t = elems s' @ xs \<and>
            (\<forall>y. admissible s' y \<longrightarrow> admissible t y)"
    by (rule Cons.IH) (use s' Cons.prems in auto)
  with s' show ?case by auto
qed

text \<open>Elements stored this way have pairwise different ids.\<close>

lemma append_all_distinct:
  assumes "inv s" and "distinct (map key (elems s))" and "\<forall>x \<in> set xs. admissible s x"
    and "foldR (\<lambda>s x. append x s) s xs = Inr s'"
  shows "distinct (map key (elems s @ xs))"
  using assms
proof (induction xs arbitrary: s)
  case Nil
  then show ?case by simp
next
  case (Cons x xs)
  have fresh: "key x \<notin> key ` set (elems s)"
    using append_duplicate [OF Cons.prems(1), of x] Cons.prems(4) by (auto simp: bindR_eq_Inr)
  then obtain t where t: "append x s = Inr t" "inv t"
      "elems t = elems s @ [x]" "\<forall>y. admissible s y \<longrightarrow> admissible t y"
    using append_fresh [of s x] Cons.prems(1,3) by auto
  have "distinct (map key (elems t @ xs))"
    by (rule Cons.IH) (use t fresh Cons.prems in auto)
  with t show ?case by simp
qed

end

end
