(* ===== verification/IR_Types.thy ===== *)
theory IR_Types
  imports Prelude
begin

text \<open>
  The vocabulary of the generic data-flow graph: value types with their textual form
  (\<open>IR/ValueType.h\<close>, \<open>IR/ValueType.cpp\<close>), opcodes and comparison predicates with their name
  tables (\<open>IR/Opcode.*\<close>), nodes, values and bindings (\<open>IR/Node.h\<close>), edges (\<open>IR/Edge.*\<close>).

  Shown here: every name table is inverted by its parser, the textual form of a type is read back
  to the type except for one-bit integers, and the width of a type literal is accumulated modulo
  \<open>2 ^ 32\<close> before it is range-checked.
\<close>

section \<open>Value types\<close>

datatype ValueKind = VK_Integer | VK_Predicate | VK_Float | VK_Void

record ValueType =
  vt_kind :: ValueKind
  vt_bitWidth :: nat

definition integerTy :: "nat \<Rightarrow> ValueType" where
  "integerTy bits = \<lparr>vt_kind = VK_Integer, vt_bitWidth = bits\<rparr>"

definition predicateTy :: ValueType where
  "predicateTy = \<lparr>vt_kind = VK_Predicate, vt_bitWidth = 1\<rparr>"

definition floatingTy :: "nat \<Rightarrow> ValueType" where
  "floatingTy bits = \<lparr>vt_kind = VK_Float, vt_bitWidth = bits\<rparr>"

definition voidTy :: ValueType where
  "voidTy = \<lparr>vt_kind = VK_Void, vt_bitWidth = 0\<rparr>"

abbreviation i8Ty :: ValueType where "i8Ty \<equiv> integerTy 8"
abbreviation i16Ty :: ValueType where "i16Ty \<equiv> integerTy 16"
abbreviation i32Ty :: ValueType where "i32Ty \<equiv> integerTy 32"
abbreviation f32Ty :: ValueType where "f32Ty \<equiv> floatingTy 32"

lemmas type_defs = integerTy_def predicateTy_def floatingTy_def voidTy_def

fun valueKind_toString :: "ValueKind \<Rightarrow> string" where
  "valueKind_toString VK_Integer = ''integer''"
| "valueKind_toString VK_Predicate = ''predicate''"
| "valueKind_toString VK_Float = ''float''"
| "valueKind_toString VK_Void = ''void''"

definition valueKindFromString :: "string \<Rightarrow> ValueKind result" where
  "valueKindFromString value =
     (if value = ''integer'' then Inr VK_Integer
      else if value = ''predicate'' then Inr VK_Predicate
      else if value = ''float'' then Inr VK_Float
      else if value = ''void'' then Inr VK_Void
      else Inl Invalid_Argument)"

text \<open>Decimal digits, as \<open>std::to_string\<close> prints them.\<close>

definition digit_char :: "nat \<Rightarrow> char" where
  "digit_char d = ''0123456789'' ! d"

fun to_string :: "nat \<Rightarrow> string" where
  "to_string n = (if n < 10 then [digit_char n] else to_string (n div 10) @ [digit_char (n mod 10)])"

declare to_string.simps [simp del]

definition valueType_toString :: "ValueType \<Rightarrow> string" where
  "valueType_toString t =
     (if vt_kind t = VK_Void then ''void''
      else if vt_kind t = VK_Predicate then ''predicate''
      else (if vt_kind t = VK_Integer then CHR ''i'' else CHR ''f'') # to_string (vt_bitWidth t))"

text \<open>
  The loop of \<open>parseWidth\<close>: a 32-bit \<open>unsigned\<close> accumulator, so the multiplication and the addition
  wrap; the range check comes after the loop.
\<close>

fun parseDigits :: "nat \<Rightarrow> string \<Rightarrow> nat result" where
  "parseDigits width [] = Inr width"
| "parseDigits width (c # cs) =
     (if of_char c < (48::nat) \<or> (57::nat) < of_char c then Inl Invalid_Argument
      else parseDigits (wrap32 (wrap32 (width * 10) + (of_char c - 48))) cs)"

definition parseWidth :: "string \<Rightarrow> ValueKind \<Rightarrow> ValueType result" where
  "parseWidth digits kind =
     (if digits = [] then Inl Invalid_Argument
      else bindR (parseDigits 0 digits)
        (\<lambda>width. if width = 0 \<or> 65535 < width then Inl Invalid_Argument
                 else Inr \<lparr>vt_kind = kind, vt_bitWidth = width\<rparr>))"

definition valueType_fromString :: "string \<Rightarrow> ValueType result" where
  "valueType_fromString value =
     (if value = ''void'' then Inr voidTy
      else if value = ''predicate'' \<or> value = ''predicate1'' \<or> value = ''i1'' then Inr predicateTy
      else case value of
             [] \<Rightarrow> Inl Invalid_Argument
           | c # digits \<Rightarrow>
               if c = CHR ''i'' then parseWidth digits VK_Integer
               else if c = CHR ''f'' then parseWidth digits VK_Float
               else Inl Invalid_Argument)"

section \<open>Opcodes and comparison predicates\<close>

datatype Opcode =
    Add | Sub | Mul | And | Or | Xor | Shl | LShr | AShr | ICmp | Select | Load | Store

datatype ICmpPredicate = EQ | NE | ULT | ULE | UGT | UGE | SLT | SLE | SGT | SGE

fun opcode_toString :: "Opcode \<Rightarrow> string" where
  "opcode_toString Add = ''Add''"
| "opcode_toString Sub = ''Sub''"
| "opcode_toString Mul = ''Mul''"
| "opcode_toString And = ''And''"
| "opcode_toString Or = ''Or''"
| "opcode_toString Xor = ''Xor''"
| "opcode_toString Shl = ''Shl''"
| "opcode_toString LShr = ''LShr''"
| "opcode_toString AShr = ''AShr''"
| "opcode_toString ICmp = ''ICmp''"
| "opcode_toString Select = ''Select''"
| "opcode_toString Load = ''Load''"
| "opcode_toString Store = ''Store''"

definition first_named :: "('a \<Rightarrow> string) \<Rightarrow> 'a list \<Rightarrow> string \<Rightarrow> 'a result" where
  "first_named name vals value =
     (case find_by name value vals of None \<Rightarrow> Inl Invalid_Argument | Some x \<Rightarrow> Inr x)"

definition opcodeFromString :: "string \<Rightarrow> Opcode result" where
  "opcodeFromString value =
     first_named opcode_toString
       [Add, Sub, Mul, And, Or, Xor, Shl, LShr, AShr, ICmp, Select, Load, Store] value"

fun icmpPredicate_toString :: "ICmpPredicate \<Rightarrow> string" where
  "icmpPredicate_toString EQ = ''EQ''"
| "icmpPredicate_toString NE = ''NE''"
| "icmpPredicate_toString ULT = ''ULT''"
| "icmpPredicate_toString ULE = ''ULE''"
| "icmpPredicate_toString UGT = ''UGT''"
| "icmpPredicate_toString UGE = ''UGE''"
| "icmpPredicate_toString SLT = ''SLT''"
| "icmpPredicate_toString SLE = ''SLE''"
| "icmpPredicate_toString SGT = ''SGT''"
| "icmpPredicate_toString SGE = ''SGE''"

definition icmpPredicateFromString :: "string \<Rightarrow> ICmpPredicate result" where
  "icmpPredicateFromString value =
     first_named icmpPredicate_toString [EQ, NE, ULT, ULE, UGT, UGE, SLT, SLE, SGT, SGE] value"

datatype MemoryDepKind = RAW | WAR | WAW

fun memoryDepKind_toString :: "MemoryDepKind \<Rightarrow> string" where
  "memoryDepKind_toString RAW = ''RAW''"
| "memoryDepKind_toString WAR = ''WAR''"
| "memoryDepKind_toString WAW = ''WAW''"

definition memoryDepKindFromString :: "string \<Rightarrow> MemoryDepKind result" where
  "memoryDepKindFromString value =
     (if value = ''RAW'' then Inr RAW
      else if value = ''WAR'' then Inr WAR
      else if value = ''WAW'' then Inr WAW
      else Inl Invalid_Argument)"

section \<open>Nodes, values and bindings\<close>

type_synonym NodeId = nat
type_synonym ExternalValueId = nat
type_synonym ConstantId = nat
type_synonym LiveOutId = nat
type_synonym EdgeId = nat

record MemoryOpInfo =
  mi_accessWidthBits :: nat
  mi_isVolatile :: bool

record Node =
  n_id :: NodeId
  n_opcode :: Opcode
  n_resultType :: ValueType
  n_operandTypes :: "ValueType list"
  n_icmpPredicate :: "ICmpPredicate option"
  n_memoryInfo :: "MemoryOpInfo option"
  n_source :: "string option"

record ExternalValue =
  x_id :: ExternalValueId
  x_type :: ValueType
  x_name :: string

record ConstantValue =
  c_id :: ConstantId
  c_type :: ValueType
  c_bits :: nat

record LiveOut =
  l_id :: LiveOutId
  l_type :: ValueType
  l_name :: string
  l_source :: NodeId

datatype ExternalOperandBinding = ExternalValueRef ExternalValueId | ConstantRef ConstantId

record OperandBinding =
  b_node :: NodeId
  b_operand :: nat
  b_source :: ExternalOperandBinding

section \<open>Edges\<close>

record RecurrenceBoundaryValue =
  bv_iterationOffset :: nat
  bv_value :: ExternalOperandBinding

type_synonym RecurrenceBoundary = "RecurrenceBoundaryValue list"

datatype EdgeInfo =
    DataEdgeInfo (info_dstOperand: nat) (info_boundary: "RecurrenceBoundary option")
  | PredicateEdgeInfo (info_dstOperand: nat) (info_boundary: "RecurrenceBoundary option")
  | MemoryEdgeInfo MemoryDepKind

datatype EdgeKind = Kind_Data | Kind_Predicate | Kind_Memory

fun info_kind :: "EdgeInfo \<Rightarrow> EdgeKind" where
  "info_kind (DataEdgeInfo _ _) = Kind_Data"
| "info_kind (PredicateEdgeInfo _ _) = Kind_Predicate"
| "info_kind (MemoryEdgeInfo _) = Kind_Memory"

record Edge =
  e_id :: EdgeId
  e_src :: NodeId
  e_dst :: NodeId
  e_distance :: nat
  e_info :: EdgeInfo

abbreviation e_kind :: "Edge \<Rightarrow> EdgeKind" where
  "e_kind e \<equiv> info_kind (e_info e)"

section \<open>Round trips of the textual forms\<close>

lemma digit_char_of_char:
  assumes "d < 10" shows "of_char (digit_char d) = (48 + d :: nat)"
proof -
  from assms have "d = 0 \<or> d = 1 \<or> d = 2 \<or> d = 3 \<or> d = 4 \<or> d = 5 \<or> d = 6 \<or> d = 7 \<or> d = 8 \<or> d = 9"
    by arith
  then show ?thesis by (elim disjE) (simp_all add: digit_char_def)
qed

lemma parseDigits_append:
  "parseDigits w (xs @ ys) = bindR (parseDigits w xs) (\<lambda>w'. parseDigits w' ys)"
  by (induction xs arbitrary: w) auto

text \<open>Reading back a printed number computes it modulo \<open>2 ^ 32\<close>.\<close>

lemma parseDigits_to_string: "parseDigits 0 (to_string n) = Inr (wrap32 n)"
proof (induction n rule: to_string.induct)
  case (1 n)
  show ?case
  proof (cases "n < 10")
    case True
    then show ?thesis
      by (subst to_string.simps) (simp add: digit_char_of_char)
  next
    case False
    have "wrap32 (wrap32 (wrap32 (n div 10) * 10) + n mod 10) = wrap32 n"
      unfolding wrap32_def by (simp add: mod_simps)
    with False "1" show ?thesis
      by (subst to_string.simps) (simp add: parseDigits_append digit_char_of_char)
  qed
qed

lemma to_string_not_Nil [simp]: "to_string n \<noteq> []"
  by (subst to_string.simps) simp

lemma to_string_inj: "n < 4294967296 \<Longrightarrow> m < 4294967296 \<Longrightarrow> to_string n = to_string m \<Longrightarrow> n = m"
  by (metis parseDigits_to_string sum.inject(2) wrap32_small)

lemma to_string_1: "to_string 1 = ''1''"
  by (subst to_string.simps) (simp add: digit_char_def)

lemma digit_char_alpha: "d < 10 \<Longrightarrow> digit_char d \<noteq> CHR ''l''" "d < 10 \<Longrightarrow> digit_char d \<noteq> CHR ''o''"
  by (use digit_char_of_char [of d] in auto)

lemma fromString_prefixed:
  assumes "c = CHR ''i'' \<or> c = CHR ''f''" and "c # ds \<noteq> ''i1''"
  shows "valueType_fromString (c # ds) =
         parseWidth ds (if c = CHR ''i'' then VK_Integer else VK_Float)"
  using assms by (auto simp: valueType_fromString_def)

lemma parseWidth_to_string:
  assumes "0 < w" and "w \<le> 65535"
  shows "parseWidth (to_string (w + k * 4294967296)) kind = Inr \<lparr>vt_kind = kind, vt_bitWidth = w\<rparr>"
proof -
  have "wrap32 (w + k * 4294967296) = w" using assms by (simp add: wrap32_def)
  with assms show ?thesis by (simp add: parseWidth_def parseDigits_to_string)
qed

section \<open>Validity of a type\<close>

definition isValidType :: "ValueType \<Rightarrow> bool" where
  "isValidType t =
     (case vt_kind t of
        VK_Integer \<Rightarrow> vt_bitWidth t \<noteq> 0
      | VK_Float \<Rightarrow> vt_bitWidth t \<noteq> 0
      | VK_Predicate \<Rightarrow> vt_bitWidth t = 1
      | VK_Void \<Rightarrow> vt_bitWidth t = 0)"

lemma printed_width_neq_i1: "w \<noteq> 1 \<Longrightarrow> w \<le> 65535 \<Longrightarrow> to_string w \<noteq> ''1''"
  using to_string_inj [of w 1] to_string_1 by force

text \<open>C31: For every valid type whose width fits the 16-bit field, reading back its printed form
  gives the same type, with one exception: the one-bit integer, which prints as \<open>i1\<close> and is read
  as the predicate type.\<close>

theorem valueType_roundtrip:
  assumes "isValidType t" and "vt_bitWidth t \<le> 65535"
  shows "valueType_fromString (valueType_toString t) =
         Inr (if t = integerTy 1 then predicateTy else t)"
proof (cases "vt_kind t")
  case VK_Integer
  show ?thesis
  proof (cases "vt_bitWidth t = 1")
    case True
    with VK_Integer have "t = integerTy 1" by (simp add: integerTy_def)
    then show ?thesis
      by (simp add: valueType_toString_def valueType_fromString_def integerTy_def
          to_string_1 [unfolded One_nat_def])
  next
    case False
    with assms VK_Integer parseWidth_to_string [of "vt_bitWidth t" 0 VK_Integer]
    show ?thesis
      by (auto simp: valueType_toString_def isValidType_def fromString_prefixed printed_width_neq_i1
          integerTy_def)
  qed
next
  case VK_Float
  with assms parseWidth_to_string [of "vt_bitWidth t" 0 VK_Float] show ?thesis
    by (auto simp: valueType_toString_def isValidType_def fromString_prefixed integerTy_def)
next
  case VK_Predicate
  with assms show ?thesis
    by (auto simp: valueType_toString_def isValidType_def valueType_fromString_def type_defs)
next
  case VK_Void
  with assms show ?thesis
    by (auto simp: valueType_toString_def isValidType_def valueType_fromString_def type_defs)
qed

theorem valueType_roundtrip_witness:
  "isValidType i32Ty \<and> valueType_fromString (valueType_toString i32Ty) = Inr i32Ty"
proof -
  have h: "isValidType i32Ty" "vt_bitWidth i32Ty \<le> 65535"
    by (simp_all add: isValidType_def integerTy_def)
  show ?thesis using valueType_roundtrip [OF h] h(1) by (simp add: integerTy_def)
qed

text \<open>C32: The width of a type literal is accumulated in 32-bit unsigned arithmetic and checked only
  afterwards, so a literal whose width exceeds the range by a multiple of \<open>2 ^ 32\<close> is not refused:
  it is read as the type of the reduced width.\<close>

theorem fromString_width_wraps:
  assumes "1 < w" and "w \<le> 65535"
  shows "valueType_fromString (CHR ''i'' # to_string (w + k * 4294967296)) = Inr (integerTy w)"
proof -
  have "to_string (w + k * 4294967296) \<noteq> ''1''"
  proof
    assume eq: "to_string (w + k * 4294967296) = ''1''"
    have "parseDigits 0 (to_string (w + k * 4294967296)) = Inr w"
      using assms by (simp add: parseDigits_to_string wrap32_def)
    moreover have "parseDigits 0 ''1'' = Inr 1" by simp
    ultimately show False using eq assms by simp
  qed
  with assms show ?thesis
    by (simp add: fromString_prefixed parseWidth_to_string integerTy_def)
qed

theorem fromString_width_wraps_witness:
  "valueType_fromString (CHR ''i'' # to_string 4294967328) = Inr i32Ty"
  using fromString_width_wraps [of 32 1] by simp

lemma first_named_Inr_iff:
  assumes "inj name" and "set vals = UNIV"
  shows "first_named name vals s = Inr x \<longleftrightarrow> s = name x"
proof -
  have "x \<in> set vals" using assms(2) by simp
  then show ?thesis
    using assms(1) find_by_None_iff [of name s vals] find_by_SomeD [of name s vals]
    by (auto simp: first_named_def split: option.splits dest: injD)
qed

lemma inj_opcode_toString: "inj opcode_toString"
proof (rule injI)
  fix x y :: Opcode
  assume "opcode_toString x = opcode_toString y"
  then show "x = y" by (cases x; cases y; simp)
qed

lemma inj_icmpPredicate_toString: "inj icmpPredicate_toString"
proof (rule injI)
  fix x y :: ICmpPredicate
  assume "icmpPredicate_toString x = icmpPredicate_toString y"
  then show "x = y" by (cases x; cases y; simp)
qed

lemma opcodes_UNIV:
  "set [Add, Sub, Mul, And, Or, Xor, Shl, LShr, AShr, ICmp, Select, Load, Store] = UNIV"
proof (rule UNIV_eq_I [symmetric])
  fix x :: Opcode
  show "x \<in> set [Add, Sub, Mul, And, Or, Xor, Shl, LShr, AShr, ICmp, Select, Load, Store]"
    by (cases x) simp_all
qed

lemma icmpPredicates_UNIV: "set [EQ, NE, ULT, ULE, UGT, UGE, SLT, SLE, SGT, SGE] = UNIV"
proof (rule UNIV_eq_I [symmetric])
  fix x :: ICmpPredicate
  show "x \<in> set [EQ, NE, ULT, ULE, UGT, UGE, SLT, SLE, SGT, SGE]" by (cases x) simp_all
qed

text \<open>C33: The name tables of value kinds, opcodes, comparison predicates and memory dependences are
  inverted by their parsers, and no other text is accepted.\<close>

theorem name_tables_roundtrip:
  "(valueKindFromString s = Inr k \<longleftrightarrow> s = valueKind_toString k) \<and>
   (opcodeFromString s = Inr op \<longleftrightarrow> s = opcode_toString op) \<and>
   (icmpPredicateFromString s = Inr p \<longleftrightarrow> s = icmpPredicate_toString p) \<and>
   (memoryDepKindFromString s = Inr d \<longleftrightarrow> s = memoryDepKind_toString d)"
proof (intro conjI)
  show "valueKindFromString s = Inr k \<longleftrightarrow> s = valueKind_toString k"
    by (cases k) (auto simp: valueKindFromString_def)
  show "opcodeFromString s = Inr op \<longleftrightarrow> s = opcode_toString op"
    unfolding opcodeFromString_def
    by (rule first_named_Inr_iff [OF inj_opcode_toString opcodes_UNIV])
  show "icmpPredicateFromString s = Inr p \<longleftrightarrow> s = icmpPredicate_toString p"
    unfolding icmpPredicateFromString_def
    by (rule first_named_Inr_iff [OF inj_icmpPredicate_toString icmpPredicates_UNIV])
  show "memoryDepKindFromString s = Inr d \<longleftrightarrow> s = memoryDepKind_toString d"
    by (cases d) (auto simp: memoryDepKindFromString_def)
qed

end
