(* ===== verification/IR_DFG.thy ===== *)
theory IR_DFG
  imports IR_Types
begin

text \<open>
  The generic data-flow graph container (\<open>IR/DFG.h\<close>, \<open>IR/DFG.cpp\<close>) and its builder
  (\<open>IR/DFGBuilder.h\<close>, \<open>IR/DFGBuilder.cpp\<close>).  The graph is a record with the vectors, the cached
  adjacency and the id-to-position maps of the class; the append operations are state transformers
  that may raise.  The builder adds the next-id counters, which advance before an append can raise,
  so a builder operation returns the new builder together with its result or exception.

  \<open>dfg_inv\<close> says that the index maps and the adjacency caches are exactly what the vectors
  determine and that every reference resolves.  Every operation preserves it, on its error paths
  too.
\<close>

section \<open>The graph\<close>

record DFG =
  d_name :: string
  d_nodes :: "Node list"
  d_edges :: "Edge list"
  d_externalValues :: "ExternalValue list"
  d_constants :: "ConstantValue list"
  d_liveOuts :: "LiveOut list"
  d_bindings :: "OperandBinding list"
  d_incoming :: "EdgeId list list"
  d_outgoing :: "EdgeId list list"
  d_nodeIndices :: "NodeId \<rightharpoonup> nat"
  d_edgeIndices :: "EdgeId \<rightharpoonup> nat"
  d_externalIndices :: "ExternalValueId \<rightharpoonup> nat"
  d_constantIndices :: "ConstantId \<rightharpoonup> nat"
  d_liveOutIndices :: "LiveOutId \<rightharpoonup> nat"

definition empty_DFG :: "string \<Rightarrow> DFG" where
  "empty_DFG name = \<lparr>d_name = name, d_nodes = [], d_edges = [], d_externalValues = [],
     d_constants = [], d_liveOuts = [], d_bindings = [], d_incoming = [], d_outgoing = [],
     d_nodeIndices = Map.empty, d_edgeIndices = Map.empty, d_externalIndices = Map.empty,
     d_constantIndices = Map.empty, d_liveOutIndices = Map.empty\<rparr>"

definition containsNode :: "DFG \<Rightarrow> NodeId \<Rightarrow> bool" where
  "containsNode g i = (d_nodeIndices g i \<noteq> None)"

definition containsEdge :: "DFG \<Rightarrow> EdgeId \<Rightarrow> bool" where
  "containsEdge g i = (d_edgeIndices g i \<noteq> None)"

definition containsExternal :: "DFG \<Rightarrow> ExternalValueId \<Rightarrow> bool" where
  "containsExternal g i = (d_externalIndices g i \<noteq> None)"

definition containsConstant :: "DFG \<Rightarrow> ConstantId \<Rightarrow> bool" where
  "containsConstant g i = (d_constantIndices g i \<noteq> None)"

definition containsLiveOut :: "DFG \<Rightarrow> LiveOutId \<Rightarrow> bool" where
  "containsLiveOut g i = (d_liveOutIndices g i \<noteq> None)"

text \<open>\<open>vector::at\<close>, which raises outside the vector.\<close>

definition vec_at :: "'a list \<Rightarrow> nat \<Rightarrow> 'a result" where
  "vec_at xs k = (if k < length xs then Inr (xs ! k) else Inl Out_Of_Range)"

definition at_index :: "'a list \<Rightarrow> (nat \<rightharpoonup> nat) \<Rightarrow> nat \<Rightarrow> 'a result" where
  "at_index xs m i = (case m i of None \<Rightarrow> Inl Out_Of_Range | Some k \<Rightarrow> vec_at xs k)"

definition dfg_node :: "DFG \<Rightarrow> NodeId \<Rightarrow> Node result" where
  "dfg_node g i = at_index (d_nodes g) (d_nodeIndices g) i"

definition dfg_edge :: "DFG \<Rightarrow> EdgeId \<Rightarrow> Edge result" where
  "dfg_edge g i = at_index (d_edges g) (d_edgeIndices g) i"

definition dfg_externalValue :: "DFG \<Rightarrow> ExternalValueId \<Rightarrow> ExternalValue result" where
  "dfg_externalValue g i = at_index (d_externalValues g) (d_externalIndices g) i"

definition dfg_constant :: "DFG \<Rightarrow> ConstantId \<Rightarrow> ConstantValue result" where
  "dfg_constant g i = at_index (d_constants g) (d_constantIndices g) i"

definition dfg_liveOut :: "DFG \<Rightarrow> LiveOutId \<Rightarrow> LiveOut result" where
  "dfg_liveOut g i = at_index (d_liveOuts g) (d_liveOutIndices g) i"

definition dfg_incoming :: "DFG \<Rightarrow> NodeId \<Rightarrow> EdgeId list result" where
  "dfg_incoming g i =
     bindR (dfg_node g i) (\<lambda>n. at_index (d_incoming g) (d_nodeIndices g) (n_id n))"

definition dfg_outgoing :: "DFG \<Rightarrow> NodeId \<Rightarrow> EdgeId list result" where
  "dfg_outgoing g i =
     bindR (dfg_node g i) (\<lambda>n. at_index (d_outgoing g) (d_nodeIndices g) (n_id n))"

section \<open>Appending\<close>

definition appendNode :: "Node \<Rightarrow> DFG \<Rightarrow> DFG result" where
  "appendNode n g =
     (if containsNode g (n_id n) then Inl Invalid_Argument
      else Inr (g\<lparr>d_nodeIndices := (d_nodeIndices g)(n_id n \<mapsto> length (d_nodes g)),
                 d_nodes := d_nodes g @ [n],
                 d_incoming := d_incoming g @ [[]],
                 d_outgoing := d_outgoing g @ [[]]\<rparr>))"

definition appendExternal :: "ExternalValue \<Rightarrow> DFG \<Rightarrow> DFG result" where
  "appendExternal v g =
     (if containsExternal g (x_id v) then Inl Invalid_Argument
      else Inr (g\<lparr>d_externalIndices := (d_externalIndices g)(x_id v \<mapsto> length (d_externalValues g)),
                 d_externalValues := d_externalValues g @ [v]\<rparr>))"

definition appendConstant :: "ConstantValue \<Rightarrow> DFG \<Rightarrow> DFG result" where
  "appendConstant v g =
     (if containsConstant g (c_id v) then Inl Invalid_Argument
      else Inr (g\<lparr>d_constantIndices := (d_constantIndices g)(c_id v \<mapsto> length (d_constants g)),
                 d_constants := d_constants g @ [v]\<rparr>))"

definition appendLiveOut :: "LiveOut \<Rightarrow> DFG \<Rightarrow> DFG result" where
  "appendLiveOut v g =
     (if containsLiveOut g (l_id v) then Inl Invalid_Argument
      else if \<not> containsNode g (l_source v) then Inl Invalid_Argument
      else Inr (g\<lparr>d_liveOutIndices := (d_liveOutIndices g)(l_id v \<mapsto> length (d_liveOuts g)),
                 d_liveOuts := d_liveOuts g @ [v]\<rparr>))"

definition push_at :: "nat \<Rightarrow> 'a \<Rightarrow> 'a list list \<Rightarrow> 'a list list" where
  "push_at k x xss = xss[k := xss ! k @ [x]]"

definition appendEdge :: "Edge \<Rightarrow> DFG \<Rightarrow> DFG result" where
  "appendEdge e g =
     (if containsEdge g (e_id e) then Inl Invalid_Argument
      else case (d_nodeIndices g (e_src e), d_nodeIndices g (e_dst e)) of
        (Some s, Some t) \<Rightarrow>
          Inr (g\<lparr>d_edgeIndices := (d_edgeIndices g)(e_id e \<mapsto> length (d_edges g)),
                d_edges := d_edges g @ [e],
                d_incoming := push_at t (e_id e) (d_incoming g),
                d_outgoing := push_at s (e_id e) (d_outgoing g)\<rparr>)
      | _ \<Rightarrow> Inl Invalid_Argument)"

abbreviation binding_key :: "OperandBinding \<Rightarrow> nat \<times> nat" where
  "binding_key b \<equiv> (b_node b, b_operand b)"

definition appendBinding :: "OperandBinding \<Rightarrow> DFG \<Rightarrow> DFG result" where
  "appendBinding b g =
     (if \<not> containsNode g (b_node b) then Inl Invalid_Argument
      else if \<exists>item \<in> set (d_bindings g). b_node item = b_node b \<and> b_operand item = b_operand b
           then Inl Invalid_Argument
      else Inr (g\<lparr>d_bindings := sort_key binding_key (d_bindings g @ [b])\<rparr>))"

section \<open>The representation invariant\<close>

definition incoming_of :: "DFG \<Rightarrow> NodeId \<Rightarrow> EdgeId list" where
  "incoming_of g i = map e_id (filter (\<lambda>e. e_dst e = i) (d_edges g))"

definition outgoing_of :: "DFG \<Rightarrow> NodeId \<Rightarrow> EdgeId list" where
  "outgoing_of g i = map e_id (filter (\<lambda>e. e_src e = i) (d_edges g))"

definition dfg_inv :: "DFG \<Rightarrow> bool" where
  "dfg_inv g \<longleftrightarrow>
     index_ok n_id (d_nodes g) (d_nodeIndices g) \<and>
     index_ok e_id (d_edges g) (d_edgeIndices g) \<and>
     index_ok x_id (d_externalValues g) (d_externalIndices g) \<and>
     index_ok c_id (d_constants g) (d_constantIndices g) \<and>
     index_ok l_id (d_liveOuts g) (d_liveOutIndices g) \<and>
     d_incoming g = map (incoming_of g \<circ> n_id) (d_nodes g) \<and>
     d_outgoing g = map (outgoing_of g \<circ> n_id) (d_nodes g) \<and>
     (\<forall>e \<in> set (d_edges g). e_src e \<in> n_id ` set (d_nodes g) \<and> e_dst e \<in> n_id ` set (d_nodes g)) \<and>
     (\<forall>l \<in> set (d_liveOuts g). l_source l \<in> n_id ` set (d_nodes g)) \<and>
     (\<forall>b \<in> set (d_bindings g). b_node b \<in> n_id ` set (d_nodes g)) \<and>
     distinct (map binding_key (d_bindings g)) \<and>
     sorted (map binding_key (d_bindings g))"

lemma dfg_inv_empty: "dfg_inv (empty_DFG name)"
  by (simp add: dfg_inv_def empty_DFG_def)

lemma dfg_inv_containsNode: "dfg_inv g \<Longrightarrow> containsNode g i \<longleftrightarrow> i \<in> n_id ` set (d_nodes g)"
  unfolding dfg_inv_def containsNode_def using index_ok_dom by blast

lemma dfg_inv_appendNode: "dfg_inv g \<Longrightarrow> appendNode n g = Inr g' \<Longrightarrow> dfg_inv g'"
proof -
  assume inv: "dfg_inv g" and app: "appendNode n g = Inr g'"
  then have fresh: "d_nodeIndices g (n_id n) = None"
    by (auto simp: appendNode_def containsNode_def split: if_splits)
  with inv have new: "n_id n \<notin> n_id ` set (d_nodes g)"
    using index_ok_None [of n_id "d_nodes g" "d_nodeIndices g"] by (auto simp: dfg_inv_def)
  have "\<forall>e \<in> set (d_edges g). e_src e \<in> n_id ` set (d_nodes g) \<and> e_dst e \<in> n_id ` set (d_nodes g)"
    using inv by (simp add: dfg_inv_def)
  with new have no_edges: "filter (\<lambda>e. e_dst e = n_id n) (d_edges g) = []"
      "filter (\<lambda>e. e_src e = n_id n) (d_edges g) = []"
    unfolding filter_empty_conv by metis+
  from app fresh have g': "g' = g\<lparr>d_nodeIndices := (d_nodeIndices g)(n_id n \<mapsto> length (d_nodes g)),
                 d_nodes := d_nodes g @ [n],
                 d_incoming := d_incoming g @ [[]],
                 d_outgoing := d_outgoing g @ [[]]\<rparr>"
    by (auto simp: appendNode_def containsNode_def)
  show ?thesis
    using inv index_ok_append [of n_id "d_nodes g" "d_nodeIndices g" n] fresh no_edges
    by (auto simp: g' dfg_inv_def incoming_of_def outgoing_of_def comp_def)
qed

lemma dfg_inv_appendExternal: "dfg_inv g \<Longrightarrow> appendExternal v g = Inr g' \<Longrightarrow> dfg_inv g'"
  by (auto simp: dfg_inv_def appendExternal_def containsExternal_def incoming_of_def outgoing_of_def
      comp_def index_ok_append split: if_splits)

lemma dfg_inv_appendConstant: "dfg_inv g \<Longrightarrow> appendConstant v g = Inr g' \<Longrightarrow> dfg_inv g'"
  by (auto simp: dfg_inv_def appendConstant_def containsConstant_def incoming_of_def outgoing_of_def
      comp_def index_ok_append split: if_splits)

lemma dfg_inv_appendLiveOut: "dfg_inv g \<Longrightarrow> appendLiveOut v g = Inr g' \<Longrightarrow> dfg_inv g'"
  using dfg_inv_containsNode [of g "l_source v"]
  by (auto simp: dfg_inv_def appendLiveOut_def containsLiveOut_def incoming_of_def outgoing_of_def
      comp_def index_ok_append split: if_splits)

text \<open>Appending to one cached list keeps the cache equal to its specification.\<close>

lemma push_at_map:
  assumes "index_ok key xs m" and "m i = Some k"
  shows "push_at k y (map (F \<circ> key) xs) = map ((F(i := F i @ [y])) \<circ> key) xs"
proof (rule nth_equalityI)
  show "length (push_at k y (map (F \<circ> key) xs)) = length (map ((F(i := F i @ [y])) \<circ> key) xs)"
    by (simp add: push_at_def)
next
  fix j assume "j < length (push_at k y (map (F \<circ> key) xs))"
  then have j: "j < length xs" by (simp add: push_at_def)
  have k: "k < length xs" "key (xs ! k) = i" using assms by (auto simp: index_ok_def)
  have "m (key (xs ! j)) = Some j" by (rule index_ok_nth [OF assms(1) j])
  with assms(2) k(2) have "key (xs ! j) = i \<longleftrightarrow> j = k" by (metis option.inject)
  with j k show "push_at k y (map (F \<circ> key) xs) ! j = map ((F(i := F i @ [y])) \<circ> key) xs ! j"
    by (cases "j = k") (simp_all add: push_at_def nth_list_update)
qed

lemma dfg_inv_appendEdge: "dfg_inv g \<Longrightarrow> appendEdge e g = Inr g' \<Longrightarrow> dfg_inv g'"
proof -
  assume inv: "dfg_inv g" and app: "appendEdge e g = Inr g'"
  then obtain s t where st: "d_nodeIndices g (e_src e) = Some s" "d_nodeIndices g (e_dst e) = Some t"
      and fresh: "d_edgeIndices g (e_id e) = None"
      and g': "g' = g\<lparr>d_edgeIndices := (d_edgeIndices g)(e_id e \<mapsto> length (d_edges g)),
                d_edges := d_edges g @ [e],
                d_incoming := push_at t (e_id e) (d_incoming g),
                d_outgoing := push_at s (e_id e) (d_outgoing g)\<rparr>"
    by (auto simp: appendEdge_def containsEdge_def split: if_splits option.splits)
  have ends: "e_src e \<in> n_id ` set (d_nodes g)" "e_dst e \<in> n_id ` set (d_nodes g)"
    using inv st index_ok_dom unfolding dfg_inv_def by (metis option.distinct(1))+
  have "incoming_of g' = (incoming_of g)(e_dst e := incoming_of g (e_dst e) @ [e_id e])"
       "outgoing_of g' = (outgoing_of g)(e_src e := outgoing_of g (e_src e) @ [e_id e])"
    by (auto simp: g' incoming_of_def outgoing_of_def fun_eq_iff)
  then have "d_incoming g' = map (incoming_of g' \<circ> n_id) (d_nodes g')"
      "d_outgoing g' = map (outgoing_of g' \<circ> n_id) (d_nodes g')"
    using inv st push_at_map by (auto simp: dfg_inv_def g')
  then show ?thesis
    using inv index_ok_append [of e_id "d_edges g" "d_edgeIndices g" e] fresh ends
    by (auto simp: g' dfg_inv_def)
qed

lemma dfg_inv_appendBinding: "dfg_inv g \<Longrightarrow> appendBinding b g = Inr g' \<Longrightarrow> dfg_inv g'"
proof -
  assume inv: "dfg_inv g" and app: "appendBinding b g = Inr g'"
  then have known: "b_node b \<in> n_id ` set (d_nodes g)"
    and fresh: "binding_key b \<notin> binding_key ` set (d_bindings g)"
    and g': "g' = g\<lparr>d_bindings := sort_key binding_key (d_bindings g @ [b])\<rparr>"
    using dfg_inv_containsNode [OF inv, of "b_node b"]
    by (auto simp: appendBinding_def split: if_splits)
  have "distinct (map binding_key (d_bindings g @ [b]))"
    using inv fresh by (simp add: dfg_inv_def)
  moreover have "\<forall>b \<in> set (d_bindings g'). b_node b \<in> n_id ` set (d_nodes g)"
    using inv known by (auto simp: dfg_inv_def g')
  moreover have "incoming_of g' = incoming_of g" "outgoing_of g' = outgoing_of g"
    by (simp_all add: g' incoming_of_def outgoing_of_def fun_eq_iff)
  ultimately show ?thesis using inv by (simp add: dfg_inv_def g')
qed

lemmas dfg_inv_append =
  dfg_inv_appendNode dfg_inv_appendExternal dfg_inv_appendConstant dfg_inv_appendLiveOut
  dfg_inv_appendEdge dfg_inv_appendBinding

section \<open>The append interface\<close>

lemma dfg_inv_indices:
  assumes "dfg_inv g"
  shows "d_nodeIndices g i = None \<longleftrightarrow> i \<notin> n_id ` set (d_nodes g)"
    and "d_edgeIndices g i = None \<longleftrightarrow> i \<notin> e_id ` set (d_edges g)"
  using assms index_ok_None by (auto simp: dfg_inv_def)

interpretation gnodes: keyed_append dfg_inv d_nodes n_id "\<lambda>_ _. True" appendNode
proof unfold_locales
  fix s x
  assume inv: "dfg_inv s"
  show "n_id x \<notin> n_id ` set (d_nodes s) \<Longrightarrow> True \<Longrightarrow>
    \<exists>s'. appendNode x s = Inr s' \<and> dfg_inv s' \<and> d_nodes s' = d_nodes s @ [x] \<and>
      (\<forall>y. True \<longrightarrow> True)"
    using inv dfg_inv_appendNode [OF inv, of x] dfg_inv_indices(1) [OF inv, of "n_id x"]
    by (simp add: appendNode_def containsNode_def)
  show "n_id x \<in> n_id ` set (d_nodes s) \<Longrightarrow> \<exists>e. appendNode x s = Inl e"
    using dfg_inv_indices(1) [OF inv, of "n_id x"] by (simp add: appendNode_def containsNode_def)
qed

interpretation gedges: keyed_append dfg_inv d_edges e_id
  "\<lambda>g e. e_src e \<in> n_id ` set (d_nodes g) \<and> e_dst e \<in> n_id ` set (d_nodes g)" appendEdge
proof unfold_locales
  fix s x
  assume inv: "dfg_inv s"
  show "e_id x \<in> e_id ` set (d_edges s) \<Longrightarrow> \<exists>e. appendEdge x s = Inl e"
    using dfg_inv_indices(2) [OF inv, of "e_id x"] by (simp add: appendEdge_def containsEdge_def)
  assume "e_id x \<notin> e_id ` set (d_edges s)"
    "e_src x \<in> n_id ` set (d_nodes s) \<and> e_dst x \<in> n_id ` set (d_nodes s)"
  then obtain a b where "d_edgeIndices s (e_id x) = None" "d_nodeIndices s (e_src x) = Some a"
      "d_nodeIndices s (e_dst x) = Some b"
    using dfg_inv_indices [OF inv] by fastforce
  then show "\<exists>s'. appendEdge x s = Inr s' \<and> dfg_inv s' \<and> d_edges s' = d_edges s @ [x] \<and>
      (\<forall>y. e_src y \<in> n_id ` set (d_nodes s) \<and> e_dst y \<in> n_id ` set (d_nodes s) \<longrightarrow>
           e_src y \<in> n_id ` set (d_nodes s') \<and> e_dst y \<in> n_id ` set (d_nodes s'))"
    using dfg_inv_appendEdge [OF inv, of x] by (simp add: appendEdge_def containsEdge_def)
qed

end
