(* ===== verification/IR_Builder.thy ===== *)
theory IR_Builder
  imports IR_DFG
begin

text \<open>
  The graph builder (\<open>IR/DFGBuilder.h\<close>, \<open>IR/DFGBuilder.cpp\<close>): next-id counters over a graph, the
  checked \<open>add\<close>/\<open>bind\<close> operations and the unchecked \<open>import\<close> operations used by deserialisation.
  A call returns the builder it leaves behind and its result; on an exception the graph is
  unchanged but a counter may already have advanced, exactly as in the code.  Counters are 32-bit
  and wrap.

  A client of the builder is a sequence of calls; \<open>built\<close> is the set of builders such a sequence
  can reach, failing calls included.
\<close>

record DFGBuilder =
  bld_dfg :: DFG
  bld_nextNodeId :: NodeId
  bld_nextEdgeId :: EdgeId
  bld_nextExternalId :: ExternalValueId
  bld_nextConstantId :: ConstantId
  bld_nextLiveOutId :: LiveOutId

definition new_DFGBuilder :: "string \<Rightarrow> DFGBuilder" where
  "new_DFGBuilder name = \<lparr>bld_dfg = empty_DFG name, bld_nextNodeId = 0, bld_nextEdgeId = 0,
     bld_nextExternalId = 0, bld_nextConstantId = 0, bld_nextLiveOutId = 0\<rparr>"

definition commit :: "DFG result \<Rightarrow> 'a \<Rightarrow> DFGBuilder \<Rightarrow> DFGBuilder \<times> 'a result" where
  "commit r a b = (case r of Inl e \<Rightarrow> (b, Inl e) | Inr g \<Rightarrow> (b\<lparr>bld_dfg := g\<rparr>, Inr a))"

section \<open>Import operations\<close>

definition importExternal :: "ExternalValue \<Rightarrow> DFGBuilder \<Rightarrow> DFGBuilder \<times> nat result" where
  "importExternal v b =
     (let b' = b\<lparr>bld_nextExternalId := max (bld_nextExternalId b) (wrap32 (x_id v + 1))\<rparr>
      in commit (appendExternal v (bld_dfg b')) (x_id v) b')"

definition importConstant :: "ConstantValue \<Rightarrow> DFGBuilder \<Rightarrow> DFGBuilder \<times> nat result" where
  "importConstant v b =
     (let b' = b\<lparr>bld_nextConstantId := max (bld_nextConstantId b) (wrap32 (c_id v + 1))\<rparr>
      in commit (appendConstant v (bld_dfg b')) (c_id v) b')"

definition importNode :: "Node \<Rightarrow> DFGBuilder \<Rightarrow> DFGBuilder \<times> nat result" where
  "importNode n b =
     (let b' = b\<lparr>bld_nextNodeId := max (bld_nextNodeId b) (wrap32 (n_id n + 1))\<rparr>
      in commit (appendNode n (bld_dfg b')) (n_id n) b')"

definition importLiveOut :: "LiveOut \<Rightarrow> DFGBuilder \<Rightarrow> DFGBuilder \<times> nat result" where
  "importLiveOut v b =
     (let b' = b\<lparr>bld_nextLiveOutId := max (bld_nextLiveOutId b) (wrap32 (l_id v + 1))\<rparr>
      in commit (appendLiveOut v (bld_dfg b')) (l_id v) b')"

definition importEdge :: "Edge \<Rightarrow> DFGBuilder \<Rightarrow> DFGBuilder \<times> nat result" where
  "importEdge e b =
     (let b' = b\<lparr>bld_nextEdgeId := max (bld_nextEdgeId b) (wrap32 (e_id e + 1))\<rparr>
      in commit (appendEdge e (bld_dfg b')) (e_id e) b')"

section \<open>Checks\<close>

definition checkNode :: "DFG \<Rightarrow> NodeId \<Rightarrow> unit result" where
  "checkNode g i = bindR (dfg_node g i) (\<lambda>_. Inr ())"

definition checkOperand :: "DFG \<Rightarrow> NodeId \<Rightarrow> nat \<Rightarrow> unit result" where
  "checkOperand g i k =
     bindR (checkNode g i) (\<lambda>_.
     bindR (dfg_node g i) (\<lambda>n.
       if length (n_operandTypes n) \<le> k then Inl Out_Of_Range else Inr ()))"

definition provides_operand :: "Edge \<Rightarrow> nat \<Rightarrow> bool" where
  "provides_operand e k =
     (case e_info e of
        DataEdgeInfo operand _ \<Rightarrow> operand = k
      | PredicateEdgeInfo operand _ \<Rightarrow> operand = k
      | MemoryEdgeInfo _ \<Rightarrow> False)"

definition checkProviderAvailable :: "DFG \<Rightarrow> NodeId \<Rightarrow> nat \<Rightarrow> unit result" where
  "checkProviderAvailable g i k =
     bindR (checkOperand g i k) (\<lambda>_.
     bindR (dfg_incoming g i) (\<lambda>incoming.
     bindR (foldR (\<lambda>_ eid. bindR (dfg_edge g eid)
              (\<lambda>e. if provides_operand e k then Inl Invalid_Argument else Inr ())) () incoming) (\<lambda>_.
       if \<exists>b \<in> set (d_bindings g). b_node b = i \<and> b_operand b = k then Inl Invalid_Argument
       else Inr ())))"

section \<open>Add and bind operations\<close>

definition addExternal :: "string \<Rightarrow> ValueType \<Rightarrow> DFGBuilder \<Rightarrow> DFGBuilder \<times> nat result" where
  "addExternal name ty b =
     (if name = [] then (b, Inl Invalid_Argument)
      else importExternal \<lparr>x_id = bld_nextExternalId b, x_type = ty, x_name = name\<rparr>
             (b\<lparr>bld_nextExternalId := wrap32 (bld_nextExternalId b + 1)\<rparr>))"

definition addConstant :: "ValueType \<Rightarrow> nat \<Rightarrow> DFGBuilder \<Rightarrow> DFGBuilder \<times> nat result" where
  "addConstant ty bits b =
     importConstant \<lparr>c_id = bld_nextConstantId b, c_type = ty, c_bits = bits\<rparr>
       (b\<lparr>bld_nextConstantId := wrap32 (bld_nextConstantId b + 1)\<rparr>)"

definition addLiveOut :: "string \<Rightarrow> ValueType \<Rightarrow> NodeId \<Rightarrow> DFGBuilder \<Rightarrow> DFGBuilder \<times> nat result" where
  "addLiveOut name ty source b =
     (if name = [] then (b, Inl Invalid_Argument)
      else case checkNode (bld_dfg b) source of
        Inl e \<Rightarrow> (b, Inl e)
      | Inr _ \<Rightarrow>
          importLiveOut \<lparr>l_id = bld_nextLiveOutId b, l_type = ty, l_name = name, l_source = source\<rparr>
            (b\<lparr>bld_nextLiveOutId := wrap32 (bld_nextLiveOutId b + 1)\<rparr>))"

definition addNode ::
  "Opcode \<Rightarrow> ValueType list \<Rightarrow> ValueType \<Rightarrow> ICmpPredicate option \<Rightarrow> MemoryOpInfo option \<Rightarrow>
   string option \<Rightarrow> DFGBuilder \<Rightarrow> DFGBuilder \<times> nat result" where
  "addNode op operands res pred mem src b =
     (let n = \<lparr>n_id = bld_nextNodeId b, n_opcode = op, n_resultType = res, n_operandTypes = operands,
               n_icmpPredicate = pred, n_memoryInfo = mem, n_source = src\<rparr>;
          b' = b\<lparr>bld_nextNodeId := wrap32 (bld_nextNodeId b + 1)\<rparr>
      in commit (appendNode n (bld_dfg b')) (n_id n) b')"

definition bindExternal :: "NodeId \<Rightarrow> nat \<Rightarrow> ExternalValueId \<Rightarrow> DFGBuilder \<Rightarrow> DFGBuilder \<times> nat result" where
  "bindExternal i k v b =
     (case checkProviderAvailable (bld_dfg b) i k of
        Inl e \<Rightarrow> (b, Inl e)
      | Inr _ \<Rightarrow>
          if \<not> containsExternal (bld_dfg b) v then (b, Inl Out_Of_Range)
          else commit (appendBinding \<lparr>b_node = i, b_operand = k, b_source = ExternalValueRef v\<rparr>
                        (bld_dfg b)) 0 b)"

definition bindConstant :: "NodeId \<Rightarrow> nat \<Rightarrow> ConstantId \<Rightarrow> DFGBuilder \<Rightarrow> DFGBuilder \<times> nat result" where
  "bindConstant i k v b =
     (case checkProviderAvailable (bld_dfg b) i k of
        Inl e \<Rightarrow> (b, Inl e)
      | Inr _ \<Rightarrow>
          if \<not> containsConstant (bld_dfg b) v then (b, Inl Out_Of_Range)
          else commit (appendBinding \<lparr>b_node = i, b_operand = k, b_source = ConstantRef v\<rparr>
                        (bld_dfg b)) 0 b)"

definition addValueEdge :: "EdgeInfo \<Rightarrow> NodeId \<Rightarrow> NodeId \<Rightarrow> nat \<Rightarrow> nat \<Rightarrow> DFGBuilder \<Rightarrow> DFGBuilder \<times> nat result" where
  "addValueEdge info src dst dstOperand distance b =
     (case checkProviderAvailable (bld_dfg b) dst dstOperand of
        Inl e \<Rightarrow> (b, Inl e)
      | Inr _ \<Rightarrow>
          importEdge \<lparr>e_id = bld_nextEdgeId b, e_src = src, e_dst = dst, e_distance = distance,
                      e_info = info\<rparr>
            (b\<lparr>bld_nextEdgeId := wrap32 (bld_nextEdgeId b + 1)\<rparr>))"

definition addDataEdge ::
  "NodeId \<Rightarrow> NodeId \<Rightarrow> nat \<Rightarrow> nat \<Rightarrow> RecurrenceBoundary option \<Rightarrow> DFGBuilder \<Rightarrow> DFGBuilder \<times> nat result" where
  "addDataEdge src dst dstOperand distance boundary b =
     addValueEdge (DataEdgeInfo dstOperand boundary) src dst dstOperand distance b"

definition addPredicateEdge ::
  "NodeId \<Rightarrow> NodeId \<Rightarrow> nat \<Rightarrow> nat \<Rightarrow> RecurrenceBoundary option \<Rightarrow> DFGBuilder \<Rightarrow> DFGBuilder \<times> nat result" where
  "addPredicateEdge src dst dstOperand distance boundary b =
     addValueEdge (PredicateEdgeInfo dstOperand boundary) src dst dstOperand distance b"

definition addMemoryEdge ::
  "NodeId \<Rightarrow> NodeId \<Rightarrow> MemoryDepKind \<Rightarrow> nat \<Rightarrow> DFGBuilder \<Rightarrow> DFGBuilder \<times> nat result" where
  "addMemoryEdge src dst dep distance b =
     (case bindR (checkNode (bld_dfg b) src) (\<lambda>_. checkNode (bld_dfg b) dst) of
        Inl e \<Rightarrow> (b, Inl e)
      | Inr _ \<Rightarrow>
          importEdge \<lparr>e_id = bld_nextEdgeId b, e_src = src, e_dst = dst, e_distance = distance,
                      e_info = MemoryEdgeInfo dep\<rparr>
            (b\<lparr>bld_nextEdgeId := wrap32 (bld_nextEdgeId b + 1)\<rparr>))"

section \<open>Sequences of calls\<close>

datatype BuilderCall =
    AddExternal string ValueType
  | AddConstant ValueType nat
  | AddLiveOut string ValueType NodeId
  | AddNode Opcode "ValueType list" ValueType "ICmpPredicate option" "MemoryOpInfo option" "string option"
  | BindExternal NodeId nat ExternalValueId
  | BindConstant NodeId nat ConstantId
  | AddDataEdge NodeId NodeId nat nat "RecurrenceBoundary option"
  | AddPredicateEdge NodeId NodeId nat nat "RecurrenceBoundary option"
  | AddMemoryEdge NodeId NodeId MemoryDepKind nat
  | ImportExternal ExternalValue
  | ImportConstant ConstantValue
  | ImportNode Node
  | ImportLiveOut LiveOut
  | ImportEdge Edge

fun builder_call :: "BuilderCall \<Rightarrow> DFGBuilder \<Rightarrow> DFGBuilder \<times> nat result" where
  "builder_call (AddExternal name ty) b = addExternal name ty b"
| "builder_call (AddConstant ty bits) b = addConstant ty bits b"
| "builder_call (AddLiveOut name ty src) b = addLiveOut name ty src b"
| "builder_call (AddNode op operands res pred mem src) b = addNode op operands res pred mem src b"
| "builder_call (BindExternal i k v) b = bindExternal i k v b"
| "builder_call (BindConstant i k v) b = bindConstant i k v b"
| "builder_call (AddDataEdge src dst k d bnd) b = addDataEdge src dst k d bnd b"
| "builder_call (AddPredicateEdge src dst k d bnd) b = addPredicateEdge src dst k d bnd b"
| "builder_call (AddMemoryEdge src dst dep d) b = addMemoryEdge src dst dep d b"
| "builder_call (ImportExternal v) b = importExternal v b"
| "builder_call (ImportConstant v) b = importConstant v b"
| "builder_call (ImportNode n) b = importNode n b"
| "builder_call (ImportLiveOut v) b = importLiveOut v b"
| "builder_call (ImportEdge e) b = importEdge e b"

inductive built :: "DFGBuilder \<Rightarrow> bool" where
  start: "built (new_DFGBuilder name)"
| step: "built b \<Longrightarrow> builder_call c b = (b', r) \<Longrightarrow> built b'"

fun is_import :: "BuilderCall \<Rightarrow> bool" where
  "is_import (ImportEdge _) = True"
| "is_import _ = False"

text \<open>Builders reached without importing an edge: every value edge passed the provider check.\<close>

inductive built_checked :: "DFGBuilder \<Rightarrow> bool" where
  start: "built_checked (new_DFGBuilder name)"
| step: "built_checked b \<Longrightarrow> \<not> is_import c \<Longrightarrow> builder_call c b = (b', r) \<Longrightarrow> built_checked b'"

section \<open>The graph invariant along every sequence of calls\<close>

lemma commit_dfg:
  "commit r a b = (b', res) \<Longrightarrow>
   (\<exists>g. r = Inr g \<and> b' = b\<lparr>bld_dfg := g\<rparr> \<and> res = Inr a) \<or> (\<exists>e. r = Inl e \<and> b' = b \<and> res = Inl e)"
  by (auto simp: commit_def split: sum.splits)

lemmas builder_defs =
  addExternal_def addConstant_def addLiveOut_def addNode_def bindExternal_def bindConstant_def
  addDataEdge_def addPredicateEdge_def addValueEdge_def addMemoryEdge_def
  importExternal_def importConstant_def importNode_def importLiveOut_def importEdge_def

text \<open>A call leaves the graph alone or appends to it once.\<close>

lemma builder_call_dfg:
  assumes "builder_call c b = (b', r)"
  shows "bld_dfg b' = bld_dfg b \<or>
         (\<exists>n. appendNode n (bld_dfg b) = Inr (bld_dfg b')) \<or>
         (\<exists>v. appendExternal v (bld_dfg b) = Inr (bld_dfg b')) \<or>
         (\<exists>v. appendConstant v (bld_dfg b) = Inr (bld_dfg b')) \<or>
         (\<exists>v. appendLiveOut v (bld_dfg b) = Inr (bld_dfg b')) \<or>
         (\<exists>e. appendEdge e (bld_dfg b) = Inr (bld_dfg b')) \<or>
         (\<exists>v. appendBinding v (bld_dfg b) = Inr (bld_dfg b'))"
  using assms
  by (cases c) (auto simp: builder_defs Let_def split: if_splits sum.splits dest!: commit_dfg)

lemma builder_call_inv:
  assumes "builder_call c b = (b', r)" and "dfg_inv (bld_dfg b)"
  shows "dfg_inv (bld_dfg b')"
  using builder_call_dfg [OF assms(1)] assms(2) by (auto dest: dfg_inv_append)

text \<open>C29: Whatever sequence of builder calls a client makes, imports and failing calls included, the
  graph keeps its representation invariant: the id indices and the adjacency caches are exactly
  those of the stored vectors, ids are unique, bindings are sorted and unique, and every edge,
  binding and live-out refers to a stored node.\<close>

theorem built_dfg_inv: "built b \<Longrightarrow> dfg_inv (bld_dfg b)"
proof (induction rule: built.induct)
  case (start name)
  then show ?case by (simp add: new_DFGBuilder_def dfg_inv_empty)
next
  case (step b c b' r)
  then show ?case by (blast intro: builder_call_inv)
qed

theorem built_dfg_inv_witness:
  "dfg_inv (bld_dfg (fst (builder_call (AddNode Add [i32Ty, i32Ty] i32Ty None None None)
                           (new_DFGBuilder ''g''))))"
  by (rule built_dfg_inv, rule built.step [OF built.start surjective_pairing])

end
