(* ===== verification/IR_Verifier.thy ===== *)
theory IR_Verifier
  imports IR_Builder
begin

text \<open>
  The graph verifier (\<open>IR/DFGVerifier.h\<close>, \<open>IR/DFGVerifier.cpp\<close>): one definition per member
  function of \<open>DFGVerifierImpl\<close>, each returning the diagnostics it appends.  A diagnostic carries
  its severity, code and ids; the message text is not modelled.  The id maps of the class are
  filled with \<open>emplace\<close>, so a lookup is \<^const>\<open>find_by\<close> on the vector.  The \<open>default\<close> branches for
  enumerators outside the declared ones have no counterpart in the datatypes.

  The second half states what an accepted graph is without reference to the checks: a typing
  judgement for operations, exactly one provider per operand, exactly one boundary value per
  pre-seed iteration.
\<close>

section \<open>Diagnostics\<close>

datatype DiagnosticSeverity = Sev_Error | Sev_Warning

datatype DFGDiagnosticCode =
    DFG_ID_DUPLICATE_NODE | DFG_ID_DUPLICATE_EDGE | DFG_ID_DUPLICATE_EXTERNAL
  | DFG_ID_DUPLICATE_CONSTANT | DFG_ID_DUPLICATE_LIVEOUT | DFG_EDGE_UNKNOWN_SOURCE
  | DFG_EDGE_UNKNOWN_DESTINATION | DFG_BINDING_UNKNOWN_NODE | DFG_BINDING_UNKNOWN_EXTERNAL
  | DFG_BINDING_UNKNOWN_CONSTANT | DFG_ADJACENCY_INCONSISTENT
  | DFG_OPERAND_INDEX_OUT_OF_RANGE | DFG_OPERAND_MISSING_PROVIDER
  | DFG_OPERAND_DUPLICATE_PROVIDER | DFG_OPERAND_TYPE_MISMATCH | DFG_OPERAND_INVALID_EDGE_KIND
  | DFG_TYPE_INVALID | DFG_RESULT_TYPE_INVALID | DFG_EDGE_VALUE_TYPE_MISMATCH
  | DFG_PREDICATE_EXPECTED | DFG_DATA_VALUE_EXPECTED | DFG_VOID_VALUE_USED
  | DFG_OPCODE_ARITY_MISMATCH | DFG_OPCODE_RESULT_TYPE_MISMATCH
  | DFG_OPCODE_OPERAND_TYPE_MISMATCH | DFG_OPCODE_UNEXPECTED_METADATA
  | DFG_OPCODE_MISSING_METADATA | DFG_OPCODE_METADATA_INVALID
  | DFG_ICMP_MISSING_PREDICATE | DFG_ICMP_INVALID_RESULT_TYPE | DFG_ICMP_OPERAND_TYPE_MISMATCH
  | DFG_SELECT_INVALID_PREDICATE | DFG_SELECT_VALUE_TYPE_MISMATCH
  | DFG_SELECT_RESULT_TYPE_MISMATCH | DFG_LOAD_INVALID_RESULT_TYPE
  | DFG_LOAD_INVALID_ADDRESS_TYPE | DFG_STORE_INVALID_RESULT_TYPE
  | DFG_STORE_INVALID_ADDRESS_TYPE | DFG_STORE_INVALID_VALUE_TYPE | DFG_STORE_INVALID_PREDICATE
  | DFG_DATA_EDGE_INVALID_SOURCE_TYPE | DFG_DATA_EDGE_INVALID_DEST_OPERAND
  | DFG_PRED_EDGE_INVALID_SOURCE_TYPE | DFG_PRED_EDGE_INVALID_DEST_OPERAND
  | DFG_MEMORY_EDGE_INVALID_SOURCE | DFG_MEMORY_EDGE_INVALID_DESTINATION
  | DFG_MEMORY_EDGE_INVALID_DEPENDENCE | DFG_MEMORY_EDGE_UNEXPECTED_OPERAND
  | DFG_RECURRENCE_BOUNDARY_MISSING | DFG_RECURRENCE_BOUNDARY_OFFSET_OUT_OF_RANGE
  | DFG_RECURRENCE_BOUNDARY_DUPLICATE_OFFSET | DFG_RECURRENCE_BOUNDARY_SOURCE_UNKNOWN
  | DFG_RECURRENCE_BOUNDARY_TYPE_MISMATCH
  | DFG_LIVEOUT_UNKNOWN_SOURCE | DFG_LIVEOUT_TYPE_MISMATCH | DFG_LIVEOUT_VOID_SOURCE

record DFGDiagnostic =
  dd_severity :: DiagnosticSeverity
  dd_code :: DFGDiagnosticCode
  dd_node :: "NodeId option"
  dd_edge :: "EdgeId option"
  dd_operand :: "nat option"
  dd_external :: "ExternalValueId option"
  dd_constant :: "ConstantId option"
  dd_liveOut :: "LiveOutId option"

text \<open>\<open>DFGVerificationReport\<close>: the diagnostics in order; the counters are determined by them.\<close>

type_synonym DFGVerificationReport = "DFGDiagnostic list"

definition report_errorCount :: "DFGVerificationReport \<Rightarrow> nat" where
  "report_errorCount r = length (filter (\<lambda>d. dd_severity d = Sev_Error) r)"

definition report_warningCount :: "DFGVerificationReport \<Rightarrow> nat" where
  "report_warningCount r = length (filter (\<lambda>d. dd_severity d \<noteq> Sev_Error) r)"

definition report_ok :: "DFGVerificationReport \<Rightarrow> bool" where
  "report_ok r \<longleftrightarrow> report_errorCount r = 0"

definition report_contains :: "DFGDiagnosticCode \<Rightarrow> DFGVerificationReport \<Rightarrow> bool" where
  "report_contains c r \<longleftrightarrow> (\<exists>d \<in> set r. dd_code d = c)"

definition dfg_diag ::
  "DFGDiagnosticCode \<Rightarrow> NodeId option \<Rightarrow> EdgeId option \<Rightarrow> nat option \<Rightarrow> ExternalValueId option \<Rightarrow>
   ConstantId option \<Rightarrow> LiveOutId option \<Rightarrow> DFGDiagnostic" where
  "dfg_diag c n e k x cst l = \<lparr>dd_severity = Sev_Error, dd_code = c, dd_node = n, dd_edge = e,
     dd_operand = k, dd_external = x, dd_constant = cst, dd_liveOut = l\<rparr>"

abbreviation diag0 :: "DFGDiagnosticCode \<Rightarrow> DFGDiagnostic" where
  "diag0 c \<equiv> dfg_diag c None None None None None None"

abbreviation diagN :: "DFGDiagnosticCode \<Rightarrow> NodeId \<Rightarrow> DFGDiagnostic" where
  "diagN c n \<equiv> dfg_diag c (Some n) None None None None None"

abbreviation diagE :: "DFGDiagnosticCode \<Rightarrow> EdgeId \<Rightarrow> DFGDiagnostic" where
  "diagE c e \<equiv> dfg_diag c None (Some e) None None None None"

abbreviation diagNK :: "DFGDiagnosticCode \<Rightarrow> NodeId \<Rightarrow> nat \<Rightarrow> DFGDiagnostic" where
  "diagNK c n k \<equiv> dfg_diag c (Some n) None (Some k) None None None"

abbreviation diagNEK :: "DFGDiagnosticCode \<Rightarrow> NodeId \<Rightarrow> EdgeId \<Rightarrow> nat \<Rightarrow> DFGDiagnostic" where
  "diagNEK c n e k \<equiv> dfg_diag c (Some n) (Some e) (Some k) None None None"

section \<open>Type predicates\<close>

definition isDataType :: "ValueType \<Rightarrow> bool" where
  "isDataType t \<longleftrightarrow> isValidType t \<and> (vt_kind t = VK_Integer \<or> vt_kind t = VK_Float)"

definition isIntegerType :: "ValueType \<Rightarrow> bool" where
  "isIntegerType t \<longleftrightarrow> isValidType t \<and> vt_kind t = VK_Integer"

definition isPredicateType :: "ValueType \<Rightarrow> bool" where
  "isPredicateType t \<longleftrightarrow> isValidType t \<and> vt_kind t = VK_Predicate"

definition isNonVoidType :: "ValueType \<Rightarrow> bool" where
  "isNonVoidType t \<longleftrightarrow> isValidType t \<and> vt_kind t \<noteq> VK_Void"

definition isMemoryOpcode :: "Opcode \<Rightarrow> bool" where
  "isMemoryOpcode op \<longleftrightarrow> op = Load \<or> op = Store"

section \<open>The checks\<close>

abbreviation lookupNode :: "DFG \<Rightarrow> NodeId \<Rightarrow> Node option" where
  "lookupNode g i \<equiv> find_by n_id i (d_nodes g)"

abbreviation lookupExternal :: "DFG \<Rightarrow> ExternalValueId \<Rightarrow> ExternalValue option" where
  "lookupExternal g i \<equiv> find_by x_id i (d_externalValues g)"

abbreviation lookupConstant :: "DFG \<Rightarrow> ConstantId \<Rightarrow> ConstantValue option" where
  "lookupConstant g i \<equiv> find_by c_id i (d_constants g)"

definition indexValues :: "DFG \<Rightarrow> DFGDiagnostic list" where
  "indexValues g =
     map (\<lambda>_. diag0 DFG_ID_DUPLICATE_NODE) (duplicates n_id {} (d_nodes g)) @
     map (\<lambda>_. diag0 DFG_ID_DUPLICATE_EDGE) (duplicates e_id {} (d_edges g)) @
     map (\<lambda>_. diag0 DFG_ID_DUPLICATE_EXTERNAL) (duplicates x_id {} (d_externalValues g)) @
     map (\<lambda>_. diag0 DFG_ID_DUPLICATE_CONSTANT) (duplicates c_id {} (d_constants g)) @
     map (\<lambda>_. diag0 DFG_ID_DUPLICATE_LIVEOUT) (duplicates l_id {} (d_liveOuts g))"

definition verifyStructure :: "DFG \<Rightarrow> DFGDiagnostic list" where
  "verifyStructure g =
     concat (map (\<lambda>e.
       report_if (lookupNode g (e_src e) = None) (diagE DFG_EDGE_UNKNOWN_SOURCE (e_id e)) @
       report_if (lookupNode g (e_dst e) = None) (diagE DFG_EDGE_UNKNOWN_DESTINATION (e_id e)))
       (d_edges g)) @
     concat (map (\<lambda>b.
       report_if (lookupNode g (b_node b) = None)
         (diagNK DFG_BINDING_UNKNOWN_NODE (b_node b) (b_operand b)) @
       (case b_source b of
          ExternalValueRef v \<Rightarrow>
            report_if (lookupExternal g v = None)
              (dfg_diag DFG_BINDING_UNKNOWN_EXTERNAL (Some (b_node b)) None (Some (b_operand b))
                 (Some v) None None)
        | ConstantRef v \<Rightarrow>
            report_if (lookupConstant g v = None)
              (dfg_diag DFG_BINDING_UNKNOWN_CONSTANT (Some (b_node b)) None (Some (b_operand b))
                 None (Some v) None)))
       (d_bindings g))"

definition verifyValueTypes :: "DFG \<Rightarrow> DFGDiagnostic list" where
  "verifyValueTypes g =
     concat (map (\<lambda>v. report_if (\<not> isValidType (x_type v))
       (dfg_diag DFG_TYPE_INVALID None None None (Some (x_id v)) None None)) (d_externalValues g)) @
     concat (map (\<lambda>v. report_if (\<not> isValidType (c_type v))
       (dfg_diag DFG_TYPE_INVALID None None None None (Some (c_id v)) None)) (d_constants g)) @
     concat (map (\<lambda>n.
       report_if (\<not> isValidType (n_resultType n)) (diagN DFG_RESULT_TYPE_INVALID (n_id n)) @
       concat (map (\<lambda>k. report_if (\<not> isValidType (n_operandTypes n ! k))
                         (diagNK DFG_TYPE_INVALID (n_id n) k))
                [0..<length (n_operandTypes n)])) (d_nodes g))"

definition verifyMetadata :: "Node \<Rightarrow> DFGDiagnostic list" where
  "verifyMetadata n =
     (if n_opcode n = ICmp then
        report_if (n_icmpPredicate n = None) (diagN DFG_ICMP_MISSING_PREDICATE (n_id n))
      else report_if (n_icmpPredicate n \<noteq> None) (diagN DFG_OPCODE_UNEXPECTED_METADATA (n_id n))) @
     (if isMemoryOpcode (n_opcode n) then
        (case n_memoryInfo n of
           None \<Rightarrow> [diagN DFG_OPCODE_MISSING_METADATA (n_id n)]
         | Some mi \<Rightarrow>
             report_if (mi_accessWidthBits mi = 0 \<or> mi_accessWidthBits mi mod 8 \<noteq> 0)
               (diagN DFG_OPCODE_METADATA_INVALID (n_id n)))
      else report_if (n_memoryInfo n \<noteq> None) (diagN DFG_OPCODE_UNEXPECTED_METADATA (n_id n)))"

definition hasArity :: "Node \<Rightarrow> nat \<Rightarrow> DFGDiagnostic list \<times> bool" where
  "hasArity n expected =
     (if length (n_operandTypes n) \<noteq> expected
      then ([diagN DFG_OPCODE_ARITY_MISMATCH (n_id n)], False) else ([], True))"

definition verifyBinary :: "Node \<Rightarrow> bool \<Rightarrow> DFGDiagnostic list" where
  "verifyBinary n integerOnly =
     (let (ds, ok) = hasArity n 2; lhs = n_operandTypes n ! 0; rhs = n_operandTypes n ! 1
      in if \<not> ok then ds
         else ds @ report_if
           (\<not> isDataType lhs \<or> \<not> isDataType rhs \<or> (integerOnly \<and> \<not> isIntegerType lhs) \<or>
            lhs \<noteq> rhs \<or> n_resultType n \<noteq> lhs)
           (diagN DFG_OPCODE_OPERAND_TYPE_MISMATCH (n_id n)))"

definition verifyShift :: "Node \<Rightarrow> DFGDiagnostic list" where
  "verifyShift n =
     (let (ds, ok) = hasArity n 2; value = n_operandTypes n ! 0; amount = n_operandTypes n ! 1
      in if \<not> ok then ds
         else ds @ report_if
           (\<not> isIntegerType value \<or> \<not> isIntegerType amount \<or> n_resultType n \<noteq> value)
           (diagN DFG_OPCODE_OPERAND_TYPE_MISMATCH (n_id n)))"

definition verifyICmp :: "Node \<Rightarrow> DFGDiagnostic list" where
  "verifyICmp n =
     (let (ds, ok) = hasArity n 2; lhs = n_operandTypes n ! 0; rhs = n_operandTypes n ! 1
      in if \<not> ok then ds
         else ds @
           report_if (\<not> isPredicateType (n_resultType n)) (diagN DFG_ICMP_INVALID_RESULT_TYPE (n_id n)) @
           report_if (\<not> isIntegerType lhs \<or> \<not> isIntegerType rhs \<or> lhs \<noteq> rhs)
             (diagN DFG_ICMP_OPERAND_TYPE_MISMATCH (n_id n)))"

definition verifySelect :: "Node \<Rightarrow> DFGDiagnostic list" where
  "verifySelect n =
     (let (ds, ok) = hasArity n 3; ops = n_operandTypes n
      in if \<not> ok then ds
         else ds @
           report_if (\<not> isPredicateType (ops ! 0)) (diagNK DFG_SELECT_INVALID_PREDICATE (n_id n) 0) @
           report_if (\<not> isNonVoidType (ops ! 1) \<or> \<not> isNonVoidType (ops ! 2) \<or> ops ! 1 \<noteq> ops ! 2)
             (diagN DFG_SELECT_VALUE_TYPE_MISMATCH (n_id n)) @
           report_if (\<not> isNonVoidType (n_resultType n) \<or> n_resultType n \<noteq> ops ! 1)
             (diagN DFG_SELECT_RESULT_TYPE_MISMATCH (n_id n)))"

definition verifyLoad :: "Node \<Rightarrow> DFGDiagnostic list" where
  "verifyLoad n =
     (let (ds, ok) = hasArity n 1
      in if \<not> ok then ds
         else ds @
           report_if (\<not> isIntegerType (n_operandTypes n ! 0))
             (diagNK DFG_LOAD_INVALID_ADDRESS_TYPE (n_id n) 0) @
           report_if (\<not> isNonVoidType (n_resultType n)) (diagN DFG_LOAD_INVALID_RESULT_TYPE (n_id n)))"

definition verifyStore :: "Node \<Rightarrow> DFGDiagnostic list" where
  "verifyStore n =
     (let ops = n_operandTypes n
      in report_if (n_resultType n \<noteq> voidTy) (diagN DFG_STORE_INVALID_RESULT_TYPE (n_id n)) @
         (if length ops < 2 \<or> length ops > 3 then fst (hasArity n 2)
          else
            report_if (\<not> isIntegerType (ops ! 0)) (diagNK DFG_STORE_INVALID_ADDRESS_TYPE (n_id n) 0) @
            report_if (\<not> isNonVoidType (ops ! 1)) (diagNK DFG_STORE_INVALID_VALUE_TYPE (n_id n) 1) @
            report_if (length ops = 3 \<and> \<not> isPredicateType (ops ! 2))
              (diagNK DFG_STORE_INVALID_PREDICATE (n_id n) 2)))"

definition verifyOpcode :: "Node \<Rightarrow> DFGDiagnostic list" where
  "verifyOpcode n =
     (if n_opcode n \<in> {Add, Sub, Mul, And, Or, Xor} then
        verifyBinary n (n_opcode n = And \<or> n_opcode n = Or \<or> n_opcode n = Xor)
      else if n_opcode n \<in> {Shl, LShr, AShr} then verifyShift n
      else if n_opcode n = ICmp then verifyICmp n
      else if n_opcode n = Select then verifySelect n
      else if n_opcode n = Load then verifyLoad n
      else verifyStore n)"

definition verifyNodes :: "DFG \<Rightarrow> DFGDiagnostic list" where
  "verifyNodes g = concat (map (\<lambda>n. verifyOpcode n @ verifyMetadata n) (d_nodes g))"

datatype Provider = Provider_Edge EdgeId | Provider_Binding nat

text \<open>The entries \<open>indexProviders\<close> pushes, in order; \<open>providers_[key]\<close> is those with that key.\<close>

definition operand_in_range :: "DFG \<Rightarrow> NodeId \<Rightarrow> nat \<Rightarrow> bool" where
  "operand_in_range g i k =
     (case lookupNode g i of None \<Rightarrow> False | Some n \<Rightarrow> k < length (n_operandTypes n))"

definition indexProviders :: "DFG \<Rightarrow> ((NodeId \<times> nat) \<times> Provider) list" where
  "indexProviders g =
     concat (map (\<lambda>e. case e_info e of
         MemoryEdgeInfo _ \<Rightarrow> []
       | DataEdgeInfo k _ \<Rightarrow>
           (if operand_in_range g (e_dst e) k then [((e_dst e, k), Provider_Edge (e_id e))] else [])
       | PredicateEdgeInfo k _ \<Rightarrow>
           (if operand_in_range g (e_dst e) k then [((e_dst e, k), Provider_Edge (e_id e))] else []))
       (d_edges g)) @
     concat (map (\<lambda>j. let b = d_bindings g ! j in
         if operand_in_range g (b_node b) (b_operand b)
         then [((b_node b, b_operand b), Provider_Binding j)] else [])
       [0..<length (d_bindings g)])"

definition providers_of :: "DFG \<Rightarrow> NodeId \<Rightarrow> nat \<Rightarrow> Provider list" where
  "providers_of g i k = map snd (filter (\<lambda>p. fst p = (i, k)) (indexProviders g))"

definition verifyBindingsAndProviders :: "DFG \<Rightarrow> DFGDiagnostic list" where
  "verifyBindingsAndProviders g =
     concat (map (\<lambda>b.
       case lookupNode g (b_node b) of
         None \<Rightarrow> []
       | Some n \<Rightarrow>
           if length (n_operandTypes n) \<le> b_operand b
           then [diagNK DFG_OPERAND_INDEX_OUT_OF_RANGE (b_node b) (b_operand b)]
           else (case b_source b of
               ExternalValueRef v \<Rightarrow>
                 (case lookupExternal g v of
                    None \<Rightarrow> []
                  | Some x \<Rightarrow> report_if (x_type x \<noteq> n_operandTypes n ! b_operand b)
                      (dfg_diag DFG_OPERAND_TYPE_MISMATCH (Some (b_node b)) None
                         (Some (b_operand b)) (Some v) None None))
             | ConstantRef v \<Rightarrow>
                 (case lookupConstant g v of
                    None \<Rightarrow> []
                  | Some c \<Rightarrow> report_if (c_type c \<noteq> n_operandTypes n ! b_operand b)
                      (dfg_diag DFG_OPERAND_TYPE_MISMATCH (Some (b_node b)) None
                         (Some (b_operand b)) None (Some v) None))))
       (d_bindings g)) @
     concat (map (\<lambda>n. concat (map (\<lambda>k.
         let count = length (providers_of g (n_id n) k)
         in if count = 0 then [diagNK DFG_OPERAND_MISSING_PROVIDER (n_id n) k]
            else report_if (count > 1) (diagNK DFG_OPERAND_DUPLICATE_PROVIDER (n_id n) k))
       [0..<length (n_operandTypes n)])) (d_nodes g))"

text \<open>The loop over the boundary values, with the set of offsets seen so far.\<close>

fun boundaryValues ::
  "DFG \<Rightarrow> Edge \<Rightarrow> ValueType \<Rightarrow> nat set \<Rightarrow> RecurrenceBoundaryValue list \<Rightarrow> DFGDiagnostic list" where
  "boundaryValues g e expected offsets [] = []"
| "boundaryValues g e expected offsets (v # vs) =
     (if bv_iterationOffset v \<ge> e_distance e
      then diagE DFG_RECURRENCE_BOUNDARY_OFFSET_OUT_OF_RANGE (e_id e) #
           boundaryValues g e expected offsets vs
      else
        report_if (bv_iterationOffset v \<in> offsets)
          (diagE DFG_RECURRENCE_BOUNDARY_DUPLICATE_OFFSET (e_id e)) @
        (case bv_value v of
           ExternalValueRef i \<Rightarrow>
             (case lookupExternal g i of
                None \<Rightarrow> [dfg_diag DFG_RECURRENCE_BOUNDARY_SOURCE_UNKNOWN None (Some (e_id e)) None
                         (Some i) None None]
              | Some x \<Rightarrow> report_if (x_type x \<noteq> expected)
                  (diagE DFG_RECURRENCE_BOUNDARY_TYPE_MISMATCH (e_id e)))
         | ConstantRef i \<Rightarrow>
             (case lookupConstant g i of
                None \<Rightarrow> [dfg_diag DFG_RECURRENCE_BOUNDARY_SOURCE_UNKNOWN None (Some (e_id e)) None
                         None (Some i) None]
              | Some c \<Rightarrow> report_if (c_type c \<noteq> expected)
                  (diagE DFG_RECURRENCE_BOUNDARY_TYPE_MISMATCH (e_id e)))) @
        boundaryValues g e expected (insert (bv_iterationOffset v) offsets) vs)"

definition verifyBoundary ::
  "DFG \<Rightarrow> Edge \<Rightarrow> RecurrenceBoundary option \<Rightarrow> ValueType \<Rightarrow> DFGDiagnostic list" where
  "verifyBoundary g e boundary expected =
     (if e_distance e = 0 then
        report_if (boundary \<noteq> None) (diagE DFG_RECURRENCE_BOUNDARY_OFFSET_OUT_OF_RANGE (e_id e))
      else case boundary of
        None \<Rightarrow> [diagE DFG_RECURRENCE_BOUNDARY_MISSING (e_id e)]
      | Some vs \<Rightarrow>
          if length vs \<noteq> e_distance e then [diagE DFG_RECURRENCE_BOUNDARY_MISSING (e_id e)]
          else boundaryValues g e expected {} vs)"

definition verifyDataEdge ::
  "DFG \<Rightarrow> Edge \<Rightarrow> nat \<Rightarrow> RecurrenceBoundary option \<Rightarrow> Node \<Rightarrow> Node \<Rightarrow> DFGDiagnostic list" where
  "verifyDataEdge g e operand boundary source destination =
     (if length (n_operandTypes destination) \<le> operand then
        [diagNEK DFG_OPERAND_INDEX_OUT_OF_RANGE (n_id destination) (e_id e) operand,
         diagNEK DFG_DATA_EDGE_INVALID_DEST_OPERAND (n_id destination) (e_id e) operand]
      else let expected = n_operandTypes destination ! operand in
        (if vt_kind (n_resultType source) = VK_Void
         then [diagNEK DFG_VOID_VALUE_USED (n_id source) (e_id e) operand]
         else report_if (vt_kind (n_resultType source) = VK_Predicate)
                (diagNEK DFG_DATA_EDGE_INVALID_SOURCE_TYPE (n_id source) (e_id e) operand)) @
        report_if (vt_kind expected = VK_Predicate)
          (diagNEK DFG_OPERAND_INVALID_EDGE_KIND (n_id destination) (e_id e) operand) @
        report_if (isValidType (n_resultType source) \<and> isValidType expected \<and>
                   n_resultType source \<noteq> expected)
          (diagNEK DFG_EDGE_VALUE_TYPE_MISMATCH (n_id destination) (e_id e) operand) @
        verifyBoundary g e boundary expected)"

definition verifyPredicateEdge ::
  "DFG \<Rightarrow> Edge \<Rightarrow> nat \<Rightarrow> RecurrenceBoundary option \<Rightarrow> Node \<Rightarrow> Node \<Rightarrow> DFGDiagnostic list" where
  "verifyPredicateEdge g e operand boundary source destination =
     (if length (n_operandTypes destination) \<le> operand then
        [diagNEK DFG_OPERAND_INDEX_OUT_OF_RANGE (n_id destination) (e_id e) operand,
         diagNEK DFG_PRED_EDGE_INVALID_DEST_OPERAND (n_id destination) (e_id e) operand]
      else let expected = n_operandTypes destination ! operand in
        report_if (\<not> isPredicateType (n_resultType source))
          (diagNEK DFG_PRED_EDGE_INVALID_SOURCE_TYPE (n_id source) (e_id e) operand) @
        report_if (\<not> isPredicateType expected)
          (diagNEK DFG_OPERAND_INVALID_EDGE_KIND (n_id destination) (e_id e) operand) @
        report_if (isValidType (n_resultType source) \<and> isValidType expected \<and>
                   n_resultType source \<noteq> expected)
          (diagNEK DFG_EDGE_VALUE_TYPE_MISMATCH (n_id destination) (e_id e) operand) @
        verifyBoundary g e boundary expected)"

fun dependence_ends :: "MemoryDepKind \<Rightarrow> Opcode \<times> Opcode" where
  "dependence_ends RAW = (Store, Load)"
| "dependence_ends WAR = (Load, Store)"
| "dependence_ends WAW = (Store, Store)"

definition verifyMemoryEdge :: "Edge \<Rightarrow> MemoryDepKind \<Rightarrow> Node \<Rightarrow> Node \<Rightarrow> DFGDiagnostic list" where
  "verifyMemoryEdge e dependence source destination =
     (let (src_op, dst_op) = dependence_ends dependence
      in report_if (n_opcode source \<noteq> src_op)
           (dfg_diag DFG_MEMORY_EDGE_INVALID_SOURCE (Some (n_id source)) (Some (e_id e))
              None None None None) @
         report_if (n_opcode destination \<noteq> dst_op)
           (dfg_diag DFG_MEMORY_EDGE_INVALID_DESTINATION (Some (n_id destination)) (Some (e_id e))
              None None None None))"

definition verifyEdges :: "DFG \<Rightarrow> DFGDiagnostic list" where
  "verifyEdges g = concat (map (\<lambda>e.
     case (lookupNode g (e_src e), lookupNode g (e_dst e)) of
       (Some source, Some destination) \<Rightarrow>
         (case e_info e of
            DataEdgeInfo k bnd \<Rightarrow> verifyDataEdge g e k bnd source destination
          | PredicateEdgeInfo k bnd \<Rightarrow> verifyPredicateEdge g e k bnd source destination
          | MemoryEdgeInfo dep \<Rightarrow> verifyMemoryEdge e dep source destination)
     | _ \<Rightarrow> []) (d_edges g))"

definition verifyLiveOuts :: "DFG \<Rightarrow> DFGDiagnostic list" where
  "verifyLiveOuts g = concat (map (\<lambda>l.
     report_if (\<not> isValidType (l_type l))
       (dfg_diag DFG_TYPE_INVALID None None None None None (Some (l_id l))) @
     (case lookupNode g (l_source l) of
        None \<Rightarrow> [dfg_diag DFG_LIVEOUT_UNKNOWN_SOURCE None None None None None (Some (l_id l))]
      | Some n \<Rightarrow>
          report_if (vt_kind (n_resultType n) = VK_Void)
            (dfg_diag DFG_LIVEOUT_VOID_SOURCE (Some (l_source l)) None None None None (Some (l_id l))) @
          report_if (isValidType (n_resultType n) \<and> isValidType (l_type l) \<and>
                     n_resultType n \<noteq> l_type l)
            (dfg_diag DFG_LIVEOUT_TYPE_MISMATCH (Some (l_source l)) None None None None
               (Some (l_id l)))))
     (d_liveOuts g))"

text \<open>A read that raises and a read of a different value are reported alike.  The expected
  adjacency is a map keyed and therefore visited by node id.\<close>

definition verifyAdjacency :: "DFG \<Rightarrow> DFGDiagnostic list" where
  "verifyAdjacency g =
     concat (map (\<lambda>n. report_if (dfg_node g (n_id n) \<noteq> Inr n)
       (diagN DFG_ADJACENCY_INCONSISTENT (n_id n))) (d_nodes g)) @
     concat (map (\<lambda>e. report_if (dfg_edge g (e_id e) \<noteq> Inr e)
       (diagE DFG_ADJACENCY_INCONSISTENT (e_id e))) (d_edges g)) @
     concat (map (\<lambda>i. report_if (dfg_incoming g i \<noteq> Inr (incoming_of g i))
       (diagN DFG_ADJACENCY_INCONSISTENT i)) (sort (remdups (map n_id (d_nodes g))))) @
     concat (map (\<lambda>i. report_if (dfg_outgoing g i \<noteq> Inr (outgoing_of g i))
       (diagN DFG_ADJACENCY_INCONSISTENT i)) (sort (remdups (map n_id (d_nodes g)))))"

definition dfg_verify :: "DFG \<Rightarrow> DFGVerificationReport" where
  "dfg_verify g =
     indexValues g @ verifyStructure g @ verifyValueTypes g @ verifyNodes g @
     verifyBindingsAndProviders g @ verifyEdges g @ verifyLiveOuts g @ verifyAdjacency g"

end
