(* ===== verification/IR_WellFormed.thy ===== *)
theory IR_WellFormed
  imports IR_Verifier
begin

text \<open>
  What the graph verifier accepts, stated without its checks, and which of its diagnostics a graph
  made by the builder can never have.
\<close>

section \<open>A specification of well-formed graphs\<close>

text \<open>The typing judgement of operations: operand types and result type.\<close>

inductive op_typed :: "Opcode \<Rightarrow> ValueType list \<Rightarrow> ValueType \<Rightarrow> bool" where
  arith: "op \<in> {Add, Sub, Mul} \<Longrightarrow> 0 < w \<Longrightarrow> t = integerTy w \<or> t = floatingTy w \<Longrightarrow> op_typed op [t, t] t"
| bitwise: "op \<in> {And, Or, Xor} \<Longrightarrow> 0 < w \<Longrightarrow> op_typed op [integerTy w, integerTy w] (integerTy w)"
| shift: "op \<in> {Shl, LShr, AShr} \<Longrightarrow> 0 < w \<Longrightarrow> 0 < s \<Longrightarrow>
    op_typed op [integerTy w, integerTy s] (integerTy w)"
| icmp: "0 < w \<Longrightarrow> op_typed ICmp [integerTy w, integerTy w] predicateTy"
| select: "isValidType t \<Longrightarrow> t \<noteq> voidTy \<Longrightarrow> op_typed Select [predicateTy, t, t] t"
| load: "0 < w \<Longrightarrow> isValidType t \<Longrightarrow> t \<noteq> voidTy \<Longrightarrow> op_typed Load [integerTy w] t"
| store: "0 < w \<Longrightarrow> isValidType t \<Longrightarrow> t \<noteq> voidTy \<Longrightarrow> op_typed Store [integerTy w, t] voidTy"
| guarded_store: "0 < w \<Longrightarrow> isValidType t \<Longrightarrow> t \<noteq> voidTy \<Longrightarrow>
    op_typed Store [integerTy w, t, predicateTy] voidTy"

inductive_simps op_typed_simps: "op_typed op ts t"

definition metadata_ok :: "Node \<Rightarrow> bool" where
  "metadata_ok n \<longleftrightarrow>
     (n_icmpPredicate n \<noteq> None \<longleftrightarrow> n_opcode n = ICmp) \<and>
     (n_memoryInfo n \<noteq> None \<longleftrightarrow> n_opcode n \<in> {Load, Store}) \<and>
     (\<forall>mi. n_memoryInfo n = Some mi \<longrightarrow> 0 < mi_accessWidthBits mi \<and> 8 dvd mi_accessWidthBits mi)"

text \<open>The type of a value from outside the loop.\<close>

definition outer_type :: "DFG \<Rightarrow> ExternalOperandBinding \<Rightarrow> ValueType option" where
  "outer_type g src =
     (case src of
        ExternalValueRef v \<Rightarrow> map_option x_type (lookupExternal g v)
      | ConstantRef v \<Rightarrow> map_option c_type (lookupConstant g v))"

definition operand_type :: "DFG \<Rightarrow> NodeId \<Rightarrow> nat \<Rightarrow> ValueType option" where
  "operand_type g i k =
     (case lookupNode g i of
        None \<Rightarrow> None
      | Some n \<Rightarrow> if k < length (n_operandTypes n) then Some (n_operandTypes n ! k) else None)"

definition result_type :: "DFG \<Rightarrow> NodeId \<Rightarrow> ValueType option" where
  "result_type g i = map_option n_resultType (lookupNode g i)"

text \<open>Who supplies operand \<open>k\<close> of node \<open>i\<close>.\<close>

inductive provides :: "DFG \<Rightarrow> Provider \<Rightarrow> NodeId \<Rightarrow> nat \<Rightarrow> bool" for g where
  edge: "e \<in> set (d_edges g) \<Longrightarrow> provides_operand e k \<Longrightarrow> provides g (Provider_Edge (e_id e)) (e_dst e) k"
| binding: "j < length (d_bindings g) \<Longrightarrow>
    provides g (Provider_Binding j) (b_node (d_bindings g ! j)) (b_operand (d_bindings g ! j))"

text \<open>A loop-carried edge of distance \<open>d\<close> has exactly one value for each of the \<open>d\<close> iterations
  before the loop, of the operand's type.\<close>

definition boundary_ok :: "DFG \<Rightarrow> nat \<Rightarrow> ValueType \<Rightarrow> RecurrenceBoundary option \<Rightarrow> bool" where
  "boundary_ok g d t bnd \<longleftrightarrow>
     (if d = 0 then bnd = None
      else \<exists>vs. bnd = Some vs \<and> length vs = d \<and>
             (\<forall>q < d. \<exists>!v. v \<in> set vs \<and> bv_iterationOffset v = q) \<and>
             (\<forall>v \<in> set vs. outer_type g (bv_value v) = Some t))"

inductive edge_ok :: "DFG \<Rightarrow> Edge \<Rightarrow> bool" for g where
  data: "e_info e = DataEdgeInfo k bnd \<Longrightarrow> result_type g (e_src e) = Some t \<Longrightarrow>
    operand_type g (e_dst e) k = Some t \<Longrightarrow> t \<noteq> predicateTy \<Longrightarrow> t \<noteq> voidTy \<Longrightarrow>
    boundary_ok g (e_distance e) t bnd \<Longrightarrow> edge_ok g e"
| pred: "e_info e = PredicateEdgeInfo k bnd \<Longrightarrow> result_type g (e_src e) = Some predicateTy \<Longrightarrow>
    operand_type g (e_dst e) k = Some predicateTy \<Longrightarrow>
    boundary_ok g (e_distance e) predicateTy bnd \<Longrightarrow> edge_ok g e"
| memory: "e_info e = MemoryEdgeInfo dep \<Longrightarrow> lookupNode g (e_src e) = Some s \<Longrightarrow>
    lookupNode g (e_dst e) = Some d \<Longrightarrow> (n_opcode s, n_opcode d) = dependence_ends dep \<Longrightarrow> edge_ok g e"

definition indices_ok :: "DFG \<Rightarrow> bool" where
  "indices_ok g \<longleftrightarrow>
     distinct (map n_id (d_nodes g)) \<and> distinct (map e_id (d_edges g)) \<and>
     distinct (map x_id (d_externalValues g)) \<and> distinct (map c_id (d_constants g)) \<and>
     distinct (map l_id (d_liveOuts g)) \<and>
     (\<forall>n \<in> set (d_nodes g). dfg_node g (n_id n) = Inr n \<and>
        dfg_incoming g (n_id n) = Inr (incoming_of g (n_id n)) \<and>
        dfg_outgoing g (n_id n) = Inr (outgoing_of g (n_id n))) \<and>
     (\<forall>e \<in> set (d_edges g). dfg_edge g (e_id e) = Inr e)"

definition well_formed :: "DFG \<Rightarrow> bool" where
  "well_formed g \<longleftrightarrow>
     indices_ok g \<and>
     (\<forall>x \<in> set (d_externalValues g). isValidType (x_type x)) \<and>
     (\<forall>c \<in> set (d_constants g). isValidType (c_type c)) \<and>
     (\<forall>n \<in> set (d_nodes g). op_typed (n_opcode n) (n_operandTypes n) (n_resultType n) \<and>
        metadata_ok n \<and> (\<forall>k < length (n_operandTypes n). \<exists>!p. provides g p (n_id n) k)) \<and>
     (\<forall>b \<in> set (d_bindings g). operand_type g (b_node b) (b_operand b) \<noteq> None \<and>
        outer_type g (b_source b) = operand_type g (b_node b) (b_operand b)) \<and>
     (\<forall>e \<in> set (d_edges g). edge_ok g e) \<and>
     (\<forall>l \<in> set (d_liveOuts g). result_type g (l_source l) = Some (l_type l) \<and> l_type l \<noteq> voidTy)"

section \<open>Types\<close>

lemma vt_eq_iff: "t = u \<longleftrightarrow> vt_kind t = vt_kind u \<and> vt_bitWidth t = vt_bitWidth u" for t u :: ValueType
  by (cases t; cases u) auto

lemmas type_pred_defs = isDataType_def isIntegerType_def isPredicateType_def isNonVoidType_def
  isValidType_def

lemma isIntegerType_iff: "isIntegerType t \<longleftrightarrow> (\<exists>w > 0. t = integerTy w)"
  by (auto simp: isIntegerType_def isValidType_def integerTy_def vt_eq_iff)

lemma isPredicateType_iff: "isPredicateType t \<longleftrightarrow> t = predicateTy"
  by (auto simp: isPredicateType_def isValidType_def predicateTy_def vt_eq_iff)

lemma isDataType_iff: "isDataType t \<longleftrightarrow> (\<exists>w > 0. t = integerTy w \<or> t = floatingTy w)"
  by (auto simp: isDataType_def isValidType_def integerTy_def floatingTy_def vt_eq_iff)

lemma isNonVoidType_iff: "isNonVoidType t \<longleftrightarrow> isValidType t \<and> t \<noteq> voidTy"
  by (auto simp: isNonVoidType_def isValidType_def voidTy_def vt_eq_iff)

lemma isValidType_consts [simp]: "isValidType voidTy" "isValidType predicateTy"
  "isValidType (integerTy w) \<longleftrightarrow> 0 < w" "isValidType (floatingTy w) \<longleftrightarrow> 0 < w"
  by (auto simp: isValidType_def type_defs)

lemma integerTy_inject [simp]: "integerTy v = integerTy w \<longleftrightarrow> v = w"
  by (simp add: integerTy_def)

lemma op_typed_valid:
  "op_typed op ts t \<Longrightarrow> isValidType t \<and> (\<forall>u \<in> set ts. isValidType u)"
  by (induction rule: op_typed.induct) auto

section \<open>Operations\<close>

lemma length_2_iff: "length xs = 2 \<longleftrightarrow> (\<exists>a b. xs = [a, b])"
  by (auto simp: numeral_2_eq_2 length_Suc_conv)

lemma length_3_iff: "length xs = 3 \<longleftrightarrow> (\<exists>a b c. xs = [a, b, c])"
  by (auto simp: numeral_3_eq_3 length_Suc_conv)

lemma verifyBinary_Nil:
  "verifyBinary n only = [] \<longleftrightarrow>
     (\<exists>t. n_operandTypes n = [t, t] \<and> n_resultType n = t \<and> isDataType t \<and> (only \<longrightarrow> isIntegerType t))"
  by (auto simp: verifyBinary_def hasArity_def Let_def length_2_iff)

lemma verifyShift_Nil:
  "verifyShift n = [] \<longleftrightarrow>
     (\<exists>t u. n_operandTypes n = [t, u] \<and> n_resultType n = t \<and> isIntegerType t \<and> isIntegerType u)"
  by (auto simp: verifyShift_def hasArity_def Let_def length_2_iff)

lemma verifyICmp_Nil:
  "verifyICmp n = [] \<longleftrightarrow>
     (\<exists>t. n_operandTypes n = [t, t] \<and> isPredicateType (n_resultType n) \<and> isIntegerType t)"
  by (auto simp: verifyICmp_def hasArity_def Let_def length_2_iff)

lemma verifySelect_Nil:
  "verifySelect n = [] \<longleftrightarrow>
     (\<exists>p t. n_operandTypes n = [p, t, t] \<and> n_resultType n = t \<and> isPredicateType p \<and> isNonVoidType t)"
  by (auto simp: verifySelect_def hasArity_def Let_def length_3_iff)

lemma verifyLoad_Nil:
  "verifyLoad n = [] \<longleftrightarrow>
     (\<exists>a. n_operandTypes n = [a] \<and> isIntegerType a \<and> isNonVoidType (n_resultType n))"
  by (auto simp: verifyLoad_def hasArity_def Let_def length_Suc_conv)

lemma verifyStore_Nil:
  "verifyStore n = [] \<longleftrightarrow>
     (\<exists>a v. (n_operandTypes n = [a, v] \<or> (\<exists>p. n_operandTypes n = [a, v, p] \<and> isPredicateType p)) \<and>
        isIntegerType a \<and> isNonVoidType v \<and> n_resultType n = voidTy)"
proof -
  consider "length (n_operandTypes n) = 2" | "length (n_operandTypes n) = 3"
    | "length (n_operandTypes n) < 2 \<or> length (n_operandTypes n) > 3" by linarith
  then show ?thesis
    by cases (auto simp: verifyStore_def hasArity_def Let_def length_2_iff length_3_iff)
qed

lemmas verifyOp_Nil = verifyBinary_Nil verifyShift_Nil verifyICmp_Nil verifySelect_Nil
  verifyLoad_Nil verifyStore_Nil

lemma verifyOpcode_Nil:
  "verifyOpcode n = [] \<longleftrightarrow> op_typed (n_opcode n) (n_operandTypes n) (n_resultType n)"
  by (cases "n_opcode n"; simp add: verifyOpcode_def verifyOp_Nil op_typed_simps isIntegerType_iff
      isPredicateType_iff isDataType_iff isNonVoidType_iff; (blast | auto)?)

lemma verifyMetadata_Nil: "verifyMetadata n = [] \<longleftrightarrow> metadata_ok n"
  by (auto simp: verifyMetadata_def metadata_ok_def isMemoryOpcode_def split: option.splits)

section \<open>Providers\<close>

lemma edge_providers:
  "map snd (filter (\<lambda>p. fst p = (i, k)) (concat (map (\<lambda>e. case e_info e of
         MemoryEdgeInfo _ \<Rightarrow> []
       | DataEdgeInfo k _ \<Rightarrow>
           (if operand_in_range g (e_dst e) k then [((e_dst e, k), Provider_Edge (e_id e))] else [])
       | PredicateEdgeInfo k _ \<Rightarrow>
           (if operand_in_range g (e_dst e) k then [((e_dst e, k), Provider_Edge (e_id e))] else []))
       es))) =
   map (Provider_Edge \<circ> e_id)
     (filter (\<lambda>e. operand_in_range g i k \<and> e_dst e = i \<and> provides_operand e k) es)"
  by (induction es) (auto simp: provides_operand_def split: EdgeInfo.splits)

lemma binding_providers:
  "map snd (filter (\<lambda>p. fst p = (i, k)) (concat (map (\<lambda>j. let b = bs ! j in
         if operand_in_range g (b_node b) (b_operand b)
         then [((b_node b, b_operand b), Provider_Binding j)] else []) js))) =
   map Provider_Binding
     (filter (\<lambda>j. operand_in_range g i k \<and> b_node (bs ! j) = i \<and> b_operand (bs ! j) = k) js)"
  by (induction js) (auto simp: Let_def)

lemma providers_of_eq:
  "providers_of g i k =
     map (Provider_Edge \<circ> e_id)
       (filter (\<lambda>e. operand_in_range g i k \<and> e_dst e = i \<and> provides_operand e k) (d_edges g)) @
     map Provider_Binding
       (filter (\<lambda>j. operand_in_range g i k \<and> b_node (d_bindings g ! j) = i \<and>
                   b_operand (d_bindings g ! j) = k) [0..<length (d_bindings g)])"
  by (simp only: providers_of_def indexProviders_def filter_append map_append edge_providers
      binding_providers)

lemma set_providers_of:
  "operand_in_range g i k \<Longrightarrow> set (providers_of g i k) = {p. provides g p i k}"
  by (auto simp: providers_of_eq provides.simps)

lemma distinct_providers_of:
  assumes "distinct (map e_id (d_edges g))"
  shows "distinct (providers_of g i k)"
proof -
  have "inj_on e_id (set (d_edges g))" "distinct (d_edges g)"
    using assms by (simp_all add: distinct_map)
  then show ?thesis
    by (auto simp: providers_of_eq distinct_map inj_on_def)
qed

lemma distinct_length_1: "distinct xs \<Longrightarrow> length xs = 1 \<longleftrightarrow> (\<exists>!x. x \<in> set xs)"
proof
  assume d: "distinct xs" and "\<exists>!x. x \<in> set xs"
  then obtain x where "set xs = {x}" by auto
  with d distinct_card [of xs] show "length xs = 1" by simp
next
  assume "length xs = 1"
  then obtain x where "xs = [x]" by (cases xs) auto
  then show "\<exists>!x. x \<in> set xs" by simp
qed

lemma provider_count:
  assumes "distinct (map e_id (d_edges g))" and "operand_in_range g i k"
  shows "length (providers_of g i k) = 1 \<longleftrightarrow> (\<exists>!p. provides g p i k)"
  using distinct_length_1 [OF distinct_providers_of [OF assms(1)]] set_providers_of [OF assms(2)]
  by auto

section \<open>Recurrence boundaries\<close>

lemma boundary_source_Nil:
  "(case src of
      ExternalValueRef i \<Rightarrow>
        (case lookupExternal g i of None \<Rightarrow> [d i] | Some x \<Rightarrow> report_if (x_type x \<noteq> t) d')
    | ConstantRef i \<Rightarrow>
        (case lookupConstant g i of None \<Rightarrow> [d'' i] | Some c \<Rightarrow> report_if (c_type c \<noteq> t) d')) = [] \<longleftrightarrow>
   outer_type g src = Some t"
  by (auto simp: outer_type_def split: ExternalOperandBinding.splits option.splits)

lemma boundaryValues_Nil:
  "boundaryValues g e t seen vs = [] \<longleftrightarrow>
     (\<forall>v \<in> set vs. bv_iterationOffset v < e_distance e \<and> bv_iterationOffset v \<notin> seen \<and>
        outer_type g (bv_value v) = Some t) \<and>
     distinct (map bv_iterationOffset vs)"
proof (induction vs arbitrary: seen)
  case (Cons v vs)
  show ?case
    by (simp only: boundaryValues.simps append_is_Nil_conv report_if_Nil boundary_source_Nil Cons.IH
        split: if_split) (auto simp: not_le intro: rev_image_eqI)
qed simp

text \<open>\<open>d\<close> values with different offsets below \<open>d\<close> are one for each offset.\<close>

lemma offsets_bijection:
  assumes "length vs = d"
  shows "(\<forall>v \<in> set vs. f v < d) \<and> distinct (map f vs) \<longleftrightarrow> (\<forall>q < d. \<exists>!v. v \<in> set vs \<and> f v = q)"
proof
  assume l: "(\<forall>v \<in> set vs. f v < d) \<and> distinct (map f vs)"
  then have "f ` set vs \<subseteq> {..<d}" "card (f ` set vs) = d"
    using assms by (auto simp: distinct_map card_image distinct_card)
  then have "f ` set vs = {..<d}" by (metis card_lessThan card_subset_eq finite_lessThan)
  then show "\<forall>q < d. \<exists>!v. v \<in> set vs \<and> f v = q"
    using l by (simp add: distinct_map inj_on_def) (metis imageE lessThan_iff)
next
  assume r: "\<forall>q < d. \<exists>!v. v \<in> set vs \<and> f v = q"
  then have sub: "{..<d} \<subseteq> f ` set vs" by auto
  have "card (f ` set vs) \<le> d" using card_length [of "map f vs"] assms by simp
  with sub have eq: "f ` set vs = {..<d}"
    by (metis card_lessThan card_seteq finite_imageI finite_set)
  with assms have "distinct (map f vs)" by (simp add: card_distinct)
  with eq show "(\<forall>v \<in> set vs. f v < d) \<and> distinct (map f vs)" by auto
qed

lemma verifyBoundary_Nil: "verifyBoundary g e bnd t = [] \<longleftrightarrow> boundary_ok g (e_distance e) t bnd"
proof (cases bnd)
  case None
  then show ?thesis by (simp add: verifyBoundary_def boundary_ok_def)
next
  case (Some vs)
  show ?thesis
  proof (cases "e_distance e \<noteq> 0 \<and> length vs = e_distance e")
    case True
    then show ?thesis
      using offsets_bijection [of vs "e_distance e" bv_iterationOffset] Some
      by (auto simp: verifyBoundary_def boundary_ok_def boundaryValues_Nil)
  next
    case False
    with Some show ?thesis by (auto simp: verifyBoundary_def boundary_ok_def)
  qed
qed

section \<open>Edges, bindings and live-outs\<close>

lemma verifyMemoryEdge_Nil:
  "verifyMemoryEdge e dep s d = [] \<longleftrightarrow> (n_opcode s, n_opcode d) = dependence_ends dep"
  by (cases "dependence_ends dep") (auto simp: verifyMemoryEdge_def)

lemma kind_consts:
  "isValidType t \<Longrightarrow> vt_kind t = VK_Void \<longleftrightarrow> t = voidTy"
  "isValidType t \<Longrightarrow> vt_kind t = VK_Predicate \<longleftrightarrow> t = predicateTy"
  by (auto simp: isValidType_def type_defs vt_eq_iff)

lemma verifyDataEdge_Nil:
  assumes "isValidType (n_resultType s)" and "\<forall>u \<in> set (n_operandTypes d). isValidType u"
  shows "verifyDataEdge g e k bnd s d = [] \<longleftrightarrow>
     (k < length (n_operandTypes d) \<and> n_operandTypes d ! k = n_resultType s \<and>
      n_resultType s \<noteq> voidTy \<and> n_resultType s \<noteq> predicateTy \<and>
      boundary_ok g (e_distance e) (n_resultType s) bnd)"
proof (cases "k < length (n_operandTypes d)")
  case True
  then have "isValidType (n_operandTypes d ! k)" using assms(2) by simp
  with True assms(1) show ?thesis
    by (auto simp: verifyDataEdge_def Let_def kind_consts verifyBoundary_Nil)
next
  case False
  then show ?thesis by (simp add: verifyDataEdge_def)
qed

lemma verifyPredicateEdge_Nil:
  "verifyPredicateEdge g e k bnd s d = [] \<longleftrightarrow>
     (k < length (n_operandTypes d) \<and> n_operandTypes d ! k = predicateTy \<and>
      n_resultType s = predicateTy \<and> boundary_ok g (e_distance e) predicateTy bnd)"
  by (auto simp: verifyPredicateEdge_def Let_def isPredicateType_iff verifyBoundary_Nil)

text \<open>The facts the later checks take from the earlier ones.\<close>

definition nodes_typed :: "DFG \<Rightarrow> bool" where
  "nodes_typed g \<longleftrightarrow>
     (\<forall>n \<in> set (d_nodes g). op_typed (n_opcode n) (n_operandTypes n) (n_resultType n))"

lemma nodes_typed_valid:
  assumes "nodes_typed g" and "lookupNode g i = Some n"
  shows "isValidType (n_resultType n)" and "\<forall>u \<in> set (n_operandTypes n). isValidType u"
  using assms op_typed_valid find_by_SomeD [OF assms(2)] by (auto simp: nodes_typed_def)

lemma verifyEdges_Nil:
  assumes typed: "nodes_typed g"
    and known: "\<forall>e \<in> set (d_edges g). lookupNode g (e_src e) \<noteq> None \<and> lookupNode g (e_dst e) \<noteq> None"
  shows "verifyEdges g = [] \<longleftrightarrow> (\<forall>e \<in> set (d_edges g). edge_ok g e)"
proof -
  have "(case (lookupNode g (e_src e), lookupNode g (e_dst e)) of
       (Some source, Some destination) \<Rightarrow>
         (case e_info e of
            DataEdgeInfo k bnd \<Rightarrow> verifyDataEdge g e k bnd source destination
          | PredicateEdgeInfo k bnd \<Rightarrow> verifyPredicateEdge g e k bnd source destination
          | MemoryEdgeInfo dep \<Rightarrow> verifyMemoryEdge e dep source destination)
     | _ \<Rightarrow> []) = [] \<longleftrightarrow> edge_ok g e" if e: "e \<in> set (d_edges g)" for e
  proof -
    obtain s d where sd: "lookupNode g (e_src e) = Some s" "lookupNode g (e_dst e) = Some d"
      using known e by auto
    note valid = nodes_typed_valid(1) [OF typed sd(1)] nodes_typed_valid(2) [OF typed sd(2)]
    show ?thesis
      by (cases "e_info e")
         (auto simp: sd edge_ok.simps verifyDataEdge_Nil [OF valid] verifyPredicateEdge_Nil
            verifyMemoryEdge_Nil result_type_def operand_type_def)
  qed
  then show ?thesis unfolding verifyEdges_def concat_map_Nil by blast
qed

lemma edge_ok_known: "edge_ok g e \<Longrightarrow> lookupNode g (e_src e) \<noteq> None \<and> lookupNode g (e_dst e) \<noteq> None"
  by (induction rule: edge_ok.induct)
     (auto simp: result_type_def operand_type_def split: option.splits)

lemma verifyLiveOuts_Nil:
  assumes typed: "nodes_typed g"
  shows "verifyLiveOuts g = [] \<longleftrightarrow>
     (\<forall>l \<in> set (d_liveOuts g). result_type g (l_source l) = Some (l_type l) \<and> l_type l \<noteq> voidTy)"
proof -
  have spec: "isValidType (l_type l) \<and>
        (\<exists>n. lookupNode g (l_source l) = Some n \<and> vt_kind (n_resultType n) \<noteq> VK_Void \<and>
             \<not> (isValidType (n_resultType n) \<and> isValidType (l_type l) \<and> n_resultType n \<noteq> l_type l)) \<longleftrightarrow>
        result_type g (l_source l) = Some (l_type l) \<and> l_type l \<noteq> voidTy" for l
    using nodes_typed_valid(1) [OF typed] kind_consts(1)
    by (cases "lookupNode g (l_source l)") (auto simp: result_type_def, metis)
  have "verifyLiveOuts g = [] \<longleftrightarrow> (\<forall>l \<in> set (d_liveOuts g). isValidType (l_type l) \<and>
        (\<exists>n. lookupNode g (l_source l) = Some n \<and> vt_kind (n_resultType n) \<noteq> VK_Void \<and>
             \<not> (isValidType (n_resultType n) \<and> isValidType (l_type l) \<and> n_resultType n \<noteq> l_type l)))"
    unfolding verifyLiveOuts_def concat_map_Nil by (intro ball_cong refl) (auto split: option.splits)
  then show ?thesis unfolding spec .
qed

lemma verifyStructure_Nil:
  "verifyStructure g = [] \<longleftrightarrow>
     (\<forall>e \<in> set (d_edges g). lookupNode g (e_src e) \<noteq> None \<and> lookupNode g (e_dst e) \<noteq> None) \<and>
     (\<forall>b \<in> set (d_bindings g). lookupNode g (b_node b) \<noteq> None \<and> outer_type g (b_source b) \<noteq> None)"
proof -
  have b: "(case src of
          ExternalValueRef v \<Rightarrow> report_if (lookupExternal g v = None) (d v)
        | ConstantRef v \<Rightarrow> report_if (lookupConstant g v = None) (d' v)) = [] \<longleftrightarrow>
      outer_type g src \<noteq> None" for src and d d' :: "nat \<Rightarrow> DFGDiagnostic"
    by (cases src) (auto simp: outer_type_def)
  show ?thesis
    unfolding verifyStructure_def append_is_Nil_conv concat_map_Nil report_if_Nil b ..
qed

lemma binding_check_Nil:
  assumes "lookupNode g (b_node b) \<noteq> None" and "outer_type g (b_source b) \<noteq> None"
  shows "(case lookupNode g (b_node b) of
         None \<Rightarrow> []
       | Some n \<Rightarrow>
           if length (n_operandTypes n) \<le> b_operand b then [d1]
           else (case b_source b of
               ExternalValueRef v \<Rightarrow>
                 (case lookupExternal g v of
                    None \<Rightarrow> []
                  | Some x \<Rightarrow> report_if (x_type x \<noteq> n_operandTypes n ! b_operand b) (d2 v))
             | ConstantRef v \<Rightarrow>
                 (case lookupConstant g v of
                    None \<Rightarrow> []
                  | Some c \<Rightarrow> report_if (c_type c \<noteq> n_operandTypes n ! b_operand b) (d3 v)))) = [] \<longleftrightarrow>
     operand_type g (b_node b) (b_operand b) \<noteq> None \<and>
     outer_type g (b_source b) = operand_type g (b_node b) (b_operand b)"
proof -
  obtain n where n: "lookupNode g (b_node b) = Some n" using assms(1) by auto
  show ?thesis
    using assms(2) by (cases "b_source b") (auto simp: n operand_type_def outer_type_def)
qed

lemma bindings_Nil:
  "verifyStructure g = [] \<and> verifyBindingsAndProviders g = [] \<longleftrightarrow>
     (\<forall>e \<in> set (d_edges g). lookupNode g (e_src e) \<noteq> None \<and> lookupNode g (e_dst e) \<noteq> None) \<and>
     (\<forall>b \<in> set (d_bindings g). operand_type g (b_node b) (b_operand b) \<noteq> None \<and>
        outer_type g (b_source b) = operand_type g (b_node b) (b_operand b)) \<and>
     (\<forall>n \<in> set (d_nodes g). \<forall>k < length (n_operandTypes n). length (providers_of g (n_id n) k) = 1)"
  (is "?L \<longleftrightarrow> ?E \<and> (\<forall>b \<in> _. ?b b) \<and> ?P")
proof -
  have count: "(let count = n in if count = 0 then [d] else report_if (1 < count) d') = [] \<longleftrightarrow> n = 1"
    for n :: nat and d d' :: DFGDiagnostic by auto
  have known: "?b b \<Longrightarrow> lookupNode g (b_node b) \<noteq> None \<and> outer_type g (b_source b) \<noteq> None" for b
    by (auto simp: operand_type_def split: option.splits)
  let ?k = "\<lambda>b. lookupNode g (b_node b) \<noteq> None \<and> outer_type g (b_source b) \<noteq> None"
  have providers: "?P \<longleftrightarrow> (\<forall>n \<in> set (d_nodes g). \<forall>k \<in> set [0..<length (n_operandTypes n)].
      length (providers_of g (n_id n) k) = 1)" by auto
  have "verifyBindingsAndProviders g = [] \<longleftrightarrow> (\<forall>b \<in> set (d_bindings g). ?b b) \<and> ?P"
    if k: "\<forall>b \<in> set (d_bindings g). ?k b"
    unfolding verifyBindingsAndProviders_def append_is_Nil_conv concat_map_Nil count providers
    using k by (intro conj_cong ball_cong refl binding_check_Nil) auto
  then show ?thesis using known unfolding verifyStructure_Nil by blast
qed

section \<open>The verifier decides well-formedness\<close>

lemma operand_in_range_node:
  assumes "distinct (map n_id (d_nodes g))" and "n \<in> set (d_nodes g)" and "k < length (n_operandTypes n)"
  shows "operand_in_range g (n_id n) k"
  using find_by_distinct [OF assms(1,2)] assms(3) by (simp add: operand_in_range_def)

lemma verifyAdjacency_Nil:
  "indexValues g = [] \<and> verifyAdjacency g = [] \<longleftrightarrow> indices_ok g"
  by (auto simp: indexValues_def verifyAdjacency_def indices_ok_def duplicates_Nil)

lemma verifyNodes_Nil:
  "verifyNodes g = [] \<longleftrightarrow> nodes_typed g \<and> (\<forall>n \<in> set (d_nodes g). metadata_ok n)"
  unfolding verifyNodes_def concat_map_Nil append_is_Nil_conv verifyOpcode_Nil verifyMetadata_Nil
    nodes_typed_def by blast

lemma verifyValueTypes_Nil:
  assumes "nodes_typed g"
  shows "verifyValueTypes g = [] \<longleftrightarrow>
     (\<forall>x \<in> set (d_externalValues g). isValidType (x_type x)) \<and>
     (\<forall>c \<in> set (d_constants g). isValidType (c_type c))"
proof -
  have "isValidType (n_resultType n) \<and> (\<forall>k \<in> set [0..<length (n_operandTypes n)]. isValidType (n_operandTypes n ! k))"
    if "n \<in> set (d_nodes g)" for n
    using assms that op_typed_valid by (auto simp: nodes_typed_def)
  then show ?thesis
    unfolding verifyValueTypes_def append_is_Nil_conv concat_map_Nil report_if_Nil by auto
qed

lemma dfg_verify_Nil: "dfg_verify g = [] \<longleftrightarrow> well_formed g"
proof (cases "nodes_typed g \<and> indices_ok g")
  case False
  have "dfg_verify g \<noteq> []"
    using False verifyNodes_Nil [of g] verifyAdjacency_Nil [of g] by (auto simp: dfg_verify_def)
  moreover have "\<not> well_formed g" using False by (auto simp: well_formed_def nodes_typed_def)
  ultimately show ?thesis by simp
next
  case True
  then have typed: "nodes_typed g" and ids: "indices_ok g" by auto
  have prov: "(\<forall>n \<in> set (d_nodes g). \<forall>k < length (n_operandTypes n). length (providers_of g (n_id n) k) = 1)
      \<longleftrightarrow> (\<forall>n \<in> set (d_nodes g). \<forall>k < length (n_operandTypes n). \<exists>!p. provides g p (n_id n) k)"
    using ids provider_count operand_in_range_node by (simp add: indices_ok_def)
  have edges: "(\<forall>e \<in> set (d_edges g). lookupNode g (e_src e) \<noteq> None \<and> lookupNode g (e_dst e) \<noteq> None) \<and>
      verifyEdges g = [] \<longleftrightarrow> (\<forall>e \<in> set (d_edges g). edge_ok g e)"
    using verifyEdges_Nil [OF typed] edge_ok_known [of g] by blast
  have "dfg_verify g = [] \<longleftrightarrow>
      (verifyStructure g = [] \<and> verifyBindingsAndProviders g = []) \<and> verifyValueTypes g = [] \<and>
      verifyNodes g = [] \<and> verifyEdges g = [] \<and> verifyLiveOuts g = [] \<and>
      (indexValues g = [] \<and> verifyAdjacency g = [])"
    by (auto simp: dfg_verify_def)
  also have "\<dots> \<longleftrightarrow> well_formed g"
    unfolding bindings_Nil verifyValueTypes_Nil [OF typed] verifyNodes_Nil verifyAdjacency_Nil prov
      verifyLiveOuts_Nil [OF typed] well_formed_def edges [symmetric]
    using typed ids unfolding nodes_typed_def by blast
  finally show ?thesis .
qed


lemma dfg_diag_fields [simp]:
  "dd_severity (dfg_diag c n e k x cst l) = Sev_Error"
  "dd_code (dfg_diag c n e k x cst l) = c"
  by (simp_all add: dfg_diag_def)

text \<open>What a check appends when one of its lines fires, collected for the two statements below.\<close>

definition all_diag :: "(DFGDiagnostic \<Rightarrow> bool) \<Rightarrow> DFGDiagnostic list \<Rightarrow> bool" where
  "all_diag P ds \<longleftrightarrow> (\<forall>d \<in> set ds. P d)"

lemma all_diag_simps [diag_simps]:
  "all_diag P []"
  "all_diag P (d # ds) \<longleftrightarrow> P d \<and> all_diag P ds"
  "all_diag P (ds @ es) \<longleftrightarrow> all_diag P ds \<and> all_diag P es"
  "all_diag P (report_if c d) \<longleftrightarrow> (c \<longrightarrow> P d)"
  "all_diag P (concat (map f xs)) \<longleftrightarrow> (\<forall>x \<in> set xs. all_diag P (f x))"
  "all_diag P (map (\<lambda>_. d) ys) \<longleftrightarrow> (ys \<noteq> [] \<longrightarrow> P d)"
  by (auto simp: all_diag_def)

lemma boundaryValues_diag:
  "(\<And>c i j. c \<in> {DFG_RECURRENCE_BOUNDARY_OFFSET_OUT_OF_RANGE,
      DFG_RECURRENCE_BOUNDARY_DUPLICATE_OFFSET, DFG_RECURRENCE_BOUNDARY_SOURCE_UNKNOWN,
      DFG_RECURRENCE_BOUNDARY_TYPE_MISMATCH} \<Longrightarrow> P (dfg_diag c None (Some (e_id e)) None i j None)) \<Longrightarrow>
   all_diag P (boundaryValues g e t seen vs)"
  by (induction vs arbitrary: seen)
     (simp_all add: diag_simps split: ExternalOperandBinding.splits option.splits)

lemma verifyBoundary_diag:
  "(\<And>c i j. c \<in> {DFG_RECURRENCE_BOUNDARY_MISSING, DFG_RECURRENCE_BOUNDARY_OFFSET_OUT_OF_RANGE,
      DFG_RECURRENCE_BOUNDARY_DUPLICATE_OFFSET, DFG_RECURRENCE_BOUNDARY_SOURCE_UNKNOWN,
      DFG_RECURRENCE_BOUNDARY_TYPE_MISMATCH} \<Longrightarrow> P (dfg_diag c None (Some (e_id e)) None i j None)) \<Longrightarrow>
   all_diag P (verifyBoundary g e bnd t)"
  by (cases bnd) (auto simp: verifyBoundary_def diag_simps intro!: boundaryValues_diag)

lemmas op_check_defs = verifyBinary_def verifyShift_def verifyICmp_def verifySelect_def
  verifyLoad_def verifyStore_def hasArity_def

lemma verifyOpcode_diag:
  "(\<And>c k. c \<in> {DFG_OPCODE_ARITY_MISMATCH, DFG_OPCODE_OPERAND_TYPE_MISMATCH,
      DFG_ICMP_INVALID_RESULT_TYPE, DFG_ICMP_OPERAND_TYPE_MISMATCH, DFG_SELECT_INVALID_PREDICATE,
      DFG_SELECT_VALUE_TYPE_MISMATCH, DFG_SELECT_RESULT_TYPE_MISMATCH,
      DFG_LOAD_INVALID_ADDRESS_TYPE, DFG_LOAD_INVALID_RESULT_TYPE, DFG_STORE_INVALID_RESULT_TYPE,
      DFG_STORE_INVALID_ADDRESS_TYPE, DFG_STORE_INVALID_VALUE_TYPE, DFG_STORE_INVALID_PREDICATE} \<Longrightarrow>
      P (dfg_diag c (Some (n_id n)) None k None None None)) \<Longrightarrow>
   all_diag P (verifyOpcode n)"
  by (simp add: verifyOpcode_def op_check_defs Let_def diag_simps)

lemma verifyMetadata_diag:
  "(\<And>c. c \<in> {DFG_ICMP_MISSING_PREDICATE, DFG_OPCODE_UNEXPECTED_METADATA,
      DFG_OPCODE_MISSING_METADATA, DFG_OPCODE_METADATA_INVALID} \<Longrightarrow> P (diagN c (n_id n))) \<Longrightarrow>
   all_diag P (verifyMetadata n)"
  by (simp add: verifyMetadata_def diag_simps split: option.splits)

lemma verifyEdge_diag:
  assumes "\<And>c i k x y. c \<in> {DFG_VOID_VALUE_USED, DFG_DATA_EDGE_INVALID_SOURCE_TYPE,
      DFG_OPERAND_INVALID_EDGE_KIND, DFG_EDGE_VALUE_TYPE_MISMATCH, DFG_PRED_EDGE_INVALID_SOURCE_TYPE,
      DFG_MEMORY_EDGE_INVALID_SOURCE, DFG_MEMORY_EDGE_INVALID_DESTINATION,
      DFG_RECURRENCE_BOUNDARY_MISSING, DFG_RECURRENCE_BOUNDARY_OFFSET_OUT_OF_RANGE,
      DFG_RECURRENCE_BOUNDARY_DUPLICATE_OFFSET, DFG_RECURRENCE_BOUNDARY_SOURCE_UNKNOWN,
      DFG_RECURRENCE_BOUNDARY_TYPE_MISMATCH} \<Longrightarrow> P (dfg_diag c i (Some (e_id e)) k x y None)"
    and "\<And>i k c. \<not> k < length (n_operandTypes d) \<Longrightarrow>
      provides_operand e k \<Longrightarrow>
      c \<in> {DFG_OPERAND_INDEX_OUT_OF_RANGE, DFG_DATA_EDGE_INVALID_DEST_OPERAND,
           DFG_PRED_EDGE_INVALID_DEST_OPERAND} \<Longrightarrow> P (diagNEK c i (e_id e) k)"
  shows "all_diag P (case e_info e of
            DataEdgeInfo k bnd \<Rightarrow> verifyDataEdge g e k bnd s d
          | PredicateEdgeInfo k bnd \<Rightarrow> verifyPredicateEdge g e k bnd s d
          | MemoryEdgeInfo dep \<Rightarrow> verifyMemoryEdge e dep s d)"
proof (cases "e_info e")
  case (DataEdgeInfo k bnd)
  then have "provides_operand e k" by (simp add: provides_operand_def)
  with assms DataEdgeInfo show ?thesis
    by (auto simp: verifyDataEdge_def Let_def diag_simps intro!: verifyBoundary_diag)
next
  case (PredicateEdgeInfo k bnd)
  then have "provides_operand e k" by (simp add: provides_operand_def)
  with assms PredicateEdgeInfo show ?thesis
    by (auto simp: verifyPredicateEdge_def Let_def diag_simps intro!: verifyBoundary_diag)
next
  case (MemoryEdgeInfo dep)
  with assms show ?thesis by (cases dep) (simp_all add: verifyMemoryEdge_def diag_simps)
qed

lemma dfg_verify_errors: "all_diag (\<lambda>d. dd_severity d = Sev_Error) (dfg_verify g)"
proof -
  have "all_diag (\<lambda>d. dd_severity d = Sev_Error) (verifyEdges g)"
    unfolding verifyEdges_def diag_simps
    by (auto simp: diag_simps intro!: verifyEdge_diag split: option.splits)
  moreover have "all_diag (\<lambda>d. dd_severity d = Sev_Error) (verifyNodes g)"
    unfolding verifyNodes_def diag_simps by (simp add: verifyOpcode_diag verifyMetadata_diag)
  moreover have "all_diag (\<lambda>d. dd_severity d = Sev_Error) (verifyBindingsAndProviders g)"
    unfolding verifyBindingsAndProviders_def diag_simps
    by (simp add: diag_simps Let_def split: option.splits ExternalOperandBinding.splits)
  moreover have "all_diag (\<lambda>d. dd_severity d = Sev_Error) (verifyStructure g)"
    unfolding verifyStructure_def diag_simps
    by (simp add: diag_simps split: ExternalOperandBinding.splits)
  ultimately show ?thesis
    unfolding dfg_verify_def indexValues_def verifyValueTypes_def verifyLiveOuts_def
      verifyAdjacency_def diag_simps
    by (simp add: diag_simps split: option.splits)
qed

text \<open>C27: The verifier reports no error exactly for the well-formed graphs: ids are unique and the
  cached indices and adjacency agree with the vectors, every operation is well typed and carries
  exactly the metadata of its opcode, every operand has exactly one provider of its type, memory
  edges join the operations their dependence kind names, and every loop-carried value edge has
  exactly one value of the operand's type for each iteration before the loop.\<close>

theorem verifier_decides_well_formed: "report_ok (dfg_verify g) \<longleftrightarrow> well_formed g"
proof -
  have "filter (\<lambda>d. dd_severity d = Sev_Error) (dfg_verify g) = dfg_verify g"
    using dfg_verify_errors [of g] by (simp add: all_diag_def)
  then show ?thesis by (simp add: report_ok_def report_errorCount_def dfg_verify_Nil)
qed

section \<open>Graphs made by the builder\<close>

lemma at_index_find_by:
  assumes "index_ok key xs m"
  shows "at_index xs m i = (case find_by key i xs of None \<Rightarrow> Inl Out_Of_Range | Some x \<Rightarrow> Inr x)"
proof (cases "m i")
  case None
  with index_ok_find_by [OF assms, of i] show ?thesis by (simp add: at_index_def)
next
  case (Some k)
  then have "k < length xs" using assms by (simp add: index_ok_def)
  with Some index_ok_find_by [OF assms, of i] show ?thesis by (simp add: at_index_def vec_at_def)
qed

lemma dfg_inv_lookup:
  assumes "dfg_inv g"
  shows "dfg_node g i = (case lookupNode g i of None \<Rightarrow> Inl Out_Of_Range | Some n \<Rightarrow> Inr n)"
    and "dfg_edge g j = (case find_by e_id j (d_edges g) of None \<Rightarrow> Inl Out_Of_Range | Some e \<Rightarrow> Inr e)"
    and "containsExternal g x \<longleftrightarrow> lookupExternal g x \<noteq> None"
    and "containsConstant g c \<longleftrightarrow> lookupConstant g c \<noteq> None"
proof -
  have ok: "index_ok n_id (d_nodes g) (d_nodeIndices g)" "index_ok e_id (d_edges g) (d_edgeIndices g)"
    "index_ok x_id (d_externalValues g) (d_externalIndices g)"
    "index_ok c_id (d_constants g) (d_constantIndices g)"
    using assms by (simp_all add: dfg_inv_def)
  show "dfg_node g i = (case lookupNode g i of None \<Rightarrow> Inl Out_Of_Range | Some n \<Rightarrow> Inr n)"
    by (simp add: dfg_node_def at_index_find_by [OF ok(1)])
  show "dfg_edge g j = (case find_by e_id j (d_edges g) of None \<Rightarrow> Inl Out_Of_Range | Some e \<Rightarrow> Inr e)"
    by (simp add: dfg_edge_def at_index_find_by [OF ok(2)])
  show "containsExternal g x \<longleftrightarrow> lookupExternal g x \<noteq> None"
       "containsConstant g c \<longleftrightarrow> lookupConstant g c \<noteq> None"
    by (simp_all add: containsExternal_def containsConstant_def index_ok_find_by [OF ok(3)]
        index_ok_find_by [OF ok(4)])
qed

lemma dfg_inv_adjacency:
  assumes "dfg_inv g" and "lookupNode g i = Some n"
  shows "dfg_incoming g i = Inr (incoming_of g i)" and "dfg_outgoing g i = Inr (outgoing_of g i)"
proof -
  have ok: "index_ok n_id (d_nodes g) (d_nodeIndices g)" using assms(1) by (simp add: dfg_inv_def)
  have "map_option (\<lambda>k. d_nodes g ! k) (d_nodeIndices g i) = Some n"
    using index_ok_find_by [OF ok, of i] assms(2) by simp
  then obtain k where k: "d_nodeIndices g i = Some k" by blast
  then have "k < length (d_nodes g)" "n_id (d_nodes g ! k) = i" using ok by (auto simp: index_ok_def)
  then show "dfg_incoming g i = Inr (incoming_of g i)" "dfg_outgoing g i = Inr (outgoing_of g i)"
    using assms k find_by_SomeD [OF assms(2)] dfg_inv_lookup(1) [OF assms(1), of i]
    by (simp_all add: dfg_incoming_def dfg_outgoing_def at_index_def vec_at_def dfg_inv_def)
qed

lemma dfg_inv_indices_ok: "dfg_inv g \<Longrightarrow> indices_ok g"
proof -
  assume inv: "dfg_inv g"
  then have d: "distinct (map n_id (d_nodes g))" "distinct (map e_id (d_edges g))"
    "distinct (map x_id (d_externalValues g))" "distinct (map c_id (d_constants g))"
    "distinct (map l_id (d_liveOuts g))" by (auto simp: dfg_inv_def intro: index_ok_distinct)
  then show ?thesis
    using dfg_inv_adjacency [OF inv] by (simp add: indices_ok_def dfg_inv_lookup [OF inv] find_by_distinct)
qed

text \<open>What the checked builder operations maintain beyond the representation invariant: every value
  edge and binding addresses an operand of its node, no operand is addressed twice, and bindings
  name stored values.\<close>

definition checked_inv :: "DFG \<Rightarrow> bool" where
  "checked_inv g \<longleftrightarrow> dfg_inv g \<and>
     (\<forall>e \<in> set (d_edges g). \<forall>k. provides_operand e k \<longrightarrow> operand_in_range g (e_dst e) k \<and>
        (\<forall>e' \<in> set (d_edges g). provides_operand e' k \<and> e_dst e' = e_dst e \<longrightarrow> e' = e) \<and>
        (\<forall>b \<in> set (d_bindings g). \<not> (b_node b = e_dst e \<and> b_operand b = k))) \<and>
     (\<forall>b \<in> set (d_bindings g). operand_in_range g (b_node b) (b_operand b) \<and>
        outer_type g (b_source b) \<noteq> None)"

lemma checkProviderAvailable_ok:
  assumes inv: "dfg_inv g" and ok: "checkProviderAvailable g i k = Inr u"
  shows "operand_in_range g i k"
    and "\<forall>e \<in> set (d_edges g). e_dst e = i \<longrightarrow> \<not> provides_operand e k"
    and "\<forall>b \<in> set (d_bindings g). \<not> (b_node b = i \<and> b_operand b = k)"
proof -
  from ok obtain incoming u' where co: "checkOperand g i k = Inr ()" and inc: "dfg_incoming g i = Inr incoming"
    and fold: "foldR (\<lambda>_ eid. bindR (dfg_edge g eid)
              (\<lambda>e. if provides_operand e k then Inl Invalid_Argument else Inr ())) () incoming = Inr u'"
    and bs: "\<not> (\<exists>b \<in> set (d_bindings g). b_node b = i \<and> b_operand b = k)"
    by (auto simp: checkProviderAvailable_def bindR_eq_Inr split: if_splits)
  from bs show "\<forall>b \<in> set (d_bindings g). \<not> (b_node b = i \<and> b_operand b = k)" by blast
  from co obtain n where n: "lookupNode g i = Some n" and k: "k < length (n_operandTypes n)"
    by (auto simp: checkOperand_def checkNode_def bindR_eq_Inr dfg_inv_lookup [OF inv]
        split: option.splits if_splits)
  then show "operand_in_range g i k" by (simp add: operand_in_range_def)
  have "\<forall>eid \<in> set xs. \<forall>e. dfg_edge g eid = Inr e \<longrightarrow> \<not> provides_operand e k"
    if "foldR (\<lambda>_ eid. bindR (dfg_edge g eid)
              (\<lambda>e. if provides_operand e k then Inl Invalid_Argument else Inr ())) () xs = Inr u'" for xs
    using that by (induction xs) (auto simp: bindR_eq_Inr split: if_splits)
  from this [OF fold] show "\<forall>e \<in> set (d_edges g). e_dst e = i \<longrightarrow> \<not> provides_operand e k"
    using inc dfg_inv_adjacency(1) [OF inv n] dfg_inv_indices_ok [OF inv]
    by (auto simp: incoming_of_def indices_ok_def)
qed

lemma find_by_append_Some: "find_by key k xs = Some x \<Longrightarrow> find_by key k (xs @ ys) = Some x"
  by (simp add: find_by_append)

text \<open>Appends that only add a node, a value or a live-out.\<close>

lemma checked_inv_mono:
  assumes "checked_inv g" and "dfg_inv g'" and "d_edges g' = d_edges g" and "d_bindings g' = d_bindings g"
    and "\<exists>ns. d_nodes g' = d_nodes g @ ns" and "\<exists>xs. d_externalValues g' = d_externalValues g @ xs"
    and "\<exists>cs. d_constants g' = d_constants g @ cs"
  shows "checked_inv g'"
proof -
  have "operand_in_range g i k \<Longrightarrow> operand_in_range g' i k" for i k
    using assms(5) find_by_append_Some [of n_id i "d_nodes g"]
    by (auto simp: operand_in_range_def split: option.splits)
  moreover have "outer_type g s \<noteq> None \<Longrightarrow> outer_type g' s \<noteq> None" for s
    using assms(6,7) find_by_append_Some [of x_id _ "d_externalValues g"]
      find_by_append_Some [of c_id _ "d_constants g"]
    by (cases s) (auto simp: outer_type_def)
  ultimately show ?thesis using assms(1-4) unfolding checked_inv_def by simp
qed

lemma checked_inv_append:
  assumes "checked_inv g" and "dfg_inv g'"
    and "appendNode n g = Inr g' \<or> appendExternal x g = Inr g' \<or> appendConstant c g = Inr g' \<or>
         appendLiveOut l g = Inr g'"
  shows "checked_inv g'"
  by (rule checked_inv_mono [OF assms(1,2)])
     (use assms(3) in \<open>auto simp: appendNode_def appendExternal_def appendConstant_def
        appendLiveOut_def split: if_splits\<close>)

lemma checked_inv_addEdge:
  assumes "checked_inv g" and "appendEdge e g = Inr g'"
    and "\<forall>k. provides_operand e k \<longrightarrow> checkProviderAvailable g (e_dst e) k = Inr ()"
  shows "checked_inv g'"
proof -
  have inv: "dfg_inv g" using assms(1) by (simp add: checked_inv_def)
  have inv': "dfg_inv g'" by (rule dfg_inv_appendEdge [OF inv assms(2)])
  have g': "d_edges g' = d_edges g @ [e]" "d_bindings g' = d_bindings g"
    "operand_in_range g' = operand_in_range g" "outer_type g' = outer_type g"
    using assms(2) by (auto simp: appendEdge_def operand_in_range_def outer_type_def fun_eq_iff
        split: if_splits option.splits ExternalOperandBinding.splits)
  show ?thesis
    using assms(1) inv' assms(3) checkProviderAvailable_ok [OF inv, of "e_dst e"]
    unfolding checked_inv_def g' by auto
qed

lemma checked_inv_addBinding:
  assumes "checked_inv g" and "appendBinding b g = Inr g'"
    and "checkProviderAvailable g (b_node b) (b_operand b) = Inr ()" and "outer_type g (b_source b) \<noteq> None"
  shows "checked_inv g'"
proof -
  have inv: "dfg_inv g" using assms(1) by (simp add: checked_inv_def)
  have inv': "dfg_inv g'" by (rule dfg_inv_appendBinding [OF inv assms(2)])
  have g': "d_edges g' = d_edges g" "set (d_bindings g') = insert b (set (d_bindings g))"
    "operand_in_range g' = operand_in_range g" "outer_type g' = outer_type g"
    using assms(2) by (auto simp: appendBinding_def operand_in_range_def outer_type_def fun_eq_iff
        split: if_splits option.splits ExternalOperandBinding.splits)
  show ?thesis
    using assms(1) inv' assms(4) checkProviderAvailable_ok [OF inv assms(3)]
    unfolding checked_inv_def g' by auto
qed

lemma checked_inv_call:
  assumes "checked_inv (bld_dfg b)" and "builder_call c b = (b', r)" and "\<not> is_import c"
  shows "checked_inv (bld_dfg b')"
proof -
  let ?g = "bld_dfg b" and ?g' = "bld_dfg b'"
  have inv: "dfg_inv ?g" using assms(1) by (simp add: checked_inv_def)
  have inv': "dfg_inv ?g'" by (rule builder_call_inv [OF assms(2) inv])
  consider "?g' = ?g"
    | n where "appendNode n ?g = Inr ?g'" | v where "appendExternal v ?g = Inr ?g'"
    | v where "appendConstant v ?g = Inr ?g'" | v where "appendLiveOut v ?g = Inr ?g'"
    | e where "appendEdge e ?g = Inr ?g'"
        "\<forall>k. provides_operand e k \<longrightarrow> checkProviderAvailable ?g (e_dst e) k = Inr ()"
    | v where "appendBinding v ?g = Inr ?g'"
        "checkProviderAvailable ?g (b_node v) (b_operand v) = Inr ()" "outer_type ?g (b_source v) \<noteq> None"
    using assms(2,3)
    by (cases c)
       (auto simp: builder_defs Let_def outer_type_def provides_operand_def dfg_inv_lookup(3,4) [OF inv]
          split: if_splits sum.splits dest!: commit_dfg)
  then show ?thesis
  proof cases
    case 6
    with assms(1) show ?thesis by (blast intro: checked_inv_addEdge)
  next
    case 7
    with assms(1) show ?thesis by (blast intro: checked_inv_addBinding)
  qed (use assms(1) checked_inv_append [OF assms(1) inv'] in auto)
qed

definition structural_codes :: "DFGDiagnosticCode set" where
  "structural_codes =
     {DFG_ID_DUPLICATE_NODE, DFG_ID_DUPLICATE_EDGE, DFG_ID_DUPLICATE_EXTERNAL,
      DFG_ID_DUPLICATE_CONSTANT, DFG_ID_DUPLICATE_LIVEOUT, DFG_EDGE_UNKNOWN_SOURCE,
      DFG_EDGE_UNKNOWN_DESTINATION, DFG_BINDING_UNKNOWN_NODE, DFG_BINDING_UNKNOWN_EXTERNAL,
      DFG_BINDING_UNKNOWN_CONSTANT, DFG_ADJACENCY_INCONSISTENT, DFG_OPERAND_INDEX_OUT_OF_RANGE,
      DFG_OPERAND_DUPLICATE_PROVIDER, DFG_DATA_EDGE_INVALID_DEST_OPERAND,
      DFG_PRED_EDGE_INVALID_DEST_OPERAND, DFG_LIVEOUT_UNKNOWN_SOURCE}"

lemma checked_inv_providers: "checked_inv g \<Longrightarrow> length (providers_of g i k) \<le> 1"
proof (rule ccontr)
  assume inv: "checked_inv g" and "\<not> length (providers_of g i k) \<le> 1"
  then have "card (set (providers_of g i k)) \<ge> 2"
    using distinct_providers_of [of g i k] dfg_inv_indices_ok [of g]
    by (simp add: checked_inv_def indices_ok_def distinct_card)
  then obtain p q where pq: "p \<noteq> q" "p \<in> set (providers_of g i k)" "q \<in> set (providers_of g i k)"
    by (metis card_2_iff' card_le_Suc0_iff_eq finite_set not_less_eq_eq numeral_2_eq_2)
  have "inj_on (\<lambda>j. binding_key (d_bindings g ! j)) {..<length (d_bindings g)}"
    using inv by (auto simp: checked_inv_def dfg_inv_def distinct_conv_nth inj_on_def)
  with inv pq show False
    by (auto simp: providers_of_eq checked_inv_def inj_on_def) (metis nth_mem)+
qed

lemma checked_inv_structural:
  assumes inv: "checked_inv g"
  shows "all_diag (\<lambda>d. dd_code d \<notin> structural_codes) (dfg_verify g)"
proof -
  have ids: "indexValues g = []" "verifyAdjacency g = []"
    using dfg_inv_indices_ok [of g] inv verifyAdjacency_Nil [of g] by (auto simp: checked_inv_def)
  have nodes: "\<forall>i \<in> n_id ` set (d_nodes g). lookupNode g i \<noteq> None"
    by (auto simp: find_by_None_iff)
  have str: "verifyStructure g = []"
    unfolding verifyStructure_Nil using inv nodes unfolding checked_inv_def dfg_inv_def by blast
  have "all_diag (\<lambda>d. dd_code d \<notin> structural_codes) (verifyEdges g)"
    unfolding verifyEdges_def diag_simps
  proof (intro ballI)
    fix e assume e: "e \<in> set (d_edges g)"
    have "provides_operand e k \<Longrightarrow> lookupNode g (e_dst e) = Some d \<Longrightarrow> k < length (n_operandTypes d)" for k d
      using inv e by (auto simp: checked_inv_def operand_in_range_def)
    then show "all_diag (\<lambda>d. dd_code d \<notin> structural_codes)
          (case (lookupNode g (e_src e), lookupNode g (e_dst e)) of
       (Some source, Some destination) \<Rightarrow>
         (case e_info e of
            DataEdgeInfo k bnd \<Rightarrow> verifyDataEdge g e k bnd source destination
          | PredicateEdgeInfo k bnd \<Rightarrow> verifyPredicateEdge g e k bnd source destination
          | MemoryEdgeInfo dep \<Rightarrow> verifyMemoryEdge e dep source destination)
     | _ \<Rightarrow> [])"
      by (cases "lookupNode g (e_src e)"; cases "lookupNode g (e_dst e)")
         (auto simp: diag_simps structural_codes_def intro!: verifyEdge_diag)
  qed
  moreover have "all_diag (\<lambda>d. dd_code d \<notin> structural_codes) (verifyNodes g)"
    unfolding verifyNodes_def diag_simps
    by (auto simp: structural_codes_def intro!: verifyOpcode_diag verifyMetadata_diag)
  moreover have "all_diag (\<lambda>d. dd_code d \<notin> structural_codes) (verifyBindingsAndProviders g)"
  proof -
    have "\<not> 1 < length (providers_of g i k)" for i k
      using checked_inv_providers [OF inv, of i k] by simp
    moreover have "b \<in> set (d_bindings g) \<Longrightarrow> lookupNode g (b_node b) = Some n \<Longrightarrow>
        \<not> length (n_operandTypes n) \<le> b_operand b" for b n
      using inv by (auto simp: checked_inv_def operand_in_range_def)
    ultimately show ?thesis
      unfolding verifyBindingsAndProviders_def diag_simps
      by (auto simp: diag_simps Let_def structural_codes_def
          split: option.splits ExternalOperandBinding.splits)
  qed
  moreover have "l \<in> set (d_liveOuts g) \<Longrightarrow> lookupNode g (l_source l) \<noteq> None" for l
    using inv nodes unfolding checked_inv_def dfg_inv_def by blast
  then have "all_diag (\<lambda>d. dd_code d \<notin> structural_codes) (verifyLiveOuts g)"
    unfolding verifyLiveOuts_def diag_simps
    by (auto simp: diag_simps structural_codes_def split: option.splits)
  ultimately show ?thesis
    unfolding dfg_verify_def ids str verifyValueTypes_def diag_simps
    by (simp add: diag_simps structural_codes_def)
qed

lemma built_checked_inv: "built_checked b \<Longrightarrow> checked_inv (bld_dfg b)"
proof (induction rule: built_checked.induct)
  case (start name)
  then show ?case
    using dfg_inv_empty [of name] by (simp add: checked_inv_def new_DFGBuilder_def empty_DFG_def)
next
  case (step b c b' r)
  then show ?case by (blast intro: checked_inv_call)
qed

text \<open>C28: A graph assembled through the checked builder operations (everything but the edge import
  of the deserialiser), in any order and with failing calls in between, never makes the verifier
  report a structural defect: no duplicate or unknown id, no inconsistent index or adjacency, no
  operand index out of range and no operand with two providers.\<close>

theorem builder_no_structural_defects:
  assumes "built_checked b" and "c \<in> structural_codes"
  shows "\<not> report_contains c (dfg_verify (bld_dfg b))"
  using checked_inv_structural [OF built_checked_inv [OF assms(1)]] assms(2)
  by (auto simp: report_contains_def all_diag_def)

theorem builder_no_structural_defects_witness:
  "\<not> report_contains DFG_OPERAND_DUPLICATE_PROVIDER (dfg_verify (bld_dfg
      (fst (builder_call (AddNode Add [i32Ty, i32Ty] i32Ty None None None) (new_DFGBuilder ''g'')))))"
proof (rule builder_no_structural_defects)
  show "built_checked (fst (builder_call (AddNode Add [i32Ty, i32Ty] i32Ty None None None)
      (new_DFGBuilder ''g'')))"
    by (rule built_checked.step [OF built_checked.start _ surjective_pairing]) simp
qed (simp add: structural_codes_def)

end
