(* ===== verification/Target_Model.thy ===== *)
theory Target_Model
  imports IR_Types
begin

text \<open>
  The target contract: operation descriptors with their name tables (\<open>Target/TargetOperation.h\<close>,
  \<open>Target/TargetOperation.cpp\<close>) and the queries of \<open>TargetModel\<close> (\<open>Target/TargetModel.h\<close>, second half
  of \<open>Target/TargetModel.cpp\<close>).  A target model is a record with the members of the class; the loader that
  builds it is the theory \<open>Target_Loader\<close>, and the lemmas here hold for every value of the record
  unless they say otherwise.  Hash maps are maps and sets.  Descriptive members that no query and no
  modelled client reads (policy texts of the memory, the loop-execution section) are left out of the
  records.
\<close>

section \<open>Operation descriptors\<close>

datatype TargetExecutionClass = Class_FU | Class_LSU
datatype TargetOperandRole = OperandRole_Data | OperandRole_Predicate | OperandRole_Address
datatype TargetResultRole = ResultRole_Data | ResultRole_Predicate | ResultRole_Void
datatype TargetControlSink =
  FuDataA | FuDataB | FuPredicate0 | FuPredicate1 | LsuAddress | LsuStoreData | LsuCommitPredicate
datatype TargetResultSource = Source_None | FuDataResult | FuPredicateResult | LsuLoadData

fun targetExecutionClass_toString :: "TargetExecutionClass \<Rightarrow> string" where
  "targetExecutionClass_toString Class_FU = ''FU''"
| "targetExecutionClass_toString Class_LSU = ''LSU''"

definition targetExecutionClassFromString :: "string \<Rightarrow> TargetExecutionClass result" where
  "targetExecutionClassFromString s =
     (if s = ''FU'' then Inr Class_FU else if s = ''LSU'' then Inr Class_LSU
      else Inl Invalid_Argument)"

fun targetOperandRole_toString :: "TargetOperandRole \<Rightarrow> string" where
  "targetOperandRole_toString OperandRole_Data = ''data''"
| "targetOperandRole_toString OperandRole_Predicate = ''predicate''"
| "targetOperandRole_toString OperandRole_Address = ''address''"

definition targetOperandRoleFromString :: "string \<Rightarrow> TargetOperandRole result" where
  "targetOperandRoleFromString s =
     (if s = ''data'' then Inr OperandRole_Data
      else if s = ''predicate'' then Inr OperandRole_Predicate
      else if s = ''address'' then Inr OperandRole_Address
      else Inl Invalid_Argument)"

fun targetResultRole_toString :: "TargetResultRole \<Rightarrow> string" where
  "targetResultRole_toString ResultRole_Data = ''data''"
| "targetResultRole_toString ResultRole_Predicate = ''predicate''"
| "targetResultRole_toString ResultRole_Void = ''void''"

definition targetResultRoleFromString :: "string \<Rightarrow> TargetResultRole result" where
  "targetResultRoleFromString s =
     (if s = ''data'' then Inr ResultRole_Data
      else if s = ''predicate'' then Inr ResultRole_Predicate
      else if s = ''void'' then Inr ResultRole_Void
      else Inl Invalid_Argument)"

fun targetControlSink_toString :: "TargetControlSink \<Rightarrow> string" where
  "targetControlSink_toString FuDataA = ''FU_SRC_A''"
| "targetControlSink_toString FuDataB = ''FU_SRC_B''"
| "targetControlSink_toString FuPredicate0 = ''FU_PRED_0''"
| "targetControlSink_toString FuPredicate1 = ''FU_PRED_1''"
| "targetControlSink_toString LsuAddress = ''LSU_ADDR''"
| "targetControlSink_toString LsuStoreData = ''LSU_STORE_DATA''"
| "targetControlSink_toString LsuCommitPredicate = ''LSU_COMMIT_PRED''"

definition targetControlSinkFromString :: "string \<Rightarrow> TargetControlSink result" where
  "targetControlSinkFromString s =
     (if s = ''FU_SRC_A'' \<or> s = ''fu_data_a'' then Inr FuDataA
      else if s = ''FU_SRC_B'' \<or> s = ''fu_data_b'' then Inr FuDataB
      else if s = ''FU_PRED_0'' \<or> s = ''fu_pred_0'' then Inr FuPredicate0
      else if s = ''FU_PRED_1'' \<or> s = ''fu_pred_1'' then Inr FuPredicate1
      else if s = ''LSU_ADDR'' \<or> s = ''lsu_address'' then Inr LsuAddress
      else if s = ''LSU_STORE_DATA'' \<or> s = ''lsu_store_data'' then Inr LsuStoreData
      else if s = ''LSU_COMMIT_PRED'' \<or> s = ''lsu_commit_predicate'' then Inr LsuCommitPredicate
      else Inl Invalid_Argument)"

fun targetResultSource_toString :: "TargetResultSource \<Rightarrow> string" where
  "targetResultSource_toString Source_None = ''NONE''"
| "targetResultSource_toString FuDataResult = ''FU_DATA_RESULT''"
| "targetResultSource_toString FuPredicateResult = ''FU_PRED_RESULT''"
| "targetResultSource_toString LsuLoadData = ''LSU_LOAD_DATA''"

definition targetResultSourceFromString :: "string \<Rightarrow> TargetResultSource result" where
  "targetResultSourceFromString s =
     (if s = ''NONE'' \<or> s = ''none'' then Inr Source_None
      else if s = ''FU_DATA_RESULT'' \<or> s = ''fu_data_result'' then Inr FuDataResult
      else if s = ''FU_PRED_RESULT'' \<or> s = ''fu_pred_result'' then Inr FuPredicateResult
      else if s = ''LSU_LOAD_DATA'' \<or> s = ''lsu_load_data'' then Inr LsuLoadData
      else Inl Invalid_Argument)"

record TargetOperandDesc =
  od_role :: TargetOperandRole
  od_optional :: bool

record TargetEncodingRef =
  er_domain :: string
  er_symbol :: string

record TargetOperationDesc =
  op_id :: string
  op_executionClass :: TargetExecutionClass
  op_operands :: "TargetOperandDesc list"
  op_resultRole :: TargetResultRole
  op_resultType :: ValueType
  op_issueOccupancy :: nat
  op_resultLatency :: "nat option"
  op_producerOutputReadyOffset :: "nat option"
  op_accessWidthBits :: "nat option"
  op_encoding :: "TargetEncodingRef option"
  op_operandSinks :: "(nat \<times> TargetControlSink) list"
  op_resultSource :: TargetResultSource

section \<open>The target model\<close>

record ArrayDesc =
  arr_rows :: nat
  arr_cols :: nat
  arr_dataWidth :: nat
  arr_predicateWidth :: nat
  arr_hardwareBranch :: bool

datatype RegisterBankDomain = Bank_Data | Bank_Predicate
datatype SameAddressReadWritePolicy = RW_Forbidden | ReadOldThenWriteNew | WriteNewThenRead

record RegisterFileDesc =
  rf_id :: string
  rf_domain :: RegisterBankDomain
  rf_depth :: nat
  rf_readPorts :: nat
  rf_writePorts :: nat
  rf_sameCycleReadWriteSameAddress :: string
  rf_sameCycleMultiwriteSameAddress :: string
  rf_sameAddressReadWritePolicy :: SameAddressReadWritePolicy
  rf_allocatableIndices :: "nat list"
  rf_applicableTiles :: "(nat \<times> nat) list"
  rf_writePortSources :: "string \<rightharpoonup> string list"

record InterconnectDesc =
  ic_topology :: string
  ic_registeredLinks :: bool
  ic_hopLatency :: nat
  ic_inputBuffering :: bool
  ic_runtimeArbitration :: bool
  ic_compilerRouted :: bool
  ic_separateResourceDomain :: bool
  ic_channelsPerDirectionPerLink :: nat

record MemoryDesc =
  mem_depth :: nat
  mem_widthBits :: nat
  mem_ports :: nat
  mem_loadLatency :: nat
  mem_maxIssuePerLsuPerCycle :: nat
  mem_maxIssuePerPortPerCycle :: nat
  mem_rawDependenceSeparation :: nat
  mem_warDependenceSeparation :: nat
  mem_wawDependenceSeparation :: nat

record LsuTileDesc =
  lsu_row :: nat
  lsu_col :: nat
  lsu_portId :: nat

record ControlField =
  cf_name :: string
  cf_lsb :: nat
  cf_width :: nat
  cf_encoding :: "string option"

record ControlLayout =
  cl_rawWidth :: nat
  cl_physicalWidth :: nat
  cl_chunks :: nat
  cl_chunkBits :: nat
  cl_paddingLsb :: nat
  cl_paddingWidth :: nat
  cl_paddingValue :: nat
  cl_fields :: "ControlField list"
  cl_fieldIndices :: "string \<rightharpoonup> nat"

record TargetModel =
  tm_name :: string
  tm_array :: ArrayDesc
  tm_dataRF :: RegisterFileDesc
  tm_predicateRF :: RegisterFileDesc
  tm_interconnect :: InterconnectDesc
  tm_memory :: MemoryDesc
  tm_controlLayout :: ControlLayout
  tm_constantMemoryDepth :: nat
  tm_lsuTiles :: "LsuTileDesc list"
  tm_encodings :: "string \<rightharpoonup> (string \<rightharpoonup> nat)"
  tm_reverseEncodings :: "string \<rightharpoonup> (nat \<rightharpoonup> string)"
  tm_operations :: "TargetOperationDesc list"
  tm_operationIndices :: "string \<rightharpoonup> nat"
  tm_defaultFuOperations :: "string set"
  tm_tileOperationOverrides :: "nat \<rightharpoonup> string set"

section \<open>Queries\<close>

text \<open>\<open>(row << 32) | col\<close>; both coordinates are 32-bit.\<close>

definition tileKey :: "nat \<Rightarrow> nat \<Rightarrow> nat" where
  "tileKey row col = row * 4294967296 + col"

definition tileHasLSU :: "TargetModel \<Rightarrow> nat \<Rightarrow> nat \<Rightarrow> bool" where
  "tileHasLSU t row col = (\<exists>d \<in> set (tm_lsuTiles t). lsu_row d = row \<and> lsu_col d = col)"

definition findOperation :: "TargetModel \<Rightarrow> string \<Rightarrow> TargetOperationDesc option" where
  "findOperation t name = map_option (\<lambda>k. tm_operations t ! k) (tm_operationIndices t name)"

definition operation :: "TargetModel \<Rightarrow> string \<Rightarrow> TargetOperationDesc result" where
  "operation t name = (case findOperation t name of None \<Rightarrow> Inl Out_Of_Range | Some d \<Rightarrow> Inr d)"

definition tileSupportsOperation :: "TargetModel \<Rightarrow> nat \<Rightarrow> nat \<Rightarrow> string \<Rightarrow> bool" where
  "tileSupportsOperation t row col name =
     (if row \<ge> arr_rows (tm_array t) \<or> col \<ge> arr_cols (tm_array t) then False
      else case findOperation t name of
        None \<Rightarrow> False
      | Some d \<Rightarrow>
          if op_executionClass d = Class_LSU then tileHasLSU t row col
          else op_id d \<in> (case tm_tileOperationOverrides t (tileKey row col) of
                            None \<Rightarrow> tm_defaultFuOperations t | Some s \<Rightarrow> s))"

definition compatibleTiles :: "TargetModel \<Rightarrow> string \<Rightarrow> (nat \<times> nat) list" where
  "compatibleTiles t name =
     filter (\<lambda>(row, col). tileSupportsOperation t row col name)
       (List.product [0..<arr_rows (tm_array t)] [0..<arr_cols (tm_array t)])"

fun memoryDependenceSeparation :: "TargetModel \<Rightarrow> MemoryDepKind \<Rightarrow> nat" where
  "memoryDependenceSeparation t RAW = mem_rawDependenceSeparation (tm_memory t)"
| "memoryDependenceSeparation t WAR = mem_warDependenceSeparation (tm_memory t)"
| "memoryDependenceSeparation t WAW = mem_wawDependenceSeparation (tm_memory t)"

definition supportsValueType :: "TargetModel \<Rightarrow> ValueType \<Rightarrow> bool" where
  "supportsValueType t ty =
     (if vt_kind ty = VK_Void then vt_bitWidth ty = 0
      else if vt_kind ty = VK_Predicate then vt_bitWidth ty = arr_predicateWidth (tm_array t)
      else vt_kind ty = VK_Integer \<and> vt_bitWidth ty = arr_dataWidth (tm_array t))"

definition executionResourceCount :: "TargetModel \<Rightarrow> TargetExecutionClass \<Rightarrow> nat" where
  "executionResourceCount t c =
     (if c = Class_LSU then length (tm_lsuTiles t)
      else arr_rows (tm_array t) * arr_cols (tm_array t))"

definition hasExecutionClass :: "TargetModel \<Rightarrow> TargetExecutionClass \<Rightarrow> bool" where
  "hasExecutionClass t c = (executionResourceCount t c \<noteq> 0)"

definition hasValidEncoding :: "TargetModel \<Rightarrow> TargetOperationDesc \<Rightarrow> bool" where
  "hasValidEncoding t d =
     (case (findOperation t (op_id d), op_encoding d) of
        (Some registered, Some enc) \<Rightarrow>
          registered = d \<and>
          (case tm_encodings t (er_domain enc) of
             None \<Rightarrow> False
           | Some symbols \<Rightarrow> symbols (er_symbol enc) \<noteq> None)
      | _ \<Rightarrow> False)"

definition compatibleResourceCount :: "TargetModel \<Rightarrow> TargetOperationDesc \<Rightarrow> nat" where
  "compatibleResourceCount t d =
     (if \<not> hasValidEncoding t d then 0
      else if op_executionClass d = Class_LSU then length (tm_lsuTiles t)
      else length (filter (\<lambda>(row, col). tileSupportsOperation t row col (op_id d))
             (List.product [0..<arr_rows (tm_array t)] [0..<arr_cols (tm_array t)])))"

definition isOperationExecutable :: "TargetModel \<Rightarrow> TargetOperationDesc \<Rightarrow> bool" where
  "isOperationExecutable t d = (compatibleResourceCount t d \<noteq> 0)"

definition encodingValue :: "TargetModel \<Rightarrow> string \<Rightarrow> string \<Rightarrow> nat result" where
  "encodingValue t domain name =
     (case tm_encodings t domain of
        None \<Rightarrow> Inl Runtime_Error
      | Some symbols \<Rightarrow>
          (case symbols name of None \<Rightarrow> Inl Runtime_Error | Some v \<Rightarrow> Inr v))"

definition encodingName :: "TargetModel \<Rightarrow> string \<Rightarrow> nat \<Rightarrow> string result" where
  "encodingName t domain value =
     (case tm_reverseEncodings t domain of
        None \<Rightarrow> Inl Runtime_Error
      | Some names \<Rightarrow>
          (case names value of None \<Rightarrow> Inl Runtime_Error | Some s \<Rightarrow> Inr s))"

definition appliesToTile :: "RegisterFileDesc \<Rightarrow> nat \<Rightarrow> nat \<Rightarrow> bool" where
  "appliesToTile rf row col = (rf_applicableTiles rf = [] \<or> (row, col) \<in> set (rf_applicableTiles rf))"

definition allocates :: "RegisterFileDesc \<Rightarrow> nat \<Rightarrow> bool" where
  "allocates rf index = (index \<in> set (rf_allocatableIndices rf))"

definition registerBank :: "TargetModel \<Rightarrow> RegisterBankDomain \<Rightarrow> nat \<Rightarrow> nat \<Rightarrow> RegisterFileDesc option" where
  "registerBank t domain row col =
     (let bank = if domain = Bank_Data then tm_dataRF t else tm_predicateRF t
      in if appliesToTile bank row col then Some bank else None)"

section \<open>Facts about the queries\<close>

lemma compatibleTiles_set:
  "set (compatibleTiles t name) = {(row, col). tileSupportsOperation t row col name}"
  by (auto simp: compatibleTiles_def tileSupportsOperation_def)

lemma tileSupports_in_array:
  "tileSupportsOperation t row col name \<Longrightarrow> row < arr_rows (tm_array t) \<and> col < arr_cols (tm_array t)"
  by (auto simp: tileSupportsOperation_def split: if_splits)

lemma executable_registered:
  "isOperationExecutable t d \<Longrightarrow> findOperation t (op_id d) = Some d"
  by (auto simp: isOperationExecutable_def compatibleResourceCount_def hasValidEncoding_def
      split: if_splits option.splits)

text \<open>C34: The contract's name tables are read back correctly: each parser inverts its printer, and
  of the sink and result-source tables accepts besides the printed name one lower-case alias per
  entry and nothing else.\<close>

theorem target_names_roundtrip:
  "(targetExecutionClassFromString s = Inr c \<longleftrightarrow> s = targetExecutionClass_toString c) \<and>
   (targetOperandRoleFromString s = Inr r \<longleftrightarrow> s = targetOperandRole_toString r) \<and>
   (targetResultRoleFromString s = Inr q \<longleftrightarrow> s = targetResultRole_toString q) \<and>
   targetControlSinkFromString (targetControlSink_toString k) = Inr k \<and>
   card {x. targetControlSinkFromString x = Inr k} = 2 \<and>
   targetResultSourceFromString (targetResultSource_toString u) = Inr u \<and>
   card {x. targetResultSourceFromString x = Inr u} = 2"
proof (intro conjI)
  show "targetExecutionClassFromString s = Inr c \<longleftrightarrow> s = targetExecutionClass_toString c"
    by (cases c) (auto simp: targetExecutionClassFromString_def)
  show "targetOperandRoleFromString s = Inr r \<longleftrightarrow> s = targetOperandRole_toString r"
    by (cases r) (auto simp: targetOperandRoleFromString_def)
  show "targetResultRoleFromString s = Inr q \<longleftrightarrow> s = targetResultRole_toString q"
    by (cases q) (auto simp: targetResultRoleFromString_def)
  show "targetControlSinkFromString (targetControlSink_toString k) = Inr k"
    by (cases k) (simp_all add: targetControlSinkFromString_def)
  show "targetResultSourceFromString (targetResultSource_toString u) = Inr u"
    by (cases u) (simp_all add: targetResultSourceFromString_def)
  have sink: "targetControlSinkFromString x = Inr k \<longleftrightarrow>
      x = targetControlSink_toString k \<or>
      x = (case k of FuDataA \<Rightarrow> ''fu_data_a'' | FuDataB \<Rightarrow> ''fu_data_b'' | FuPredicate0 \<Rightarrow> ''fu_pred_0''
           | FuPredicate1 \<Rightarrow> ''fu_pred_1'' | LsuAddress \<Rightarrow> ''lsu_address''
           | LsuStoreData \<Rightarrow> ''lsu_store_data'' | LsuCommitPredicate \<Rightarrow> ''lsu_commit_predicate'')" for x
    by (cases k) (simp_all add: targetControlSinkFromString_def)
  show "card {x. targetControlSinkFromString x = Inr k} = 2"
    unfolding sink Collect_disj_eq by (cases k) (simp_all add: card_insert_if)
  have source: "targetResultSourceFromString x = Inr u \<longleftrightarrow>
      x = targetResultSource_toString u \<or>
      x = (case u of Source_None \<Rightarrow> ''none'' | FuDataResult \<Rightarrow> ''fu_data_result''
           | FuPredicateResult \<Rightarrow> ''fu_pred_result'' | LsuLoadData \<Rightarrow> ''lsu_load_data'')" for x
    by (cases u) (simp_all add: targetResultSourceFromString_def)
  show "card {x. targetResultSourceFromString x = Inr u} = 2"
    unfolding source Collect_disj_eq by (cases u) (simp_all add: card_insert_if)
qed

end
