(* ===== verification/Target_DFG.thy ===== *)
theory Target_DFG
  imports IR_DFG Target_Model
begin

text \<open>
  The target data-flow graph and its builder (\<open>Target/TargetDFG.h\<close>, \<open>Target/TargetDFG.cpp\<close>).  Unlike
  the generic graph, ids are chosen by the caller and only nodes and edges are checked when they
  are appended; the verifier checks the rest.

  The container offers the interface \<open>keyed_append\<close> for its nodes and its edges.
\<close>

section \<open>Data\<close>

type_synonym TargetNodeId = nat
type_synonym TargetEdgeId = nat

record TargetNode =
  tn_id :: TargetNodeId
  tn_operation :: string
  tn_executionClass :: TargetExecutionClass
  tn_resultType :: ValueType
  tn_operandTypes :: "ValueType list"
  tn_issueOccupancy :: nat
  tn_resultLatency :: "nat option"
  tn_genericOrigins :: "NodeId list"
  tn_producerOutputReadyOffset :: "nat option"
  tn_accessWidthBits :: "nat option"

record TargetLiveOut =
  tl_id :: LiveOutId
  tl_type :: ValueType
  tl_name :: string
  tl_source :: TargetNodeId

record TargetOperandBinding =
  tb_node :: TargetNodeId
  tb_operand :: nat
  tb_source :: ExternalOperandBinding

record TargetEdge =
  te_id :: TargetEdgeId
  te_src :: TargetNodeId
  te_dst :: TargetNodeId
  te_distance :: nat
  te_info :: EdgeInfo

abbreviation te_kind :: "TargetEdge \<Rightarrow> EdgeKind" where
  "te_kind e \<equiv> info_kind (te_info e)"

record TargetDFG =
  td_name :: string
  td_targetName :: string
  td_nodes :: "TargetNode list"
  td_edges :: "TargetEdge list"
  td_externalValues :: "ExternalValue list"
  td_constants :: "ConstantValue list"
  td_liveOuts :: "TargetLiveOut list"
  td_bindings :: "TargetOperandBinding list"
  td_incoming :: "TargetEdgeId list list"
  td_outgoing :: "TargetEdgeId list list"
  td_nodeIndices :: "TargetNodeId \<rightharpoonup> nat"
  td_edgeIndices :: "TargetEdgeId \<rightharpoonup> nat"

section \<open>Operations\<close>

definition empty_TargetDFG :: "string \<Rightarrow> string \<Rightarrow> TargetDFG" where
  "empty_TargetDFG name targetName = \<lparr>td_name = name, td_targetName = targetName, td_nodes = [],
     td_edges = [], td_externalValues = [], td_constants = [], td_liveOuts = [], td_bindings = [],
     td_incoming = [], td_outgoing = [], td_nodeIndices = Map.empty, td_edgeIndices = Map.empty\<rparr>"

definition tdfg_containsNode :: "TargetDFG \<Rightarrow> TargetNodeId \<Rightarrow> bool" where
  "tdfg_containsNode g i = (td_nodeIndices g i \<noteq> None)"

definition tdfg_containsEdge :: "TargetDFG \<Rightarrow> TargetEdgeId \<Rightarrow> bool" where
  "tdfg_containsEdge g i = (td_edgeIndices g i \<noteq> None)"

definition tdfg_node :: "TargetDFG \<Rightarrow> TargetNodeId \<Rightarrow> TargetNode result" where
  "tdfg_node g i = at_index (td_nodes g) (td_nodeIndices g) i"

definition tdfg_edge :: "TargetDFG \<Rightarrow> TargetEdgeId \<Rightarrow> TargetEdge result" where
  "tdfg_edge g i = at_index (td_edges g) (td_edgeIndices g) i"

definition tdfg_incoming :: "TargetDFG \<Rightarrow> TargetNodeId \<Rightarrow> TargetEdgeId list result" where
  "tdfg_incoming g i = at_index (td_incoming g) (td_nodeIndices g) i"

definition tdfg_outgoing :: "TargetDFG \<Rightarrow> TargetNodeId \<Rightarrow> TargetEdgeId list result" where
  "tdfg_outgoing g i = at_index (td_outgoing g) (td_nodeIndices g) i"

definition tdfg_addNode :: "TargetNode \<Rightarrow> TargetDFG \<Rightarrow> TargetDFG result" where
  "tdfg_addNode n g =
     (if tdfg_containsNode g (tn_id n) then Inl Invalid_Argument
      else Inr (g\<lparr>td_nodeIndices := (td_nodeIndices g)(tn_id n \<mapsto> length (td_nodes g)),
                 td_nodes := td_nodes g @ [n],
                 td_incoming := td_incoming g @ [[]],
                 td_outgoing := td_outgoing g @ [[]]\<rparr>))"

definition tdfg_addEdge :: "TargetEdge \<Rightarrow> TargetDFG \<Rightarrow> TargetDFG result" where
  "tdfg_addEdge e g =
     (if tdfg_containsEdge g (te_id e) then Inl Invalid_Argument
      else case (td_nodeIndices g (te_src e), td_nodeIndices g (te_dst e)) of
        (Some s, Some t) \<Rightarrow>
          Inr (g\<lparr>td_edgeIndices := (td_edgeIndices g)(te_id e \<mapsto> length (td_edges g)),
                td_edges := td_edges g @ [e],
                td_incoming := push_at t (te_id e) (td_incoming g),
                td_outgoing := push_at s (te_id e) (td_outgoing g)\<rparr>)
      | _ \<Rightarrow> Inl Invalid_Argument)"

definition tdfg_addExternal :: "ExternalValue \<Rightarrow> TargetDFG \<Rightarrow> TargetDFG" where
  "tdfg_addExternal v g = g\<lparr>td_externalValues := td_externalValues g @ [v]\<rparr>"

definition tdfg_addConstant :: "ConstantValue \<Rightarrow> TargetDFG \<Rightarrow> TargetDFG" where
  "tdfg_addConstant v g = g\<lparr>td_constants := td_constants g @ [v]\<rparr>"

definition tdfg_addLiveOut :: "TargetLiveOut \<Rightarrow> TargetDFG \<Rightarrow> TargetDFG" where
  "tdfg_addLiveOut v g = g\<lparr>td_liveOuts := td_liveOuts g @ [v]\<rparr>"

abbreviation tbinding_key :: "TargetOperandBinding \<Rightarrow> nat \<times> nat" where
  "tbinding_key b \<equiv> (tb_node b, tb_operand b)"

definition tdfg_addBinding :: "TargetOperandBinding \<Rightarrow> TargetDFG \<Rightarrow> TargetDFG" where
  "tdfg_addBinding b g = g\<lparr>td_bindings := sort_key tbinding_key (td_bindings g @ [b])\<rparr>"

definition tdfg_equal :: "TargetDFG \<Rightarrow> TargetDFG \<Rightarrow> bool" where
  "tdfg_equal g h \<longleftrightarrow> td_name g = td_name h \<and> td_targetName g = td_targetName h \<and>
     td_nodes g = td_nodes h \<and> td_edges g = td_edges h \<and>
     td_externalValues g = td_externalValues h \<and> td_constants g = td_constants h \<and>
     td_liveOuts g = td_liveOuts h \<and> td_bindings g = td_bindings h"

section \<open>The representation invariant\<close>

definition tincoming_of :: "TargetDFG \<Rightarrow> TargetNodeId \<Rightarrow> TargetEdgeId list" where
  "tincoming_of g i = map te_id (filter (\<lambda>e. te_dst e = i) (td_edges g))"

definition toutgoing_of :: "TargetDFG \<Rightarrow> TargetNodeId \<Rightarrow> TargetEdgeId list" where
  "toutgoing_of g i = map te_id (filter (\<lambda>e. te_src e = i) (td_edges g))"

definition tdfg_inv :: "TargetDFG \<Rightarrow> bool" where
  "tdfg_inv g \<longleftrightarrow>
     index_ok tn_id (td_nodes g) (td_nodeIndices g) \<and>
     index_ok te_id (td_edges g) (td_edgeIndices g) \<and>
     td_incoming g = map (tincoming_of g \<circ> tn_id) (td_nodes g) \<and>
     td_outgoing g = map (toutgoing_of g \<circ> tn_id) (td_nodes g) \<and>
     (\<forall>e \<in> set (td_edges g). te_src e \<in> tn_id ` set (td_nodes g) \<and> te_dst e \<in> tn_id ` set (td_nodes g))"

lemma tdfg_inv_empty: "tdfg_inv (empty_TargetDFG name targetName)"
  by (simp add: tdfg_inv_def empty_TargetDFG_def)

lemma tdfg_addNode_inv:
  assumes inv: "tdfg_inv g" and app: "tdfg_addNode n g = Inr g'"
  shows "tdfg_inv g'"
proof -
  from app have fresh: "td_nodeIndices g (tn_id n) = None"
    by (auto simp: tdfg_addNode_def tdfg_containsNode_def split: if_splits)
  have new: "tn_id n \<notin> tn_id ` set (td_nodes g)"
    using fresh inv index_ok_None [of tn_id "td_nodes g" "td_nodeIndices g"] by (auto simp: tdfg_inv_def)
  have "\<forall>e \<in> set (td_edges g). te_src e \<in> tn_id ` set (td_nodes g) \<and> te_dst e \<in> tn_id ` set (td_nodes g)"
    using inv by (simp add: tdfg_inv_def)
  with new have "filter (\<lambda>e. te_dst e = tn_id n) (td_edges g) = []"
      "filter (\<lambda>e. te_src e = tn_id n) (td_edges g) = []"
    unfolding filter_empty_conv by metis+
  moreover from app fresh have "g' = g\<lparr>td_nodeIndices := (td_nodeIndices g)(tn_id n \<mapsto> length (td_nodes g)),
                 td_nodes := td_nodes g @ [n],
                 td_incoming := td_incoming g @ [[]],
                 td_outgoing := td_outgoing g @ [[]]\<rparr>"
    by (auto simp: tdfg_addNode_def tdfg_containsNode_def)
  ultimately show ?thesis
    using inv index_ok_append [of tn_id "td_nodes g" "td_nodeIndices g" n] fresh
    by (auto simp: tdfg_inv_def tincoming_of_def toutgoing_of_def comp_def)
qed

lemma tdfg_addEdge_inv:
  assumes inv: "tdfg_inv g" and app: "tdfg_addEdge e g = Inr g'"
  shows "tdfg_inv g'"
proof -
  from app obtain s t where st: "td_nodeIndices g (te_src e) = Some s" "td_nodeIndices g (te_dst e) = Some t"
      and fresh: "td_edgeIndices g (te_id e) = None"
      and g': "g' = g\<lparr>td_edgeIndices := (td_edgeIndices g)(te_id e \<mapsto> length (td_edges g)),
                td_edges := td_edges g @ [e],
                td_incoming := push_at t (te_id e) (td_incoming g),
                td_outgoing := push_at s (te_id e) (td_outgoing g)\<rparr>"
    by (auto simp: tdfg_addEdge_def tdfg_containsEdge_def split: if_splits option.splits)
  have ends: "te_src e \<in> tn_id ` set (td_nodes g)" "te_dst e \<in> tn_id ` set (td_nodes g)"
    using inv st index_ok_dom unfolding tdfg_inv_def by (metis option.distinct(1))+
  have "tincoming_of g' = (tincoming_of g)(te_dst e := tincoming_of g (te_dst e) @ [te_id e])"
       "toutgoing_of g' = (toutgoing_of g)(te_src e := toutgoing_of g (te_src e) @ [te_id e])"
    by (auto simp: g' tincoming_of_def toutgoing_of_def fun_eq_iff)
  then have "td_incoming g' = map (tincoming_of g' \<circ> tn_id) (td_nodes g')"
      "td_outgoing g' = map (toutgoing_of g' \<circ> tn_id) (td_nodes g')"
    using inv st push_at_map by (auto simp: tdfg_inv_def g')
  then show ?thesis
    using inv index_ok_append [of te_id "td_edges g" "td_edgeIndices g" e] fresh ends
    by (auto simp: g' tdfg_inv_def)
qed

lemma tdfg_inv_others [simp]:
  "tdfg_inv (tdfg_addExternal v g) = tdfg_inv g" "tdfg_inv (tdfg_addConstant c g) = tdfg_inv g"
  "tdfg_inv (tdfg_addLiveOut l g) = tdfg_inv g" "tdfg_inv (tdfg_addBinding b g) = tdfg_inv g"
  by (simp_all add: tdfg_inv_def tdfg_addExternal_def tdfg_addConstant_def tdfg_addLiveOut_def
      tdfg_addBinding_def tincoming_of_def toutgoing_of_def comp_def)

section \<open>The append interface\<close>

lemma tdfg_inv_indices:
  assumes "tdfg_inv g"
  shows "td_nodeIndices g i = None \<longleftrightarrow> i \<notin> tn_id ` set (td_nodes g)"
    and "td_edgeIndices g i = None \<longleftrightarrow> i \<notin> te_id ` set (td_edges g)"
  using assms index_ok_None by (auto simp: tdfg_inv_def)

interpretation tnodes: keyed_append tdfg_inv td_nodes tn_id "\<lambda>_ _. True" tdfg_addNode
proof unfold_locales
  fix s x
  assume inv: "tdfg_inv s"
  show "tn_id x \<notin> tn_id ` set (td_nodes s) \<Longrightarrow> True \<Longrightarrow>
    \<exists>s'. tdfg_addNode x s = Inr s' \<and> tdfg_inv s' \<and> td_nodes s' = td_nodes s @ [x] \<and>
      (\<forall>y. True \<longrightarrow> True)"
    using inv tdfg_addNode_inv [OF inv, of x] tdfg_inv_indices(1) [OF inv, of "tn_id x"]
    by (simp add: tdfg_addNode_def tdfg_containsNode_def)
  show "tn_id x \<in> tn_id ` set (td_nodes s) \<Longrightarrow> \<exists>e. tdfg_addNode x s = Inl e"
    using tdfg_inv_indices(1) [OF inv, of "tn_id x"]
    by (simp add: tdfg_addNode_def tdfg_containsNode_def)
qed

interpretation tedges: keyed_append tdfg_inv td_edges te_id
  "\<lambda>g e. te_src e \<in> tn_id ` set (td_nodes g) \<and> te_dst e \<in> tn_id ` set (td_nodes g)" tdfg_addEdge
proof unfold_locales
  fix s x
  assume inv: "tdfg_inv s"
  show "te_id x \<in> te_id ` set (td_edges s) \<Longrightarrow> \<exists>e. tdfg_addEdge x s = Inl e"
    using tdfg_inv_indices(2) [OF inv, of "te_id x"]
    by (simp add: tdfg_addEdge_def tdfg_containsEdge_def)
  assume "te_id x \<notin> te_id ` set (td_edges s)"
    "te_src x \<in> tn_id ` set (td_nodes s) \<and> te_dst x \<in> tn_id ` set (td_nodes s)"
  then obtain a b where "td_edgeIndices s (te_id x) = None" "td_nodeIndices s (te_src x) = Some a"
      "td_nodeIndices s (te_dst x) = Some b"
    using tdfg_inv_indices [OF inv] by fastforce
  then show "\<exists>s'. tdfg_addEdge x s = Inr s' \<and> tdfg_inv s' \<and> td_edges s' = td_edges s @ [x] \<and>
      (\<forall>y. te_src y \<in> tn_id ` set (td_nodes s) \<and> te_dst y \<in> tn_id ` set (td_nodes s) \<longrightarrow>
           te_src y \<in> tn_id ` set (td_nodes s') \<and> te_dst y \<in> tn_id ` set (td_nodes s'))"
    using tdfg_addEdge_inv [OF inv, of x] by (simp add: tdfg_addEdge_def tdfg_containsEdge_def)
qed

end
