(* ===== verification/Target_Verifier.thy ===== *)
theory Target_Verifier
  imports Target_DFG
begin

text \<open>
  The target graph verifier (\<open>Target/TargetDFGVerifier.h\<close>, \<open>Target/TargetDFGVerifier.cpp\<close>).  The one
  function of the source is split at its loops; each piece returns the diagnostics its loop
  appends.  The last loop reads the cached adjacency, which can raise, so the verifier returns its
  report or an exception.  Message texts are not modelled.
\<close>

section \<open>Diagnostics\<close>

datatype TargetDFGDiagnosticCode =
    TDFG_UNKNOWN_NODE | TDFG_DUPLICATE_NODE | TDFG_DUPLICATE_EDGE | TDFG_DUPLICATE_EXTERNAL
  | TDFG_DUPLICATE_CONSTANT | TDFG_DUPLICATE_LIVEOUT | TDFG_ADJACENCY_INCONSISTENT
  | TDFG_UNKNOWN_EDGE_SOURCE | TDFG_UNKNOWN_EDGE_DESTINATION | TDFG_UNKNOWN_OPERATION
  | TDFG_NO_COMPATIBLE_EXECUTION_RESOURCE | TDFG_EXECUTION_CLASS_MISMATCH
  | TDFG_ISSUE_OCCUPANCY_MISMATCH | TDFG_RESULT_LATENCY_MISMATCH
  | TDFG_PRODUCER_OUTPUT_READY_MISMATCH | TDFG_MEMORY_ACCESS_WIDTH_MISMATCH
  | TDFG_RESULT_TYPE_MISMATCH | TDFG_UNSUPPORTED_TYPE | TDFG_OPERAND_INDEX_OUT_OF_RANGE
  | TDFG_MISSING_PROVIDER | TDFG_DUPLICATE_PROVIDER | TDFG_DATA_EDGE_INVALID
  | TDFG_PREDICATE_EDGE_INVALID | TDFG_MEMORY_EDGE_INVALID | TDFG_STORE_RESULT_INVALID
  | TDFG_LOAD_RESULT_INVALID | TDFG_OPERATION_ARITY_INVALID | TDFG_OPERATION_OPERAND_INVALID
  | TDFG_BINDING_UNKNOWN_NODE | TDFG_BINDING_UNKNOWN_EXTERNAL | TDFG_BINDING_UNKNOWN_CONSTANT
  | TDFG_BINDING_TYPE_MISMATCH | TDFG_PROVENANCE_EMPTY | TDFG_PROVENANCE_UNKNOWN_GENERIC_NODE
  | TDFG_LIVEOUT_UNKNOWN_NODE | TDFG_LIVEOUT_TYPE_MISMATCH

datatype TargetDFGDiagnostic =
  TDiag TargetDFGDiagnosticCode "TargetNodeId option" "TargetEdgeId option" "nat option"

section \<open>Roles\<close>

definition isPredicate :: "ValueType \<Rightarrow> bool" where
  "isPredicate ty \<longleftrightarrow> vt_kind ty = VK_Predicate \<and> vt_bitWidth ty = 1"

definition isData :: "ValueType \<Rightarrow> bool" where
  "isData ty \<longleftrightarrow> vt_kind ty = VK_Integer \<or> vt_kind ty = VK_Float"

fun roleMatches :: "TargetOperandRole \<Rightarrow> ValueType \<Rightarrow> bool" where
  "roleMatches OperandRole_Data ty = isData ty"
| "roleMatches OperandRole_Predicate ty = isPredicate ty"
| "roleMatches OperandRole_Address ty = (vt_kind ty = VK_Integer)"

fun resultRoleMatches :: "TargetResultRole \<Rightarrow> ValueType \<Rightarrow> bool" where
  "resultRoleMatches ResultRole_Data ty = isData ty"
| "resultRoleMatches ResultRole_Predicate ty = isPredicate ty"
| "resultRoleMatches ResultRole_Void ty = (ty = voidTy)"

definition isLoadLike :: "TargetOperationDesc \<Rightarrow> bool" where
  "isLoadLike d \<longleftrightarrow> op_executionClass d = Class_LSU \<and> op_resultRole d = ResultRole_Data \<and>
     length (op_operands d) = 1 \<and> od_role (op_operands d ! 0) = OperandRole_Address"

definition isStoreLike :: "TargetOperationDesc \<Rightarrow> bool" where
  "isStoreLike d \<longleftrightarrow> op_executionClass d = Class_LSU \<and> op_resultRole d = ResultRole_Void \<and>
     length (op_operands d) \<ge> 2 \<and> od_role (op_operands d ! 0) = OperandRole_Address \<and>
     od_role (op_operands d ! 1) = OperandRole_Data"

section \<open>The loops of the verifier\<close>

abbreviation lookupTNode :: "TargetDFG \<Rightarrow> TargetNodeId \<Rightarrow> TargetNode option" where
  "lookupTNode g i \<equiv> find_by tn_id i (td_nodes g)"

definition tverify_ids :: "TargetDFG \<Rightarrow> TargetDFGDiagnostic list" where
  "tverify_ids g =
     map (\<lambda>n. TDiag TDFG_DUPLICATE_NODE (Some (tn_id n)) None None) (duplicates tn_id {} (td_nodes g)) @
     map (\<lambda>e. TDiag TDFG_DUPLICATE_EDGE None (Some (te_id e)) None) (duplicates te_id {} (td_edges g)) @
     map (\<lambda>_. TDiag TDFG_DUPLICATE_EXTERNAL None None None) (duplicates x_id {} (td_externalValues g)) @
     map (\<lambda>_. TDiag TDFG_DUPLICATE_CONSTANT None None None) (duplicates c_id {} (td_constants g)) @
     map (\<lambda>_. TDiag TDFG_DUPLICATE_LIVEOUT None None None) (duplicates tl_id {} (td_liveOuts g))"

definition tverify_binding :: "TargetDFG \<Rightarrow> TargetOperandBinding \<Rightarrow> TargetDFGDiagnostic list" where
  "tverify_binding g b =
     (case lookupTNode g (tb_node b) of
        None \<Rightarrow> [TDiag TDFG_BINDING_UNKNOWN_NODE (Some (tb_node b)) None None]
      | Some n \<Rightarrow>
          if length (tn_operandTypes n) \<le> tb_operand b
          then [TDiag TDFG_OPERAND_INDEX_OUT_OF_RANGE (Some (tb_node b)) None (Some (tb_operand b))]
          else let expected = tn_operandTypes n ! tb_operand b in
            (case tb_source b of
               ExternalValueRef i \<Rightarrow>
                 (case find_by x_id i (td_externalValues g) of
                    None \<Rightarrow> [TDiag TDFG_BINDING_UNKNOWN_EXTERNAL (Some (tb_node b)) None None]
                  | Some x \<Rightarrow> report_if (x_type x \<noteq> expected)
                      (TDiag TDFG_BINDING_TYPE_MISMATCH (Some (tb_node b)) None (Some (tb_operand b))))
             | ConstantRef i \<Rightarrow>
                 (case find_by c_id i (td_constants g) of
                    None \<Rightarrow> [TDiag TDFG_BINDING_UNKNOWN_CONSTANT (Some (tb_node b)) None None]
                  | Some c \<Rightarrow> report_if (c_type c \<noteq> expected)
                      (TDiag TDFG_BINDING_TYPE_MISMATCH (Some (tb_node b)) None (Some (tb_operand b))))))"

text \<open>The counter \<open>providers[{node, operand}]\<close> after the two loops that increment it.\<close>

definition provides_toperand :: "EdgeInfo \<Rightarrow> nat \<Rightarrow> bool" where
  "provides_toperand info k =
     (case info of
        DataEdgeInfo operand _ \<Rightarrow> operand = k
      | PredicateEdgeInfo operand _ \<Rightarrow> operand = k
      | MemoryEdgeInfo _ \<Rightarrow> False)"

definition tprovider_count :: "TargetDFG \<Rightarrow> TargetNodeId \<Rightarrow> nat \<Rightarrow> nat" where
  "tprovider_count g i k =
     length (filter (\<lambda>b. tb_node b = i \<and> tb_operand b = k \<and>
        (case lookupTNode g i of None \<Rightarrow> False | Some n \<Rightarrow> k < length (tn_operandTypes n)))
        (td_bindings g)) +
     length (filter (\<lambda>e. te_dst e = i \<and> provides_toperand (te_info e) k) (td_edges g))"

definition requiredOperands :: "TargetOperationDesc \<Rightarrow> nat" where
  "requiredOperands d = length (filter (\<lambda>x. \<not> od_optional x) (op_operands d))"

definition tverify_node_op ::
  "TargetModel \<Rightarrow> TargetOperationDesc \<Rightarrow> TargetNode \<Rightarrow> TargetDFGDiagnostic list" where
  "tverify_node_op t d n =
     (let nd = (\<lambda>c. TDiag c (Some (tn_id n)) None None) in
      report_if (\<not> isOperationExecutable t d) (nd TDFG_NO_COMPATIBLE_EXECUTION_RESOURCE) @
      report_if (op_executionClass d \<noteq> tn_executionClass n) (nd TDFG_EXECUTION_CLASS_MISMATCH) @
      report_if (op_issueOccupancy d \<noteq> tn_issueOccupancy n) (nd TDFG_ISSUE_OCCUPANCY_MISMATCH) @
      report_if (op_resultLatency d \<noteq> tn_resultLatency n) (nd TDFG_RESULT_LATENCY_MISMATCH) @
      report_if (op_producerOutputReadyOffset d \<noteq> tn_producerOutputReadyOffset n)
        (nd TDFG_PRODUCER_OUTPUT_READY_MISMATCH) @
      report_if (op_accessWidthBits d \<noteq> tn_accessWidthBits n) (nd TDFG_MEMORY_ACCESS_WIDTH_MISMATCH) @
      report_if (op_resultType d \<noteq> tn_resultType n) (nd TDFG_RESULT_TYPE_MISMATCH) @
      report_if (\<not> resultRoleMatches (op_resultRole d) (tn_resultType n)) (nd TDFG_RESULT_TYPE_MISMATCH) @
      report_if (isStoreLike d \<and> tn_resultType n \<noteq> voidTy) (nd TDFG_STORE_RESULT_INVALID) @
      report_if (isLoadLike d \<and> (tn_resultType n = voidTy \<or> tn_resultLatency n = None))
        (nd TDFG_LOAD_RESULT_INVALID) @
      report_if (length (tn_operandTypes n) < requiredOperands d \<or>
                 length (tn_operandTypes n) > length (op_operands d)) (nd TDFG_OPERATION_ARITY_INVALID) @
      report_if (\<not> supportsValueType t (tn_resultType n)) (nd TDFG_UNSUPPORTED_TYPE) @
      concat (map (\<lambda>k.
        report_if (\<not> supportsValueType t (tn_operandTypes n ! k))
          (TDiag TDFG_UNSUPPORTED_TYPE (Some (tn_id n)) None (Some k)) @
        report_if (k \<ge> length (op_operands d) \<or>
                   \<not> roleMatches (od_role (op_operands d ! k)) (tn_operandTypes n ! k))
          (TDiag TDFG_OPERATION_OPERAND_INVALID (Some (tn_id n)) None (Some k)))
        [0..<length (tn_operandTypes n)]))"

definition tverify_node ::
  "TargetDFG \<Rightarrow> TargetModel \<Rightarrow> DFG option \<Rightarrow> TargetNode \<Rightarrow> TargetDFGDiagnostic list" where
  "tverify_node g t generic n =
     (case findOperation t (tn_operation n) of
        None \<Rightarrow> [TDiag TDFG_UNKNOWN_OPERATION (Some (tn_id n)) None None]
      | Some d \<Rightarrow>
          tverify_node_op t d n @
          report_if (tn_genericOrigins n = []) (TDiag TDFG_PROVENANCE_EMPTY (Some (tn_id n)) None None) @
          (case generic of
             None \<Rightarrow> []
           | Some gg \<Rightarrow> concat (map (\<lambda>origin. report_if (\<not> containsNode gg origin)
               (TDiag TDFG_PROVENANCE_UNKNOWN_GENERIC_NODE (Some (tn_id n)) None None))
               (tn_genericOrigins n))) @
          concat (map (\<lambda>k.
            if tprovider_count g (tn_id n) k = 0
            then [TDiag TDFG_MISSING_PROVIDER (Some (tn_id n)) None (Some k)]
            else report_if (tprovider_count g (tn_id n) k > 1)
              (TDiag TDFG_DUPLICATE_PROVIDER (Some (tn_id n)) None (Some k)))
            [0..<length (tn_operandTypes n)]))"

definition tverify_data_edge ::
  "TargetOperationDesc option \<Rightarrow> TargetOperationDesc option \<Rightarrow> nat \<Rightarrow> TargetNode \<Rightarrow> TargetNode \<Rightarrow> bool" where
  "tverify_data_edge srcOp dstOp k src dst \<longleftrightarrow>
     k \<ge> length (tn_operandTypes dst) \<or>
     (case dstOp of None \<Rightarrow> True
      | Some d \<Rightarrow> k < length (op_operands d) \<and> od_role (op_operands d ! k) \<noteq> OperandRole_Data \<and>
                 od_role (op_operands d ! k) \<noteq> OperandRole_Address) \<or>
     (case srcOp of None \<Rightarrow> True | Some d \<Rightarrow> op_resultRole d \<noteq> ResultRole_Data) \<or>
     (k < length (tn_operandTypes dst) \<and> tn_resultType src \<noteq> tn_operandTypes dst ! k)"

definition tverify_predicate_edge ::
  "TargetOperationDesc option \<Rightarrow> TargetOperationDesc option \<Rightarrow> nat \<Rightarrow> TargetNode \<Rightarrow> bool" where
  "tverify_predicate_edge srcOp dstOp k dst \<longleftrightarrow>
     k \<ge> length (tn_operandTypes dst) \<or>
     (case dstOp of None \<Rightarrow> True
      | Some d \<Rightarrow> k < length (op_operands d) \<and> od_role (op_operands d ! k) \<noteq> OperandRole_Predicate) \<or>
     (case srcOp of None \<Rightarrow> True | Some d \<Rightarrow> op_resultRole d \<noteq> ResultRole_Predicate) \<or>
     \<not> isPredicate (tn_operandTypes dst ! k)"

definition memory_edge_valid ::
  "MemoryDepKind \<Rightarrow> TargetOperationDesc option \<Rightarrow> TargetOperationDesc option \<Rightarrow> bool" where
  "memory_edge_valid dep srcOp dstOp \<longleftrightarrow>
     (case (srcOp, dstOp) of
        (Some s, Some d) \<Rightarrow>
          (dep = RAW \<and> isStoreLike s \<and> isLoadLike d) \<or> (dep = WAR \<and> isLoadLike s \<and> isStoreLike d) \<or>
          (dep = WAW \<and> isStoreLike s \<and> isStoreLike d)
      | _ \<Rightarrow> False)"

definition tverify_edge :: "TargetDFG \<Rightarrow> TargetModel \<Rightarrow> TargetEdge \<Rightarrow> TargetDFGDiagnostic list" where
  "tverify_edge g t e =
     (case lookupTNode g (te_src e) of
        None \<Rightarrow> [TDiag TDFG_UNKNOWN_EDGE_SOURCE None (Some (te_id e)) None]
      | Some src \<Rightarrow>
          (case lookupTNode g (te_dst e) of
             None \<Rightarrow> [TDiag TDFG_UNKNOWN_EDGE_DESTINATION None (Some (te_id e)) None]
           | Some dst \<Rightarrow>
               let srcOp = findOperation t (tn_operation src);
                   dstOp = findOperation t (tn_operation dst)
               in (case te_info e of
                     DataEdgeInfo k _ \<Rightarrow> report_if (tverify_data_edge srcOp dstOp k src dst)
                       (TDiag TDFG_DATA_EDGE_INVALID (Some (tn_id dst)) (Some (te_id e)) (Some k))
                   | PredicateEdgeInfo k _ \<Rightarrow> report_if (tverify_predicate_edge srcOp dstOp k dst)
                       (TDiag TDFG_PREDICATE_EDGE_INVALID (Some (tn_id dst)) (Some (te_id e)) (Some k))
                   | MemoryEdgeInfo dep \<Rightarrow> report_if (\<not> memory_edge_valid dep srcOp dstOp)
                       (TDiag TDFG_MEMORY_EDGE_INVALID (Some (tn_id dst)) (Some (te_id e)) None))))"

definition tverify_liveOut :: "TargetDFG \<Rightarrow> TargetModel \<Rightarrow> TargetLiveOut \<Rightarrow> TargetDFGDiagnostic list" where
  "tverify_liveOut g t l =
     (case lookupTNode g (tl_source l) of
        None \<Rightarrow> [TDiag TDFG_LIVEOUT_UNKNOWN_NODE None None None]
      | Some n \<Rightarrow> report_if (tn_resultType n \<noteq> tl_type l)
          (TDiag TDFG_LIVEOUT_TYPE_MISMATCH (Some (tl_source l)) None None)) @
     report_if (\<not> supportsValueType t (tl_type l))
       (TDiag TDFG_UNSUPPORTED_TYPE (Some (tl_source l)) None None)"

definition tverify_adjacency :: "TargetDFG \<Rightarrow> TargetNode \<Rightarrow> TargetDFGDiagnostic list result" where
  "tverify_adjacency g n =
     (let known = (\<lambda>e. lookupTNode g (te_src e) \<noteq> None \<and> lookupTNode g (te_dst e) \<noteq> None);
          expectedIncoming = map te_id (filter (\<lambda>e. te_dst e = tn_id n \<and> known e) (td_edges g));
          expectedOutgoing = map te_id (filter (\<lambda>e. te_src e = tn_id n \<and> known e) (td_edges g))
      in bindR (tdfg_incoming g (tn_id n)) (\<lambda>actualIncoming.
         bindR (tdfg_outgoing g (tn_id n)) (\<lambda>actualOutgoing.
           Inr (report_if (actualIncoming \<noteq> expectedIncoming \<or> actualOutgoing \<noteq> expectedOutgoing)
             (TDiag TDFG_ADJACENCY_INCONSISTENT (Some (tn_id n)) None None)))))"

definition tdfg_verify ::
  "TargetDFG \<Rightarrow> TargetModel \<Rightarrow> DFG option \<Rightarrow> TargetDFGDiagnostic list result" where
  "tdfg_verify g t generic =
     bindR (foldR (\<lambda>ds n. bindR (tverify_adjacency g n) (\<lambda>ds'. Inr (ds @ ds'))) [] (td_nodes g)) (\<lambda>adj.
       Inr (tverify_ids g @
            concat (map (tverify_binding g) (td_bindings g)) @
            concat (map (\<lambda>v. report_if (\<not> supportsValueType t (x_type v))
              (TDiag TDFG_UNSUPPORTED_TYPE None None None)) (td_externalValues g)) @
            concat (map (\<lambda>v. report_if (\<not> supportsValueType t (c_type v))
              (TDiag TDFG_UNSUPPORTED_TYPE None None None)) (td_constants g)) @
            concat (map (tverify_node g t generic) (td_nodes g)) @
            concat (map (tverify_edge g t) (td_edges g)) @
            concat (map (tverify_liveOut g t) (td_liveOuts g)) @
            adj))"

end
