(* ===== verification/Example.thy ===== *)
theory Example
  imports IR_Builder Target_Model
begin

text \<open>
  A small concrete input that the witnesses evaluate: a target with a 1 x 2 array whose tiles can
  add, and a two-node graph built with the builder, whose second node adds its own result of the
  previous iteration.
\<close>

definition demo_op :: TargetOperationDesc where
  "demo_op = \<lparr>op_id = ''ADD'', op_executionClass = Class_FU,
     op_operands = [\<lparr>od_role = OperandRole_Data, od_optional = False\<rparr>,
                    \<lparr>od_role = OperandRole_Data, od_optional = False\<rparr>],
     op_resultRole = ResultRole_Data, op_resultType = i32Ty, op_issueOccupancy = 1,
     op_resultLatency = Some 1, op_producerOutputReadyOffset = Some 1, op_accessWidthBits = None,
     op_encoding = Some \<lparr>er_domain = ''op'', er_symbol = ''ADD''\<rparr>,
     op_operandSinks = [(0, FuDataA), (1, FuDataB)], op_resultSource = FuDataResult\<rparr>"

definition demo_target :: TargetModel where
  "demo_target = \<lparr>tm_name = ''demo'',
     tm_array = \<lparr>arr_rows = 1, arr_cols = 2, arr_dataWidth = 32, arr_predicateWidth = 1, arr_hardwareBranch = False\<rparr>,
     tm_dataRF = \<lparr>rf_id = ''d'', rf_domain = Bank_Data, rf_depth = 4, rf_readPorts = 2, rf_writePorts = 2,
        rf_sameCycleReadWriteSameAddress = ''forbidden'', rf_sameCycleMultiwriteSameAddress = ''forbidden'',
        rf_sameAddressReadWritePolicy = RW_Forbidden, rf_allocatableIndices = [0, 1], rf_applicableTiles = [],
        rf_writePortSources = [''W0'' \<mapsto> [''FU_DATA_RESULT''],
          ''W1'' \<mapsto> [''CONST_DATA'', ''NORTH_DATA_IN'', ''SOUTH_DATA_IN'', ''EAST_DATA_IN'', ''WEST_DATA_IN'']]\<rparr>,
     tm_predicateRF = \<lparr>rf_id = ''p'', rf_domain = Bank_Predicate, rf_depth = 4, rf_readPorts = 2, rf_writePorts = 2,
        rf_sameCycleReadWriteSameAddress = ''forbidden'', rf_sameCycleMultiwriteSameAddress = ''forbidden'',
        rf_sameAddressReadWritePolicy = RW_Forbidden, rf_allocatableIndices = [0], rf_applicableTiles = [],
        rf_writePortSources = [''W0'' \<mapsto> [''FU_PRED_RESULT''], ''W1'' \<mapsto> [''CONST_TRUE'', ''CONST_FALSE'']]\<rparr>,
     tm_interconnect = \<lparr>ic_topology = ''mesh_2d'', ic_registeredLinks = True, ic_hopLatency = 1, ic_inputBuffering = False,
        ic_runtimeArbitration = False, ic_compilerRouted = True, ic_separateResourceDomain = True,
        ic_channelsPerDirectionPerLink = 1\<rparr>,
     tm_memory = \<lparr>mem_depth = 16, mem_widthBits = 32, mem_ports = 1, mem_loadLatency = 2,
        mem_maxIssuePerLsuPerCycle = 1, mem_maxIssuePerPortPerCycle = 1, mem_rawDependenceSeparation = 1,
        mem_warDependenceSeparation = 1, mem_wawDependenceSeparation = 1\<rparr>,
     tm_controlLayout = \<lparr>cl_rawWidth = 0, cl_physicalWidth = 0, cl_chunks = 4, cl_chunkBits = 32, cl_paddingLsb = 0,
        cl_paddingWidth = 0, cl_paddingValue = 0, cl_fields = [], cl_fieldIndices = Map.empty\<rparr>,
     tm_constantMemoryDepth = 4, tm_lsuTiles = [],
     tm_encodings = [''op'' \<mapsto> [''ADD'' \<mapsto> 1]], tm_reverseEncodings = [''op'' \<mapsto> [1 \<mapsto> ''ADD'']],
     tm_operations = [demo_op], tm_operationIndices = [''ADD'' \<mapsto> 0],
     tm_defaultFuOperations = {''ADD''}, tm_tileOperationOverrides = Map.empty\<rparr>"

definition demo_dfg :: DFG where
  "demo_dfg = bld_dfg (fold (\<lambda>c b. fst (builder_call c b))
     [AddExternal ''x'' i32Ty, AddConstant i32Ty 1, AddNode Add [i32Ty, i32Ty] i32Ty None None None,
      AddNode Add [i32Ty, i32Ty] i32Ty None None None,
      BindExternal 0 0 0, BindConstant 0 1 0, AddDataEdge 0 1 0 0 None, 
      AddDataEdge 1 1 1 1 (Some [\<lparr>bv_iterationOffset = 0, bv_value = ConstantRef 0\<rparr>]), AddLiveOut ''y'' i32Ty 1]
     (new_DFGBuilder ''g''))"

end
