(* ===== verification/Target_Legalizer.thy ===== *)
theory Target_Legalizer
  imports Target_Verifier IR_WellFormed Example
begin

text \<open>
  Legalisation of a generic graph to a target graph (\<open>Target/TargetLegalizer.h\<close>,
  \<open>Target/TargetLegalizer.cpp\<close>): a preflight over values and nodes that either reports or plans one
  target operation per node, then the materialisation of the target graph with new ids and the map
  from generic to target nodes.  Reads of the map and of the graph may raise.
\<close>

section \<open>The preflight\<close>

datatype LegalizationStatus =
    Leg_Success | Leg_InvalidGenericDFG | Leg_UnsupportedType | Leg_UnsupportedOperation
  | Leg_UnsupportedComparePredicate | Leg_UnsupportedMemoryAccessWidth
  | Leg_NoCompatibleExecutionResource | Leg_TargetContractError | Leg_InternalError

record LegalizationDiagnostic =
  ld_status :: LegalizationStatus
  ld_code :: string
  ld_genericNode :: "NodeId option"

record TargetLegalizationResult =
  lr_dfg :: "TargetDFG option"
  lr_map :: "NodeId \<rightharpoonup> TargetNodeId list"
  lr_diagnostics :: "LegalizationDiagnostic list"

definition legalization_ok :: "TargetLegalizationResult \<Rightarrow> bool" where
  "legalization_ok r \<longleftrightarrow> lr_dfg r \<noteq> None \<and> lr_diagnostics r = []"

fun compare_operation :: "ICmpPredicate \<Rightarrow> string" where
  "compare_operation EQ = ''CMP_EQ''" | "compare_operation NE = ''CMP_NE''"
| "compare_operation ULT = ''CMP_ULT''" | "compare_operation ULE = ''CMP_ULE''"
| "compare_operation UGT = ''CMP_UGT''" | "compare_operation UGE = ''CMP_UGE''"
| "compare_operation SLT = ''CMP_SLT''" | "compare_operation SLE = ''CMP_SLE''"
| "compare_operation SGT = ''CMP_SGT''" | "compare_operation SGE = ''CMP_SGE''"

definition operationFor :: "Node \<Rightarrow> string" where
  "operationFor n =
     (case n_opcode n of
        Add \<Rightarrow> ''ADD'' | Sub \<Rightarrow> ''SUB'' | Mul \<Rightarrow> ''MUL'' | And \<Rightarrow> ''AND'' | Or \<Rightarrow> ''OR'' | Xor \<Rightarrow> ''XOR''
      | Shl \<Rightarrow> ''SHL'' | LShr \<Rightarrow> ''LSHR'' | AShr \<Rightarrow> ''ASHR'' | Select \<Rightarrow> ''SELECT'' | Load \<Rightarrow> ''LOAD''
      | Store \<Rightarrow> ''STORE''
      | ICmp \<Rightarrow> (case n_icmpPredicate n of None \<Rightarrow> [] | Some p \<Rightarrow> compare_operation p))"

definition leg_diag :: "LegalizationStatus \<Rightarrow> string \<Rightarrow> NodeId option \<Rightarrow> LegalizationDiagnostic" where
  "leg_diag st code node = \<lparr>ld_status = st, ld_code = code, ld_genericNode = node\<rparr>"

text \<open>One iteration of the loop over the nodes: a diagnostic, or the planned operation.\<close>

definition plan_node :: "TargetModel \<Rightarrow> Node \<Rightarrow> LegalizationDiagnostic + TargetOperationDesc" where
  "plan_node t n =
     (if \<not> (supportsValueType t (n_resultType n) \<and> list_all (supportsValueType t) (n_operandTypes n))
      then Inl (leg_diag Leg_UnsupportedType ''TLEG_UNSUPPORTED_TYPE'' (Some (n_id n)))
      else if operationFor n = [] then
        Inl (if n_opcode n = ICmp
             then leg_diag Leg_UnsupportedComparePredicate ''TLEG_UNSUPPORTED_ICMP_PREDICATE'' (Some (n_id n))
             else leg_diag Leg_UnsupportedOperation ''TLEG_UNSUPPORTED_OPCODE'' (Some (n_id n)))
      else case findOperation t (operationFor n) of
        None \<Rightarrow>
          Inl (if n_opcode n = ICmp
               then leg_diag Leg_UnsupportedComparePredicate ''TLEG_UNSUPPORTED_ICMP_PREDICATE'' (Some (n_id n))
               else leg_diag Leg_UnsupportedOperation ''TLEG_MISSING_TARGET_OPERATION'' (Some (n_id n)))
      | Some d \<Rightarrow>
          if \<not> isOperationExecutable t d then
            Inl (leg_diag Leg_NoCompatibleExecutionResource ''TLEG_NO_COMPATIBLE_EXECUTION_RESOURCE'' (Some (n_id n)))
          else if (n_opcode n = Load \<or> n_opcode n = Store) \<and>
               (case (n_memoryInfo n, op_accessWidthBits d) of
                  (Some mi, Some w) \<Rightarrow> mi_accessWidthBits mi \<noteq> w | _ \<Rightarrow> True) then
            Inl (leg_diag Leg_UnsupportedMemoryAccessWidth ''TLEG_UNSUPPORTED_MEMORY_ACCESS_WIDTH'' (Some (n_id n)))
          else if length (n_operandTypes n) < requiredOperands d \<or>
               length (n_operandTypes n) > length (op_operands d) then
            Inl (leg_diag Leg_TargetContractError ''TLEG_INVALID_TARGET_OPERATION_DESC'' (Some (n_id n)))
          else if (\<exists>k < length (n_operandTypes n).
                     \<not> roleMatches (od_role (op_operands d ! k)) (n_operandTypes n ! k)) \<or>
               \<not> resultRoleMatches (op_resultRole d) (n_resultType n) then
            Inl (leg_diag Leg_TargetContractError ''TLEG_INVALID_TARGET_OPERATION_DESC'' (Some (n_id n)))
          else if op_resultType d \<noteq> n_resultType n then
            Inl (leg_diag Leg_TargetContractError ''TLEG_INVALID_TARGET_OPERATION_DESC'' (Some (n_id n)))
          else Inr d)"

definition preflight :: "DFG \<Rightarrow> TargetModel \<Rightarrow> LegalizationDiagnostic list" where
  "preflight g t =
     concat (map (\<lambda>v. report_if (\<not> supportsValueType t (x_type v))
       (leg_diag Leg_UnsupportedType ''TLEG_UNSUPPORTED_TYPE'' None)) (d_externalValues g)) @
     concat (map (\<lambda>v. report_if (\<not> supportsValueType t (c_type v))
       (leg_diag Leg_UnsupportedType ''TLEG_UNSUPPORTED_TYPE'' None)) (d_constants g)) @
     concat (map (\<lambda>n. case plan_node t n of Inl ds \<Rightarrow> [ds] | Inr _ \<Rightarrow> []) (d_nodes g)) @
     concat (map (\<lambda>v. report_if (\<not> supportsValueType t (l_type v))
       (leg_diag Leg_UnsupportedType ''TLEG_UNSUPPORTED_TYPE'' (Some (l_source v)))) (d_liveOuts g))"

definition planned :: "DFG \<Rightarrow> TargetModel \<Rightarrow> (NodeId \<times> TargetOperationDesc) list" where
  "planned g t =
     concat (map (\<lambda>n. case plan_node t n of Inl _ \<Rightarrow> [] | Inr d \<Rightarrow> [(n_id n, d)]) (d_nodes g))"

section \<open>Materialisation\<close>

definition mk_targetNode :: "nat \<Rightarrow> Node \<Rightarrow> TargetOperationDesc \<Rightarrow> TargetNode" where
  "mk_targetNode i source d =
     \<lparr>tn_id = i, tn_operation = op_id d, tn_executionClass = op_executionClass d,
      tn_resultType = n_resultType source, tn_operandTypes = n_operandTypes source,
      tn_issueOccupancy = op_issueOccupancy d, tn_resultLatency = op_resultLatency d,
      tn_genericOrigins = [n_id source],
      tn_producerOutputReadyOffset = op_producerOutputReadyOffset d,
      tn_accessWidthBits = op_accessWidthBits d\<rparr>"

definition materializeNode ::
  "DFG \<Rightarrow> TargetDFG \<times> (NodeId \<rightharpoonup> TargetNodeId list) \<times> nat \<Rightarrow> NodeId \<times> TargetOperationDesc \<Rightarrow>
   (TargetDFG \<times> (NodeId \<rightharpoonup> TargetNodeId list) \<times> nat) result" where
  "materializeNode g st item =
     (case (st, item) of ((dfg, m, nextNode), (i, d)) \<Rightarrow>
        bindR (dfg_node g i) (\<lambda>source.
        bindR (tdfg_addNode (mk_targetNode nextNode source d) dfg) (\<lambda>dfg'.
          Inr (dfg', m(i \<mapsto> (case m i of None \<Rightarrow> [] | Some ts \<Rightarrow> ts) @ [nextNode]),
               wrap32 (nextNode + 1)))))"

definition map_front :: "(NodeId \<rightharpoonup> TargetNodeId list) \<Rightarrow> NodeId \<Rightarrow> TargetNodeId result" where
  "map_front m i = (case m i of None \<Rightarrow> Inl Out_Of_Range | Some ts \<Rightarrow> Inr (hd ts))"

definition materializeEdge ::
  "(NodeId \<rightharpoonup> TargetNodeId list) \<Rightarrow> TargetDFG \<times> nat \<Rightarrow> Edge \<Rightarrow> (TargetDFG \<times> nat) result" where
  "materializeEdge m st e =
     (case st of (dfg, nextEdge) \<Rightarrow>
        bindR (map_front m (e_src e)) (\<lambda>src.
        bindR (map_front m (e_dst e)) (\<lambda>dst.
        bindR (tdfg_addEdge \<lparr>te_id = nextEdge, te_src = src, te_dst = dst,
                 te_distance = e_distance e, te_info = e_info e\<rparr> dfg) (\<lambda>dfg'.
          Inr (dfg', wrap32 (nextEdge + 1))))))"

definition materializeBinding ::
  "(NodeId \<rightharpoonup> TargetNodeId list) \<Rightarrow> TargetDFG \<Rightarrow> OperandBinding \<Rightarrow> TargetDFG result" where
  "materializeBinding m dfg b =
     bindR (map_front m (b_node b)) (\<lambda>i.
       Inr (tdfg_addBinding \<lparr>tb_node = i, tb_operand = b_operand b, tb_source = b_source b\<rparr> dfg))"

definition materializeLiveOut ::
  "(NodeId \<rightharpoonup> TargetNodeId list) \<Rightarrow> TargetDFG \<Rightarrow> LiveOut \<Rightarrow> TargetDFG result" where
  "materializeLiveOut m dfg l =
     bindR (map_front m (l_source l)) (\<lambda>i.
       Inr (tdfg_addLiveOut \<lparr>tl_id = l_id l, tl_type = l_type l, tl_name = l_name l, tl_source = i\<rparr> dfg))"

definition legalize :: "DFG \<Rightarrow> TargetModel \<Rightarrow> TargetLegalizationResult result" where
  "legalize g t =
     (if \<not> report_ok (dfg_verify g) then
        Inr \<lparr>lr_dfg = None, lr_map = Map.empty,
             lr_diagnostics = [leg_diag Leg_InvalidGenericDFG ''TLEG_INVALID_GENERIC_DFG'' None]\<rparr>
      else if preflight g t \<noteq> [] then
        Inr \<lparr>lr_dfg = None, lr_map = Map.empty, lr_diagnostics = preflight g t\<rparr>
      else
        let dfg0 = fold tdfg_addConstant (d_constants g)
                     (fold tdfg_addExternal (d_externalValues g)
                       (empty_TargetDFG (d_name g) (tm_name t)))
        in bindR (foldR (materializeNode g) (dfg0, Map.empty, 0) (planned g t)) (\<lambda>(dfg1, m, _).
           bindR (foldR (materializeEdge m) (dfg1, 0) (d_edges g)) (\<lambda>(dfg2, _).
           bindR (foldR (materializeBinding m) dfg2 (d_bindings g)) (\<lambda>dfg3.
           bindR (foldR (materializeLiveOut m) dfg3 (d_liveOuts g)) (\<lambda>dfg4.
             Inr \<lparr>lr_dfg = Some dfg4, lr_map = m, lr_diagnostics = []\<rparr>)))))"

section \<open>What is materialised\<close>

text \<open>The position of a generic node, which is the id of its target node.\<close>

definition pos :: "DFG \<Rightarrow> NodeId \<Rightarrow> nat" where
  "pos g i = length (takeWhile (\<lambda>n. n_id n \<noteq> i) (d_nodes g))"

definition op_of :: "TargetModel \<Rightarrow> Node \<Rightarrow> TargetOperationDesc" where
  "op_of t n = projr (plan_node t n)"

definition target_nodes :: "DFG \<Rightarrow> TargetModel \<Rightarrow> nat \<Rightarrow> TargetNode list" where
  "target_nodes g t p =
     map (\<lambda>k. mk_targetNode k (d_nodes g ! k) (op_of t (d_nodes g ! k))) [0..<p]"

definition target_edge :: "DFG \<Rightarrow> nat \<Rightarrow> TargetEdge" where
  "target_edge g j = (let e = d_edges g ! j in
     \<lparr>te_id = j, te_src = pos g (e_src e), te_dst = pos g (e_dst e), te_distance = e_distance e,
      te_info = e_info e\<rparr>)"

definition target_binding :: "DFG \<Rightarrow> OperandBinding \<Rightarrow> TargetOperandBinding" where
  "target_binding g b = \<lparr>tb_node = pos g (b_node b), tb_operand = b_operand b, tb_source = b_source b\<rparr>"

definition target_liveOut :: "DFG \<Rightarrow> LiveOut \<Rightarrow> TargetLiveOut" where
  "target_liveOut g l = \<lparr>tl_id = l_id l, tl_type = l_type l, tl_name = l_name l,
     tl_source = pos g (l_source l)\<rparr>"

lemma pos_nth:
  assumes "distinct (map n_id (d_nodes g))" and "k < length (d_nodes g)"
  shows "pos g (n_id (d_nodes g ! k)) = k"
proof -
  have "takeWhile (\<lambda>n. n_id n \<noteq> n_id (xs ! k)) xs = take k xs" if "distinct (map n_id xs)" "k < length xs"
    for xs :: "Node list" and k
  proof (rule takeWhile_eq_take_P_nth)
    fix i assume "i < k" "i < length xs"
    with that show "n_id (xs ! i) \<noteq> n_id (xs ! k)" by (simp add: distinct_conv_nth)
  qed simp
  from this [OF assms] assms(2) show ?thesis by (simp add: pos_def)
qed

lemma pos_lookup:
  assumes "lookupNode g i = Some n"
  shows "pos g i < length (d_nodes g)" and "d_nodes g ! pos g i = n"
proof -
  have "length (takeWhile (\<lambda>n. n_id n \<noteq> i) xs) < length xs \<and> xs ! length (takeWhile (\<lambda>n. n_id n \<noteq> i) xs) = n"
    if "find_by n_id i xs = Some n" for xs
    using that by (induction xs) (auto split: if_splits)
  from this [OF assms] show "pos g i < length (d_nodes g)" "d_nodes g ! pos g i = n"
    by (simp_all add: pos_def)
qed

lemma preflight_Nil:
  "preflight g t = [] \<longleftrightarrow>
     (\<forall>x \<in> set (d_externalValues g). supportsValueType t (x_type x)) \<and>
     (\<forall>c \<in> set (d_constants g). supportsValueType t (c_type c)) \<and>
     (\<forall>n \<in> set (d_nodes g). plan_node t n = Inr (op_of t n)) \<and>
     (\<forall>l \<in> set (d_liveOuts g). supportsValueType t (l_type l))"
proof -
  have "(case plan_node t n of Inl ds \<Rightarrow> [ds] | Inr _ \<Rightarrow> []) = [] \<longleftrightarrow> plan_node t n = Inr (op_of t n)" for n
    by (auto simp: op_of_def split: sum.splits)
  then show ?thesis
    unfolding preflight_def append_is_Nil_conv concat_map_Nil report_if_Nil by simp
qed

lemma planned_eq:
  assumes "\<forall>n \<in> set (d_nodes g). plan_node t n = Inr (op_of t n)"
  shows "planned g t = map (\<lambda>n. (n_id n, op_of t n)) (d_nodes g)"
proof -
  have "concat (map (\<lambda>n. case plan_node t n of Inl _ \<Rightarrow> [] | Inr d \<Rightarrow> [(n_id n, d)]) ns) =
        map (\<lambda>n. (n_id n, op_of t n)) ns" if "\<forall>n \<in> set ns. plan_node t n = Inr (op_of t n)" for ns
    using that by (induction ns) auto
  with assms show ?thesis by (simp add: planned_def)
qed

text \<open>The loops, by the length of the prefix already processed.\<close>

abbreviation same_values :: "TargetDFG \<Rightarrow> TargetDFG \<Rightarrow> bool" where
  "same_values d d' \<equiv> td_externalValues d' = td_externalValues d \<and> td_constants d' = td_constants d \<and>
     td_name d' = td_name d \<and> td_targetName d' = td_targetName d"

lemma tdfg_addNode_fresh:
  assumes "tdfg_inv d" and "tn_id n \<notin> tn_id ` set (td_nodes d)"
  shows "\<exists>d'. tdfg_addNode n d = Inr d' \<and> tdfg_inv d' \<and> td_nodes d' = td_nodes d @ [n] \<and>
     td_edges d' = td_edges d \<and> td_bindings d' = td_bindings d \<and> td_liveOuts d' = td_liveOuts d \<and>
     same_values d d'"
  using tnodes.append_fresh [OF assms] by (auto simp: tdfg_addNode_def split: if_splits)

lemma tdfg_addEdge_fresh:
  assumes "tdfg_inv d" and "te_id e \<notin> te_id ` set (td_edges d)"
    and "te_src e \<in> tn_id ` set (td_nodes d)" and "te_dst e \<in> tn_id ` set (td_nodes d)"
  shows "\<exists>d'. tdfg_addEdge e d = Inr d' \<and> tdfg_inv d' \<and> td_edges d' = td_edges d @ [e] \<and>
     td_nodes d' = td_nodes d \<and> td_bindings d' = td_bindings d \<and> td_liveOuts d' = td_liveOuts d \<and>
     same_values d d'"
  using tedges.append_fresh [OF assms(1,2)] assms(3,4)
  by (auto simp: tdfg_addEdge_def split: if_splits option.splits)

lemma materialize_nodes:
  assumes wf: "indices_ok g" and inv: "tdfg_inv d0" and empty: "td_nodes d0 = []"
    and p: "p \<le> length (d_nodes g)" and small: "length (d_nodes g) < 4294967296"
  shows "\<exists>d. foldR (materializeNode g) (d0, Map.empty, 0)
               (map (\<lambda>n. (n_id n, op_of t n)) (take p (d_nodes g))) =
             Inr (d, (\<lambda>i. if i \<in> n_id ` set (take p (d_nodes g)) then Some [pos g i] else None), p) \<and>
           tdfg_inv d \<and> td_nodes d = target_nodes g t p \<and> td_edges d = td_edges d0 \<and>
           td_bindings d = td_bindings d0 \<and> td_liveOuts d = td_liveOuts d0 \<and> same_values d0 d"
  using p
proof (induction p)
  case 0
  with inv empty show ?case by (simp add: target_nodes_def)
next
  case (Suc p)
  let ?n = "d_nodes g ! p"
  have dist: "distinct (map n_id (d_nodes g))" using wf by (simp add: indices_ok_def)
  from Suc obtain d where d: "foldR (materializeNode g) (d0, Map.empty, 0)
               (map (\<lambda>n. (n_id n, op_of t n)) (take p (d_nodes g))) =
             Inr (d, (\<lambda>i. if i \<in> n_id ` set (take p (d_nodes g)) then Some [pos g i] else None), p)"
      "tdfg_inv d" "td_nodes d = target_nodes g t p" "td_edges d = td_edges d0"
      "td_bindings d = td_bindings d0" "td_liveOuts d = td_liveOuts d0" "same_values d0 d" by auto
  have node: "dfg_node g (n_id ?n) = Inr ?n" using wf Suc.prems by (simp add: indices_ok_def)
  have "p \<notin> tn_id ` set (td_nodes d)" by (auto simp: d(3) target_nodes_def mk_targetNode_def)
  then obtain d' where d': "tdfg_addNode (mk_targetNode p ?n (op_of t ?n)) d = Inr d'" "tdfg_inv d'"
      "td_nodes d' = td_nodes d @ [mk_targetNode p ?n (op_of t ?n)]" "td_edges d' = td_edges d"
      "td_bindings d' = td_bindings d" "td_liveOuts d' = td_liveOuts d" "same_values d d'"
    using tdfg_addNode_fresh [OF d(2), of "mk_targetNode p ?n (op_of t ?n)"]
    by (auto simp: mk_targetNode_def)
  have take: "take (Suc p) (d_nodes g) = take p (d_nodes g) @ [?n]"
    using Suc.prems by (simp add: take_Suc_conv_app_nth)
  have fresh: "n_id ?n \<notin> n_id ` set (take p (d_nodes g))"
    using dist Suc.prems by (auto simp: distinct_conv_nth in_set_conv_nth)
  have "materializeNode g (d, (\<lambda>i. if i \<in> n_id ` set (take p (d_nodes g)) then Some [pos g i] else None), p)
          (n_id ?n, op_of t ?n) =
        Inr (d', (\<lambda>i. if i \<in> n_id ` set (take (Suc p) (d_nodes g)) then Some [pos g i] else None), Suc p)"
    using fresh Suc.prems small
    by (auto simp: materializeNode_def node d'(1) take pos_nth [OF dist] fun_eq_iff)
  moreover have "td_nodes d' = target_nodes g t (Suc p)"
    by (simp add: d'(3) d(3) target_nodes_def)
  ultimately show ?case
    using d d' by (auto simp: take foldR_append)
qed

lemma map_front_pos:
  "\<forall>i \<in> n_id ` set (d_nodes g). m i = Some [pos g i] \<Longrightarrow> i \<in> n_id ` set (d_nodes g) \<Longrightarrow>
   map_front m i = Inr (pos g i)"
  by (auto simp: map_front_def)

lemma materialize_edges:
  assumes inv: "tdfg_inv d1" and empty: "td_edges d1 = []"
    and m: "\<forall>i \<in> n_id ` set (d_nodes g). m i = Some [pos g i]"
    and ids: "\<forall>i \<in> n_id ` set (d_nodes g). pos g i \<in> tn_id ` set (td_nodes d1)"
    and ends: "\<forall>e \<in> set (d_edges g). e_src e \<in> n_id ` set (d_nodes g) \<and> e_dst e \<in> n_id ` set (d_nodes g)"
    and p: "p \<le> length (d_edges g)" and small: "length (d_edges g) < 4294967296"
  shows "\<exists>d. foldR (materializeEdge m) (d1, 0) (take p (d_edges g)) = Inr (d, p) \<and>
           tdfg_inv d \<and> td_edges d = map (target_edge g) [0..<p] \<and> td_nodes d = td_nodes d1 \<and>
           td_bindings d = td_bindings d1 \<and> td_liveOuts d = td_liveOuts d1 \<and> same_values d1 d"
  using p
proof (induction p)
  case 0
  with inv empty show ?case by simp
next
  case (Suc p)
  let ?e = "d_edges g ! p"
  from Suc obtain d where d: "foldR (materializeEdge m) (d1, 0) (take p (d_edges g)) = Inr (d, p)"
      "tdfg_inv d" "td_edges d = map (target_edge g) [0..<p]" "td_nodes d = td_nodes d1"
      "td_bindings d = td_bindings d1" "td_liveOuts d = td_liveOuts d1" "same_values d1 d" by auto
  have e: "e_src ?e \<in> n_id ` set (d_nodes g)" "e_dst ?e \<in> n_id ` set (d_nodes g)"
    using ends Suc.prems by auto
  have te: "target_edge g p = \<lparr>te_id = p, te_src = pos g (e_src ?e), te_dst = pos g (e_dst ?e),
      te_distance = e_distance ?e, te_info = e_info ?e\<rparr>" by (simp add: target_edge_def Let_def)
  have "te_id (target_edge g p) \<notin> te_id ` set (td_edges d)"
    by (auto simp: d(3) target_edge_def Let_def)
  then obtain d' where d': "tdfg_addEdge (target_edge g p) d = Inr d'" "tdfg_inv d'"
      "td_edges d' = td_edges d @ [target_edge g p]" "td_nodes d' = td_nodes d"
      "td_bindings d' = td_bindings d" "td_liveOuts d' = td_liveOuts d" "same_values d d'"
    using tdfg_addEdge_fresh [OF d(2), of "target_edge g p"] e ids by (auto simp: te d(4))
  have "materializeEdge m (d, p) ?e = Inr (d', Suc p)"
    using d'(1) Suc.prems small by (simp add: materializeEdge_def map_front_pos [OF m] e te)
  then show ?case
    using d d' Suc.prems by (auto simp: take_Suc_conv_app_nth foldR_append)
qed

lemma addBinding_fields [simp]:
  "td_nodes (tdfg_addBinding b d) = td_nodes d" "td_edges (tdfg_addBinding b d) = td_edges d"
  "td_liveOuts (tdfg_addBinding b d) = td_liveOuts d" "same_values d (tdfg_addBinding b d)"
  "mset (td_bindings (tdfg_addBinding b d)) = add_mset b (mset (td_bindings d))"
  by (simp_all add: tdfg_addBinding_def)

lemma addLiveOut_fields [simp]:
  "td_nodes (tdfg_addLiveOut l d) = td_nodes d" "td_edges (tdfg_addLiveOut l d) = td_edges d"
  "td_bindings (tdfg_addLiveOut l d) = td_bindings d" "same_values d (tdfg_addLiveOut l d)"
  "td_liveOuts (tdfg_addLiveOut l d) = td_liveOuts d @ [l]"
  by (simp_all add: tdfg_addLiveOut_def)

lemma materialize_bindings:
  assumes "\<forall>i \<in> n_id ` set (d_nodes g). m i = Some [pos g i]"
    and "\<forall>b \<in> set bs. b_node b \<in> n_id ` set (d_nodes g)" and "tdfg_inv d2"
  shows "\<exists>d. foldR (materializeBinding m) d2 bs = Inr d \<and> tdfg_inv d \<and> td_nodes d = td_nodes d2 \<and>
     td_edges d = td_edges d2 \<and> mset (td_bindings d) = mset (td_bindings d2) + mset (map (target_binding g) bs) \<and>
     td_liveOuts d = td_liveOuts d2 \<and> same_values d2 d"
  using assms(2,3)
proof (induction bs arbitrary: d2)
  case (Cons b bs)
  have "materializeBinding m d2 b = Inr (tdfg_addBinding (target_binding g b) d2)"
    using Cons.prems by (simp add: materializeBinding_def map_front_pos [OF assms(1)] target_binding_def)
  with Cons.IH [of "tdfg_addBinding (target_binding g b) d2"] Cons.prems show ?case by auto
qed simp

lemma materialize_liveOuts:
  assumes "\<forall>i \<in> n_id ` set (d_nodes g). m i = Some [pos g i]"
    and "\<forall>l \<in> set ls. l_source l \<in> n_id ` set (d_nodes g)" and "tdfg_inv d3"
  shows "\<exists>d. foldR (materializeLiveOut m) d3 ls = Inr d \<and> tdfg_inv d \<and> td_nodes d = td_nodes d3 \<and>
     td_edges d = td_edges d3 \<and> td_bindings d = td_bindings d3 \<and>
     td_liveOuts d = td_liveOuts d3 @ map (target_liveOut g) ls \<and> same_values d3 d"
  using assms(2,3)
proof (induction ls arbitrary: d3)
  case (Cons l ls)
  have "materializeLiveOut m d3 l = Inr (tdfg_addLiveOut (target_liveOut g l) d3)"
    using Cons.prems by (simp add: materializeLiveOut_def map_front_pos [OF assms(1)] target_liveOut_def)
  with Cons.IH [of "tdfg_addLiveOut (target_liveOut g l) d3"] Cons.prems show ?case by auto
qed simp

lemma fold_addExternal:
  "fold tdfg_addExternal xs d = d\<lparr>td_externalValues := td_externalValues d @ xs\<rparr>"
  by (induction xs arbitrary: d) (simp_all add: tdfg_addExternal_def)

lemma fold_addConstant: "fold tdfg_addConstant cs d = d\<lparr>td_constants := td_constants d @ cs\<rparr>"
  by (induction cs arbitrary: d) (simp_all add: tdfg_addConstant_def)

text \<open>The graph a successful legalisation is meant to produce.\<close>

definition is_legalized :: "DFG \<Rightarrow> TargetModel \<Rightarrow> TargetDFG \<Rightarrow> bool" where
  "is_legalized g t d \<longleftrightarrow>
     td_name d = d_name g \<and> td_targetName d = tm_name t \<and>
     td_externalValues d = d_externalValues g \<and> td_constants d = d_constants g \<and>
     td_nodes d = target_nodes g t (length (d_nodes g)) \<and>
     td_edges d = map (target_edge g) [0..<length (d_edges g)] \<and>
     mset (td_bindings d) = mset (map (target_binding g) (d_bindings g)) \<and>
     td_liveOuts d = map (target_liveOut g) (d_liveOuts g)"

lemma well_formed_known:
  assumes "well_formed g"
  shows "indices_ok g"
    and "\<forall>e \<in> set (d_edges g). e_src e \<in> n_id ` set (d_nodes g) \<and> e_dst e \<in> n_id ` set (d_nodes g)"
    and "\<forall>b \<in> set (d_bindings g). b_node b \<in> n_id ` set (d_nodes g)"
    and "\<forall>l \<in> set (d_liveOuts g). l_source l \<in> n_id ` set (d_nodes g)"
proof -
  have look: "lookupNode g i \<noteq> None \<Longrightarrow> i \<in> n_id ` set (d_nodes g)" for i
    by (simp add: find_by_None_iff)
  show "indices_ok g" using assms by (simp add: well_formed_def)
  show "\<forall>e \<in> set (d_edges g). e_src e \<in> n_id ` set (d_nodes g) \<and> e_dst e \<in> n_id ` set (d_nodes g)"
    using assms edge_ok_known look unfolding well_formed_def by blast
  show "\<forall>b \<in> set (d_bindings g). b_node b \<in> n_id ` set (d_nodes g)"
  proof
    fix b assume "b \<in> set (d_bindings g)"
    then have "operand_type g (b_node b) (b_operand b) \<noteq> None" using assms by (simp add: well_formed_def)
    then have "lookupNode g (b_node b) \<noteq> None" by (auto simp: operand_type_def split: option.splits)
    then show "b_node b \<in> n_id ` set (d_nodes g)" by (rule look)
  qed
  show "\<forall>l \<in> set (d_liveOuts g). l_source l \<in> n_id ` set (d_nodes g)"
  proof
    fix l assume "l \<in> set (d_liveOuts g)"
    then have "result_type g (l_source l) \<noteq> None" using assms by (simp add: well_formed_def)
    then have "lookupNode g (l_source l) \<noteq> None" by (auto simp: result_type_def)
    then show "l_source l \<in> n_id ` set (d_nodes g)" by (rule look)
  qed
qed

lemma legalize_materialises:
  assumes wf: "well_formed g" and pre: "preflight g t = []"
    and small: "length (d_nodes g) < 4294967296" "length (d_edges g) < 4294967296"
  shows "\<exists>d m. legalize g t = Inr \<lparr>lr_dfg = Some d, lr_map = m, lr_diagnostics = []\<rparr> \<and>
     is_legalized g t d \<and> tdfg_inv d \<and>
     m = (\<lambda>i. if i \<in> n_id ` set (d_nodes g) then Some [pos g i] else None)"
proof -
  note known = well_formed_known [OF wf]
  let ?m = "\<lambda>i. if i \<in> n_id ` set (d_nodes g) then Some [pos g i] else None"
  define d0 where "d0 = fold tdfg_addConstant (d_constants g) (fold tdfg_addExternal (d_externalValues g)
      (empty_TargetDFG (d_name g) (tm_name t)))"
  have d0: "tdfg_inv d0" "td_nodes d0 = []" "td_edges d0 = []" "td_bindings d0 = []" "td_liveOuts d0 = []"
      "td_externalValues d0 = d_externalValues g" "td_constants d0 = d_constants g"
      "td_name d0 = d_name g" "td_targetName d0 = tm_name t"
    by (simp_all add: d0_def fold_addExternal fold_addConstant empty_TargetDFG_def tdfg_inv_def
        tincoming_of_def toutgoing_of_def)
  obtain d1 where d1: "foldR (materializeNode g) (d0, Map.empty, 0) (planned g t) =
        Inr (d1, ?m, length (d_nodes g))"
      "tdfg_inv d1" "td_nodes d1 = target_nodes g t (length (d_nodes g))" "td_edges d1 = []"
      "td_bindings d1 = []" "td_liveOuts d1 = []" "same_values d0 d1"
    using materialize_nodes [OF known(1) d0(1,2) order_refl small(1), of t] pre d0
    by (auto simp: planned_eq preflight_Nil)
  have m: "\<forall>i \<in> n_id ` set (d_nodes g). ?m i = Some [pos g i]" by simp
  have "tn_id ` set (td_nodes d1) = {..<length (d_nodes g)}"
    by (auto simp: d1(3) target_nodes_def mk_targetNode_def image_iff)
  moreover have "pos g i < length (d_nodes g)" if "i \<in> n_id ` set (d_nodes g)" for i
    using find_by_ex [OF that] pos_lookup(1) by blast
  ultimately have ids: "\<forall>i \<in> n_id ` set (d_nodes g). pos g i \<in> tn_id ` set (td_nodes d1)" by auto
  obtain d2 where d2: "foldR (materializeEdge ?m) (d1, 0) (d_edges g) = Inr (d2, length (d_edges g))"
      "tdfg_inv d2" "td_edges d2 = map (target_edge g) [0..<length (d_edges g)]"
      "td_nodes d2 = td_nodes d1" "td_bindings d2 = []" "td_liveOuts d2 = []" "same_values d1 d2"
    using materialize_edges [OF d1(2,4) m ids known(2) order_refl small(2)] d1 by auto
  obtain d3 where d3: "foldR (materializeBinding ?m) d2 (d_bindings g) = Inr d3" "tdfg_inv d3"
      "td_edges d3 = td_edges d2" "td_nodes d3 = td_nodes d2"
      "mset (td_bindings d3) = mset (map (target_binding g) (d_bindings g))"
      "td_liveOuts d3 = []" "same_values d2 d3"
    using materialize_bindings [OF m known(3) d2(2)] d2 by auto
  obtain d4 where d4: "foldR (materializeLiveOut ?m) d3 (d_liveOuts g) = Inr d4" "tdfg_inv d4"
      "td_edges d4 = td_edges d3" "td_nodes d4 = td_nodes d3" "td_bindings d4 = td_bindings d3"
      "td_liveOuts d4 = map (target_liveOut g) (d_liveOuts g)" "same_values d3 d4"
    using materialize_liveOuts [OF m known(4) d3(2)] d3 by auto
  have "report_ok (dfg_verify g)"
    using wf dfg_verify_Nil [of g] by (simp add: report_ok_def report_errorCount_def)
  then have "legalize g t = Inr \<lparr>lr_dfg = Some d4, lr_map = ?m, lr_diagnostics = []\<rparr>"
    using pre d1(1) d2(1) d3(1) d4(1) by (simp add: legalize_def d0_def [symmetric])
  moreover have "is_legalized g t d4"
    using d0 d1 d2 d3 d4 by (simp add: is_legalized_def)
  ultimately show ?thesis using d4(2) by blast
qed

section \<open>The legalised graph passes the target verifier\<close>

text \<open>What the target contract has to say of its memory operations: LOAD reads through an address
  and yields data, STORE takes an address and data, and whatever looks like a load has a latency.\<close>

definition memory_contract :: "TargetModel \<Rightarrow> bool" where
  "memory_contract t \<longleftrightarrow>
     (\<forall>d. findOperation t ''LOAD'' = Some d \<longrightarrow> isLoadLike d) \<and>
     (\<forall>d. findOperation t ''STORE'' = Some d \<longrightarrow> isStoreLike d) \<and>
     (\<forall>name d. findOperation t name = Some d \<longrightarrow> isLoadLike d \<longrightarrow> op_resultLatency d \<noteq> None)"

lemma plan_nodeD:
  assumes "plan_node t n = Inr d"
  shows "findOperation t (operationFor n) = Some d" and "isOperationExecutable t d"
    and "supportsValueType t (n_resultType n)" and "\<forall>u \<in> set (n_operandTypes n). supportsValueType t u"
    and "requiredOperands d \<le> length (n_operandTypes n)" "length (n_operandTypes n) \<le> length (op_operands d)"
    and "\<forall>k < length (n_operandTypes n). roleMatches (od_role (op_operands d ! k)) (n_operandTypes n ! k)"
    and "resultRoleMatches (op_resultRole d) (n_resultType n)" and "op_resultType d = n_resultType n"
  using assms by (auto simp: plan_node_def list_all_iff split: if_splits option.splits)

lemma length_filter_nth: "length (filter P xs) = length (filter (\<lambda>j. P (xs ! j)) [0..<length xs])"
proof -
  have "filter P xs = map ((!) xs) (filter (\<lambda>j. P (xs ! j)) [0..<length xs])"
    by (subst (1) map_nth [symmetric]) (simp only: filter_map comp_def)
  then show ?thesis by (metis length_map)
qed

lemma mk_targetNode_sel [simp]:
  "tn_id (mk_targetNode i n d) = i" "tn_operation (mk_targetNode i n d) = op_id d"
  "tn_resultType (mk_targetNode i n d) = n_resultType n"
  "tn_operandTypes (mk_targetNode i n d) = n_operandTypes n"
  "tn_genericOrigins (mk_targetNode i n d) = [n_id n]"
  "tn_resultLatency (mk_targetNode i n d) = op_resultLatency d"
  by (simp_all add: mk_targetNode_def)

lemma target_edge_sel [simp]:
  "te_id (target_edge g j) = j" "te_src (target_edge g j) = pos g (e_src (d_edges g ! j))"
  "te_dst (target_edge g j) = pos g (e_dst (d_edges g ! j))" "te_info (target_edge g j) = e_info (d_edges g ! j)"
  by (simp_all add: target_edge_def Let_def)

lemma pos_inject:
  assumes "i \<in> n_id ` set (d_nodes g)" and "j \<in> n_id ` set (d_nodes g)"
  shows "pos g i = pos g j \<longleftrightarrow> i = j"
  using find_by_ex [OF assms(1)] find_by_ex [OF assms(2)] pos_lookup(2) by metis

lemma lookup_target:
  assumes "is_legalized g t d" and "lookupNode g i = Some n"
  shows "lookupTNode d (pos g i) = Some (mk_targetNode (pos g i) n (op_of t n))"
proof -
  note p = pos_lookup [OF assms(2)]
  have "distinct (map tn_id (td_nodes d))"
    using assms(1) by (simp add: is_legalized_def target_nodes_def comp_def)
  moreover have "mk_targetNode (pos g i) n (op_of t n) \<in> set (td_nodes d)"
    using assms(1) p by (auto simp: is_legalized_def target_nodes_def)
  ultimately show ?thesis using find_by_distinct [of tn_id "td_nodes d"] by fastforce
qed

lemma provider_counts:
  assumes leg: "is_legalized g t d" and wf: "well_formed g" and n: "lookupNode g i = Some n"
    and k: "k < length (n_operandTypes n)"
  shows "tprovider_count d (pos g i) k = length (providers_of g i k)"
proof -
  note known = well_formed_known [OF wf]
  have i: "i \<in> n_id ` set (d_nodes g)" using find_by_SomeD [OF n] by auto
  have dst: "pos g (e_dst e) = pos g i \<longleftrightarrow> e_dst e = i" if "e \<in> set (d_edges g)" for e
    by (rule pos_inject [OF _ i]) (use known(2) that in blast)
  have bnd: "pos g (b_node b) = pos g i \<longleftrightarrow> b_node b = i" if "b \<in> set (d_bindings g)" for b
    by (rule pos_inject [OF _ i]) (use known(3) that in blast)
  have "length (filter (\<lambda>e. te_dst e = pos g i \<and> provides_toperand (te_info e) k) (td_edges d)) =
      length (filter (\<lambda>j. pos g (e_dst (d_edges g ! j)) = pos g i \<and> provides_operand (d_edges g ! j) k)
        [0..<length (d_edges g)])"
    using leg by (simp add: is_legalized_def filter_map comp_def provides_toperand_def provides_operand_def)
  also have "\<dots> = length (filter (\<lambda>j. e_dst (d_edges g ! j) = i \<and> provides_operand (d_edges g ! j) k)
        [0..<length (d_edges g)])"
    by (intro arg_cong [where f = length] filter_cong refl) (simp add: dst)
  finally have edges: "length (filter (\<lambda>e. te_dst e = pos g i \<and> provides_toperand (te_info e) k) (td_edges d)) =
      length (filter (\<lambda>e. e_dst e = i \<and> provides_operand e k) (d_edges g))"
    by (simp only: length_filter_nth [of "\<lambda>e. e_dst e = i \<and> provides_operand e k" "d_edges g"])
  have bmset: "mset (td_bindings d) = mset (map (target_binding g) (d_bindings g))"
    using leg by (simp add: is_legalized_def)
  have "length (filter (\<lambda>b. tb_node b = pos g i \<and> tb_operand b = k) (td_bindings d)) =
      size (filter_mset (\<lambda>b. tb_node b = pos g i \<and> tb_operand b = k) (mset (map (target_binding g) (d_bindings g))))"
    by (simp only: size_mset [symmetric] mset_filter bmset)
  also have "\<dots> = length (filter (\<lambda>b. pos g (b_node b) = pos g i \<and> b_operand b = k) (d_bindings g))"
    by (simp only: mset_filter [symmetric] size_mset filter_map length_map)
       (simp add: comp_def target_binding_def)
  also have "\<dots> = length (filter (\<lambda>b. b_node b = i \<and> b_operand b = k) (d_bindings g))"
    by (intro arg_cong [where f = length] filter_cong refl) (simp add: bnd)
  also have "\<dots> = length (filter (\<lambda>j. b_node (d_bindings g ! j) = i \<and> b_operand (d_bindings g ! j) = k)
      [0..<length (d_bindings g)])"
    by (rule length_filter_nth)
  finally show ?thesis
    using edges k lookup_target [OF leg n] n
    by (simp add: tprovider_count_def providers_of_eq operand_in_range_def)
qed

lemma legalized_node_ok:
  assumes leg: "is_legalized g t d" and wf: "well_formed g" and plan: "plan_node t n = Inr (op_of t n)"
    and n: "lookupNode g i = Some n" and mc: "memory_contract t" and c: "containsNode g i"
  shows "tverify_node d t (Some g) (mk_targetNode (pos g i) n (op_of t n)) = []"
proof -
  note p = plan_nodeD [OF plan]
  let ?d = "op_of t n"
  have reg: "findOperation t (op_id ?d) = Some ?d" by (rule executable_registered [OF p(2)])
  have "isLoadLike ?d \<Longrightarrow> op_resultLatency ?d \<noteq> None" using mc p(1) by (auto simp: memory_contract_def)
  moreover have "isLoadLike ?d \<Longrightarrow> n_resultType n \<noteq> voidTy"
    using p(8) by (auto simp: isLoadLike_def isData_def voidTy_def)
  moreover have "isStoreLike ?d \<Longrightarrow> n_resultType n = voidTy"
    using p(8) by (auto simp: isStoreLike_def)
  ultimately have op: "tverify_node_op t ?d (mk_targetNode (pos g i) n ?d) = []"
    using p unfolding tverify_node_op_def Let_def append_is_Nil_conv concat_map_Nil report_if_Nil
    by (auto simp: mk_targetNode_def)
  have "length (providers_of g i k) = 1" if "k < length (n_operandTypes n)" for k
    using bindings_Nil [of g] dfg_verify_Nil [of g] wf find_by_SomeD [OF n] that
    by (auto simp: dfg_verify_def)
  then have "tprovider_count d (pos g i) k = 1" if "k < length (n_operandTypes n)" for k
    using provider_counts [OF leg wf n that] that by simp
  then have prov: "\<forall>k \<in> set [0..<length (n_operandTypes n)]. tprovider_count d (pos g i) k = 1" by simp
  have "n_id n = i" using find_by_SomeD [OF n] by simp
  with c op prov show ?thesis
    by (simp add: tverify_node_def reg)
qed

lemma legalized_binding_ok:
  assumes leg: "is_legalized g t d" and wf: "well_formed g" and b: "b \<in> set (d_bindings g)"
  shows "tverify_binding d (target_binding g b) = []"
proof -
  have wfb: "operand_type g (b_node b) (b_operand b) \<noteq> None"
      "outer_type g (b_source b) = operand_type g (b_node b) (b_operand b)"
    using wf b by (auto simp: well_formed_def)
  then obtain n where n: "lookupNode g (b_node b) = Some n" "b_operand b < length (n_operandTypes n)"
    by (auto simp: operand_type_def split: option.splits if_splits)
  with wfb(2) have ty: "outer_type g (b_source b) = Some (n_operandTypes n ! b_operand b)"
    by (simp add: operand_type_def)
  have vals: "td_externalValues d = d_externalValues g" "td_constants d = d_constants g"
    using leg by (simp_all add: is_legalized_def)
  show ?thesis
    using lookup_target [OF leg n(1)] n(2) ty
    by (cases "b_source b")
       (auto simp: tverify_binding_def target_binding_def vals outer_type_def)
qed

lemma role_data:
  "roleMatches r ty \<Longrightarrow> ty \<noteq> predicateTy \<Longrightarrow> r = OperandRole_Data \<or> r = OperandRole_Address"
  by (cases r) (auto simp: isPredicate_def predicateTy_def vt_eq_iff)

lemma role_predicate: "roleMatches r predicateTy \<Longrightarrow> r = OperandRole_Predicate"
  by (cases r) (auto simp: isData_def predicateTy_def)

lemma result_role_data:
  "resultRoleMatches q ty \<Longrightarrow> ty \<noteq> predicateTy \<Longrightarrow> ty \<noteq> voidTy \<Longrightarrow> q = ResultRole_Data"
  by (cases q) (auto simp: isPredicate_def predicateTy_def vt_eq_iff)

lemma result_role_predicate: "resultRoleMatches q predicateTy \<Longrightarrow> q = ResultRole_Predicate"
  by (cases q) (auto simp: isData_def predicateTy_def voidTy_def)

lemma legalized_edge_ok:
  assumes leg: "is_legalized g t d" and wf: "well_formed g" and j: "j < length (d_edges g)"
    and plan: "\<forall>n \<in> set (d_nodes g). plan_node t n = Inr (op_of t n)" and mc: "memory_contract t"
  shows "tverify_edge d t (target_edge g j) = []"
proof -
  let ?e = "d_edges g ! j"
  have ok: "edge_ok g ?e" using wf j by (simp add: well_formed_def)
  obtain s r where s: "lookupNode g (e_src ?e) = Some s" and r: "lookupNode g (e_dst ?e) = Some r"
    using edge_ok_known [OF ok] by auto
  have mem: "s \<in> set (d_nodes g)" "r \<in> set (d_nodes g)" using find_by_SomeD [OF s] find_by_SomeD [OF r] by auto
  note ps = plan_nodeD [OF plan [rule_format, OF mem(1)]]
  note pr = plan_nodeD [OF plan [rule_format, OF mem(2)]]
  have reg: "findOperation t (op_id (op_of t s)) = Some (op_of t s)"
    "findOperation t (op_id (op_of t r)) = Some (op_of t r)"
    using executable_registered ps(2) pr(2) by auto
  have load: "n_opcode n = Load \<Longrightarrow> n \<in> {s, r} \<Longrightarrow> isLoadLike (op_of t n)"
    and store: "n_opcode n = Store \<Longrightarrow> n \<in> {s, r} \<Longrightarrow> isStoreLike (op_of t n)" for n
    using mc ps(1) pr(1) by (auto simp: memory_contract_def operationFor_def)
  show ?thesis
    using ok
  proof cases
    case (data k bnd ty)
    then have k: "k < length (n_operandTypes r)" "n_operandTypes r ! k = ty" "n_resultType s = ty"
      using s r by (auto simp: result_type_def operand_type_def split: if_splits)
    have "od_role (op_operands (op_of t r) ! k) = OperandRole_Data \<or>
        od_role (op_operands (op_of t r) ! k) = OperandRole_Address"
      by (rule role_data [of _ ty]) (use pr(7) k data(4) in auto)
    moreover have "op_resultRole (op_of t s) = ResultRole_Data"
      using ps(8) k data(4,5) by (auto intro: result_role_data)
    ultimately show ?thesis
      using data(1) k by (auto simp: tverify_edge_def lookup_target [OF leg s] lookup_target [OF leg r] reg
          tverify_data_edge_def)
  next
    case (pred k bnd)
    then have k: "k < length (n_operandTypes r)" "n_operandTypes r ! k = predicateTy"
        "n_resultType s = predicateTy"
      using s r by (auto simp: result_type_def operand_type_def split: if_splits)
    have "od_role (op_operands (op_of t r) ! k) = OperandRole_Predicate"
      by (rule role_predicate) (use pr(7) k in auto)
    moreover have "op_resultRole (op_of t s) = ResultRole_Predicate"
      by (rule result_role_predicate) (use ps(8) k in auto)
    ultimately show ?thesis
      using pred(1) k by (auto simp: tverify_edge_def lookup_target [OF leg s] lookup_target [OF leg r] reg
          tverify_predicate_edge_def isPredicate_def predicateTy_def)
  next
    case (memory dep s' d')
    then have "memory_edge_valid dep (Some (op_of t s)) (Some (op_of t r))"
      using s r load [of s] load [of r] store [of s] store [of r]
      by (cases dep) (auto simp: memory_edge_valid_def)
    with memory(1) show ?thesis
      by (simp add: tverify_edge_def lookup_target [OF leg s] lookup_target [OF leg r] reg)
  qed
qed

lemma legalized_liveOut_ok:
  assumes leg: "is_legalized g t d" and wf: "well_formed g" and l: "l \<in> set (d_liveOuts g)"
    and sup: "supportsValueType t (l_type l)"
  shows "tverify_liveOut d t (target_liveOut g l) = []"
proof -
  obtain n where n: "lookupNode g (l_source l) = Some n" "n_resultType n = l_type l"
    using wf l by (auto simp: well_formed_def result_type_def)
  show ?thesis
    using lookup_target [OF leg n(1)] n(2) sup by (simp add: tverify_liveOut_def target_liveOut_def)
qed

lemma tverify_adjacency_ok:
  assumes inv: "tdfg_inv d" and n: "n \<in> set (td_nodes d)"
  shows "tverify_adjacency d n = Inr []"
proof -
  have ok: "index_ok tn_id (td_nodes d) (td_nodeIndices d)" using inv by (simp add: tdfg_inv_def)
  obtain k where k: "k < length (td_nodes d)" "td_nodes d ! k = n" using n by (auto simp: in_set_conv_nth)
  then have idx: "td_nodeIndices d (tn_id n) = Some k" using index_ok_nth [OF ok] by auto
  have known: "filter (\<lambda>e. P e \<and> lookupTNode d (te_src e) \<noteq> None \<and> lookupTNode d (te_dst e) \<noteq> None) (td_edges d) =
      filter P (td_edges d)" for P
    using inv by (intro filter_cong refl) (auto simp: tdfg_inv_def find_by_None_iff)
  show ?thesis
    using inv k idx
    by (simp add: tverify_adjacency_def known tdfg_incoming_def tdfg_outgoing_def at_index_def vec_at_def
        tdfg_inv_def tincoming_of_def toutgoing_of_def del: not_None_eq)
qed

lemma legalized_verifies:
  assumes leg: "is_legalized g t d" and inv: "tdfg_inv d" and wf: "well_formed g"
    and pre: "preflight g t = []" and mc: "memory_contract t"
  shows "tdfg_verify d t (Some g) = Inr []"
proof -
  note pf = pre [unfolded preflight_Nil]
  have "foldR (\<lambda>ds n. bindR (tverify_adjacency d n) (\<lambda>ds'. Inr (ds @ ds'))) [] ns = Inr []"
    if "set ns \<subseteq> set (td_nodes d)" for ns
    using that by (induction ns) (auto simp: tverify_adjacency_ok [OF inv])
  then have adj: "foldR (\<lambda>ds n. bindR (tverify_adjacency d n) (\<lambda>ds'. Inr (ds @ ds'))) [] (td_nodes d) = Inr []"
    by simp
  have ids: "tverify_ids d = []"
    using leg inv wf index_ok_distinct
    by (fastforce simp: tverify_ids_def duplicates_Nil is_legalized_def tdfg_inv_def well_formed_def
        indices_ok_def target_liveOut_def comp_def)
  have bnds: "\<forall>b \<in> set (td_bindings d). tverify_binding d b = []"
  proof
    fix b assume "b \<in> set (td_bindings d)"
    then have "b \<in># mset (map (target_binding g) (d_bindings g))"
      using leg by (simp add: is_legalized_def del: mset_map flip: set_mset_mset)
    then show "tverify_binding d b = []" using legalized_binding_ok [OF leg wf] by auto
  qed
  have nodes: "\<forall>n \<in> set (td_nodes d). tverify_node d t (Some g) n = []"
  proof
    fix x assume "x \<in> set (td_nodes d)"
    then obtain k where k: "k < length (d_nodes g)"
        and x: "x = mk_targetNode k (d_nodes g ! k) (op_of t (d_nodes g ! k))"
      using leg by (auto simp: is_legalized_def target_nodes_def)
    let ?n = "d_nodes g ! k"
    have dist: "distinct (map n_id (d_nodes g))" using wf by (simp add: well_formed_def indices_ok_def)
    have look: "lookupNode g (n_id ?n) = Some ?n" using find_by_distinct [OF dist] k by simp
    have "dfg_node g (n_id ?n) = Inr ?n" using wf k by (simp add: well_formed_def indices_ok_def)
    then have "containsNode g (n_id ?n)"
      by (auto simp: containsNode_def dfg_node_def at_index_def split: option.splits)
    with legalized_node_ok [OF leg wf _ look mc] pf k pos_nth [OF dist k] x
    show "tverify_node d t (Some g) x = []" by simp
  qed
  have edges: "\<forall>e \<in> set (td_edges d). tverify_edge d t e = []"
    using leg legalized_edge_ok [OF leg wf _ _ mc] pf by (auto simp: is_legalized_def)
  have outs: "\<forall>l \<in> set (td_liveOuts d). tverify_liveOut d t l = []"
    using leg legalized_liveOut_ok [OF leg wf] pf by (auto simp: is_legalized_def)
  show ?thesis
    using adj ids bnds nodes edges outs pf leg by (simp add: tdfg_verify_def is_legalized_def)
qed

text \<open>C30: Legalisation never raises on a graph of fewer than \<open>2 ^ 32\<close> nodes and edges, and it
  succeeds exactly when the generic graph is well formed and the preflight has nothing to report.\<close>

theorem legalize_total:
  assumes "length (d_nodes g) < 4294967296" and "length (d_edges g) < 4294967296"
  shows "\<exists>r. legalize g t = Inr r \<and> (legalization_ok r \<longleftrightarrow> well_formed g \<and> preflight g t = [])"
proof (cases "well_formed g \<and> preflight g t = []")
  case True
  with legalize_materialises [OF _ _ assms, of t] show ?thesis by (auto simp: legalization_ok_def)
next
  case False
  have "filter (\<lambda>d. dd_severity d = Sev_Error) (dfg_verify g) = dfg_verify g"
    using dfg_verify_errors [of g] by (simp add: all_diag_def)
  then have "report_ok (dfg_verify g) \<longleftrightarrow> well_formed g"
    by (simp add: report_ok_def report_errorCount_def dfg_verify_Nil)
  with False show ?thesis by (auto simp: legalize_def legalization_ok_def)
qed

lemma demo_dfg_facts:
  "report_ok (dfg_verify demo_dfg)" "preflight demo_dfg demo_target = []"
  "length (d_nodes demo_dfg) = 2" "length (d_edges demo_dfg) = 2"
  by code_simp+

theorem legalize_total_witness:
  "\<exists>r. legalize demo_dfg demo_target = Inr r \<and>
     (legalization_ok r \<longleftrightarrow> well_formed demo_dfg \<and> preflight demo_dfg demo_target = [])"
  by (rule legalize_total) (simp_all add: demo_dfg_facts)

text \<open>C26: A successful legalisation produces a graph that the target verifier accepts without a
  diagnostic, provenance against the generic graph included, for every target whose memory
  operations have the shape the contract prescribes.  The result is the generic graph with ids
  replaced by positions: node \<open>k\<close> runs the operation planned for the \<open>k\<close>-th generic node, edges,
  bindings and live-outs are those of the generic graph, and the legalisation map sends every
  generic node to its single target node.\<close>

theorem legalize_sound:
  assumes "legalize g t = Inr r" and "legalization_ok r" and "memory_contract t"
    and "length (d_nodes g) < 4294967296" and "length (d_edges g) < 4294967296"
  shows "\<exists>d. lr_dfg r = Some d \<and> tdfg_verify d t (Some g) = Inr [] \<and> is_legalized g t d \<and>
     (\<forall>k < length (d_nodes g). lr_map r (n_id (d_nodes g ! k)) = Some [k])"
proof -
  have "report_ok (dfg_verify g)" and pre: "preflight g t = []"
    using assms(1,2) by (auto simp: legalize_def legalization_ok_def split: if_splits)
  then have wf: "well_formed g"
    using dfg_verify_errors [of g] dfg_verify_Nil [of g]
    by (auto simp: report_ok_def report_errorCount_def all_diag_def filter_empty_conv)
  have dist: "distinct (map n_id (d_nodes g))" using wf by (simp add: well_formed_def indices_ok_def)
  from legalize_materialises [OF wf pre assms(4,5)] assms(1) obtain d where
    "lr_dfg r = Some d" "is_legalized g t d" "tdfg_inv d"
    "lr_map r = (\<lambda>i. if i \<in> n_id ` set (d_nodes g) then Some [pos g i] else None)" by auto
  with legalized_verifies [OF _ _ wf pre assms(3)] pos_nth [OF dist] show ?thesis by auto
qed

theorem legalize_sound_witness:
  "\<exists>r d. legalize demo_dfg demo_target = Inr r \<and> lr_dfg r = Some d \<and>
     tdfg_verify d demo_target (Some demo_dfg) = Inr [] \<and> lr_map r 1 = Some [1]"
proof -
  have "case legalize demo_dfg demo_target of Inl _ \<Rightarrow> False | Inr r \<Rightarrow> legalization_ok r"
    by code_simp
  then have ok: "\<exists>r. legalize demo_dfg demo_target = Inr r \<and> legalization_ok r"
    by (auto split: sum.splits)
  have mc: "memory_contract demo_target"
    by (auto simp: memory_contract_def demo_target_def findOperation_def demo_op_def isLoadLike_def
        split: if_splits)
  have "n_id (d_nodes demo_dfg ! 1) = 1" by code_simp
  moreover from ok obtain r where r: "legalize demo_dfg demo_target = Inr r" "legalization_ok r" by blast
  ultimately show ?thesis
    using legalize_sound [OF r mc] by (auto simp: demo_dfg_facts dest!: spec [of _ "1::nat"])
qed

end
