(* ===== verification/Target_Control.thy ===== *)
theory Target_Control
  imports Target_Model "HOL-Library.Word"
begin

text \<open>
  Control words (\<open>Target/ControlLayout.cpp\<close>): the control of a tile as its semantic fields, and its encoding
  in four 32-bit chunks by the bit fields of the target's layout.  Field values are 64-bit words.  A
  shift by 64 or more, which C++ leaves undefined, cannot happen for fields of at most 64 bits.
\<close>

unbundle bit_operations_syntax

section \<open>Data\<close>

record RouteControl =
  rc_enabled :: bool
  rc_source :: string

record TileControl =
  tc_op :: string
  tc_srcA :: string
  tc_srcB :: string
  tc_srcP0 :: string
  tc_srcP1 :: string
  tc_dataRfReadAddrA :: "32 word"
  tc_dataRfReadAddrB :: "32 word"
  tc_predicateRfReadAddrA :: "32 word"
  tc_predicateRfReadAddrB :: "32 word"
  tc_dataWrite0Enable :: bool
  tc_dataWrite0Addr :: "32 word"
  tc_dataWrite1Enable :: bool
  tc_dataWrite1Addr :: "32 word"
  tc_dataWrite1Source :: string
  tc_predicateWrite0Enable :: bool
  tc_predicateWrite0Addr :: "32 word"
  tc_predicateWrite1Enable :: bool
  tc_predicateWrite1Addr :: "32 word"
  tc_predicateWrite1Source :: string
  tc_dataRoutes :: "RouteControl list"
  tc_predicateRoutes :: "RouteControl list"
  tc_constantAddr :: "32 word"
  tc_lsuOp :: string
  tc_lsuAddrSource :: string
  tc_lsuStoreDataSource :: string
  tc_lsuCommitPredicateEnable :: bool
  tc_lsuCommitPredicateInvert :: bool
  tc_lsuCommitPredicateSource :: string

definition default_RouteControl :: RouteControl where
  "default_RouteControl = \<lparr>rc_enabled = False, rc_source = ''NONE''\<rparr>"

definition default_TileControl :: TileControl where
  "default_TileControl = \<lparr>tc_op = ''NOP'', tc_srcA = ''ZERO'', tc_srcB = ''ZERO'', tc_srcP0 = ''CONST_FALSE'',
     tc_srcP1 = ''CONST_FALSE'', tc_dataRfReadAddrA = 0, tc_dataRfReadAddrB = 0, tc_predicateRfReadAddrA = 0,
     tc_predicateRfReadAddrB = 0, tc_dataWrite0Enable = False, tc_dataWrite0Addr = 0, tc_dataWrite1Enable = False,
     tc_dataWrite1Addr = 0, tc_dataWrite1Source = ''ZERO'', tc_predicateWrite0Enable = False, tc_predicateWrite0Addr = 0,
     tc_predicateWrite1Enable = False, tc_predicateWrite1Addr = 0, tc_predicateWrite1Source = ''CONST_FALSE'',
     tc_dataRoutes = replicate 4 default_RouteControl, tc_predicateRoutes = replicate 4 default_RouteControl,
     tc_constantAddr = 0, tc_lsuOp = ''NONE'', tc_lsuAddrSource = ''ZERO'', tc_lsuStoreDataSource = ''ZERO'',
     tc_lsuCommitPredicateEnable = False, tc_lsuCommitPredicateInvert = False, tc_lsuCommitPredicateSource = ''CONST_FALSE''\<rparr>"

type_synonym EncodedControl = "32 word list"

definition empty_EncodedControl :: EncodedControl where
  "empty_EncodedControl = replicate 4 0"

section \<open>Bits\<close>

definition fieldLimit :: "nat \<Rightarrow> 64 word" where
  "fieldLimit width = (if width = 64 then - 1 else push_bit width 1 - 1)"

definition insertBit :: "nat \<Rightarrow> 64 word \<Rightarrow> EncodedControl \<Rightarrow> nat \<Rightarrow> EncodedControl result" where
  "insertBit lsb value encoded b =
     (let physicalBit = wrap32 (lsb + b); chunk = physicalBit div 32; chunkBit = physicalBit mod 32 in
      if drop_bit b value AND 1 \<noteq> 0 then
        if chunk < length encoded then Inr (encoded[chunk := (encoded ! chunk) OR push_bit chunkBit 1])
        else Inl Out_Of_Range
      else Inr encoded)"

definition insertBits :: "EncodedControl \<Rightarrow> nat \<Rightarrow> nat \<Rightarrow> 64 word \<Rightarrow> EncodedControl result" where
  "insertBits encoded lsb width value =
     (if value > fieldLimit width then Inl Runtime_Error
      else foldR (insertBit lsb value) encoded [0..<width])"

definition extractBit :: "EncodedControl \<Rightarrow> nat \<Rightarrow> 64 word \<Rightarrow> nat \<Rightarrow> 64 word result" where
  "extractBit encoded lsb value b =
     (let physicalBit = wrap32 (lsb + b); chunk = physicalBit div 32; chunkBit = physicalBit mod 32 in
      if chunk < length encoded then
        Inr (value OR push_bit b (ucast (drop_bit chunkBit (encoded ! chunk) AND 1)))
      else Inl Out_Of_Range)"

definition extractBits :: "EncodedControl \<Rightarrow> nat \<Rightarrow> nat \<Rightarrow> 64 word result" where
  "extractBits encoded lsb width = foldR (extractBit encoded lsb) 0 [0..<width]"

section \<open>Semantic fields\<close>

definition Directions :: "string list" where
  "Directions = [''north'', ''south'', ''east'', ''west'']"

definition flag :: "bool \<Rightarrow> 64 word" where
  "flag b = (if b then 1 else 0)"

text \<open>The loops over the directions at the end of the four accessors.\<close>

fun routeEnabled :: "TileControl \<Rightarrow> string \<Rightarrow> nat \<Rightarrow> string list \<Rightarrow> 64 word result" where
  "routeEnabled control field index [] = Inl Runtime_Error"
| "routeEnabled control field index (d # ds) =
     (if field = ''data_route_'' @ d @ ''_we'' then Inr (flag (rc_enabled (tc_dataRoutes control ! index)))
      else if field = ''pred_route_'' @ d @ ''_we'' then Inr (flag (rc_enabled (tc_predicateRoutes control ! index)))
      else routeEnabled control field (Suc index) ds)"

fun routeSource :: "TileControl \<Rightarrow> string \<Rightarrow> nat \<Rightarrow> string list \<Rightarrow> string result" where
  "routeSource control field index [] = Inl Runtime_Error"
| "routeSource control field index (d # ds) =
     (if field = ''data_route_'' @ d @ ''_src'' then Inr (rc_source (tc_dataRoutes control ! index))
      else if field = ''pred_route_'' @ d @ ''_src'' then Inr (rc_source (tc_predicateRoutes control ! index))
      else routeSource control field (Suc index) ds)"

fun setRouteEnabled :: "TileControl \<Rightarrow> string \<Rightarrow> 64 word \<Rightarrow> nat \<Rightarrow> string list \<Rightarrow> TileControl result" where
  "setRouteEnabled control field value index [] = Inl Runtime_Error"
| "setRouteEnabled control field value index (d # ds) =
     (if field = ''data_route_'' @ d @ ''_we'' then
        Inr (control\<lparr>tc_dataRoutes := (tc_dataRoutes control)[index := (tc_dataRoutes control ! index)\<lparr>rc_enabled := value \<noteq> 0\<rparr>]\<rparr>)
      else if field = ''pred_route_'' @ d @ ''_we'' then
        Inr (control\<lparr>tc_predicateRoutes :=
          (tc_predicateRoutes control)[index := (tc_predicateRoutes control ! index)\<lparr>rc_enabled := value \<noteq> 0\<rparr>]\<rparr>)
      else setRouteEnabled control field value (Suc index) ds)"

fun setRouteSource :: "TileControl \<Rightarrow> string \<Rightarrow> string \<Rightarrow> nat \<Rightarrow> string list \<Rightarrow> TileControl result" where
  "setRouteSource control field value index [] = Inl Runtime_Error"
| "setRouteSource control field value index (d # ds) =
     (if field = ''data_route_'' @ d @ ''_src'' then
        Inr (control\<lparr>tc_dataRoutes := (tc_dataRoutes control)[index := (tc_dataRoutes control ! index)\<lparr>rc_source := value\<rparr>]\<rparr>)
      else if field = ''pred_route_'' @ d @ ''_src'' then
        Inr (control\<lparr>tc_predicateRoutes :=
          (tc_predicateRoutes control)[index := (tc_predicateRoutes control ! index)\<lparr>rc_source := value\<rparr>]\<rparr>)
      else setRouteSource control field value (Suc index) ds)"

definition semanticInteger :: "TileControl \<Rightarrow> string \<Rightarrow> 64 word result" where
  "semanticInteger control field =
     (if field = ''data_rf_raddr_a'' then Inr (ucast (tc_dataRfReadAddrA control))
      else if field = ''data_rf_raddr_b'' then Inr (ucast (tc_dataRfReadAddrB control))
      else if field = ''pred_rf_raddr_a'' then Inr (ucast (tc_predicateRfReadAddrA control))
      else if field = ''pred_rf_raddr_b'' then Inr (ucast (tc_predicateRfReadAddrB control))
      else if field = ''data_w0_we'' then Inr (flag (tc_dataWrite0Enable control))
      else if field = ''data_w0_addr'' then Inr (ucast (tc_dataWrite0Addr control))
      else if field = ''data_w1_we'' then Inr (flag (tc_dataWrite1Enable control))
      else if field = ''data_w1_addr'' then Inr (ucast (tc_dataWrite1Addr control))
      else if field = ''pred_w0_we'' then Inr (flag (tc_predicateWrite0Enable control))
      else if field = ''pred_w0_addr'' then Inr (ucast (tc_predicateWrite0Addr control))
      else if field = ''pred_w1_we'' then Inr (flag (tc_predicateWrite1Enable control))
      else if field = ''pred_w1_addr'' then Inr (ucast (tc_predicateWrite1Addr control))
      else if field = ''const_addr'' then Inr (ucast (tc_constantAddr control))
      else if field = ''lsu_commit_pred_enable'' then Inr (flag (tc_lsuCommitPredicateEnable control))
      else if field = ''lsu_commit_pred_invert'' then Inr (flag (tc_lsuCommitPredicateInvert control))
      else routeEnabled control field 0 Directions)"

definition semanticEncoding :: "TileControl \<Rightarrow> string \<Rightarrow> string result" where
  "semanticEncoding control field =
     (if field = ''op'' then Inr (tc_op control)
      else if field = ''src_a'' then Inr (tc_srcA control)
      else if field = ''src_b'' then Inr (tc_srcB control)
      else if field = ''src_p0'' then Inr (tc_srcP0 control)
      else if field = ''src_p1'' then Inr (tc_srcP1 control)
      else if field = ''data_w1_src'' then Inr (tc_dataWrite1Source control)
      else if field = ''pred_w1_src'' then Inr (tc_predicateWrite1Source control)
      else if field = ''lsu_op'' then Inr (tc_lsuOp control)
      else if field = ''lsu_addr_src'' then Inr (tc_lsuAddrSource control)
      else if field = ''lsu_store_data_src'' then Inr (tc_lsuStoreDataSource control)
      else if field = ''lsu_commit_pred_src'' then Inr (tc_lsuCommitPredicateSource control)
      else routeSource control field 0 Directions)"

definition setSemanticInteger :: "TileControl \<Rightarrow> string \<Rightarrow> 64 word \<Rightarrow> TileControl result" where
  "setSemanticInteger control field value =
     (if field = ''data_rf_raddr_a'' then Inr (control\<lparr>tc_dataRfReadAddrA := ucast value\<rparr>)
      else if field = ''data_rf_raddr_b'' then Inr (control\<lparr>tc_dataRfReadAddrB := ucast value\<rparr>)
      else if field = ''pred_rf_raddr_a'' then Inr (control\<lparr>tc_predicateRfReadAddrA := ucast value\<rparr>)
      else if field = ''pred_rf_raddr_b'' then Inr (control\<lparr>tc_predicateRfReadAddrB := ucast value\<rparr>)
      else if field = ''data_w0_we'' then Inr (control\<lparr>tc_dataWrite0Enable := value \<noteq> 0\<rparr>)
      else if field = ''data_w0_addr'' then Inr (control\<lparr>tc_dataWrite0Addr := ucast value\<rparr>)
      else if field = ''data_w1_we'' then Inr (control\<lparr>tc_dataWrite1Enable := value \<noteq> 0\<rparr>)
      else if field = ''data_w1_addr'' then Inr (control\<lparr>tc_dataWrite1Addr := ucast value\<rparr>)
      else if field = ''pred_w0_we'' then Inr (control\<lparr>tc_predicateWrite0Enable := value \<noteq> 0\<rparr>)
      else if field = ''pred_w0_addr'' then Inr (control\<lparr>tc_predicateWrite0Addr := ucast value\<rparr>)
      else if field = ''pred_w1_we'' then Inr (control\<lparr>tc_predicateWrite1Enable := value \<noteq> 0\<rparr>)
      else if field = ''pred_w1_addr'' then Inr (control\<lparr>tc_predicateWrite1Addr := ucast value\<rparr>)
      else if field = ''const_addr'' then Inr (control\<lparr>tc_constantAddr := ucast value\<rparr>)
      else if field = ''lsu_commit_pred_enable'' then Inr (control\<lparr>tc_lsuCommitPredicateEnable := value \<noteq> 0\<rparr>)
      else if field = ''lsu_commit_pred_invert'' then Inr (control\<lparr>tc_lsuCommitPredicateInvert := value \<noteq> 0\<rparr>)
      else setRouteEnabled control field value 0 Directions)"

definition setSemanticEncoding :: "TileControl \<Rightarrow> string \<Rightarrow> string \<Rightarrow> TileControl result" where
  "setSemanticEncoding control field value =
     (if field = ''op'' then Inr (control\<lparr>tc_op := value\<rparr>)
      else if field = ''src_a'' then Inr (control\<lparr>tc_srcA := value\<rparr>)
      else if field = ''src_b'' then Inr (control\<lparr>tc_srcB := value\<rparr>)
      else if field = ''src_p0'' then Inr (control\<lparr>tc_srcP0 := value\<rparr>)
      else if field = ''src_p1'' then Inr (control\<lparr>tc_srcP1 := value\<rparr>)
      else if field = ''data_w1_src'' then Inr (control\<lparr>tc_dataWrite1Source := value\<rparr>)
      else if field = ''pred_w1_src'' then Inr (control\<lparr>tc_predicateWrite1Source := value\<rparr>)
      else if field = ''lsu_op'' then Inr (control\<lparr>tc_lsuOp := value\<rparr>)
      else if field = ''lsu_addr_src'' then Inr (control\<lparr>tc_lsuAddrSource := value\<rparr>)
      else if field = ''lsu_store_data_src'' then Inr (control\<lparr>tc_lsuStoreDataSource := value\<rparr>)
      else if field = ''lsu_commit_pred_src'' then Inr (control\<lparr>tc_lsuCommitPredicateSource := value\<rparr>)
      else setRouteSource control field value 0 Directions)"

section \<open>Encoding and decoding\<close>

definition cl_field :: "ControlLayout \<Rightarrow> string \<Rightarrow> ControlField result" where
  "cl_field layout name =
     (case cl_fieldIndices layout name of
        None \<Rightarrow> Inl Runtime_Error
      | Some i \<Rightarrow> if i < length (cl_fields layout) then Inr (cl_fields layout ! i) else Inl Out_Of_Range)"

definition fieldValue :: "TileControl \<Rightarrow> TargetModel \<Rightarrow> ControlField \<Rightarrow> 64 word result" where
  "fieldValue control t field =
     (case cf_encoding field of
        Some domain \<Rightarrow>
          bindR (semanticEncoding control (cf_name field)) (\<lambda>name.
          bindR (encodingValue t domain name) (\<lambda>v. Inr (of_nat v)))
      | None \<Rightarrow> semanticInteger control (cf_name field))"

definition encodeField :: "TileControl \<Rightarrow> TargetModel \<Rightarrow> EncodedControl \<Rightarrow> ControlField \<Rightarrow> EncodedControl result" where
  "encodeField control t encoded field =
     bindR (fieldValue control t field) (insertBits encoded (cf_lsb field) (cf_width field))"

definition encode :: "TileControl \<Rightarrow> TargetModel \<Rightarrow> EncodedControl result" where
  "encode control t =
     (let layout = tm_controlLayout t in
      bindR (foldR (encodeField control t) empty_EncodedControl (cl_fields layout)) (\<lambda>encoded.
      bindR (extractBits encoded (cl_paddingLsb layout) (cl_paddingWidth layout)) (\<lambda>padding.
        if padding \<noteq> 0 then Inl Runtime_Error else Inr encoded)))"

definition decodeField :: "EncodedControl \<Rightarrow> TargetModel \<Rightarrow> TileControl \<Rightarrow> ControlField \<Rightarrow> TileControl result" where
  "decodeField encoded t control field =
     bindR (extractBits encoded (cf_lsb field) (cf_width field)) (\<lambda>value.
       case cf_encoding field of
         Some domain \<Rightarrow> bindR (encodingName t domain (wrap32 (unat value))) (setSemanticEncoding control (cf_name field))
       | None \<Rightarrow> setSemanticInteger control (cf_name field) value)"

definition decode :: "EncodedControl \<Rightarrow> TargetModel \<Rightarrow> TileControl result" where
  "decode encoded t =
     (let layout = tm_controlLayout t in
      bindR (extractBits encoded (cl_paddingLsb layout) (cl_paddingWidth layout)) (\<lambda>padding.
        if padding \<noteq> of_nat (cl_paddingValue layout) then Inl Runtime_Error
        else foldR (decodeField encoded t) default_TileControl (cl_fields layout)))"

end
