(* ===== verification/Target_Loader.thy ===== *)
theory Target_Loader
  imports Target_Control
begin

text \<open>
  The loader of the target contract (\<open>TargetModel::loadFromFile\<close> in \<open>Target/TargetModel.cpp\<close>).  Parsing of
  the JSON text and the conversion of its values are the JSON library's; the records below hold the
  values the loader reads, an absent optional member is \<open>None\<close>, and the entries of an object are listed
  in the order of its keys.  Every check the loader makes on these values is a branch here.
\<close>

section \<open>The values of a contract\<close>

record RegisterFileSource =
  rfs_depth :: nat
  rfs_readPorts :: nat
  rfs_writePorts :: nat
  rfs_readWrite :: string
  rfs_multiwrite :: string
  rfs_allocatable :: "nat list option"
  rfs_tiles :: "(nat \<times> nat) list option"
  rfs_ports :: "(string \<times> string list) list"

record NetworkSource =
  ns_separate :: bool
  ns_channels :: nat

record InterconnectSource =
  is_topology :: string
  is_registeredLinks :: bool
  is_hopLatency :: nat
  is_inputBuffering :: bool
  is_runtimeArbitration :: bool
  is_compilerRouted :: bool
  is_data :: NetworkSource
  is_predicate :: NetworkSource

record MemorySource =
  ms_model :: string
  ms_addressUnit :: string
  ms_desc :: MemoryDesc
  ms_sameAddressPolicy :: string
  ms_runtimeStall :: bool
  ms_runtimeArbitration :: bool

record OperationSource =
  os_executionClass :: string
  os_operands :: "(string \<times> bool option) list"
  os_encodingDomain :: string
  os_encodingSymbol :: string
  os_resultRole :: string
  os_lowering :: "(string list \<times> string) option"
  os_issueOccupancy :: nat
  os_resultLatency :: "nat option"
  os_outputReadyOffset :: "nat option"
  os_accessWidth :: "nat option"

record CapabilitySource =
  cs_default :: "string list"
  cs_overrides :: "((nat \<times> nat) \<times> string list) list"

record LoopSource =
  lo_supported :: bool
  lo_model :: string
  lo_controlPhases :: "string list"
  lo_rotatingRegisters :: bool
  lo_loopCounterOperand :: bool
  lo_sameAddressRecurrence :: bool

record FieldSource =
  fs_name :: string
  fs_lsb :: nat
  fs_width :: nat
  fs_encoding :: "string option"

record LayoutSource =
  ls_rawWidth :: nat
  ls_physicalWidth :: nat
  ls_chunks :: nat
  ls_chunkBits :: nat
  ls_chunkOrder :: string
  ls_paddingLsb :: nat
  ls_paddingWidth :: nat
  ls_paddingValue :: nat
  ls_fields :: "FieldSource list"

record ContractSource =
  ct_schema :: string
  ct_version :: nat
  ct_name :: string
  ct_array :: ArrayDesc
  ct_constMemDepth :: "nat option"
  ct_dataRF :: RegisterFileSource
  ct_predicateRF :: RegisterFileSource
  ct_interconnect :: InterconnectSource
  ct_memory :: MemorySource
  ct_fuLatencies :: "(string \<times> int) list"
  ct_legacyOccupancies :: "nat list"
  ct_legacyOps :: "string list"
  ct_compatibilityStatus :: string
  ct_compatibilitySection :: string
  ct_operations :: "(string \<times> OperationSource) list"
  ct_capabilities :: "CapabilitySource option"
  ct_loop :: LoopSource
  ct_encodings :: "(string \<times> (string \<times> int) list) list"
  ct_layout :: LayoutSource
  ct_portAssignment :: string
  ct_lsuTiles :: "LsuTileDesc list"
  ct_parameters :: "nat list"
  ct_controlSchema :: "string \<times> nat list"

section \<open>Helpers\<close>

definition guardR :: "bool \<Rightarrow> 'e \<Rightarrow> 'e + unit" where
  "guardR b e = (if b then Inr () else Inl e)"

definition positiveUnsigned :: "nat \<Rightarrow> nat result" where
  "positiveUnsigned value =
     (if value = 0 then Inl Runtime_Error else if value > u32_max then Inl Runtime_Error else Inr value)"

fun positiveAll :: "nat list \<Rightarrow> unit result" where
  "positiveAll [] = Inr ()"
| "positiveAll (v # vs) = bindR (positiveUnsigned v) (\<lambda>_. positiveAll vs)"

definition parseReadWritePolicy :: "string \<Rightarrow> SameAddressReadWritePolicy result" where
  "parseReadWritePolicy value =
     (if value = ''illegal'' then Inr RW_Forbidden
      else if value = ''read_old_then_write_new'' then Inr ReadOldThenWriteNew
      else if value = ''write_new_then_read'' then Inr WriteNewThenRead
      else Inl Runtime_Error)"

definition lowered :: "'a result \<Rightarrow> 'a result" where
  "lowered r = (case r of Inl _ \<Rightarrow> Inl Runtime_Error | Inr a \<Rightarrow> Inr a)"

section \<open>Register files\<close>

definition allocatableIndex :: "nat \<Rightarrow> nat list \<Rightarrow> nat \<Rightarrow> nat list result" where
  "allocatableIndex depth indices index =
     (if index \<ge> depth then Inl Runtime_Error
      else if index \<in> set indices then Inl Runtime_Error
      else Inr (indices @ [index]))"

definition applicableTile :: "nat \<Rightarrow> nat \<Rightarrow> (nat \<times> nat) list \<Rightarrow> nat \<times> nat \<Rightarrow> (nat \<times> nat) list result" where
  "applicableTile rows cols tiles tile =
     (if fst tile \<ge> rows \<or> snd tile \<ge> cols then Inl Runtime_Error
      else if tile \<in> set tiles then Inl Runtime_Error
      else Inr (tiles @ [tile]))"

definition parseRegisterFile ::
  "string \<Rightarrow> RegisterBankDomain \<Rightarrow> RegisterFileSource \<Rightarrow> nat \<Rightarrow> nat \<Rightarrow> RegisterFileDesc result" where
  "parseRegisterFile key domain src rows cols =
     bindR (positiveUnsigned (rfs_depth src)) (\<lambda>depth.
     bindR (positiveUnsigned (rfs_readPorts src)) (\<lambda>readPorts.
     bindR (positiveUnsigned (rfs_writePorts src)) (\<lambda>writePorts.
     bindR (parseReadWritePolicy (rfs_readWrite src)) (\<lambda>policy.
     bindR (guardR (rfs_multiwrite src = ''illegal'') Runtime_Error) (\<lambda>_.
     bindR (case rfs_allocatable src of
              Some indices \<Rightarrow> if indices = [] then Inl Runtime_Error else foldR (allocatableIndex depth) [] indices
            | None \<Rightarrow> Inr [0..<depth]) (\<lambda>indices.
     bindR (case rfs_tiles src of
              Some tiles \<Rightarrow> if tiles = [] then Inl Runtime_Error
                else bindR (foldR (applicableTile rows cols) [] tiles) (\<lambda>ts. Inr (sort ts))
            | None \<Rightarrow> Inr []) (\<lambda>tiles.
     bindR (guardR (\<forall>p \<in> set (rfs_ports src). snd p \<noteq> []) Runtime_Error) (\<lambda>_.
     bindR (guardR (length (remdups (map fst (rfs_ports src))) = writePorts) Runtime_Error) (\<lambda>_.
       Inr \<lparr>rf_id = key, rf_domain = domain, rf_depth = depth, rf_readPorts = readPorts, rf_writePorts = writePorts,
            rf_sameCycleReadWriteSameAddress = rfs_readWrite src, rf_sameCycleMultiwriteSameAddress = rfs_multiwrite src,
            rf_sameAddressReadWritePolicy = policy, rf_allocatableIndices = indices, rf_applicableTiles = tiles,
            rf_writePortSources = map_of (rfs_ports src)\<rparr>)))))))))"

definition validateWritePortNames :: "RegisterFileSource \<Rightarrow> RegisterFileDesc \<Rightarrow> unit result" where
  "validateWritePortNames src desc =
     bindR (guardR (length (remdups (map fst (rfs_ports src))) = rf_writePorts desc) Runtime_Error) (\<lambda>_.
       guardR (\<forall>index < rf_writePorts desc. rf_writePortSources desc (CHR ''W'' # to_string index) \<noteq> None) Runtime_Error)"

definition validateWritePortSource ::
  "RegisterFileDesc \<Rightarrow> string \<Rightarrow> string \<Rightarrow> (string \<rightharpoonup> (string \<rightharpoonup> nat)) \<Rightarrow> unit result" where
  "validateWritePortSource desc port sourceDomain encodings =
     (case encodings sourceDomain of
        None \<Rightarrow> Inl Runtime_Error
      | Some symbols \<Rightarrow>
          (case rf_writePortSources desc port of
             None \<Rightarrow> Inl Out_Of_Range
           | Some sources \<Rightarrow> guardR (distinct sources \<and> (\<forall>s \<in> set sources. symbols s \<noteq> None)) Runtime_Error))"

section \<open>Interconnect and memory\<close>

definition parseNetworkDomain :: "NetworkSource \<Rightarrow> (bool \<times> nat) result" where
  "parseNetworkDomain src =
     bindR (positiveUnsigned (ns_channels src)) (\<lambda>channels.
       if \<not> ns_separate src then Inl Runtime_Error
       else if channels \<noteq> 1 then Inl Runtime_Error
       else Inr (ns_separate src, channels))"

definition loadInterconnect :: "InterconnectSource \<Rightarrow> InterconnectDesc result" where
  "loadInterconnect src =
     bindR (positiveUnsigned (is_hopLatency src)) (\<lambda>hop.
     bindR (guardR (is_topology src = ''mesh_2d'' \<or> is_topology src = ''disconnected'') Runtime_Error) (\<lambda>_.
     bindR (guardR (is_registeredLinks src \<and> \<not> is_inputBuffering src \<and> \<not> is_runtimeArbitration src \<and>
              is_compilerRouted src) Runtime_Error) (\<lambda>_.
     bindR (parseNetworkDomain (is_data src)) (\<lambda>(separate, channels).
     bindR (parseNetworkDomain (is_predicate src)) (\<lambda>(separate', channels').
     bindR (guardR (separate' = separate \<and> channels' = channels) Runtime_Error) (\<lambda>_.
       Inr \<lparr>ic_topology = is_topology src, ic_registeredLinks = is_registeredLinks src, ic_hopLatency = hop,
            ic_inputBuffering = is_inputBuffering src, ic_runtimeArbitration = is_runtimeArbitration src,
            ic_compilerRouted = is_compilerRouted src, ic_separateResourceDomain = separate,
            ic_channelsPerDirectionPerLink = channels\<rparr>))))))"

definition loadMemory :: "MemorySource \<Rightarrow> MemoryDesc result" where
  "loadMemory src =
     (let d = ms_desc src in
      bindR (positiveAll [mem_depth d, mem_widthBits d, mem_ports d, mem_loadLatency d, mem_maxIssuePerLsuPerCycle d,
               mem_maxIssuePerPortPerCycle d, mem_rawDependenceSeparation d, mem_warDependenceSeparation d,
               mem_wawDependenceSeparation d]) (\<lambda>_.
      bindR (guardR (ms_model src = ''shared_multiport_scratchpad'') Runtime_Error) (\<lambda>_.
      bindR (guardR (ms_addressUnit src = ''word'') Runtime_Error) (\<lambda>_.
      bindR (guardR (ms_sameAddressPolicy src = ''multi_load_only'') Runtime_Error) (\<lambda>_.
      bindR (guardR (\<not> ms_runtimeStall src \<and> \<not> ms_runtimeArbitration src) Runtime_Error) (\<lambda>_. Inr d))))))"

section \<open>Operations\<close>

definition loadOperand ::
  "TargetOperandDesc list \<times> bool \<Rightarrow> string \<times> bool option \<Rightarrow> (TargetOperandDesc list \<times> bool) result" where
  "loadOperand st src =
     (case (st, src) of ((operands, optionalSeen), (role, opt)) \<Rightarrow>
        bindR (lowered (targetOperandRoleFromString role)) (\<lambda>r.
          let is_optional = (case opt of Some b \<Rightarrow> b | None \<Rightarrow> False) in
          if \<not> is_optional \<and> optionalSeen then Inl Runtime_Error
          else Inr (operands @ [\<lparr>od_role = r, od_optional = is_optional\<rparr>], optionalSeen \<or> is_optional)))"

definition loadSink ::
  "(nat \<times> TargetControlSink) list \<Rightarrow> string \<Rightarrow> (nat \<times> TargetControlSink) list result" where
  "loadSink sinks name =
     bindR (lowered (targetControlSinkFromString name)) (\<lambda>sink.
       if sink \<in> snd ` set sinks then Inl Runtime_Error
       else Inr (sinks @ [(length sinks, sink)]))"

text \<open>The sinks of contracts without an explicit lowering section; the two counters of data and predicate
  operands are threaded through the loop.\<close>

definition legacySink ::
  "TargetExecutionClass \<Rightarrow> (nat \<times> TargetControlSink) list \<times> nat \<times> nat \<Rightarrow> TargetOperandDesc \<Rightarrow>
   (nat \<times> TargetControlSink) list \<times> nat \<times> nat" where
  "legacySink c st operand =
     (case st of (sinks, dataIndex, predicateIndex) \<Rightarrow>
        let index = length sinks in
        case od_role operand of
          OperandRole_Data \<Rightarrow>
            if c = Class_LSU then (sinks @ [(index, LsuStoreData)], dataIndex, predicateIndex)
            else (sinks @ [(index, if dataIndex = 0 then FuDataA else FuDataB)], dataIndex + 1, predicateIndex)
        | OperandRole_Predicate \<Rightarrow>
            if c = Class_LSU then (sinks @ [(index, LsuCommitPredicate)], dataIndex, predicateIndex)
            else (sinks @ [(index, if predicateIndex = 0 then FuPredicate0 else FuPredicate1)], dataIndex, predicateIndex + 1)
        | OperandRole_Address \<Rightarrow> (sinks @ [(index, LsuAddress)], dataIndex, predicateIndex))"

definition legacyResultSource :: "TargetExecutionClass \<Rightarrow> TargetResultRole \<Rightarrow> TargetResultSource" where
  "legacyResultSource c role =
     (if role = ResultRole_Data then (if c = Class_LSU then LsuLoadData else FuDataResult)
      else if role = ResultRole_Predicate then FuPredicateResult
      else Source_None)"

definition loadLowering ::
  "bool \<Rightarrow> TargetExecutionClass \<Rightarrow> TargetResultRole \<Rightarrow> TargetOperandDesc list \<Rightarrow> (string list \<times> string) option \<Rightarrow>
   ((nat \<times> TargetControlSink) list \<times> TargetResultSource) result" where
  "loadLowering explicitLoweringContract c role operands src =
     (case src of
        Some (names, source) \<Rightarrow>
          if length names \<noteq> length operands then Inl Runtime_Error
          else bindR (foldR loadSink [] names) (\<lambda>sinks.
            bindR (lowered (targetResultSourceFromString source)) (\<lambda>r. Inr (sinks, r)))
      | None \<Rightarrow>
          if explicitLoweringContract then Inl Runtime_Error
          else Inr (fst (foldl (legacySink c) ([], 0, 0) operands), legacyResultSource c role))"

definition validSink :: "TargetExecutionClass \<Rightarrow> TargetOperandDesc list \<Rightarrow> nat \<times> TargetControlSink \<Rightarrow> bool" where
  "validSink c operands entry =
     (case entry of (operandIndex, sink) \<Rightarrow>
        let role = od_role (operands ! operandIndex);
            valid = (role = OperandRole_Data \<and> (sink = FuDataA \<or> sink = FuDataB \<or> sink = LsuStoreData)) \<or>
              (role = OperandRole_Predicate \<and> (sink = FuPredicate0 \<or> sink = FuPredicate1 \<or> sink = LsuCommitPredicate)) \<or>
              (role = OperandRole_Address \<and> sink = LsuAddress);
            lsuSink = (sink = LsuAddress \<or> sink = LsuStoreData \<or> sink = LsuCommitPredicate)
        in valid \<and> (c = Class_LSU) = lsuSink)"

definition validResultSource :: "TargetExecutionClass \<Rightarrow> TargetResultRole \<Rightarrow> TargetResultSource \<Rightarrow> bool" where
  "validResultSource c role source \<longleftrightarrow>
     (role = ResultRole_Void \<and> source = Source_None) \<or>
     (role = ResultRole_Data \<and> c = Class_FU \<and> source = FuDataResult) \<or>
     (role = ResultRole_Predicate \<and> c = Class_FU \<and> source = FuPredicateResult) \<or>
     (role = ResultRole_Data \<and> c = Class_LSU \<and> source = LsuLoadData)"

definition positiveOptional :: "nat option \<Rightarrow> nat option result" where
  "positiveOptional v = (case v of None \<Rightarrow> Inr None | Some n \<Rightarrow> bindR (positiveUnsigned n) (\<lambda>m. Inr (Some m)))"

text \<open>\<open>ValueType::integer\<close> takes a \<open>uint16_t\<close>: the \<open>unsigned\<close> widths of the contract are narrowed by the
  call.\<close>

definition narrowIntegerTy :: "nat \<Rightarrow> ValueType" where
  "narrowIntegerTy bits = integerTy (bits mod 65536)"

definition resultTypeFor :: "nat \<Rightarrow> TargetResultRole \<Rightarrow> ValueType" where
  "resultTypeFor dataWidth role =
     (if role = ResultRole_Data then narrowIntegerTy dataWidth
      else if role = ResultRole_Predicate then predicateTy else voidTy)"

definition loadOperation :: "bool \<Rightarrow> nat \<Rightarrow> string \<times> OperationSource \<Rightarrow> TargetOperationDesc result" where
  "loadOperation explicitLoweringContract dataWidth entry =
     (case entry of (name, src) \<Rightarrow>
      bindR (guardR (name \<noteq> '''') Runtime_Error) (\<lambda>_.
      bindR (lowered (targetExecutionClassFromString (os_executionClass src))) (\<lambda>c.
      bindR (foldR loadOperand ([], False) (os_operands src)) (\<lambda>(operands, _).
      bindR (guardR (os_encodingDomain src \<noteq> '''' \<and> os_encodingSymbol src \<noteq> '''') Runtime_Error) (\<lambda>_.
      bindR (lowered (targetResultRoleFromString (os_resultRole src))) (\<lambda>role.
      bindR (loadLowering explicitLoweringContract c role operands (os_lowering src)) (\<lambda>(sinks, source).
      bindR (positiveUnsigned (os_issueOccupancy src)) (\<lambda>occupancy.
      bindR (positiveOptional (os_resultLatency src)) (\<lambda>latency.
      bindR (positiveOptional (os_accessWidth src)) (\<lambda>accessWidth.
      bindR (guardR (if role = ResultRole_Void then latency = None \<and> os_outputReadyOffset src = None
               else latency \<noteq> None \<and> os_outputReadyOffset src \<noteq> None) Runtime_Error) (\<lambda>_.
      bindR (guardR ((c = Class_LSU) = (accessWidth \<noteq> None)) Runtime_Error) (\<lambda>_.
      bindR (guardR (\<forall>e \<in> set sinks. validSink c operands e) Runtime_Error) (\<lambda>_.
      bindR (guardR (validResultSource c role source) Runtime_Error) (\<lambda>_.
        Inr \<lparr>op_id = name, op_executionClass = c, op_operands = operands, op_resultRole = role,
             op_resultType = resultTypeFor dataWidth role, op_issueOccupancy = occupancy, op_resultLatency = latency,
             op_producerOutputReadyOffset = os_outputReadyOffset src, op_accessWidthBits = accessWidth,
             op_encoding = Some \<lparr>er_domain = os_encodingDomain src, er_symbol = os_encodingSymbol src\<rparr>,
             op_operandSinks = sinks, op_resultSource = source\<rparr>))))))))))))))"

text \<open>\<open>push_back\<close> to the operations and \<open>emplace\<close> of the index.\<close>

definition addOperation ::
  "bool \<Rightarrow> nat \<Rightarrow> TargetOperationDesc list \<times> (string \<rightharpoonup> nat) \<Rightarrow> string \<times> OperationSource \<Rightarrow>
   (TargetOperationDesc list \<times> (string \<rightharpoonup> nat)) result" where
  "addOperation explicitLoweringContract dataWidth st entry =
     bindR (loadOperation explicitLoweringContract dataWidth entry) (\<lambda>d.
       Inr (fst st @ [d], if snd st (fst entry) = None then (snd st)(fst entry \<mapsto> length (fst st)) else snd st))"

section \<open>Capabilities\<close>

definition is_fu_operation :: "TargetOperationDesc list \<Rightarrow> (string \<rightharpoonup> nat) \<Rightarrow> string \<Rightarrow> bool" where
  "is_fu_operation operations indices name \<longleftrightarrow>
     (case indices name of None \<Rightarrow> False | Some k \<Rightarrow> op_executionClass (operations ! k) = Class_FU)"

definition addCapability ::
  "TargetOperationDesc list \<Rightarrow> (string \<rightharpoonup> nat) \<Rightarrow> string set \<Rightarrow> string \<Rightarrow> string set result" where
  "addCapability operations indices names name =
     (if \<not> is_fu_operation operations indices name then Inl Runtime_Error
      else if name \<in> names then Inl Runtime_Error
      else Inr (insert name names))"

definition addOverride ::
  "nat \<Rightarrow> nat \<Rightarrow> TargetOperationDesc list \<Rightarrow> (string \<rightharpoonup> nat) \<Rightarrow> (nat \<rightharpoonup> string set) \<Rightarrow> (nat \<times> nat) \<times> string list \<Rightarrow>
   (nat \<rightharpoonup> string set) result" where
  "addOverride rows cols operations indices overrides entry =
     (case entry of ((row, col), names) \<Rightarrow>
        if row \<ge> rows \<or> col \<ge> cols then Inl Runtime_Error
        else if overrides (tileKey row col) \<noteq> None then Inl Runtime_Error
        else bindR (foldR (addCapability operations indices) {} names) (\<lambda>supported.
          Inr (overrides(tileKey row col \<mapsto> supported))))"

definition loadCapabilities ::
  "nat \<Rightarrow> nat \<Rightarrow> TargetOperationDesc list \<Rightarrow> (string \<rightharpoonup> nat) \<Rightarrow> CapabilitySource option \<Rightarrow>
   (string set \<times> (nat \<rightharpoonup> string set)) result" where
  "loadCapabilities rows cols operations indices src =
     (case src of
        None \<Rightarrow> Inr (set (map op_id (filter (\<lambda>d. op_executionClass d = Class_FU) operations)), Map.empty)
      | Some caps \<Rightarrow>
          bindR (foldR (addCapability operations indices) {} (cs_default caps)) (\<lambda>defaults.
          bindR (foldR (addOverride rows cols operations indices) Map.empty (cs_overrides caps)) (\<lambda>overrides.
            Inr (defaults, overrides))))"

section \<open>Encodings\<close>

type_synonym Encodings = "(string \<rightharpoonup> (string \<rightharpoonup> nat)) \<times> (string \<rightharpoonup> (nat \<rightharpoonup> string))"

definition emplace :: "('k \<rightharpoonup> 'v) option \<Rightarrow> 'k \<Rightarrow> 'v \<Rightarrow> ('k \<rightharpoonup> 'v)" where
  "emplace m k v =
     (let m' = (case m of None \<Rightarrow> Map.empty | Some m' \<Rightarrow> m') in if m' k = None then m'(k \<mapsto> v) else m')"

definition loadSymbol :: "string \<Rightarrow> Encodings \<times> nat set \<Rightarrow> string \<times> int \<Rightarrow> (Encodings \<times> nat set) result" where
  "loadSymbol domain st entry =
     (case (st, entry) of (((forward, backward), seenValues), (name, signedValue)) \<Rightarrow>
        if signedValue < 0 \<or> signedValue > int u32_max then Inl Runtime_Error
        else
          let value = nat signedValue in
          if value \<in> seenValues then Inl Runtime_Error
          else Inr ((forward(domain \<mapsto> emplace (forward domain) name value),
                     backward(domain \<mapsto> emplace (backward domain) value name)), insert value seenValues))"

definition loadDomain :: "Encodings \<Rightarrow> string \<times> (string \<times> int) list \<Rightarrow> Encodings result" where
  "loadDomain encodings src =
     (if snd src = [] then Inl Runtime_Error
      else bindR (foldR (loadSymbol (fst src)) (encodings, {}) (snd src)) (\<lambda>st. Inr (fst st)))"

definition checkOperationEncoding :: "(string \<rightharpoonup> (string \<rightharpoonup> nat)) \<Rightarrow> unit \<Rightarrow> TargetOperationDesc \<Rightarrow> unit result" where
  "checkOperationEncoding encodings u d =
     (case op_encoding d of
        None \<Rightarrow> Inl Runtime_Error
      | Some binding \<Rightarrow>
          (case encodings (er_domain binding) of
             None \<Rightarrow> Inl Runtime_Error
           | Some symbols \<Rightarrow>
               if symbols (er_symbol binding) = None then Inl Runtime_Error
               else if op_executionClass d = Class_LSU \<and> er_domain binding \<noteq> ''lsu_op'' then Inl Runtime_Error
               else if op_executionClass d = Class_FU \<and> er_domain binding = ''lsu_op'' then Inl Runtime_Error
               else Inr ()))"

section \<open>Control layout\<close>

text \<open>The loop over the bits of one field; the covered bits are a list of flags.\<close>

fun coverBits :: "nat \<Rightarrow> nat \<Rightarrow> bool list \<Rightarrow> bool list result" where
  "coverBits b 0 covered = Inr covered"
| "coverBits b (Suc n) covered =
     (if covered ! b then Inl Runtime_Error else coverBits (Suc b) n (covered[b := True]))"

text \<open>The values of an encoding domain must fit its field.  The loop over the symbols of the domain runs
  over the entries of the contract.\<close>

definition symbolsFit :: "(string \<times> (string \<times> int) list) list \<Rightarrow> string \<Rightarrow> nat \<Rightarrow> bool" where
  "symbolsFit encodings domain width \<longleftrightarrow>
     (\<forall>d \<in> set encodings. fst d = domain \<longrightarrow> (\<forall>s \<in> set (snd d). width < 64 \<longrightarrow> snd s \<le> 2 ^ width - 1))"

definition loadField ::
  "nat \<Rightarrow> (string \<times> (string \<times> int) list) list \<Rightarrow> (ControlField list \<times> (string \<rightharpoonup> nat)) \<times> bool list \<Rightarrow> FieldSource \<Rightarrow>
   ((ControlField list \<times> (string \<rightharpoonup> nat)) \<times> bool list) result" where
  "loadField rawWidth encodings st src =
     (case st of ((known, indices), covered) \<Rightarrow>
        bindR (positiveUnsigned (fs_width src)) (\<lambda>width.
        bindR (guardR (fs_name src \<noteq> '''') Runtime_Error) (\<lambda>_.
        bindR (guardR (fs_lsb src \<le> rawWidth \<and> width \<le> rawWidth - fs_lsb src) Runtime_Error) (\<lambda>_.
        bindR (guardR (indices (fs_name src) = None) Runtime_Error) (\<lambda>_.
        bindR (coverBits (fs_lsb src) width covered) (\<lambda>covered'.
        bindR (case fs_encoding src of
                 None \<Rightarrow> Inr ()
               | Some domain \<Rightarrow>
                   guardR (domain \<in> fst ` set encodings \<and> symbolsFit encodings domain width) Runtime_Error) (\<lambda>_.
          Inr ((known @ [\<lparr>cf_name = fs_name src, cf_lsb = fs_lsb src, cf_width = width, cf_encoding = fs_encoding src\<rparr>],
                indices(fs_name src \<mapsto> length known)), covered'))))))))"

definition loadLayout :: "(string \<times> (string \<times> int) list) list \<Rightarrow> LayoutSource \<Rightarrow> ControlLayout result" where
  "loadLayout encodings src =
     bindR (positiveUnsigned (ls_rawWidth src)) (\<lambda>raw.
     bindR (positiveUnsigned (ls_physicalWidth src)) (\<lambda>physical.
     bindR (positiveUnsigned (ls_chunks src)) (\<lambda>chunks.
     bindR (positiveUnsigned (ls_chunkBits src)) (\<lambda>chunkBits.
     bindR (guardR (physical \<ge> raw) Runtime_Error) (\<lambda>_.
     bindR (guardR (chunks = 4 \<and> chunkBits = 32) Runtime_Error) (\<lambda>_.
     bindR (guardR (wrap32 (chunks * chunkBits) = physical) Runtime_Error) (\<lambda>_.
     bindR (guardR (ls_chunkOrder src = ''little_word'') Runtime_Error) (\<lambda>_.
     bindR (guardR (ls_paddingLsb src = raw \<and> ls_paddingWidth src = physical - raw) Runtime_Error) (\<lambda>_.
     bindR (guardR (ls_paddingValue src = 0) Runtime_Error) (\<lambda>_.
     bindR (guardR (ls_fields src \<noteq> []) Runtime_Error) (\<lambda>_.
     bindR (foldR (loadField raw encodings) (([], Map.empty), replicate raw False) (ls_fields src)) (\<lambda>((known, indices), covered).
     bindR (guardR (False \<notin> set covered) Runtime_Error) (\<lambda>_.
       Inr \<lparr>cl_rawWidth = raw, cl_physicalWidth = physical, cl_chunks = chunks, cl_chunkBits = chunkBits,
            cl_paddingLsb = ls_paddingLsb src, cl_paddingWidth = ls_paddingWidth src,
            cl_paddingValue = ls_paddingValue src, cl_fields = known, cl_fieldIndices = indices\<rparr>)))))))))))))"

definition loadConstantDepth :: "nat option \<Rightarrow> ControlLayout \<Rightarrow> nat result" where
  "loadConstantDepth depth layout =
     (case depth of
        Some d \<Rightarrow> positiveUnsigned d
      | None \<Rightarrow> bindR (cl_field layout ''constantAddr'') (\<lambda>f. Inr (wrap32 (2 ^ cf_width f))))"

section \<open>Memory ports\<close>

definition loadLsuTile :: "nat \<Rightarrow> nat \<Rightarrow> nat \<Rightarrow> LsuTileDesc list \<Rightarrow> LsuTileDesc \<Rightarrow> LsuTileDesc list result" where
  "loadLsuTile rows cols ports tiles tile =
     (if lsu_row tile \<ge> rows \<or> lsu_col tile \<ge> cols then Inl Runtime_Error
      else if lsu_portId tile \<ge> ports then Inl Runtime_Error
      else if (lsu_row tile, lsu_col tile) \<in> (\<lambda>d. (lsu_row d, lsu_col d)) ` set tiles then Inl Runtime_Error
      else if lsu_portId tile \<in> lsu_portId ` set tiles then Inl Runtime_Error
      else Inr (tiles @ [tile]))"

definition loadLsuTiles :: "nat \<Rightarrow> nat \<Rightarrow> nat \<Rightarrow> LsuTileDesc list \<Rightarrow> LsuTileDesc list result" where
  "loadLsuTiles rows cols ports src =
     (if length src > ports then Inl Runtime_Error
      else bindR (foldR (loadLsuTile rows cols ports) [] src) (\<lambda>tiles.
        let ordered = sort_key (\<lambda>d. (lsu_row d, lsu_col d)) tiles in
        if \<exists>rank < length ordered. lsu_portId (ordered ! rank) \<noteq> rank then Inl Runtime_Error
        else Inr ordered))"

section \<open>The loader\<close>

definition checkLoad :: "MemoryDesc \<Rightarrow> TargetOperationDesc option \<Rightarrow> unit result" where
  "checkLoad memory d =
     (case d of
        None \<Rightarrow> Inl Runtime_Error
      | Some op \<Rightarrow>
          guardR (op_executionClass op = Class_LSU \<and> op_resultType op = narrowIntegerTy (mem_widthBits memory) \<and>
            op_accessWidthBits op = Some (mem_widthBits memory)) Runtime_Error)"

definition checkStore :: "MemoryDesc \<Rightarrow> TargetOperationDesc option \<Rightarrow> unit result" where
  "checkStore memory d =
     (case d of
        None \<Rightarrow> Inl Runtime_Error
      | Some op \<Rightarrow>
          guardR (op_executionClass op = Class_LSU \<and> op_resultType op = voidTy \<and>
            op_accessWidthBits op = Some (mem_widthBits memory)) Runtime_Error)"

definition checkLoop :: "LoopSource \<Rightarrow> unit result" where
  "checkLoop src =
     bindR (guardR (lo_supported src \<and> lo_model src = ''finite_modulo_replay'') Runtime_Error) (\<lambda>_.
     bindR (guardR (lo_controlPhases src = [''prologue'', ''kernel'', ''epilogue'']) Runtime_Error) (\<lambda>_.
       guardR (\<not> lo_rotatingRegisters src \<and> \<not> lo_loopCounterOperand src \<and> \<not> lo_sameAddressRecurrence src) Runtime_Error))"

text \<open>The redundant parameters: the list holds them in the order in which the loader compares them.\<close>

definition checkParameters :: "TargetModel \<Rightarrow> nat list \<Rightarrow> unit result" where
  "checkParameters t params =
     bindR (positiveAll params) (\<lambda>_.
       guardR (params =
         [arr_rows (tm_array t), arr_cols (tm_array t), arr_dataWidth (tm_array t), arr_predicateWidth (tm_array t),
          rf_depth (tm_dataRF t), rf_depth (tm_predicateRF t), mem_depth (tm_memory t), mem_widthBits (tm_memory t),
          mem_ports (tm_memory t), mem_loadLatency (tm_memory t), ic_hopLatency (tm_interconnect t),
          cl_rawWidth (tm_controlLayout t), cl_physicalWidth (tm_controlLayout t), cl_chunks (tm_controlLayout t)])
         Runtime_Error)"

definition checkControlSchema :: "TargetModel \<Rightarrow> string \<times> nat list \<Rightarrow> unit result" where
  "checkControlSchema t schema =
     bindR (guardR (fst schema = ''lsb_first_fixed_field_order'') Runtime_Error) (\<lambda>_.
     bindR (positiveAll (snd schema)) (\<lambda>_.
       guardR (snd schema = [cl_chunkBits (tm_controlLayout t), cl_rawWidth (tm_controlLayout t),
         cl_physicalWidth (tm_controlLayout t), cl_chunks (tm_controlLayout t)]) Runtime_Error))"

definition checkLegacyOps :: "ContractSource \<Rightarrow> unit result" where
  "checkLegacyOps src =
     bindR (positiveAll (ct_legacyOccupancies src)) (\<lambda>_.
     bindR (guardR (\<forall>name \<in> set (ct_legacyOps src). name \<in> fst ` set (ct_fuLatencies src)) Runtime_Error) (\<lambda>_.
       guardR (ct_compatibilityStatus src = ''legacy_compatibility_view'' \<and> ct_compatibilitySection src = ''operations'')
         Runtime_Error))"

definition validatePorts :: "ContractSource \<Rightarrow> RegisterFileDesc \<Rightarrow> RegisterFileDesc \<Rightarrow> (string \<rightharpoonup> (string \<rightharpoonup> nat)) \<Rightarrow> unit result" where
  "validatePorts src dataRF predicateRF encodings =
     bindR (validateWritePortNames (ct_dataRF src) dataRF) (\<lambda>_.
     bindR (validateWritePortNames (ct_predicateRF src) predicateRF) (\<lambda>_.
     bindR (validateWritePortSource dataRF ''W0'' ''route_data_source'' encodings) (\<lambda>_.
     bindR (if rf_writePorts dataRF > 1 then validateWritePortSource dataRF ''W1'' ''data_source'' encodings else Inr ()) (\<lambda>_.
     bindR (validateWritePortSource predicateRF ''W0'' ''route_predicate_source'' encodings) (\<lambda>_.
       if rf_writePorts predicateRF > 1 then validateWritePortSource predicateRF ''W1'' ''predicate_source'' encodings
       else Inr ())))))"

definition loadTarget :: "ContractSource \<Rightarrow> TargetModel result" where
  "loadTarget src =
     (let explicitLoweringContract = (ct_schema src = ''cgra.target.v3'');
          rows = arr_rows (ct_array src); cols = arr_cols (ct_array src); width = arr_dataWidth (ct_array src) in
      bindR (guardR (ct_schema src = ''cgra.target.v2'' \<or> ct_schema src = ''cgra.target.v3'') Runtime_Error) (\<lambda>_.
      bindR (positiveUnsigned (ct_version src)) (\<lambda>version.
      bindR (guardR (version = (if explicitLoweringContract then 3 else 2)) Runtime_Error) (\<lambda>_.
      bindR (guardR (ct_name src \<noteq> '''') Runtime_Error) (\<lambda>_.
      bindR (positiveAll [rows, cols, width, arr_predicateWidth (ct_array src)]) (\<lambda>_.
      bindR (parseRegisterFile ''data_rf'' Bank_Data (ct_dataRF src) rows cols) (\<lambda>dataRF.
      bindR (parseRegisterFile ''predicate_rf'' Bank_Predicate (ct_predicateRF src) rows cols) (\<lambda>predicateRF.
      bindR (loadInterconnect (ct_interconnect src)) (\<lambda>interconnect.
      bindR (loadMemory (ct_memory src)) (\<lambda>memory.
      bindR (checkLegacyOps src) (\<lambda>_.
      bindR (guardR (ct_operations src \<noteq> []) Runtime_Error) (\<lambda>_.
      bindR (foldR (addOperation explicitLoweringContract width) ([], Map.empty) (ct_operations src)) (\<lambda>(operations, indices).
      bindR (loadCapabilities rows cols operations indices (ct_capabilities src)) (\<lambda>(defaults, overrides).
      bindR (checkLoad memory (map_option (\<lambda>k. operations ! k) (indices ''LOAD''))) (\<lambda>_.
      bindR (checkStore memory (map_option (\<lambda>k. operations ! k) (indices ''STORE''))) (\<lambda>_.
      bindR (guardR (\<forall>l \<in> set (ct_fuLatencies src). snd l \<ge> 0) Runtime_Error) (\<lambda>_.
      bindR (checkLoop (ct_loop src)) (\<lambda>_.
      bindR (foldR loadDomain (Map.empty, Map.empty) (ct_encodings src)) (\<lambda>(forward, backward).
      bindR (foldR (checkOperationEncoding forward) () operations) (\<lambda>_.
      bindR (validatePorts src dataRF predicateRF forward) (\<lambda>_.
      bindR (loadLayout (ct_encodings src) (ct_layout src)) (\<lambda>layout.
      bindR (loadConstantDepth (ct_constMemDepth src) layout) (\<lambda>depth.
      bindR (guardR (ct_portAssignment src = ''enabled_tile_row_major_rank'') Runtime_Error) (\<lambda>_.
      bindR (loadLsuTiles rows cols (mem_ports memory) (ct_lsuTiles src)) (\<lambda>lsuTiles.
        let t = \<lparr>tm_name = ct_name src, tm_array = ct_array src, tm_dataRF = dataRF, tm_predicateRF = predicateRF,
              tm_interconnect = interconnect, tm_memory = memory, tm_controlLayout = layout, tm_constantMemoryDepth = depth,
              tm_lsuTiles = lsuTiles, tm_encodings = forward, tm_reverseEncodings = backward,
              tm_operations = operations, tm_operationIndices = indices, tm_defaultFuOperations = defaults,
              tm_tileOperationOverrides = overrides\<rparr>
        in bindR (checkParameters t (ct_parameters src)) (\<lambda>_.
           bindR (checkControlSchema t (ct_controlSchema src)) (\<lambda>_. Inr t)))))))))))))))))))))))))))"

end
