(* ===== verification/Target_Control_Sound.thy ===== *)
theory Target_Control_Sound
  imports Target_Control
begin

text \<open>
  Correctness of the control words: the bit fields are inserted and extracted exactly, the accessors of
  the semantic fields are independent, and with the layouts the loader accepts, encoding and decoding
  are inverse to each other.
\<close>

unbundle bit_operations_syntax

section \<open>Bits of a control word\<close>

definition phys :: "EncodedControl \<Rightarrow> nat \<Rightarrow> bool" where
  "phys e p = bit (e ! (p div 32)) (p mod 32)"

lemma and_one_nonzero: "drop_bit b w AND 1 \<noteq> 0 \<longleftrightarrow> bit (w :: 'a::len word) b"
  by (simp add: and_one_eq bit_iff_odd_drop_bit odd_iff_mod_2_eq_one)

lemma insertBit_phys:
  assumes "length e = 4" "lsb + b < 128"
  shows "\<exists>e'. insertBit lsb v e b = Inr e' \<and> length e' = 4 \<and>
    (\<forall>p < 128. phys e' p \<longleftrightarrow> phys e p \<or> (p = lsb + b \<and> bit v b))"
proof (cases "bit v b")
  case True
  let ?q = "lsb + b"
  let ?e = "e[?q div 32 := (e ! (?q div 32)) OR push_bit (?q mod 32) 1]"
  have "insertBit lsb v e b = Inr ?e"
    using True assms by (simp add: insertBit_def and_one_nonzero wrap32_small Let_def)
  moreover have "phys ?e p \<longleftrightarrow> phys e p \<or> p = ?q" if "p < 128" for p
  proof (cases "p div 32 = ?q div 32")
    case True
    then have "p mod 32 = ?q mod 32 \<longleftrightarrow> p = ?q" by (metis mod_mult_div_eq)
    with True assms show ?thesis by (auto simp: phys_def bit_or_iff bit_exp_iff)
  next
    case False
    then show ?thesis by (auto simp: phys_def)
  qed
  ultimately show ?thesis using True assms by auto
next
  case False
  then show ?thesis using assms by (simp add: insertBit_def and_one_nonzero Let_def)
qed

lemma insert_bits_phys:
  assumes "length e = 4" "lsb + width \<le> 128"
  shows "\<exists>e'. foldR (insertBit lsb v) e [0..<width] = Inr e' \<and> length e' = 4 \<and>
    (\<forall>p < 128. phys e' p \<longleftrightarrow> phys e p \<or> (lsb \<le> p \<and> p < lsb + width \<and> bit v (p - lsb)))"
  using assms(2)
proof (induction width)
  case (Suc n)
  then obtain e1 where e1: "foldR (insertBit lsb v) e [0..<n] = Inr e1" "length e1 = 4"
    "\<forall>p < 128. phys e1 p \<longleftrightarrow> phys e p \<or> (lsb \<le> p \<and> p < lsb + n \<and> bit v (p - lsb))" by auto
  from insertBit_phys [OF e1(2), of lsb n v] Suc.prems obtain e2 where e2: "insertBit lsb v e1 n = Inr e2" "length e2 = 4"
    "\<forall>p < 128. phys e2 p \<longleftrightarrow> phys e1 p \<or> (p = lsb + n \<and> bit v n)" by auto
  have "phys e2 p \<longleftrightarrow> phys e p \<or> (lsb \<le> p \<and> p < lsb + Suc n \<and> bit v (p - lsb))" if "p < 128" for p
    using e1(3) e2(3) that by (cases "p = lsb + n") auto
  with e1(1) e2(1,2) show ?case by (simp add: foldR_append)
qed (use assms(1) in auto)

lemma extract_bits_phys:
  assumes "length e = 4" "lsb + width \<le> 128" "width \<le> 64"
  shows "\<exists>v. extractBits e lsb width = Inr v \<and> (\<forall>k. bit v k \<longleftrightarrow> k < width \<and> phys e (lsb + k))"
  using assms(2,3)
proof (induction width)
  case (Suc n)
  then obtain v where v: "extractBits e lsb n = Inr v" "\<forall>k. bit v k \<longleftrightarrow> k < n \<and> phys e (lsb + k)" by auto
  let ?c = "drop_bit ((lsb + n) mod 32) (e ! ((lsb + n) div 32)) AND 1"
  have c: "bit (ucast ?c :: 64 word) k \<longleftrightarrow> k = 0 \<and> phys e (lsb + n)" for k
    by (auto simp: bit_ucast_iff bit_and_iff bit_1_iff bit_drop_bit_eq phys_def)
  have "extractBits e lsb (Suc n) = Inr (v OR push_bit n (ucast ?c))"
    using v(1) assms(1) Suc.prems by (simp add: extractBits_def extractBit_def foldR_append wrap32_small Let_def)
  moreover have "bit (v OR push_bit n (ucast ?c)) k \<longleftrightarrow> k < Suc n \<and> phys e (lsb + k)" for k
  proof -
    have "bit (push_bit n (ucast ?c) :: 64 word) k \<longleftrightarrow> k = n \<and> phys e (lsb + n)"
      using Suc.prems unfolding bit_push_bit_iff c by auto
    with v(2) show ?thesis unfolding bit_or_iff by (auto simp: less_Suc_eq)
  qed
  ultimately show ?case by blast
qed (simp add: extractBits_def)

lemma fieldLimit_bits:
  assumes "width \<le> 64"
  shows "v \<le> fieldLimit width \<longleftrightarrow> (\<forall>k \<ge> width. \<not> bit v k)"
proof -
  have m: "fieldLimit width = mask width"
    using assms by (cases "width = 64") (simp_all add: fieldLimit_def mask_eq_exp_minus_1 push_bit_eq_mult exp_eq_zero_iff)
  have "v \<le> mask width \<longleftrightarrow> take_bit width v = v"
  proof -
    have "v \<le> mask width \<longleftrightarrow> uint v < 2 ^ width"
      using assms unfolding word_le_def uint_mask_eq by (simp add: mask_eq_exp_minus_1)
    also have "\<dots> \<longleftrightarrow> uint (take_bit width v) = uint v"
      by (simp add: unsigned_take_bit_eq take_bit_int_eq_self_iff)
    finally show ?thesis by (metis word_uint_eqI)
  qed
  also have "\<dots> \<longleftrightarrow> (\<forall>k \<ge> width. \<not> bit v k)"
    unfolding bit_eq_iff bit_take_bit_iff using bit_imp_possible_bit by (metis leI leD)
  finally show ?thesis by (simp add: m)
qed

section \<open>Accessors\<close>

definition routes_ok :: "TileControl \<Rightarrow> bool" where
  "routes_ok c \<longleftrightarrow> length (tc_dataRoutes c) = 4 \<and> length (tc_predicateRoutes c) = 4"

lemmas accessors = semanticInteger_def semanticEncoding_def setSemanticInteger_def setSemanticEncoding_def Directions_def

definition integer_fields :: "string list" where
  "integer_fields = [''data_rf_raddr_a'', ''data_rf_raddr_b'', ''pred_rf_raddr_a'', ''pred_rf_raddr_b'', ''data_w0_we'',
     ''data_w0_addr'', ''data_w1_we'', ''data_w1_addr'', ''pred_w0_we'', ''pred_w0_addr'', ''pred_w1_we'', ''pred_w1_addr'',
     ''const_addr'', ''lsu_commit_pred_enable'', ''lsu_commit_pred_invert'',
     ''data_route_north_we'', ''data_route_south_we'', ''data_route_east_we'', ''data_route_west_we'',
     ''pred_route_north_we'', ''pred_route_south_we'', ''pred_route_east_we'', ''pred_route_west_we'']"

definition encoded_fields :: "string list" where
  "encoded_fields = [''op'', ''src_a'', ''src_b'', ''src_p0'', ''src_p1'', ''data_w1_src'', ''pred_w1_src'', ''lsu_op'',
     ''lsu_addr_src'', ''lsu_store_data_src'', ''lsu_commit_pred_src'',
     ''data_route_north_src'', ''data_route_south_src'', ''data_route_east_src'', ''data_route_west_src'',
     ''pred_route_north_src'', ''pred_route_south_src'', ''pred_route_east_src'', ''pred_route_west_src'']"

lemma integer_known: "semanticInteger c f = Inr v \<Longrightarrow> f \<in> set integer_fields"
  by (simp add: accessors integer_fields_def split: if_splits)

lemma encoded_known: "semanticEncoding c f = Inr v \<Longrightarrow> f \<in> set encoded_fields"
  by (simp add: accessors encoded_fields_def split: if_splits)

lemma flag_bits [simp]: "flag b \<noteq> 0 \<longleftrightarrow> b"
  by (simp add: flag_def)

lemma unsigned_back: "(ucast (ucast (a :: 32 word) :: 64 word) :: 32 word) = a"
  by (auto simp: bit_eq_iff bit_ucast_iff)

lemma unsigned_inj: "(ucast (a :: 32 word) :: 64 word) = ucast b \<longleftrightarrow> a = b"
  by (metis unsigned_back)

lemma nth_update_cases: "xs[i := x] ! j = (if i = j \<and> i < length xs then x else xs ! j)"
  by (cases "i < length xs") (auto simp: nth_list_update list_update_beyond not_less)

lemma route_update [simp]:
  "rc_source (xs[i := (xs ! i)\<lparr>rc_enabled := b\<rparr>] ! j) = rc_source (xs ! j)"
  "rc_enabled (xs[i := (xs ! i)\<lparr>rc_source := s\<rparr>] ! j) = rc_enabled (xs ! j)"
  by (simp_all add: nth_update_cases)

text \<open>Setting a field changes no other field.\<close>

lemma integer_frame:
  assumes "f \<in> set integer_fields"
  shows "\<forall>d'. setSemanticInteger d f v = Inr d' \<longrightarrow> (\<forall>g. g \<noteq> f \<longrightarrow> semanticInteger d' g = semanticInteger d g)"
  using assms unfolding integer_fields_def list.set insert_iff empty_iff
  by (elim disjE) (simp_all add: accessors cong del: if_weak_cong)

lemma integer_frame_encoding:
  assumes "f \<in> set integer_fields"
  shows "\<forall>d'. setSemanticInteger d f v = Inr d' \<longrightarrow> (\<forall>g. semanticEncoding d' g = semanticEncoding d g)"
  using assms unfolding integer_fields_def list.set insert_iff empty_iff
  by (elim disjE) (simp_all add: accessors cong del: if_weak_cong)

lemma encoding_set:
  assumes "f \<in> set encoded_fields" "routes_ok d"
  shows "\<exists>d'. setSemanticEncoding d f v = Inr d' \<and> routes_ok d' \<and> semanticEncoding d' f = Inr v"
  using assms(1) assms(2) unfolding encoded_fields_def list.set insert_iff empty_iff routes_ok_def
  by (elim disjE) (simp_all add: accessors cong del: if_weak_cong)

lemma encoding_frame:
  assumes "f \<in> set encoded_fields"
  shows "\<forall>d'. setSemanticEncoding d f v = Inr d' \<longrightarrow> (\<forall>g. g \<noteq> f \<longrightarrow> semanticEncoding d' g = semanticEncoding d g)"
  using assms unfolding encoded_fields_def list.set insert_iff empty_iff
  by (elim disjE) (simp_all add: accessors cong del: if_weak_cong)

lemma encoding_frame_integer:
  assumes "f \<in> set encoded_fields"
  shows "\<forall>d'. setSemanticEncoding d f v = Inr d' \<longrightarrow> (\<forall>g. semanticInteger d' g = semanticInteger d g)"
  using assms unfolding encoded_fields_def list.set insert_iff empty_iff
  by (elim disjE) (simp_all add: accessors cong del: if_weak_cong)

text \<open>What a field holds after a value was set: flags keep whether it is zero, register and memory
  addresses its lower 32 bits.\<close>

definition flag_fields :: "string list" where
  "flag_fields = [''data_w0_we'', ''data_w1_we'', ''pred_w0_we'', ''pred_w1_we'', ''lsu_commit_pred_enable'',
     ''lsu_commit_pred_invert'',
     ''data_route_north_we'', ''data_route_south_we'', ''data_route_east_we'', ''data_route_west_we'',
     ''pred_route_north_we'', ''pred_route_south_we'', ''pred_route_east_we'', ''pred_route_west_we'']"

lemma integer_put:
  assumes "f \<in> set integer_fields" "routes_ok d"
  shows "\<exists>d'. setSemanticInteger d f v = Inr d' \<and> routes_ok d' \<and>
    semanticInteger d' f = Inr (if f \<in> set flag_fields then flag (v \<noteq> 0) else ucast (ucast v :: 32 word))"
  using assms(1) assms(2) unfolding integer_fields_def list.set insert_iff empty_iff routes_ok_def
  by (elim disjE) (simp_all add: accessors flag_fields_def)

lemma integer_settable: "setSemanticInteger d f v = Inr d' \<Longrightarrow> f \<in> set integer_fields"
  by (simp add: accessors integer_fields_def split: if_splits)

lemma encoding_settable: "setSemanticEncoding d f v = Inr d' \<Longrightarrow> f \<in> set encoded_fields"
  by (simp add: accessors encoded_fields_def split: if_splits)

text \<open>A control is determined by its fields.\<close>

lemma routes_equal:
  assumes "length xs = 4" "length ys = 4"
    and "\<forall>i < 4. rc_enabled (xs ! i) = rc_enabled (ys ! i) \<and> rc_source (xs ! i) = rc_source (ys ! i)"
  shows "xs = (ys :: RouteControl list)"
  using assms by (intro nth_equalityI RouteControl.equality) auto

lemma flag_inj: "flag a = flag b \<longleftrightarrow> a = b"
  by (auto simp: flag_def)

lemma less_four: "(\<forall>i < (4::nat). P i) \<longleftrightarrow> P 0 \<and> P 1 \<and> P 2 \<and> P 3"
  by (auto simp: numeral_eq_Suc less_Suc_eq)

lemma control_equal:
  assumes r: "routes_ok c" "routes_ok d"
    and i: "\<forall>g \<in> set integer_fields. semanticInteger c g = semanticInteger d g"
    and e: "\<forall>g \<in> set encoded_fields. semanticEncoding c g = semanticEncoding d g"
  shows "c = d"
proof -
  have i2: "\<forall>k < 4. rc_enabled (tc_dataRoutes c ! k) = rc_enabled (tc_dataRoutes d ! k)"
    "\<forall>k < 4. rc_enabled (tc_predicateRoutes c ! k) = rc_enabled (tc_predicateRoutes d ! k)"
    unfolding less_four using i unfolding integer_fields_def by (simp_all add: accessors flag_inj numeral_eq_Suc)
  have e2: "\<forall>k < 4. rc_source (tc_dataRoutes c ! k) = rc_source (tc_dataRoutes d ! k)"
    "\<forall>k < 4. rc_source (tc_predicateRoutes c ! k) = rc_source (tc_predicateRoutes d ! k)"
    unfolding less_four using e unfolding encoded_fields_def by (simp_all add: accessors numeral_eq_Suc)
  have routes: "tc_dataRoutes c = tc_dataRoutes d" "tc_predicateRoutes c = tc_predicateRoutes d"
    by (rule routes_equal; use r i2 e2 in \<open>simp add: routes_ok_def\<close>)+
  have i3: "tc_dataRfReadAddrA c = tc_dataRfReadAddrA d \<and> tc_dataRfReadAddrB c = tc_dataRfReadAddrB d \<and>
      tc_predicateRfReadAddrA c = tc_predicateRfReadAddrA d \<and> tc_predicateRfReadAddrB c = tc_predicateRfReadAddrB d \<and>
      tc_dataWrite0Enable c = tc_dataWrite0Enable d \<and> tc_dataWrite0Addr c = tc_dataWrite0Addr d \<and>
      tc_dataWrite1Enable c = tc_dataWrite1Enable d \<and> tc_dataWrite1Addr c = tc_dataWrite1Addr d \<and>
      tc_predicateWrite0Enable c = tc_predicateWrite0Enable d \<and> tc_predicateWrite0Addr c = tc_predicateWrite0Addr d \<and>
      tc_predicateWrite1Enable c = tc_predicateWrite1Enable d \<and> tc_predicateWrite1Addr c = tc_predicateWrite1Addr d \<and>
      tc_constantAddr c = tc_constantAddr d \<and> tc_lsuCommitPredicateEnable c = tc_lsuCommitPredicateEnable d \<and>
      tc_lsuCommitPredicateInvert c = tc_lsuCommitPredicateInvert d"
    using i by (simp add: integer_fields_def accessors flag_inj unsigned_inj)
  have e3: "tc_op c = tc_op d \<and> tc_srcA c = tc_srcA d \<and> tc_srcB c = tc_srcB d \<and> tc_srcP0 c = tc_srcP0 d \<and>
      tc_srcP1 c = tc_srcP1 d \<and> tc_dataWrite1Source c = tc_dataWrite1Source d \<and>
      tc_predicateWrite1Source c = tc_predicateWrite1Source d \<and> tc_lsuOp c = tc_lsuOp d \<and>
      tc_lsuAddrSource c = tc_lsuAddrSource d \<and> tc_lsuStoreDataSource c = tc_lsuStoreDataSource d \<and>
      tc_lsuCommitPredicateSource c = tc_lsuCommitPredicateSource d"
    using e by (simp add: encoded_fields_def accessors)
  show ?thesis by (rule TileControl.equality) (simp_all add: i3 e3 routes)
qed

section \<open>Layouts\<close>

text \<open>What the loader checks of a layout and of the encodings it refers to.\<close>

definition in_field :: "ControlField \<Rightarrow> nat \<Rightarrow> bool" where
  "in_field f p \<longleftrightarrow> cf_lsb f \<le> p \<and> p < cf_lsb f + cf_width f"

definition layout_ok :: "ControlLayout \<Rightarrow> bool" where
  "layout_ok l \<longleftrightarrow>
     cl_rawWidth l \<le> 128 \<and> cl_paddingLsb l = cl_rawWidth l \<and> cl_paddingWidth l = 128 - cl_rawWidth l \<and>
     cl_paddingValue l = 0 \<and> distinct (map cf_name (cl_fields l)) \<and>
     (\<forall>f \<in> set (cl_fields l). cf_lsb f + cf_width f \<le> cl_rawWidth l) \<and>
     (\<forall>f \<in> set (cl_fields l). \<forall>h \<in> set (cl_fields l). \<forall>p. in_field f p \<and> in_field h p \<longrightarrow> f = h) \<and>
     (\<forall>p < cl_rawWidth l. \<exists>f \<in> set (cl_fields l). in_field f p)"

definition encodings_ok :: "TargetModel \<Rightarrow> bool" where
  "encodings_ok t \<longleftrightarrow>
     (\<forall>d names. tm_encodings t d = Some names \<longrightarrow>
        (\<exists>reads. tm_reverseEncodings t d = Some reads \<and>
           (\<forall>n v. names n = Some v \<longleftrightarrow> reads v = Some n) \<and> (\<forall>n v. names n = Some v \<longrightarrow> v \<le> u32_max))) \<and>
     (\<forall>d. tm_encodings t d = None \<longrightarrow> tm_reverseEncodings t d = None)"

text \<open>Fields and padding of at most 64 bits, so that no shift is undefined.\<close>

definition narrow :: "ControlLayout \<Rightarrow> bool" where
  "narrow l \<longleftrightarrow> cl_paddingWidth l \<le> 64 \<and> (\<forall>f \<in> set (cl_fields l). cf_width f \<le> 64)"

lemma encodeFields_bits:
  assumes "foldR (encodeField c t) e0 fs = Inr e" and "length e0 = 4"
    and "\<forall>f \<in> set fs. cf_lsb f + cf_width f \<le> 128 \<and> cf_width f \<le> 64"
  shows "length e = 4 \<and> (\<forall>f \<in> set fs. \<exists>v. fieldValue c t f = Inr v \<and> v \<le> fieldLimit (cf_width f)) \<and>
    (\<forall>p < 128. phys e p \<longleftrightarrow> phys e0 p \<or>
       (\<exists>f \<in> set fs. in_field f p \<and> (\<exists>v. fieldValue c t f = Inr v \<and> bit v (p - cf_lsb f))))"
  using assms
proof (induction fs arbitrary: e0)
  case (Cons f fs)
  from Cons.prems(1) obtain e1 where step: "encodeField c t e0 f = Inr e1" and e: "foldR (encodeField c t) e1 fs = Inr e"
    by (auto simp: bindR_eq_Inr)
  from step obtain v where v: "fieldValue c t f = Inr v" "v \<le> fieldLimit (cf_width f)"
    and e1: "foldR (insertBit (cf_lsb f) v) e0 [0..<cf_width f] = Inr e1"
    by (auto simp: encodeField_def insertBits_def bindR_eq_Inr not_less split: if_splits)
  from insert_bits_phys [OF Cons.prems(2), of "cf_lsb f" "cf_width f" v] Cons.prems(3) e1
  have b: "length e1 = 4" "\<forall>p < 128. phys e1 p \<longleftrightarrow> phys e0 p \<or> (in_field f p \<and> bit v (p - cf_lsb f))"
    by (auto simp: in_field_def)
  from Cons.IH [OF e b(1)] Cons.prems(3) b(2) v show ?case by auto
qed simp

lemma encodeFields_total:
  assumes "length e0 = 4" and "\<forall>f \<in> set fs. cf_lsb f + cf_width f \<le> 128"
    and "\<forall>f \<in> set fs. \<exists>v. fieldValue c t f = Inr v \<and> v \<le> fieldLimit (cf_width f)"
  shows "\<exists>e. foldR (encodeField c t) e0 fs = Inr e"
  using assms
proof (induction fs arbitrary: e0)
  case (Cons f fs)
  then obtain v where v: "fieldValue c t f = Inr v" "v \<le> fieldLimit (cf_width f)" by auto
  from insert_bits_phys [OF Cons.prems(1), of "cf_lsb f" "cf_width f" v] Cons.prems(2) obtain e1 where
    "foldR (insertBit (cf_lsb f) v) e0 [0..<cf_width f] = Inr e1" "length e1 = 4" by auto
  with v have "encodeField c t e0 f = Inr e1" by (simp add: encodeField_def insertBits_def not_less)
  with Cons.IH [of e1] Cons.prems \<open>length e1 = 4\<close> show ?case by simp
qed simp

text \<open>The value of a field of a control, as \<open>encode\<close> uses it, and what \<open>decode\<close> does with it.\<close>

lemma word_of_bits_eqI: "(\<forall>k. bit v k \<longleftrightarrow> bit w k) \<Longrightarrow> v = (w :: 'a::len word)"
  by (simp add: bit_eq_iff)

lemma extract_encoded:
  assumes l: "layout_ok l" "narrow l" and f: "f \<in> set (cl_fields l)"
    and e: "foldR (encodeField c t) empty_EncodedControl (cl_fields l) = Inr e"
  shows "\<exists>v. fieldValue c t f = Inr v \<and> extractBits e (cf_lsb f) (cf_width f) = Inr v"
proof -
  have w: "\<forall>f \<in> set (cl_fields l). cf_lsb f + cf_width f \<le> 128 \<and> cf_width f \<le> 64"
    using l by (force simp: layout_ok_def narrow_def)
  from encodeFields_bits [OF e _ w] have b: "length e = 4"
    "\<exists>v. fieldValue c t f = Inr v \<and> v \<le> fieldLimit (cf_width f)"
    "\<forall>p < 128. phys e p \<longleftrightarrow> (\<exists>h \<in> set (cl_fields l). in_field h p \<and> (\<exists>v. fieldValue c t h = Inr v \<and> bit v (p - cf_lsb h)))"
    using f by (auto simp: empty_EncodedControl_def phys_def)
  then obtain v where v: "fieldValue c t f = Inr v" "\<forall>k \<ge> cf_width f. \<not> bit v k"
    using fieldLimit_bits w f by metis
  from extract_bits_phys [OF b(1), of "cf_lsb f" "cf_width f"] w f obtain x where
    x: "extractBits e (cf_lsb f) (cf_width f) = Inr x" "\<forall>k. bit x k \<longleftrightarrow> k < cf_width f \<and> phys e (cf_lsb f + k)" by auto
  have only: "h = f" if "h \<in> set (cl_fields l)" "in_field h p" "in_field f p" for h p
    using l(1) f that by (auto simp: layout_ok_def)
  have "bit x k \<longleftrightarrow> bit v k" for k
  proof (cases "k < cf_width f")
    case True
    then have p: "cf_lsb f + k < 128" "in_field f (cf_lsb f + k)" using w f by (force simp: in_field_def)+
    have "phys e (cf_lsb f + k) \<longleftrightarrow> bit v k"
      using b(3) [rule_format, OF p(1)] only [OF _ _ p(2)] f p(2) v(1) by force
    with x(2) True show ?thesis by simp
  qed (use x(2) v(2) in auto)
  then have "x = v" by (intro word_of_bits_eqI) blast
  with v x show ?thesis by blast
qed

definition field_agrees :: "TileControl \<Rightarrow> TileControl \<Rightarrow> ControlField \<Rightarrow> bool" where
  "field_agrees c d f \<longleftrightarrow>
     (case cf_encoding f of
        None \<Rightarrow> semanticInteger d (cf_name f) = semanticInteger c (cf_name f)
      | Some _ \<Rightarrow> semanticEncoding d (cf_name f) = semanticEncoding c (cf_name f))"

lemma encoding_there_and_back:
  assumes ok: "encodings_ok t" and v: "encodingValue t dm name = Inr v"
  shows "encodingName t dm v = Inr name" and "v \<le> u32_max"
proof -
  from v obtain names where n: "tm_encodings t dm = Some names" "names name = Some v"
    by (auto simp: encodingValue_def split: option.splits)
  from ok n(1) obtain reads where b: "tm_reverseEncodings t dm = Some reads"
    "\<forall>n v. names n = Some v \<longleftrightarrow> reads v = Some n" "\<forall>n v. names n = Some v \<longrightarrow> v \<le> u32_max"
    unfolding encodings_ok_def by blast
  from n(2) b(2) have "reads v = Some name" by blast
  with b(1) show "encodingName t dm v = Inr name" by (simp add: encodingName_def)
  show "v \<le> u32_max" using n(2) b(3) by blast
qed

lemma encoding_back_and_there:
  assumes ok: "encodings_ok t" and v: "encodingName t dm v = Inr name"
  shows "encodingValue t dm name = Inr v"
proof -
  from v obtain reads where b: "tm_reverseEncodings t dm = Some reads" "reads v = Some name"
    by (auto simp: encodingName_def split: option.splits)
  with ok obtain names where n: "tm_encodings t dm = Some names" unfolding encodings_ok_def by fastforce
  with ok b have "names name = Some v" unfolding encodings_ok_def by fastforce
  with n show ?thesis by (simp add: encodingValue_def)
qed

lemma integer_value_normal:
  assumes "semanticInteger c f = Inr v"
  shows "(if f \<in> set flag_fields then flag (v \<noteq> 0) else ucast (ucast v :: 32 word)) = v"
proof -
  have "\<forall>v. semanticInteger c f = Inr v \<longrightarrow>
      (if f \<in> set flag_fields then flag (v \<noteq> 0) else ucast (ucast v :: 32 word)) = v"
    using integer_known [OF assms] unfolding integer_fields_def list.set insert_iff empty_iff
    by (elim disjE) (simp_all add: accessors flag_fields_def unsigned_back flag_def)
  with assms show ?thesis by blast
qed

text \<open>One step of the decoder touches one field only.\<close>

lemma decodeField_frame:
  assumes d: "decodeField e t d f = Inr d'" and h: "cf_name h \<noteq> cf_name f"
  shows "field_agrees c d' h \<longleftrightarrow> field_agrees c d h"
proof (cases "cf_encoding f")
  case None
  with d obtain v where s: "setSemanticInteger d (cf_name f) v = Inr d'" by (auto simp: decodeField_def bindR_eq_Inr)
  note k = integer_settable [OF s]
  from integer_frame [OF k, of d v] integer_frame_encoding [OF k, of d v] s h show ?thesis
    by (simp add: field_agrees_def split: option.splits)
next
  case (Some dm)
  with d obtain n where s: "setSemanticEncoding d (cf_name f) n = Inr d'" by (auto simp: decodeField_def bindR_eq_Inr)
  note k = encoding_settable [OF s]
  from encoding_frame [OF k, of d n] encoding_frame_integer [OF k, of d n] s h show ?thesis
    by (simp add: field_agrees_def split: option.splits)
qed

lemma decodeField_agrees:
  assumes enc: "encodings_ok t" and r: "routes_ok d" and v: "fieldValue c t f = Inr v"
    and x: "extractBits e (cf_lsb f) (cf_width f) = Inr v"
  shows "\<exists>d'. decodeField e t d f = Inr d' \<and> routes_ok d' \<and> field_agrees c d' f"
proof (cases "cf_encoding f")
  case None
  with v have s: "semanticInteger c (cf_name f) = Inr v" by (simp add: fieldValue_def)
  from integer_put [OF integer_known [OF s] r, of v] integer_value_normal [OF s] None x s show ?thesis
    by (auto simp: decodeField_def field_agrees_def)
next
  case (Some dm)
  with v obtain name n where s: "semanticEncoding c (cf_name f) = Inr name" "encodingValue t dm name = Inr n" "v = of_nat n"
    by (auto simp: fieldValue_def bindR_eq_Inr)
  note b = encoding_there_and_back [OF enc s(2)]
  from b(2) have "wrap32 (unat v) = n" by (simp add: s(3) unat_of_nat wrap32_def)
  with encoding_set [OF encoded_known [OF s(1)] r, of name] Some x b(1) s(1) show ?thesis
    by (auto simp: decodeField_def field_agrees_def)
qed

lemma decodeFields_frame:
  assumes "foldR (decodeField e t) d fs = Inr d'" and "cf_name h \<notin> set (map cf_name fs)"
  shows "field_agrees c d' h \<longleftrightarrow> field_agrees c d h"
  using assms
proof (induction fs arbitrary: d)
  case (Cons f fs)
  from Cons.prems(1) obtain d1 where d1: "decodeField e t d f = Inr d1" "foldR (decodeField e t) d1 fs = Inr d'"
    by (auto simp: bindR_eq_Inr)
  from Cons.IH [OF d1(2)] decodeField_frame [OF d1(1), of h c] Cons.prems(2) show ?case by auto
qed simp

lemma decodeFields_agree:
  assumes "encodings_ok t" "routes_ok d" "distinct (map cf_name fs)"
    and "\<forall>f \<in> set fs. \<exists>v. fieldValue c t f = Inr v \<and> extractBits e (cf_lsb f) (cf_width f) = Inr v"
  shows "\<exists>d'. foldR (decodeField e t) d fs = Inr d' \<and> routes_ok d' \<and> (\<forall>f \<in> set fs. field_agrees c d' f)"
  using assms(2-)
proof (induction fs arbitrary: d)
  case (Cons f fs)
  then obtain v where "fieldValue c t f = Inr v" "extractBits e (cf_lsb f) (cf_width f) = Inr v" by auto
  from decodeField_agrees [OF assms(1) Cons.prems(1) this] obtain d1 where
    d1: "decodeField e t d f = Inr d1" "routes_ok d1" "field_agrees c d1 f" by blast
  from Cons.IH [OF d1(2)] Cons.prems obtain d' where
    d': "foldR (decodeField e t) d1 fs = Inr d'" "routes_ok d'" "\<forall>f \<in> set fs. field_agrees c d' f" by auto
  moreover have "field_agrees c d' f"
    using decodeFields_frame [OF d'(1), of f c] Cons.prems(2) d1(3) by simp
  ultimately show ?case using d1(1) by auto
qed simp

lemma default_routes: "routes_ok default_TileControl"
  by (simp add: routes_ok_def default_TileControl_def)

text \<open>A layout that names every semantic field, each with the right kind.\<close>

definition complete_layout :: "ControlLayout \<Rightarrow> bool" where
  "complete_layout l \<longleftrightarrow>
     (\<forall>n \<in> set integer_fields. \<exists>f \<in> set (cl_fields l). cf_name f = n \<and> cf_encoding f = None) \<and>
     (\<forall>n \<in> set encoded_fields. \<exists>f \<in> set (cl_fields l). cf_name f = n \<and> cf_encoding f \<noteq> None)"

lemma complete_agreement:
  assumes "complete_layout l" "\<forall>f \<in> set (cl_fields l). field_agrees c d f" "routes_ok c" "routes_ok d"
  shows "d = c"
proof (rule control_equal [OF assms(4,3)]; rule ballI)
  fix n
  assume "n \<in> set integer_fields"
  with assms(1) obtain f where "f \<in> set (cl_fields l)" "cf_name f = n" "cf_encoding f = None"
    unfolding complete_layout_def by blast
  with assms(2) show "semanticInteger d n = semanticInteger c n" by (auto simp: field_agrees_def)
next
  fix n
  assume "n \<in> set encoded_fields"
  with assms(1) obtain f where "f \<in> set (cl_fields l)" "cf_name f = n" "cf_encoding f \<noteq> None"
    unfolding complete_layout_def by blast
  with assms(2) show "semanticEncoding d n = semanticEncoding c n" by (auto simp: field_agrees_def)
qed

lemma control_read_back:
  assumes l: "layout_ok (tm_controlLayout t)" "narrow (tm_controlLayout t)" and enc: "encodings_ok t"
    and r: "routes_ok c" and e: "encode c t = Inr e"
  shows "\<exists>d. decode e t = Inr d \<and> (\<forall>f \<in> set (cl_fields (tm_controlLayout t)). field_agrees c d f) \<and>
    (complete_layout (tm_controlLayout t) \<longrightarrow> d = c)"
proof -
  let ?l = "tm_controlLayout t"
  from e have f: "foldR (encodeField c t) empty_EncodedControl (cl_fields ?l) = Inr e"
    and p: "extractBits e (cl_paddingLsb ?l) (cl_paddingWidth ?l) = Inr 0"
    by (auto simp: encode_def Let_def bindR_eq_Inr split: if_splits)
  have "distinct (map cf_name (cl_fields ?l))" "cl_paddingValue ?l = 0" using l(1) by (auto simp: layout_ok_def)
  moreover from decodeFields_agree [OF enc default_routes this(1), of c e] extract_encoded [OF l _ f] obtain d where
    d: "foldR (decodeField e t) default_TileControl (cl_fields ?l) = Inr d" "routes_ok d"
    "\<forall>f \<in> set (cl_fields ?l). field_agrees c d f" by blast
  ultimately have "decode e t = Inr d" using p by (simp add: decode_def Let_def)
  with d complete_agreement [OF _ d(3) r d(2)] show ?thesis by blast
qed

text \<open>Nothing is written above the raw width, so the check of the padding never fails.\<close>

lemma encode_defined:
  assumes l: "layout_ok (tm_controlLayout t)" "narrow (tm_controlLayout t)"
  shows "(\<exists>e. encode c t = Inr e) \<longleftrightarrow>
    (\<forall>f \<in> set (cl_fields (tm_controlLayout t)). \<exists>v. fieldValue c t f = Inr v \<and> v \<le> fieldLimit (cf_width f))"
proof -
  let ?l = "tm_controlLayout t"
  have w: "\<forall>f \<in> set (cl_fields ?l). cf_lsb f + cf_width f \<le> 128 \<and> cf_width f \<le> 64"
    and pad: "cl_paddingLsb ?l = cl_rawWidth ?l" "cl_paddingLsb ?l + cl_paddingWidth ?l \<le> 128" "cl_paddingWidth ?l \<le> 64"
    and raw: "\<forall>f \<in> set (cl_fields ?l). cf_lsb f + cf_width f \<le> cl_rawWidth ?l"
    using l by (force simp: layout_ok_def narrow_def)+
  have "encode c t = Inr e" if e: "foldR (encodeField c t) empty_EncodedControl (cl_fields ?l) = Inr e" for e
  proof -
    from encodeFields_bits [OF e _ w] have b: "length e = 4"
      "\<forall>p < 128. phys e p \<longleftrightarrow> (\<exists>h \<in> set (cl_fields ?l). in_field h p \<and> (\<exists>v. fieldValue c t h = Inr v \<and> bit v (p - cf_lsb h)))"
      by (auto simp: empty_EncodedControl_def phys_def)
    from extract_bits_phys [OF b(1) pad(2,3)] obtain x where x: "extractBits e (cl_paddingLsb ?l) (cl_paddingWidth ?l) = Inr x"
      "\<forall>k. bit x k \<longleftrightarrow> k < cl_paddingWidth ?l \<and> phys e (cl_paddingLsb ?l + k)" by blast
    have "\<not> in_field h (cl_paddingLsb ?l + k)" if "h \<in> set (cl_fields ?l)" for h k
      using raw that pad(1) by (force simp: in_field_def)
    then have "\<not> bit x k" for k using x(2) b(2) pad(2) by (metis add_less_cancel_left less_le_trans)
    then have "x = 0" by (intro word_of_bits_eqI) simp
    with e x(1) show ?thesis by (simp add: encode_def Let_def)
  qed
  moreover have "foldR (encodeField c t) empty_EncodedControl (cl_fields ?l) = Inr e" if "encode c t = Inr e" for e
    using that by (auto simp: encode_def Let_def bindR_eq_Inr split: if_splits)
  ultimately have iff: "encode c t = Inr e \<longleftrightarrow> foldR (encodeField c t) empty_EncodedControl (cl_fields ?l) = Inr e" for e by blast
  show ?thesis
    unfolding iff
  proof
    assume "\<exists>e. foldR (encodeField c t) empty_EncodedControl (cl_fields ?l) = Inr e"
    then obtain e where "foldR (encodeField c t) empty_EncodedControl (cl_fields ?l) = Inr e" by blast
    from encodeFields_bits [OF this _ w] show "\<forall>f \<in> set (cl_fields ?l). \<exists>v. fieldValue c t f = Inr v \<and> v \<le> fieldLimit (cf_width f)"
      by (simp add: empty_EncodedControl_def)
  qed (use w encodeFields_total [of empty_EncodedControl "cl_fields ?l" c t] in \<open>auto simp: empty_EncodedControl_def\<close>)
qed

lemma encode_length:
  assumes "encode c t = Inr e" and "layout_ok (tm_controlLayout t)" "narrow (tm_controlLayout t)"
  shows "length e = 4"
proof -
  from assms(1) have "foldR (encodeField c t) empty_EncodedControl (cl_fields (tm_controlLayout t)) = Inr e"
    by (auto simp: encode_def Let_def bindR_eq_Inr split: if_splits)
  moreover have "\<forall>f \<in> set (cl_fields (tm_controlLayout t)). cf_lsb f + cf_width f \<le> 128 \<and> cf_width f \<le> 64"
    using assms(2,3) by (force simp: layout_ok_def narrow_def)
  ultimately show ?thesis using encodeFields_bits [of c t empty_EncodedControl] by (simp add: empty_EncodedControl_def)
qed

section \<open>Decoded words are encoded again\<close>

text \<open>Flags of one bit and every other field of at most 32 bits: no bit of a field is lost in its control.\<close>

definition lossless :: "ControlLayout \<Rightarrow> bool" where
  "lossless l \<longleftrightarrow>
     (\<forall>f \<in> set (cl_fields l). cf_width f \<le> (if cf_encoding f = None \<and> cf_name f \<in> set flag_fields then 1 else 32))"

lemma small_word:
  assumes "\<forall>k \<ge> 32. \<not> bit (v :: 64 word) k"
  shows "ucast (ucast v :: 32 word) = v" and "unat v < 4294967296"
proof -
  have low: "bit v k \<Longrightarrow> k < 32" for k using assms by (meson leI)
  then have "take_bit 32 v = v" by (intro word_of_bits_eqI) (auto simp: bit_take_bit_iff)
  then have "uint (take_bit 32 v) = uint v" by simp
  then have "uint v < 2 ^ 32" by (simp add: unsigned_take_bit_eq take_bit_int_eq_self_iff)
  then show "unat v < 4294967296" by (simp add: unsigned_eq_0_iff nat_less_iff flip: nat_uint_eq)
  show "ucast (ucast v :: 32 word) = v"
    using low by (intro word_of_bits_eqI) (auto simp: bit_ucast_iff intro: bit_imp_le_length dest: low)
qed

lemma flag_word:
  assumes "\<forall>k \<ge> 1. \<not> bit (v :: 64 word) k"
  shows "flag (v \<noteq> 0) = v"
proof -
  have "bit v k \<Longrightarrow> k = 0" for k using assms by (cases k) auto
  then have "bit (take_bit (Suc 0) v) k \<longleftrightarrow> bit v k" for k by (metis bit_take_bit_iff less_Suc_eq_0_disj)
  then have "take_bit (Suc 0) v = v" by (intro word_of_bits_eqI) blast
  then have "v mod 2 = v" by (simp add: take_bit_Suc)
  then have "v = 0 \<or> v = 1" by (metis even_iff_mod_2_eq_zero odd_iff_mod_2_eq_one)
  then show ?thesis by (auto simp: flag_def)
qed

text \<open>After a step of the decoder the field has the value that was read.\<close>

lemma decodeField_value:
  assumes enc: "encodings_ok t" and r: "routes_ok d" and d: "decodeField e t d f = Inr d'"
    and x: "extractBits e (cf_lsb f) (cf_width f) = Inr v" "\<forall>k \<ge> cf_width f. \<not> bit v k"
    and w: "cf_width f \<le> (if cf_encoding f = None \<and> cf_name f \<in> set flag_fields then 1 else 32)"
  shows "routes_ok d' \<and> fieldValue d' t f = Inr v"
proof (cases "cf_encoding f")
  case None
  with d x(1) have s: "setSemanticInteger d (cf_name f) v = Inr d'" by (simp add: decodeField_def)
  from integer_put [OF integer_settable [OF s] r, of v] s have
    p: "routes_ok d'" "semanticInteger d' (cf_name f) =
      Inr (if cf_name f \<in> set flag_fields then flag (v \<noteq> 0) else ucast (ucast v :: 32 word))" by auto
  have "(if cf_name f \<in> set flag_fields then flag (v \<noteq> 0) else ucast (ucast v :: 32 word)) = v"
    using flag_word [of v] small_word(1) [of v] x(2) w None by (auto split: if_splits)
  with p None show ?thesis by (simp add: fieldValue_def)
next
  case (Some dm)
  with d x(1) obtain n where n: "encodingName t dm (wrap32 (unat v)) = Inr n" "setSemanticEncoding d (cf_name f) n = Inr d'"
    by (auto simp: decodeField_def bindR_eq_Inr)
  have "wrap32 (unat v) = unat v" using small_word(2) [of v] x(2) w Some by (simp add: wrap32_def)
  with encoding_back_and_there [OF enc n(1)] have "encodingValue t dm n = Inr (unat v)" by simp
  moreover from encoding_set [OF encoding_settable [OF n(2)] r, of n] n(2) have
    "routes_ok d'" "semanticEncoding d' (cf_name f) = Inr n" by auto
  ultimately show ?thesis using Some by (simp add: fieldValue_def)
qed

lemma fieldValue_frame:
  assumes "field_agrees c d f"
  shows "fieldValue d t f = fieldValue c t f"
  using assms by (simp add: field_agrees_def fieldValue_def split: option.splits)

lemma decodeFields_value:
  assumes enc: "encodings_ok t" and "routes_ok d" "distinct (map cf_name fs)" "foldR (decodeField e t) d fs = Inr d'"
    and "\<forall>f \<in> set fs. \<exists>v. extractBits e (cf_lsb f) (cf_width f) = Inr v \<and> (\<forall>k \<ge> cf_width f. \<not> bit v k)"
    and "\<forall>f \<in> set fs. cf_width f \<le> (if cf_encoding f = None \<and> cf_name f \<in> set flag_fields then 1 else 32)"
  shows "routes_ok d' \<and> (\<forall>f \<in> set fs. fieldValue d' t f = extractBits e (cf_lsb f) (cf_width f))"
  using assms(2-)
proof (induction fs arbitrary: d)
  case (Cons f fs)
  from Cons.prems(3) obtain d1 where d1: "decodeField e t d f = Inr d1" "foldR (decodeField e t) d1 fs = Inr d'"
    by (auto simp: bindR_eq_Inr)
  from Cons.prems(4) obtain v where v: "extractBits e (cf_lsb f) (cf_width f) = Inr v" "\<forall>k \<ge> cf_width f. \<not> bit v k" by auto
  from decodeField_value [OF enc Cons.prems(1) d1(1) v] Cons.prems(5) have
    one: "routes_ok d1" "fieldValue d1 t f = Inr v" by auto
  have "field_agrees d1 d' f"
    using decodeFields_frame [OF d1(2), of f d1] Cons.prems(2) by (simp add: field_agrees_def split: option.splits)
  with one v fieldValue_frame have "fieldValue d' t f = extractBits e (cf_lsb f) (cf_width f)" by metis
  with Cons.IH [OF one(1) _ d1(2)] Cons.prems(2,4,5) show ?case by simp
qed simp

lemma chunks_equal:
  assumes "length e = 4" "length e' = 4" "\<forall>p < 128. phys e p \<longleftrightarrow> phys e' p"
  shows "e = e'"
proof (rule nth_equalityI)
  fix i
  assume "i < length e"
  then have i: "i < 4" using assms(1) by simp
  have "bit (e ! i) k \<longleftrightarrow> bit (e' ! i) k" if "k < 32" for k
    using assms(3) [rule_format, of "i * 32 + k"] i that by (simp add: phys_def)
  then show "e ! i = e' ! i" by (simp add: bit_eq_iff)
qed (use assms in simp)

lemma word_read_back:
  assumes l: "layout_ok (tm_controlLayout t)" "narrow (tm_controlLayout t)" "lossless (tm_controlLayout t)"
    and enc: "encodings_ok t" and e: "length e = 4" and d: "decode e t = Inr c"
  shows "encode c t = Inr e"
proof -
  let ?l = "tm_controlLayout t"
  let ?fs = "cl_fields ?l" and ?raw = "cl_rawWidth ?l"
  have pad: "cl_paddingLsb ?l = ?raw" "?raw \<le> 128" "cl_paddingWidth ?l = 128 - ?raw" "cl_paddingValue ?l = 0"
    "cl_paddingWidth ?l \<le> 64" using l(1,2) by (auto simp: layout_ok_def narrow_def)
  have w: "\<forall>f \<in> set ?fs. cf_lsb f + cf_width f \<le> ?raw \<and> cf_lsb f + cf_width f \<le> 128 \<and> cf_width f \<le> 64"
    using l(1,2) by (force simp: layout_ok_def narrow_def)
  from d have fold: "foldR (decodeField e t) default_TileControl ?fs = Inr c"
    and zero: "extractBits e ?raw (128 - ?raw) = Inr 0"
    using pad by (auto simp: decode_def Let_def bindR_eq_Inr split: if_splits)
  have x: "\<exists>v. extractBits e (cf_lsb f) (cf_width f) = Inr v \<and> (\<forall>k. bit v k \<longleftrightarrow> k < cf_width f \<and> phys e (cf_lsb f + k))"
    if "f \<in> set ?fs" for f using extract_bits_phys [OF e, of "cf_lsb f" "cf_width f"] w that by blast
  have "routes_ok c \<and> (\<forall>f \<in> set ?fs. fieldValue c t f = extractBits e (cf_lsb f) (cf_width f))"
    by (rule decodeFields_value [OF enc default_routes _ fold])
       (use l(1,3) x in \<open>auto simp: layout_ok_def lossless_def, meson leD\<close>)
  with x have v: "\<exists>v. fieldValue c t f = Inr v \<and> (\<forall>k. bit v k \<longleftrightarrow> k < cf_width f \<and> phys e (cf_lsb f + k))"
    if "f \<in> set ?fs" for f using that by fastforce
  have "\<exists>e'. foldR (encodeField c t) empty_EncodedControl ?fs = Inr e'"
  proof (rule encodeFields_total)
    show "\<forall>f \<in> set ?fs. \<exists>v. fieldValue c t f = Inr v \<and> v \<le> fieldLimit (cf_width f)"
      using v w fieldLimit_bits by (meson leD)
  qed (use w in \<open>simp_all add: empty_EncodedControl_def\<close>)
  then obtain e' where e': "foldR (encodeField c t) empty_EncodedControl ?fs = Inr e'" by blast
  from encodeFields_bits [OF e'] w have b: "length e' = 4"
    "\<forall>p < 128. phys e' p \<longleftrightarrow> (\<exists>f \<in> set ?fs. in_field f p \<and> (\<exists>v. fieldValue c t f = Inr v \<and> bit v (p - cf_lsb f)))"
    by (auto simp: empty_EncodedControl_def phys_def)
  from extract_bits_phys [OF e, of ?raw "128 - ?raw"] zero pad have high: "\<forall>k < 128 - ?raw. \<not> phys e (?raw + k)" by force
  have same: "phys e' p \<longleftrightarrow> phys e p" if p: "p < 128" for p
  proof -
    have "(\<exists>v. fieldValue c t f = Inr v \<and> bit v (p - cf_lsb f)) \<longleftrightarrow> phys e p" if f: "f \<in> set ?fs" "in_field f p" for f
    proof -
      from f(2) have "p - cf_lsb f < cf_width f" "cf_lsb f + (p - cf_lsb f) = p" by (auto simp: in_field_def)
      with v [OF f(1)] show ?thesis by fastforce
    qed
    then have "phys e' p \<longleftrightarrow> (\<exists>f \<in> set ?fs. in_field f p) \<and> phys e p" using b(2) p by blast
    moreover have "phys e p \<longrightarrow> (\<exists>f \<in> set ?fs. in_field f p)"
    proof (cases "p < ?raw")
      case True
      with l(1) show ?thesis by (simp add: layout_ok_def)
    next
      case False
      with high [rule_format, of "p - ?raw"] p show ?thesis by simp
    qed
    ultimately show ?thesis by blast
  qed
  then have "e' = e" using chunks_equal [OF b(1) e] by blast
  with e' zero pad show ?thesis by (simp add: encode_def Let_def)
qed

end
