(* ===== verification/Target_Loader_Sound.thy ===== *)
theory Target_Loader_Sound
  imports Target_Loader Target_Control_Sound
begin

text \<open>
  What the loader establishes.  The objects of the contract have distinct keys, as the JSON library
  keeps them; then a loaded target has a control layout that partitions the word, encodings that are
  read in both directions, operations found under their names, and register files and memory ports
  within their bounds.
\<close>

lemma guardR_Inr [simp]: "guardR b e = Inr u \<longleftrightarrow> b"
  by (simp add: guardR_def)

lemma positiveUnsigned_Inr [simp]: "positiveUnsigned v = Inr w \<longleftrightarrow> w = v \<and> 0 < v \<and> v \<le> u32_max"
  by (auto simp: positiveUnsigned_def)

section \<open>Control layout\<close>

lemma coverBits_covers:
  assumes "coverBits b n covered = Inr covered'" "b + n \<le> length covered"
  shows "length covered' = length covered \<and> (\<forall>p. b \<le> p \<and> p < b + n \<longrightarrow> \<not> covered ! p) \<and>
    (\<forall>p < length covered. covered' ! p \<longleftrightarrow> covered ! p \<or> (b \<le> p \<and> p < b + n))"
  using assms
proof (induction b n covered rule: coverBits.induct)
  case (2 b n covered)
  then have b: "\<not> covered ! b" "coverBits (Suc b) n (covered[b := True]) = Inr covered'" by (auto split: if_splits)
  from "2.IH" [OF b] "2.prems"(2) have r: "length covered' = length covered"
    "\<forall>p. Suc b \<le> p \<and> p < Suc b + n \<longrightarrow> \<not> covered[b := True] ! p"
    "\<forall>p < length covered. covered' ! p \<longleftrightarrow> covered[b := True] ! p \<or> (Suc b \<le> p \<and> p < Suc b + n)" by auto
  have "\<not> covered ! p" if "b \<le> p" "p < b + Suc n" for p
    using that b(1) r(2) by (cases "p = b") auto
  moreover have "covered' ! p \<longleftrightarrow> covered ! p \<or> (b \<le> p \<and> p < b + Suc n)" if "p < length covered" for p
    using that r(3) "2.prems"(2) by (cases "p = b") auto
  ultimately show ?case using r(1) by blast
qed auto

definition fields_inv :: "nat \<Rightarrow> (ControlField list \<times> (string \<rightharpoonup> nat)) \<times> bool list \<Rightarrow> bool" where
  "fields_inv raw st \<longleftrightarrow>
     (case st of ((known, indices), covered) \<Rightarrow>
        length covered = raw \<and> distinct (map cf_name known) \<and>
        (\<forall>n. indices n = None \<longleftrightarrow> n \<notin> cf_name ` set known) \<and>
        (\<forall>k < length known. indices (cf_name (known ! k)) = Some k) \<and>
        (\<forall>f \<in> set known. cf_lsb f + cf_width f \<le> raw) \<and>
        (\<forall>f \<in> set known. \<forall>h \<in> set known. \<forall>p. in_field f p \<and> in_field h p \<longrightarrow> f = h) \<and>
        (\<forall>p < raw. covered ! p \<longleftrightarrow> (\<exists>f \<in> set known. in_field f p)))"

lemma loadField_inv:
  assumes "loadField raw encodings st src = Inr st'" and "fields_inv raw st"
  shows "fields_inv raw st'"
proof -
  obtain known indices covered where st: "st = ((known, indices), covered)" by (metis prod.exhaust)
  let ?f = "\<lparr>cf_name = fs_name src, cf_lsb = fs_lsb src, cf_width = fs_width src, cf_encoding = fs_encoding src\<rparr>"
  from assms(1) obtain covered' where l: "fs_lsb src \<le> raw" "fs_width src \<le> raw - fs_lsb src" "indices (fs_name src) = None"
    "coverBits (fs_lsb src) (fs_width src) covered = Inr covered'"
    and st': "st' = ((known @ [?f], indices(fs_name src \<mapsto> length known)), covered')"
    by (auto simp: loadField_def st bindR_eq_Inr split: prod.splits)
  have inv: "length covered = raw" "distinct (map cf_name known)" "\<forall>n. indices n = None \<longleftrightarrow> n \<notin> cf_name ` set known"
    "\<forall>k < length known. indices (cf_name (known ! k)) = Some k"
    "\<forall>f \<in> set known. cf_lsb f + cf_width f \<le> raw"
    "\<forall>f \<in> set known. \<forall>h \<in> set known. \<forall>p. in_field f p \<and> in_field h p \<longrightarrow> f = h"
    "\<forall>p < raw. covered ! p \<longleftrightarrow> (\<exists>f \<in> set known. in_field f p)"
    using assms(2) unfolding fields_inv_def st by auto
  have bound: "fs_lsb src + fs_width src \<le> raw" using l(1,2) by simp
  from coverBits_covers [OF l(4)] bound inv(1) have c: "length covered' = raw"
    "\<forall>p. in_field ?f p \<longrightarrow> \<not> covered ! p" "\<forall>p < raw. covered' ! p \<longleftrightarrow> covered ! p \<or> in_field ?f p"
    by (auto simp: in_field_def)
  have in_raw: "p < raw" if "in_field ?f p" for p using that bound by (simp add: in_field_def)
  then have apart: "\<not> (in_field ?f p \<and> in_field h p)" if "h \<in> set known" for h p using c(2) inv(7) that by blast
  have fresh: "fs_name src \<notin> cf_name ` set known" using l(3) inv(3) by blast
  have idx: "(indices(fs_name src \<mapsto> length known)) (cf_name ((known @ [?f]) ! k)) = Some k" if k: "k < length (known @ [?f])" for k
  proof (cases "k < length known")
    case True
    then have "cf_name (known ! k) \<noteq> fs_name src" using fresh by (metis image_eqI nth_mem)
    with True inv(4) show ?thesis by (simp add: nth_append)
  next
    case False
    with k have "k = length known" by simp
    then show ?thesis by simp
  qed
  show ?thesis
    unfolding fields_inv_def st' prod.case
  proof (intro conjI)
    show "\<forall>f \<in> set (known @ [?f]). \<forall>h \<in> set (known @ [?f]). \<forall>p. in_field f p \<and> in_field h p \<longrightarrow> f = h"
      using inv(6) apart by auto
    show "\<forall>p < raw. covered' ! p \<longleftrightarrow> (\<exists>f \<in> set (known @ [?f]). in_field f p)" using c(3) inv(7) by auto
    show "\<forall>k < length (known @ [?f]). (indices(fs_name src \<mapsto> length known)) (cf_name ((known @ [?f]) ! k)) = Some k"
      using idx by blast
  qed (use c(1) inv(1-3,5) fresh bound in auto)
qed

lemma loadLayout_ok:
  assumes "loadLayout encodings src = Inr l"
  shows "layout_ok l" and "\<forall>k < length (cl_fields l). cl_field l (cf_name (cl_fields l ! k)) = Inr (cl_fields l ! k)"
proof -
  from assms obtain known indices covered where
    f: "foldR (loadField (ls_rawWidth src) encodings) (([], Map.empty), replicate (ls_rawWidth src) False) (ls_fields src) =
        Inr ((known, indices), covered)"
    and g: "False \<notin> set covered" "ls_physicalWidth src = 128" "ls_rawWidth src \<le> 128" "ls_paddingLsb src = ls_rawWidth src"
      "ls_paddingWidth src = 128 - ls_rawWidth src" "ls_paddingValue src = 0"
    and l: "cl_rawWidth l = ls_rawWidth src" "cl_paddingLsb l = ls_paddingLsb src" "cl_paddingWidth l = ls_paddingWidth src"
      "cl_paddingValue l = ls_paddingValue src" "cl_fields l = known" "cl_fieldIndices l = indices"
    by (auto simp: loadLayout_def bindR_eq_Inr wrap32_def)
  have "fields_inv (ls_rawWidth src) ((known, indices), covered)"
    by (rule foldR_invariant [where I = "fields_inv (ls_rawWidth src)", OF f])
       (use loadField_inv in \<open>auto simp: fields_inv_def\<close>)
  then have inv: "length covered = ls_rawWidth src" "distinct (map cf_name known)"
    "\<forall>k < length known. indices (cf_name (known ! k)) = Some k"
    "\<forall>f \<in> set known. cf_lsb f + cf_width f \<le> ls_rawWidth src"
    "\<forall>f \<in> set known. \<forall>h \<in> set known. \<forall>p. in_field f p \<and> in_field h p \<longrightarrow> f = h"
    "\<forall>p < ls_rawWidth src. covered ! p \<longleftrightarrow> (\<exists>f \<in> set known. in_field f p)"
    unfolding fields_inv_def by auto
  have "\<forall>p < ls_rawWidth src. \<exists>f \<in> set known. in_field f p"
    using inv(1,6) g(1) by (metis nth_mem)
  with inv g show "layout_ok l" by (simp add: layout_ok_def l)
  show "\<forall>k < length (cl_fields l). cl_field l (cf_name (cl_fields l ! k)) = Inr (cl_fields l ! k)"
    using inv(3) by (simp add: cl_field_def l)
qed

section \<open>Encodings\<close>

definition inverse_maps :: "(string \<rightharpoonup> nat) \<Rightarrow> (nat \<rightharpoonup> string) \<Rightarrow> bool" where
  "inverse_maps names reads \<longleftrightarrow>
     (\<forall>n v. names n = Some v \<longleftrightarrow> reads v = Some n) \<and> (\<forall>n v. names n = Some v \<longrightarrow> v \<le> u32_max)"

definition mutual :: "Encodings \<Rightarrow> bool" where
  "mutual e \<longleftrightarrow>
     (\<forall>d. (fst e d = None \<and> snd e d = None) \<or>
          (\<exists>names reads. fst e d = Some names \<and> snd e d = Some reads \<and> inverse_maps names reads))"

lemma inverse_maps_insert:
  assumes "inverse_maps names reads" "names n = None" "reads v = None" "v \<le> u32_max"
  shows "inverse_maps (names(n \<mapsto> v)) (reads(v \<mapsto> n))"
proof -
  have iff: "names n' = Some w \<longleftrightarrow> reads w = Some n'" and le: "names n' = Some w \<longrightarrow> w \<le> u32_max" for n' w
    using assms(1) by (auto simp: inverse_maps_def)
  have "names n' \<noteq> Some v" "reads w \<noteq> Some n" for n' w using iff [of n' v] iff [of n w] assms(2,3) by auto
  then show ?thesis using iff le assms(4) by (simp add: inverse_maps_def)
qed

lemma loadSymbols_mutual:
  assumes "foldR (loadSymbol dm) (e, seen) xs = Inr (e', seen')"
    and "mutual e" "distinct (map fst xs)" "\<forall>n \<in> fst ` set xs. \<forall>names. fst e dm = Some names \<longrightarrow> names n = None"
    and "\<forall>v reads. snd e dm = Some reads \<longrightarrow> reads v \<noteq> None \<longrightarrow> v \<in> seen"
  shows "mutual e' \<and> (\<forall>d. d \<noteq> dm \<longrightarrow> fst e' d = fst e d \<and> snd e' d = snd e d) \<and>
    (xs \<noteq> [] \<longrightarrow> fst e' dm \<noteq> None) \<and> (xs = [] \<longrightarrow> e' = e)"
  using assms
proof (induction xs arbitrary: e seen)
  case (Cons x xs)
  obtain forward backward where e: "e = (forward, backward)" by (cases e)
  obtain n i where x: "x = (n, i)" by (cases x)
  define v where "v = nat i"
  define names where "names = (case forward dm of None \<Rightarrow> Map.empty | Some m \<Rightarrow> m)"
  define reads where "reads = (case backward dm of None \<Rightarrow> Map.empty | Some m \<Rightarrow> m)"
  have iv: "inverse_maps names reads"
  proof (cases "forward dm")
    case None
    then have "backward dm = None" using Cons.prems(2) unfolding mutual_def e by (metis fst_conv option.distinct(1) snd_conv)
    with None show ?thesis by (simp add: names_def reads_def inverse_maps_def)
  next
    case (Some m)
    then obtain m' where "backward dm = Some m'" "inverse_maps m m'"
      using Cons.prems(2) unfolding mutual_def e by (metis fst_conv option.distinct(1) option.inject snd_conv)
    with Some show ?thesis by (simp add: names_def reads_def)
  qed
  from Cons.prems(1) have i: "0 \<le> i" "i \<le> int u32_max" "v \<notin> seen"
    by (auto simp: loadSymbol_def e x v_def Let_def bindR_eq_Inr split: if_splits)
  have "names n = None" using Cons.prems(4) by (auto simp: e x names_def split: option.splits)
  moreover have "reads v = None"
    using Cons.prems(5) i(3) unfolding e reads_def by (metis (no_types, lifting) option.case_eq_if option.collapse snd_conv)
  ultimately have fresh: "names n = None" "reads v = None" .
  let ?e = "(forward(dm \<mapsto> names(n \<mapsto> v)), backward(dm \<mapsto> reads(v \<mapsto> n)))"
  have "loadSymbol dm (e, seen) x = Inr (?e, insert v seen)"
    using i fresh by (auto simp: loadSymbol_def e x v_def Let_def emplace_def names_def reads_def)
  with Cons.prems(1) have rest: "foldR (loadSymbol dm) (?e, insert v seen) xs = Inr (e', seen')" by simp
  have "inverse_maps (names(n \<mapsto> v)) (reads(v \<mapsto> n))"
    by (rule inverse_maps_insert [OF iv fresh]) (use i in \<open>simp add: v_def\<close>)
  then have "mutual ?e" using Cons.prems(2) by (simp add: mutual_def e)
  moreover have "\<forall>n' \<in> fst ` set xs. \<forall>m. fst ?e dm = Some m \<longrightarrow> m n' = None"
  proof (intro ballI allI impI)
    fix n' m
    assume n': "n' \<in> fst ` set xs" and m: "fst ?e dm = Some m"
    have "n' \<noteq> n" using n' Cons.prems(3) x by auto
    moreover have "names n' = None" using Cons.prems(4) n' by (auto simp: e names_def split: option.splits)
    ultimately show "m n' = None" using m by auto
  qed
  moreover have "\<forall>w m. snd ?e dm = Some m \<longrightarrow> m w \<noteq> None \<longrightarrow> w \<in> insert v seen"
    using Cons.prems(5) by (auto simp: e reads_def split: option.splits if_splits)
  ultimately have "mutual e' \<and> (\<forall>d. d \<noteq> dm \<longrightarrow> fst e' d = fst ?e d \<and> snd e' d = snd ?e d) \<and>
      (xs \<noteq> [] \<longrightarrow> fst e' dm \<noteq> None) \<and> (xs = [] \<longrightarrow> e' = ?e)"
    using Cons.IH [OF rest] Cons.prems(3) by simp
  then show ?case by (auto simp: e)
qed simp

lemma loadDomain_step:
  "foldR loadDomain e (x # xs) =
     (if snd x = [] then Inl Runtime_Error
      else bindR (foldR (loadSymbol (fst x)) (e, {}) (snd x)) (\<lambda>st. foldR loadDomain (fst st) xs))"
  by (cases "foldR (loadSymbol (fst x)) (e, {}) (snd x)") (simp_all add: loadDomain_def)

lemma loadDomains_mutual:
  assumes "foldR loadDomain e xs = Inr e'" "mutual e" "distinct (map fst xs)" "\<forall>d \<in> set xs. distinct (map fst (snd d))"
    and "\<forall>d \<in> fst ` set xs. fst e d = None"
  shows "mutual e' \<and> (\<forall>d. fst e' d \<noteq> None \<longleftrightarrow> fst e d \<noteq> None \<or> d \<in> fst ` set xs)"
  using assms
proof (induction xs arbitrary: e)
  case (Cons x xs)
  from Cons.prems(1) obtain e1 seen where step: "foldR (loadSymbol (fst x)) (e, {}) (snd x) = Inr (e1, seen)" "snd x \<noteq> []"
    and rest: "foldR loadDomain e1 xs = Inr e'"
    unfolding loadDomain_step by (auto simp: bindR_eq_Inr split: if_splits)
  have none: "fst e (fst x) = None" using Cons.prems(5) by simp
  then have "snd e (fst x) = None" using Cons.prems(2) unfolding mutual_def by (metis option.distinct(1))
  with loadSymbols_mutual [OF step(1) Cons.prems(2)] none Cons.prems(4) step(2)
  have one: "mutual e1" "\<forall>d. d \<noteq> fst x \<longrightarrow> fst e1 d = fst e d" "fst e1 (fst x) \<noteq> None" by auto
  have "\<forall>d \<in> fst ` set xs. fst e1 d = None"
  proof
    fix d
    assume d: "d \<in> fst ` set xs"
    have "fst x \<notin> fst ` set xs" using Cons.prems(3) by simp
    with d have "d \<noteq> fst x" by metis
    moreover have "fst e d = None" using bspec [OF Cons.prems(5), of d] d by simp
    ultimately show "fst e1 d = None" using one(2) by simp
  qed
  from Cons.IH [OF rest one(1) _ _ this] Cons.prems(3,4) have
    ih: "mutual e'" "\<forall>d. fst e' d \<noteq> None \<longleftrightarrow> fst e1 d \<noteq> None \<or> d \<in> fst ` set xs" by auto
  have "fst e1 d \<noteq> None \<longleftrightarrow> fst e d \<noteq> None \<or> d = fst x" for d
    using one(2,3) none by (cases "d = fst x") auto
  with ih show ?case by auto
qed simp

section \<open>Operations\<close>

definition operation_ok :: "nat \<Rightarrow> TargetOperationDesc \<Rightarrow> bool" where
  "operation_ok dataWidth d \<longleftrightarrow>
     op_id d \<noteq> '''' \<and> 0 < op_issueOccupancy d \<and> op_resultType d = resultTypeFor dataWidth (op_resultRole d) \<and>
     (op_resultRole d = ResultRole_Void \<longleftrightarrow> op_resultLatency d = None) \<and>
     (op_resultRole d = ResultRole_Void \<longleftrightarrow> op_producerOutputReadyOffset d = None) \<and>
     (op_executionClass d = Class_LSU \<longleftrightarrow> op_accessWidthBits d \<noteq> None) \<and>
     (\<forall>e \<in> set (op_operandSinks d). validSink (op_executionClass d) (op_operands d) e) \<and>
     map fst (op_operandSinks d) = [0..<length (op_operands d)] \<and>
     validResultSource (op_executionClass d) (op_resultRole d) (op_resultSource d) \<and>
     sorted_wrt (\<lambda>a b. od_optional a \<longrightarrow> od_optional b) (op_operands d)"

lemma loadOperands_sorted:
  assumes "foldR loadOperand (operands, seen) src = Inr (operands', seen')"
    and "sorted_wrt (\<lambda>a b. od_optional a \<longrightarrow> od_optional b) operands" "seen \<longleftrightarrow> (\<exists>d \<in> set operands. od_optional d)"
  shows "sorted_wrt (\<lambda>a b. od_optional a \<longrightarrow> od_optional b) operands'"
  using assms
proof (induction src arbitrary: operands seen)
  case (Cons x src)
  obtain role opt where x: "x = (role, opt)" by (cases x)
  define o' where "o' = (case opt of Some b \<Rightarrow> b | None \<Rightarrow> False)"
  from Cons.prems(1) obtain r where r: "\<not> (\<not> o' \<and> seen)"
    "foldR loadOperand (operands @ [\<lparr>od_role = r, od_optional = o'\<rparr>], seen \<or> o') src = Inr (operands', seen')"
    unfolding foldR.simps loadOperand_def [of "(operands, seen)"]
    by (auto simp: x bindR_eq_Inr Let_def o'_def split: if_splits)
  show ?case
    by (rule Cons.IH [OF r(2)]) (use Cons.prems(2,3) r(1) in \<open>auto simp: sorted_wrt_append\<close>)
qed simp

lemma loadSinks_indices:
  assumes "foldR loadSink sinks names = Inr sinks'" "map fst sinks = [0..<length sinks]"
  shows "map fst sinks' = [0..<length sinks + length names]"
  using assms
proof (induction names arbitrary: sinks)
  case (Cons n names)
  then obtain sink where "foldR loadSink (sinks @ [(length sinks, sink)]) names = Inr sinks'"
    by (auto simp: loadSink_def [of sinks] bindR_eq_Inr split: if_splits)
  from Cons.IH [OF this] Cons.prems(2) show ?case by simp
qed simp

lemma legacySinks_indices:
  "map fst (fst st) = [0..<length (fst st)] \<Longrightarrow>
   map fst (fst (foldl (legacySink c) st operands)) = [0..<length (fst st) + length operands]"
proof (induction operands arbitrary: st)
  case (Cons d operands)
  obtain sinks m n where st: "st = (sinks, m, n)" by (metis prod.exhaust)
  have "\<exists>s. fst (legacySink c st d) = sinks @ [(length sinks, s)]"
    by (auto simp: legacySink_def st Let_def split: TargetOperandRole.splits)
  then obtain s where s: "fst (legacySink c st d) = sinks @ [(length sinks, s)]" by blast
  with Cons.IH [of "legacySink c st d"] Cons.prems show ?case by (simp add: st)
qed simp

lemma loadOperation_ok:
  assumes "loadOperation ex width (name, src) = Inr d"
  shows "operation_ok width d" and "op_id d = name" and "op_encoding d \<noteq> None"
proof -
  from assms obtain c operands seen role sinks source where
    f: "foldR loadOperand ([], False) (os_operands src) = Inr (operands, seen)"
    and l: "loadLowering ex c role operands (os_lowering src) = Inr (sinks, source)"
    and g: "name \<noteq> ''''" "0 < os_issueOccupancy src"
      "if role = ResultRole_Void then op_resultLatency d = None \<and> op_producerOutputReadyOffset d = None
       else op_resultLatency d \<noteq> None \<and> op_producerOutputReadyOffset d \<noteq> None"
      "(c = Class_LSU) = (op_accessWidthBits d \<noteq> None)" "\<forall>e \<in> set sinks. validSink c operands e" "validResultSource c role source"
    and d: "op_id d = name" "op_executionClass d = c" "op_operands d = operands" "op_resultRole d = role"
      "op_resultType d = resultTypeFor width role" "op_issueOccupancy d = os_issueOccupancy src"
      "op_operandSinks d = sinks" "op_resultSource d = source" "op_encoding d \<noteq> None"
    by (auto simp: loadOperation_def bindR_eq_Inr)
  have "map fst sinks = [0..<length operands]"
    using l loadSinks_indices [of "[]"] legacySinks_indices [of "([], 0, 0)" c operands]
    by (auto simp: loadLowering_def bindR_eq_Inr split: option.splits if_splits)
  with g d loadOperands_sorted [OF f] show "operation_ok width d"
    unfolding operation_ok_def by (simp split: if_splits)
  show "op_id d = name" "op_encoding d \<noteq> None" using d by simp_all
qed

text \<open>The operations with their index.\<close>

definition operations_inv :: "nat \<Rightarrow> TargetOperationDesc list \<times> (string \<rightharpoonup> nat) \<Rightarrow> bool" where
  "operations_inv width st \<longleftrightarrow>
     (\<forall>d \<in> set (fst st). operation_ok width d) \<and>
     (\<forall>name k. snd st name = Some k \<longleftrightarrow> k < length (fst st) \<and> op_id (fst st ! k) = name)"

lemma addOperations_inv:
  assumes "foldR (addOperation ex width) st xs = Inr st'" "operations_inv width st" "distinct (map fst xs)"
    and "\<forall>x \<in> set xs. snd st (fst x) = None"
  shows "operations_inv width st' \<and> map op_id (fst st') = map op_id (fst st) @ map fst xs"
  using assms
proof (induction xs arbitrary: st)
  case (Cons x xs)
  obtain name src where x: "x = (name, src)" by (cases x)
  from Cons.prems(1) obtain d where d: "loadOperation ex width (name, src) = Inr d"
    and rest: "foldR (addOperation ex width) (fst st @ [d], (snd st)(name \<mapsto> length (fst st))) xs = Inr st'"
    using Cons.prems(4) by (auto simp: addOperation_def [of ex width st] x bindR_eq_Inr)
  note ok = loadOperation_ok [OF d]
  have none: "snd st name = None" using Cons.prems(4) x by simp
  have "\<forall>k < length (fst st). op_id (fst st ! k) \<noteq> name"
    using Cons.prems(2) none unfolding operations_inv_def by (metis option.distinct(1))
  then have "operations_inv width (fst st @ [d], (snd st)(name \<mapsto> length (fst st)))"
    using Cons.prems(2) ok none unfolding operations_inv_def
    by (auto simp: nth_append less_Suc_eq split: if_splits)
  moreover have "\<forall>y \<in> set xs. ((snd st)(name \<mapsto> length (fst st))) (fst y) = None"
    using Cons.prems(3,4) x by (auto simp: image_iff)
  ultimately show ?case using Cons.IH [OF rest] Cons.prems(3) ok(2) x by simp
qed simp

section \<open>Register files and memory ports\<close>

definition register_file_ok :: "nat \<Rightarrow> nat \<Rightarrow> RegisterFileDesc \<Rightarrow> bool" where
  "register_file_ok rows cols rf \<longleftrightarrow>
     0 < rf_depth rf \<and> 0 < rf_readPorts rf \<and> 0 < rf_writePorts rf \<and>
     rf_allocatableIndices rf \<noteq> [] \<and> distinct (rf_allocatableIndices rf) \<and>
     (\<forall>i \<in> set (rf_allocatableIndices rf). i < rf_depth rf) \<and>
     distinct (rf_applicableTiles rf) \<and> (\<forall>(r, c) \<in> set (rf_applicableTiles rf). r < rows \<and> c < cols)"

lemma allocatable_appends: "foldR (allocatableIndex depth) xs ys = Inr zs \<Longrightarrow> zs = xs @ ys"
proof (induction ys arbitrary: xs)
  case (Cons y ys)
  then have "foldR (allocatableIndex depth) (xs @ [y]) ys = Inr zs"
    by (simp add: allocatableIndex_def [of depth xs] split: if_splits)
  from Cons.IH [OF this] show ?case by simp
qed simp

lemma allocatable_distinct:
  assumes "foldR (allocatableIndex depth) [] ys = Inr zs"
  shows "distinct zs \<and> (\<forall>i \<in> set zs. i < depth)"
  by (rule foldR_invariant [where I = "\<lambda>zs. distinct zs \<and> (\<forall>i \<in> set zs. i < depth)", OF assms])
     (auto simp: allocatableIndex_def split: if_splits)

lemma tiles_distinct:
  assumes "foldR (applicableTile rows cols) [] ys = Inr zs"
  shows "distinct zs \<and> (\<forall>t \<in> set zs. fst t < rows \<and> snd t < cols)"
  by (rule foldR_invariant [where I = "\<lambda>zs. distinct zs \<and> (\<forall>t \<in> set zs. fst t < rows \<and> snd t < cols)", OF assms])
     (auto simp: applicableTile_def split: if_splits)

lemma parseRegisterFile_ok:
  assumes "parseRegisterFile key dm src rows cols = Inr rf"
  shows "register_file_ok rows cols rf" and "rf_id rf = key" and "rf_domain rf = dm"
proof -
  from assms obtain policy indices tiles where
    i: "(case rfs_allocatable src of
           Some indices \<Rightarrow> if indices = [] then Inl Runtime_Error else foldR (allocatableIndex (rfs_depth src)) [] indices
         | None \<Rightarrow> Inr [0..<rfs_depth src]) = Inr indices"
    and t: "(case rfs_tiles src of
           Some tiles \<Rightarrow> if tiles = [] then Inl Runtime_Error
             else bindR (foldR (applicableTile rows cols) [] tiles) (\<lambda>ts. Inr (sort ts))
         | None \<Rightarrow> Inr []) = Inr tiles"
    and p: "0 < rfs_depth src" "0 < rfs_readPorts src" "0 < rfs_writePorts src"
    and rf: "rf = \<lparr>rf_id = key, rf_domain = dm, rf_depth = rfs_depth src, rf_readPorts = rfs_readPorts src,
      rf_writePorts = rfs_writePorts src,
      rf_sameCycleReadWriteSameAddress = rfs_readWrite src, rf_sameCycleMultiwriteSameAddress = rfs_multiwrite src,
      rf_sameAddressReadWritePolicy = policy, rf_allocatableIndices = indices, rf_applicableTiles = tiles,
      rf_writePortSources = map_of (rfs_ports src)\<rparr>"
    by (auto simp: parseRegisterFile_def bindR_eq_Inr)
  have "indices \<noteq> [] \<and> distinct indices \<and> (\<forall>k \<in> set indices. k < rfs_depth src)"
  proof (cases "rfs_allocatable src")
    case (Some xs)
    with i have "xs \<noteq> []" "foldR (allocatableIndex (rfs_depth src)) [] xs = Inr indices" by (auto split: if_splits)
    with allocatable_distinct [of "rfs_depth src" xs indices] allocatable_appends [of "rfs_depth src" "[]" xs indices]
    show ?thesis by auto
  qed (use i p in auto)
  moreover have "distinct tiles \<and> (\<forall>t \<in> set tiles. fst t < rows \<and> snd t < cols)"
  proof (cases "rfs_tiles src")
    case (Some xs)
    with t obtain ts where "foldR (applicableTile rows cols) [] xs = Inr ts" "tiles = sort ts"
      by (auto simp: bindR_eq_Inr split: if_splits)
    with tiles_distinct [of rows cols xs ts] show ?thesis by auto
  qed (use t in auto)
  ultimately show "register_file_ok rows cols rf" using p by (auto simp: rf register_file_ok_def)
  show "rf_id rf = key" "rf_domain rf = dm" by (simp_all add: rf)
qed

definition lsu_tiles_ok :: "nat \<Rightarrow> nat \<Rightarrow> LsuTileDesc list \<Rightarrow> bool" where
  "lsu_tiles_ok rows cols tiles \<longleftrightarrow>
     distinct (map (\<lambda>d. (lsu_row d, lsu_col d)) tiles) \<and> sorted (map (\<lambda>d. (lsu_row d, lsu_col d)) tiles) \<and>
     (\<forall>d \<in> set tiles. lsu_row d < rows \<and> lsu_col d < cols) \<and>
     map lsu_portId tiles = [0..<length tiles]"

lemma lsu_tiles_fold:
  assumes "foldR (loadLsuTile rows cols ports) [] ys = Inr zs"
  shows "distinct (map (\<lambda>d. (lsu_row d, lsu_col d)) zs) \<and> (\<forall>d \<in> set zs. lsu_row d < rows \<and> lsu_col d < cols)"
  by (rule foldR_invariant [where I = "\<lambda>zs. distinct (map (\<lambda>d. (lsu_row d, lsu_col d)) zs) \<and>
        (\<forall>d \<in> set zs. lsu_row d < rows \<and> lsu_col d < cols)", OF assms])
     (auto simp: loadLsuTile_def split: if_splits)

lemma loadLsuTiles_ok:
  assumes "loadLsuTiles rows cols ports src = Inr tiles"
  shows "lsu_tiles_ok rows cols tiles"
proof -
  let ?key = "\<lambda>d. (lsu_row d, lsu_col d)"
  from assms obtain ts where f: "foldR (loadLsuTile rows cols ports) [] src = Inr ts" "tiles = sort_key ?key ts"
    and r: "\<forall>k < length tiles. lsu_portId (tiles ! k) = k"
    by (auto simp: loadLsuTiles_def bindR_eq_Inr Let_def split: if_splits)
  note d = lsu_tiles_fold [OF f(1)]
  have "distinct (map ?key tiles)" using d by (simp add: f(2) distinct_map)
  moreover have "map lsu_portId tiles = [0..<length tiles]" using r by (intro nth_equalityI) auto
  ultimately show ?thesis using d by (simp add: lsu_tiles_ok_def f(2))
qed

section \<open>Loaded targets\<close>

text \<open>Objects of the contract have distinct keys.\<close>

definition distinct_keys :: "ContractSource \<Rightarrow> bool" where
  "distinct_keys src \<longleftrightarrow>
     distinct (map fst (ct_operations src)) \<and> distinct (map fst (ct_encodings src)) \<and>
     (\<forall>d \<in> set (ct_encodings src). distinct (map fst (snd d)))"

definition target_wf :: "TargetModel \<Rightarrow> bool" where
  "target_wf t \<longleftrightarrow>
     layout_ok (tm_controlLayout t) \<and> encodings_ok t \<and>
     rf_id (tm_dataRF t) \<noteq> rf_id (tm_predicateRF t) \<and>
     register_file_ok (arr_rows (tm_array t)) (arr_cols (tm_array t)) (tm_dataRF t) \<and>
     register_file_ok (arr_rows (tm_array t)) (arr_cols (tm_array t)) (tm_predicateRF t) \<and>
     lsu_tiles_ok (arr_rows (tm_array t)) (arr_cols (tm_array t)) (tm_lsuTiles t) \<and>
     (\<forall>d \<in> set (tm_operations t). operation_ok (arr_dataWidth (tm_array t)) d \<and> hasValidEncoding t d) \<and>
     (\<forall>name d. findOperation t name = Some d \<longleftrightarrow> d \<in> set (tm_operations t) \<and> op_id d = name) \<and>
     (\<exists>l s. findOperation t ''LOAD'' = Some l \<and> op_executionClass l = Class_LSU \<and> op_resultRole l = ResultRole_Data \<and>
        findOperation t ''STORE'' = Some s \<and> op_executionClass s = Class_LSU \<and> op_resultRole s = ResultRole_Void)"

lemma loadTarget_parts:
  assumes "loadTarget src = Inr t"
  obtains ex where
    "parseRegisterFile ''data_rf'' Bank_Data (ct_dataRF src) (arr_rows (tm_array t)) (arr_cols (tm_array t)) = Inr (tm_dataRF t)"
    "parseRegisterFile ''predicate_rf'' Bank_Predicate (ct_predicateRF src) (arr_rows (tm_array t)) (arr_cols (tm_array t)) =
       Inr (tm_predicateRF t)"
    "foldR (addOperation ex (arr_dataWidth (tm_array t))) ([], Map.empty) (ct_operations src) =
       Inr (tm_operations t, tm_operationIndices t)"
    "checkLoad (tm_memory t) (findOperation t ''LOAD'') = Inr ()"
    "checkStore (tm_memory t) (findOperation t ''STORE'') = Inr ()"
    "foldR loadDomain (Map.empty, Map.empty) (ct_encodings src) = Inr (tm_encodings t, tm_reverseEncodings t)"
    "foldR (checkOperationEncoding (tm_encodings t)) () (tm_operations t) = Inr ()"
    "loadLayout (ct_encodings src) (ct_layout src) = Inr (tm_controlLayout t)"
    "loadLsuTiles (arr_rows (tm_array t)) (arr_cols (tm_array t)) (mem_ports (tm_memory t)) (ct_lsuTiles src) = Inr (tm_lsuTiles t)"
  using assms by (auto simp: loadTarget_def Let_def bindR_eq_Inr findOperation_def)

lemma unit_fold_all: "foldR f () xs = Inr () \<Longrightarrow> \<forall>x \<in> set xs. f () x = Inr ()"
proof (induction xs)
  case (Cons x xs)
  then have "f () x = Inr ()" "foldR f () xs = Inr ()" by (auto simp: bindR_eq_Inr)
  with Cons.IH show ?case by simp
qed simp

lemma integer_not_void [simp]: "narrowIntegerTy n \<noteq> voidTy" "predicateTy \<noteq> voidTy"
  by (simp_all add: narrowIntegerTy_def integerTy_def predicateTy_def voidTy_def)

lemma resultTypeFor_void: "resultTypeFor w role = voidTy \<longleftrightarrow> role = ResultRole_Void"
  by (cases role) (simp_all add: resultTypeFor_def)

lemma loadTarget_wf:
  assumes "loadTarget src = Inr t" and "distinct_keys src"
  shows "target_wf t"
proof -
  from loadTarget_parts [OF assms(1)] obtain ex where
    p: "parseRegisterFile ''data_rf'' Bank_Data (ct_dataRF src) (arr_rows (tm_array t)) (arr_cols (tm_array t)) = Inr (tm_dataRF t)"
      "parseRegisterFile ''predicate_rf'' Bank_Predicate (ct_predicateRF src) (arr_rows (tm_array t)) (arr_cols (tm_array t)) =
         Inr (tm_predicateRF t)"
    and o: "foldR (addOperation ex (arr_dataWidth (tm_array t))) ([], Map.empty) (ct_operations src) =
       Inr (tm_operations t, tm_operationIndices t)"
    and ls: "checkLoad (tm_memory t) (findOperation t ''LOAD'') = Inr ()" "checkStore (tm_memory t) (findOperation t ''STORE'') = Inr ()"
    and e: "foldR loadDomain (Map.empty, Map.empty) (ct_encodings src) = Inr (tm_encodings t, tm_reverseEncodings t)"
      "foldR (checkOperationEncoding (tm_encodings t)) () (tm_operations t) = Inr ()"
    and l: "loadLayout (ct_encodings src) (ct_layout src) = Inr (tm_controlLayout t)"
    and m: "loadLsuTiles (arr_rows (tm_array t)) (arr_cols (tm_array t)) (mem_ports (tm_memory t)) (ct_lsuTiles src) = Inr (tm_lsuTiles t)"
    by metis
  have k: "distinct (map fst (ct_operations src))" "distinct (map fst (ct_encodings src))"
    "\<forall>d \<in> set (ct_encodings src). distinct (map fst (snd d))" using assms(2) by (auto simp: distinct_keys_def)
  have "mutual (tm_encodings t, tm_reverseEncodings t)"
    using loadDomains_mutual [OF e(1) _ k(2,3)] by (simp add: mutual_def)
  then have enc: "encodings_ok t"
    unfolding encodings_ok_def mutual_def inverse_maps_def fst_conv snd_conv by (metis option.distinct(1) option.inject)
  from addOperations_inv [OF o _ k(1)] have inv: "operations_inv (arr_dataWidth (tm_array t)) (tm_operations t, tm_operationIndices t)"
    by (simp add: operations_inv_def)
  then have ops: "\<forall>d \<in> set (tm_operations t). operation_ok (arr_dataWidth (tm_array t)) d"
    and found: "findOperation t name = Some d \<longleftrightarrow> d \<in> set (tm_operations t) \<and> op_id d = name" for name d
    unfolding operations_inv_def findOperation_def by (auto simp: in_set_conv_nth)
  have valid: "hasValidEncoding t d" if d: "d \<in> set (tm_operations t)" for d
  proof -
    have "checkOperationEncoding (tm_encodings t) () d = Inr ()" by (rule bspec [OF unit_fold_all [OF e(2)] d])
    moreover have "findOperation t (op_id d) = Some d" using d found by blast
    ultimately show ?thesis
      by (auto simp: checkOperationEncoding_def hasValidEncoding_def split: option.splits if_splits)
  qed
  from ls(1) obtain ld where ld: "findOperation t ''LOAD'' = Some ld" "op_executionClass ld = Class_LSU" "op_resultType ld \<noteq> voidTy"
    by (auto simp: checkLoad_def split: option.splits)
  from ls(2) obtain st where st: "findOperation t ''STORE'' = Some st" "op_executionClass st = Class_LSU" "op_resultType st = voidTy"
    by (auto simp: checkStore_def split: option.splits)
  have "operation_ok (arr_dataWidth (tm_array t)) ld" "operation_ok (arr_dataWidth (tm_array t)) st"
    using ops found ld(1) st(1) by blast+
  then have "op_resultRole ld \<noteq> ResultRole_Void" "op_resultRole st = ResultRole_Void"
    "validResultSource Class_LSU (op_resultRole ld) (op_resultSource ld)"
    using ld(2,3) st(3) resultTypeFor_void unfolding operation_ok_def by metis+
  then have "op_resultRole ld = ResultRole_Data" "op_resultRole st = ResultRole_Void"
    by (auto simp: validResultSource_def)
  with ld st enc ops found valid parseRegisterFile_ok [OF p(1)] parseRegisterFile_ok [OF p(2)] loadLayout_ok(1) [OF l]
    loadLsuTiles_ok [OF m] show ?thesis
    unfolding target_wf_def by auto
qed

end
