(* ===== verification/Target_Contract.thy ===== *)
theory Target_Contract
  imports Target_Loader_Sound
begin

text \<open>
  Loaded targets and their control words.  The theorems are about every contract the loader accepts; they
  are evaluated on a small contract: one tile with a memory port, an adder and the two memory operations, a control word
  with two addresses, an opcode and a write enable.
\<close>

section \<open>A contract\<close>

definition demo_rf_source :: "string \<Rightarrow> RegisterFileSource" where
  "demo_rf_source source = \<lparr>rfs_depth = 2, rfs_readPorts = 2, rfs_writePorts = 1, rfs_readWrite = ''illegal'',
     rfs_multiwrite = ''illegal'', rfs_allocatable = Some [1, 0], rfs_tiles = None, rfs_ports = [(''W0'', [source])]\<rparr>"

definition demo_operation_source ::
  "string \<Rightarrow> string list \<Rightarrow> string \<Rightarrow> string \<Rightarrow> string \<Rightarrow> nat option \<Rightarrow> nat option \<Rightarrow> OperationSource" where
  "demo_operation_source c roles dm symbol role latency width =
     \<lparr>os_executionClass = c, os_operands = map (\<lambda>r. (r, None)) roles, os_encodingDomain = dm, os_encodingSymbol = symbol,
      os_resultRole = role, os_lowering = None, os_issueOccupancy = 1, os_resultLatency = latency,
      os_outputReadyOffset = latency, os_accessWidth = width\<rparr>"

definition demo_contract :: ContractSource where
  "demo_contract = \<lparr>ct_schema = ''cgra.target.v2'', ct_version = 2, ct_name = ''demo'',
     ct_array = \<lparr>arr_rows = 1, arr_cols = 1, arr_dataWidth = 32, arr_predicateWidth = 1, arr_hardwareBranch = False\<rparr>,
     ct_constMemDepth = Some 4, ct_dataRF = demo_rf_source ''R'', ct_predicateRF = demo_rf_source ''P'',
     ct_interconnect = \<lparr>is_topology = ''mesh_2d'', is_registeredLinks = True, is_hopLatency = 1, is_inputBuffering = False,
       is_runtimeArbitration = False, is_compilerRouted = True, is_data = \<lparr>ns_separate = True, ns_channels = 1\<rparr>,
       is_predicate = \<lparr>ns_separate = True, ns_channels = 1\<rparr>\<rparr>,
     ct_memory = \<lparr>ms_model = ''shared_multiport_scratchpad'', ms_addressUnit = ''word'',
       ms_desc = \<lparr>mem_depth = 16, mem_widthBits = 32, mem_ports = 1, mem_loadLatency = 2, mem_maxIssuePerLsuPerCycle = 1,
         mem_maxIssuePerPortPerCycle = 1, mem_rawDependenceSeparation = 1, mem_warDependenceSeparation = 1,
         mem_wawDependenceSeparation = 1\<rparr>,
       ms_sameAddressPolicy = ''multi_load_only'', ms_runtimeStall = False, ms_runtimeArbitration = False\<rparr>,
     ct_fuLatencies = [(''ADD'', 1)], ct_legacyOccupancies = [1, 1, 1], ct_legacyOps = [''ADD''],
     ct_compatibilityStatus = ''legacy_compatibility_view'', ct_compatibilitySection = ''operations'',
     ct_operations =
       [(''ADD'', demo_operation_source ''FU'' [''data'', ''data''] ''op'' ''ADD'' ''data'' (Some 1) None),
        (''LOAD'', demo_operation_source ''LSU'' [''address''] ''lsu_op'' ''LD'' ''data'' (Some 2) (Some 32)),
        (''STORE'', demo_operation_source ''LSU'' [''address'', ''data''] ''lsu_op'' ''ST'' ''void'' None (Some 32))],
     ct_capabilities = None,
     ct_loop = \<lparr>lo_supported = True, lo_model = ''finite_modulo_replay'',
       lo_controlPhases = [''prologue'', ''kernel'', ''epilogue''], lo_rotatingRegisters = False, lo_loopCounterOperand = False,
       lo_sameAddressRecurrence = False\<rparr>,
     ct_encodings = [(''lsu_op'', [(''LD'', 1), (''ST'', 2)]), (''op'', [(''ADD'', 1), (''NOP'', 0)]),
       (''route_data_source'', [(''R'', 0)]), (''route_predicate_source'', [(''P'', 0)])],
     ct_layout = \<lparr>ls_rawWidth = 66, ls_physicalWidth = 128, ls_chunks = 4, ls_chunkBits = 32, ls_chunkOrder = ''little_word'',
       ls_paddingLsb = 66, ls_paddingWidth = 62, ls_paddingValue = 0,
       ls_fields = [\<lparr>fs_name = ''op'', fs_lsb = 0, fs_width = 1, fs_encoding = Some ''op''\<rparr>,
         \<lparr>fs_name = ''data_rf_raddr_a'', fs_lsb = 1, fs_width = 32, fs_encoding = None\<rparr>,
         \<lparr>fs_name = ''data_w0_we'', fs_lsb = 33, fs_width = 1, fs_encoding = None\<rparr>,
         \<lparr>fs_name = ''const_addr'', fs_lsb = 34, fs_width = 32, fs_encoding = None\<rparr>]\<rparr>,
     ct_portAssignment = ''enabled_tile_row_major_rank'',
     ct_lsuTiles = [\<lparr>lsu_row = 0, lsu_col = 0, lsu_portId = 0\<rparr>],
     ct_parameters = [1, 1, 32, 1, 2, 2, 16, 32, 1, 2, 1, 66, 128, 4],
     ct_controlSchema = (''lsb_first_fixed_field_order'', [32, 66, 128, 4])\<rparr>"

lemma demo_contract_keys: "distinct_keys demo_contract"
  by (simp add: distinct_keys_def demo_contract_def)

definition demo_control :: TileControl where
  "demo_control = default_TileControl\<lparr>tc_op := ''ADD'', tc_dataRfReadAddrA := 5, tc_dataWrite0Enable := True\<rparr>"

text \<open>The target of the contract; the values of the control fit its fields.\<close>

definition field_fits :: "TileControl \<Rightarrow> TargetModel \<Rightarrow> ControlField \<Rightarrow> bool" where
  "field_fits c t f \<longleftrightarrow> (case fieldValue c t f of Inl _ \<Rightarrow> False | Inr v \<Rightarrow> v \<le> fieldLimit (cf_width f))"

lemma demo_contract_facts:
  "case loadTarget demo_contract of
     Inl _ \<Rightarrow> False
   | Inr t \<Rightarrow> narrow (tm_controlLayout t) \<and> lossless (tm_controlLayout t) \<and>
       (\<forall>f \<in> set (cl_fields (tm_controlLayout t)). field_fits demo_control t f)"
  by code_simp

definition demo_loaded :: TargetModel where
  "demo_loaded = projr (loadTarget demo_contract)"

lemma demo_loaded_facts:
  "loadTarget demo_contract = Inr demo_loaded" "narrow (tm_controlLayout demo_loaded)" "lossless (tm_controlLayout demo_loaded)"
  "\<forall>f \<in> set (cl_fields (tm_controlLayout demo_loaded)). field_fits demo_control demo_loaded f"
  using demo_contract_facts by (auto simp: demo_loaded_def split: sum.splits)

lemma demo_encodes: "\<exists>e. encode demo_control demo_loaded = Inr e"
proof -
  have "\<exists>v. fieldValue demo_control demo_loaded f = Inr v \<and> v \<le> fieldLimit (cf_width f)"
    if "f \<in> set (cl_fields (tm_controlLayout demo_loaded))" for f
    using bspec [OF demo_loaded_facts(4) that] by (auto simp: field_fits_def split: sum.splits)
  moreover have "layout_ok (tm_controlLayout demo_loaded)"
    using loadTarget_wf [OF demo_loaded_facts(1) demo_contract_keys] by (simp add: target_wf_def)
  ultimately show ?thesis using encode_defined [OF _ demo_loaded_facts(2)] by blast
qed

text \<open>The width of the array is narrowed to 16 bits on its way into the result types: a contract that asks
  for 65568 bits is accepted, and its additions have 32-bit results.\<close>

lemma loader_narrows_width:
  "case loadTarget (demo_contract\<lparr>ct_array := (ct_array demo_contract)\<lparr>arr_dataWidth := 65568\<rparr>,
      ct_parameters := [1, 1, 65568, 1, 2, 2, 16, 32, 1, 2, 1, 66, 128, 4]\<rparr>) of
     Inl _ \<Rightarrow> False
   | Inr t \<Rightarrow> arr_dataWidth (tm_array t) = 65568 \<and> map_option op_resultType (findOperation t ''ADD'') = Some i32Ty"
  by code_simp

section \<open>Properties of loaded targets\<close>

text \<open>C22: Every loaded target is well-formed.  When the loader accepts a contract, the control fields
  partition the word below the padding, the encodings can be read in both directions, the two register
  banks have different names and valid registers, ports and tiles, memory ports are the ranks of the
  tiles in row-major order, every operation is found exactly under its own name with a known encoding,
  sinks for all operands and a latency if it produces a value, and LOAD and STORE are memory
  operations.\<close>

theorem loaded_target_wf:
  assumes "loadTarget src = Inr t" and "distinct_keys src"
  shows "target_wf t"
  by (rule loadTarget_wf [OF assms])

theorem loaded_target_wf_witness: "target_wf demo_loaded"
  by (rule loaded_target_wf [OF demo_loaded_facts(1) demo_contract_keys])

text \<open>C25: Encoding a control for a loaded target whose fields and padding have at most 64 bits succeeds
  exactly when every field of the layout has a value that fits its width; no other check, the one of the
  padding bits included, can fail.  The loader also accepts wider fields and paddings, for which the
  shifts of that check are undefined; nothing is claimed of them.\<close>

theorem loaded_encode_defined:
  assumes "loadTarget src = Inr t" and "distinct_keys src" and "narrow (tm_controlLayout t)"
  shows "(\<exists>e. encode c t = Inr e) \<longleftrightarrow>
    (\<forall>f \<in> set (cl_fields (tm_controlLayout t)). \<exists>v. fieldValue c t f = Inr v \<and> v \<le> fieldLimit (cf_width f))"
  using loadTarget_wf [OF assms(1,2)] assms(3) by (intro encode_defined) (simp_all add: target_wf_def)

theorem loaded_encode_defined_witness: "\<exists>e. encode demo_control demo_loaded = Inr e"
proof -
  have "\<exists>v. fieldValue demo_control demo_loaded f = Inr v \<and> v \<le> fieldLimit (cf_width f)"
    if "f \<in> set (cl_fields (tm_controlLayout demo_loaded))" for f
    using bspec [OF demo_loaded_facts(4) that] by (auto simp: field_fits_def split: sum.splits)
  with loaded_encode_defined [OF demo_loaded_facts(1) demo_contract_keys demo_loaded_facts(2)] show ?thesis by blast
qed

text \<open>C23: Control words are read back.  For every loaded target whose fields and padding have at most 64
  bits, decoding an encoded control succeeds and restores every field of the layout, and with a layout
  that names every semantic field it restores the control itself.\<close>

theorem loaded_decode_encode:
  assumes "loadTarget src = Inr t" and "distinct_keys src" and "narrow (tm_controlLayout t)"
    and "routes_ok c" and "encode c t = Inr e"
  shows "\<exists>d. decode e t = Inr d \<and> (\<forall>f \<in> set (cl_fields (tm_controlLayout t)). field_agrees c d f) \<and>
    (complete_layout (tm_controlLayout t) \<longrightarrow> d = c)"
  using loadTarget_wf [OF assms(1,2)] assms(3-) by (intro control_read_back) (simp_all add: target_wf_def)

lemma demo_routes: "routes_ok demo_control"
  by (simp add: demo_control_def routes_ok_def default_TileControl_def)

theorem loaded_decode_encode_witness:
  "\<exists>e d. encode demo_control demo_loaded = Inr e \<and> decode e demo_loaded = Inr d \<and>
     (\<forall>f \<in> set (cl_fields (tm_controlLayout demo_loaded)). field_agrees demo_control d f)"
  using demo_encodes loaded_decode_encode [OF demo_loaded_facts(1) demo_contract_keys demo_loaded_facts(2) demo_routes] by blast

text \<open>C24: No two control words mean the same control.  For every loaded target whose layout keeps what
  is decoded (flags of one bit, no field wider than 32 bits) and whose padding has at most 64 bits, every
  word of four chunks that is decoded at all is the encoding of the control it is decoded to.  The
  loader does not require such a layout: a flag of two bits that holds 2 is decoded as set and
  encoded again as 1.\<close>

theorem loaded_encode_decode:
  assumes "loadTarget src = Inr t" and "distinct_keys src" and "narrow (tm_controlLayout t)"
    and "lossless (tm_controlLayout t)" and "length e = 4" and "decode e t = Inr c"
  shows "encode c t = Inr e"
  using loadTarget_wf [OF assms(1,2)] assms(3-) by (intro word_read_back) (simp_all add: target_wf_def)

theorem loaded_encode_decode_witness:
  "\<exists>e d. length e = 4 \<and> decode e demo_loaded = Inr d \<and> encode d demo_loaded = Inr e"
proof -
  have wf: "target_wf demo_loaded" by (rule loadTarget_wf [OF demo_loaded_facts(1) demo_contract_keys])
  from demo_encodes obtain e where e: "encode demo_control demo_loaded = Inr e" by blast
  have "length e = 4" by (rule encode_length [OF e]) (use wf demo_loaded_facts(2) in \<open>simp_all add: target_wf_def\<close>)
  moreover obtain d where d: "decode e demo_loaded = Inr d"
    using control_read_back [OF _ demo_loaded_facts(2) _ demo_routes e] wf by (auto simp: target_wf_def)
  ultimately show ?thesis
    using loaded_encode_decode [OF demo_loaded_facts(1) demo_contract_keys demo_loaded_facts(2,3)] by blast
qed

end
