(* ===== verification/Mapping_Resources.thy ===== *)
theory Mapping_Resources
  imports Target_DFG
begin

text \<open>
  Modulo time, the mesh, the modulo resources and the reservation table (\<open>Mapping/ModuloTime.h\<close>,
  \<open>Mapping/Network.h\<close>, \<open>Mapping/ModuloResource.h\<close>, \<open>Mapping/ModuloResourceModel.cpp\<close>,
  \<open>Mapping/ResourceReservation.cpp\<close>).

  The locale \<open>reservation\<close> is the contract of the reservation table: a successful reservation takes
  only free resources, each once, and records their owner; releasing gives back the table before
  it.  The mapping verifier rests on it.
\<close>

section \<open>Modulo time and the mesh\<close>

type_synonym ModuloSlot = nat

record TileCoord =
  tile_row :: nat
  tile_col :: nat

definition mk_ModuloTimeDomain :: "nat \<Rightarrow> nat result" where
  "mk_ModuloTimeDomain ii = (if ii = 0 then Inl Invalid_Argument else Inr ii)"

definition normalize :: "nat \<Rightarrow> nat \<Rightarrow> ModuloSlot" where
  "normalize ii logicalCycle = logicalCycle mod ii"

definition validate :: "nat \<Rightarrow> ModuloSlot \<Rightarrow> unit result" where
  "validate ii slot = (if slot \<ge> ii then Inl Invalid_Argument else Inr ())"

definition advance :: "nat \<Rightarrow> ModuloSlot \<Rightarrow> nat \<Rightarrow> ModuloSlot result" where
  "advance ii slot delta =
     bindR (validate ii slot) (\<lambda>_. Inr (normalize ii (slot + delta mod ii)))"

datatype Direction = North | South | East | West
datatype NetworkDomain = Net_Data | Net_Predicate

fun opposite :: "Direction \<Rightarrow> Direction" where
  "opposite North = South"
| "opposite South = North"
| "opposite East = West"
| "opposite West = East"

fun neighbor :: "TileCoord \<Rightarrow> Direction \<Rightarrow> nat \<Rightarrow> nat \<Rightarrow> TileCoord option" where
  "neighbor tile direction rows cols =
     (if tile_row tile \<ge> rows \<or> tile_col tile \<ge> cols then None
      else case direction of
        North \<Rightarrow> if tile_row tile = 0 then None
                 else Some \<lparr>tile_row = tile_row tile - 1, tile_col = tile_col tile\<rparr>
      | South \<Rightarrow> if tile_row tile + 1 \<ge> rows then None
                 else Some \<lparr>tile_row = tile_row tile + 1, tile_col = tile_col tile\<rparr>
      | East \<Rightarrow> if tile_col tile + 1 \<ge> cols then None
                else Some \<lparr>tile_row = tile_row tile, tile_col = tile_col tile + 1\<rparr>
      | West \<Rightarrow> if tile_col tile = 0 then None
                else Some \<lparr>tile_row = tile_row tile, tile_col = tile_col tile - 1\<rparr>)"

definition neighbor_in :: "TargetModel \<Rightarrow> TileCoord \<Rightarrow> Direction \<Rightarrow> TileCoord option" where
  "neighbor_in t tile direction = neighbor tile direction (arr_rows (tm_array t)) (arr_cols (tm_array t))"

section \<open>Resources\<close>

type_synonym ResourceId = nat

datatype ResourceKind = RK_FU | RK_LSU | RK_DataLink | RK_PredicateLink

datatype ModuloResource =
    FUResource TileCoord ModuloSlot
  | LSUResource TileCoord ModuloSlot
  | LinkResource NetworkDomain TileCoord Direction ModuloSlot

fun kindOf :: "ModuloResource \<Rightarrow> ResourceKind" where
  "kindOf (FUResource _ _) = RK_FU"
| "kindOf (LSUResource _ _) = RK_LSU"
| "kindOf (LinkResource domain _ _ _) = (if domain = Net_Data then RK_DataLink else RK_PredicateLink)"

record ResourceKey =
  rk_kind :: ResourceKind
  rk_domain :: NetworkDomain
  rk_tile :: TileCoord
  rk_direction :: Direction
  rk_slot :: ModuloSlot

fun keyFor :: "ModuloResource \<Rightarrow> ResourceKey" where
  "keyFor (FUResource tile slot) = \<lparr>rk_kind = RK_FU, rk_domain = Net_Data, rk_tile = tile,
     rk_direction = North, rk_slot = slot\<rparr>"
| "keyFor (LSUResource tile slot) = \<lparr>rk_kind = RK_LSU, rk_domain = Net_Data, rk_tile = tile,
     rk_direction = North, rk_slot = slot\<rparr>"
| "keyFor (LinkResource domain source direction slot) =
     \<lparr>rk_kind = kindOf (LinkResource domain source direction slot), rk_domain = domain,
      rk_tile = source, rk_direction = direction, rk_slot = slot\<rparr>"

record ModuloResourceStats =
  rs_ii :: nat
  rs_fuResources :: nat
  rs_lsuResources :: nat
  rs_dataLinkResources :: nat
  rs_predicateLinkResources :: nat
  rs_totalResources :: nat

record ModuloResourceModel =
  rm_target :: TargetModel
  rm_ii :: nat
  rm_resources :: "ModuloResource list"
  rm_resourceIds :: "ResourceKey \<rightharpoonup> ResourceId"
  rm_stats :: ModuloResourceStats

definition addResource :: "ModuloResource \<Rightarrow> ModuloResourceModel \<Rightarrow> ModuloResourceModel" where
  "addResource r m =
     (let i = wrap32 (length (rm_resources m));
          st = rm_stats m;
          st' = (case kindOf r of
                   RK_FU \<Rightarrow> st\<lparr>rs_fuResources := rs_fuResources st + 1\<rparr>
                 | RK_LSU \<Rightarrow> st\<lparr>rs_lsuResources := rs_lsuResources st + 1\<rparr>
                 | RK_DataLink \<Rightarrow> st\<lparr>rs_dataLinkResources := rs_dataLinkResources st + 1\<rparr>
                 | RK_PredicateLink \<Rightarrow> st\<lparr>rs_predicateLinkResources := rs_predicateLinkResources st + 1\<rparr>);
          ids = rm_resourceIds m
      in m\<lparr>rm_stats := st', rm_resources := rm_resources m @ [r],
           rm_resourceIds := (if ids (keyFor r) = None then ids(keyFor r \<mapsto> i) else ids)\<rparr>)"

definition tile_resources :: "TargetModel \<Rightarrow> nat \<Rightarrow> nat \<Rightarrow> nat \<Rightarrow> ModuloResource list" where
  "tile_resources t slot row col =
     (let tile = \<lparr>tile_row = row, tile_col = col\<rparr>;
          links = (\<lambda>domain. map (\<lambda>d. LinkResource domain tile d slot)
            (filter (\<lambda>d. neighbor tile d (arr_rows (tm_array t)) (arr_cols (tm_array t)) \<noteq> None)
              [North, South, East, West]))
      in [FUResource tile slot] @
         (if tileHasLSU t row col then [LSUResource tile slot] else []) @
         (if ic_topology (tm_interconnect t) = ''mesh_2d'' then links Net_Data @ links Net_Predicate
          else []))"

definition all_resources :: "TargetModel \<Rightarrow> nat \<Rightarrow> ModuloResource list" where
  "all_resources t ii =
     concat (map (\<lambda>slot. concat (map (\<lambda>row. concat (map (\<lambda>col. tile_resources t slot row col)
       [0..<arr_cols (tm_array t)])) [0..<arr_rows (tm_array t)])) [0..<ii])"

definition empty_resourceModel :: "TargetModel \<Rightarrow> nat \<Rightarrow> ModuloResourceModel" where
  "empty_resourceModel t ii = \<lparr>rm_target = t, rm_ii = ii, rm_resources = [],
     rm_resourceIds = Map.empty,
     rm_stats = \<lparr>rs_ii = ii, rs_fuResources = 0, rs_lsuResources = 0, rs_dataLinkResources = 0,
                 rs_predicateLinkResources = 0, rs_totalResources = 0\<rparr>\<rparr>"

definition mk_ModuloResourceModel :: "TargetModel \<Rightarrow> nat \<Rightarrow> ModuloResourceModel result" where
  "mk_ModuloResourceModel t ii =
     bindR (mk_ModuloTimeDomain ii) (\<lambda>_.
       let m = fold addResource (all_resources t ii) (empty_resourceModel t ii)
       in Inr (m\<lparr>rm_stats := (rm_stats m)\<lparr>rs_totalResources := length (rm_resources m)\<rparr>\<rparr>))"

definition resource_at :: "ModuloResourceModel \<Rightarrow> ResourceId \<Rightarrow> ModuloResource result" where
  "resource_at m i = (if i \<ge> length (rm_resources m) then Inl Out_Of_Range else Inr (rm_resources m ! i))"

definition findResource :: "ModuloResourceModel \<Rightarrow> ModuloResource \<Rightarrow> ResourceId result" where
  "findResource m r =
     (case rm_resourceIds m (keyFor r) of None \<Rightarrow> Inl Out_Of_Range | Some i \<Rightarrow> Inr i)"

definition hasFU :: "ModuloResourceModel \<Rightarrow> TileCoord \<Rightarrow> bool" where
  "hasFU m tile \<longleftrightarrow> tile_row tile < arr_rows (tm_array (rm_target m)) \<and>
     tile_col tile < arr_cols (tm_array (rm_target m))"

definition hasLSU :: "ModuloResourceModel \<Rightarrow> TileCoord \<Rightarrow> bool" where
  "hasLSU m tile = tileHasLSU (rm_target m) (tile_row tile) (tile_col tile)"

definition supportsOperation :: "ModuloResourceModel \<Rightarrow> TileCoord \<Rightarrow> TargetNode \<Rightarrow> bool" where
  "supportsOperation m tile n =
     (if tile_row tile \<ge> arr_rows (tm_array (rm_target m)) \<or>
         tile_col tile \<ge> arr_cols (tm_array (rm_target m)) then False
      else case findOperation (rm_target m) (tn_operation n) of
        None \<Rightarrow> False
      | Some d \<Rightarrow> tileSupportsOperation (rm_target m) (tile_row tile) (tile_col tile) (op_id d))"

definition fuResource :: "ModuloResourceModel \<Rightarrow> TileCoord \<Rightarrow> ModuloSlot \<Rightarrow> ResourceId result" where
  "fuResource m tile slot =
     bindR (validate (rm_ii m) slot) (\<lambda>_.
       if \<not> hasFU m tile then Inl Invalid_Argument else findResource m (FUResource tile slot))"

definition lsuResource :: "ModuloResourceModel \<Rightarrow> TileCoord \<Rightarrow> ModuloSlot \<Rightarrow> ResourceId option result" where
  "lsuResource m tile slot =
     bindR (validate (rm_ii m) slot) (\<lambda>_.
       if \<not> hasLSU m tile then Inr None
       else bindR (findResource m (LSUResource tile slot)) (\<lambda>i. Inr (Some i)))"

definition linkResource ::
  "ModuloResourceModel \<Rightarrow> NetworkDomain \<Rightarrow> TileCoord \<Rightarrow> Direction \<Rightarrow> ModuloSlot \<Rightarrow> ResourceId option result" where
  "linkResource m domain source direction slot =
     bindR (validate (rm_ii m) slot) (\<lambda>_.
       if neighbor source direction (arr_rows (tm_array (rm_target m)))
            (arr_cols (tm_array (rm_target m))) = None then Inr None
       else case findResource m (LinkResource domain source direction slot) of
              Inl _ \<Rightarrow> Inr None
            | Inr i \<Rightarrow> Inr (Some i))"

text \<open>One iteration of the footprint loop, and the loop over the offsets.\<close>

definition footprintStep ::
  "ModuloResourceModel \<Rightarrow> TargetOperationDesc \<Rightarrow> TileCoord \<Rightarrow> ModuloSlot \<Rightarrow> ResourceId list \<Rightarrow> nat \<Rightarrow>
   ResourceId list result" where
  "footprintStep m d tile issueSlot footprint offset =
     bindR (advance (rm_ii m) issueSlot offset) (\<lambda>slot.
     bindR (if op_executionClass d = Class_FU then fuResource m tile slot
            else bindR (lsuResource m tile slot) (\<lambda>r.
              case r of None \<Rightarrow> Inl Bad_Optional_Access | Some i \<Rightarrow> Inr i)) (\<lambda>resource.
       if resource \<in> set footprint then Inl Invalid_Argument else Inr (footprint @ [resource])))"

definition operationFootprint ::
  "ModuloResourceModel \<Rightarrow> TargetNode \<Rightarrow> TileCoord \<Rightarrow> ModuloSlot \<Rightarrow> ResourceId list result" where
  "operationFootprint m n tile issueSlot =
     (case findOperation (rm_target m) (tn_operation n) of
        None \<Rightarrow> Inl Invalid_Argument
      | Some d \<Rightarrow>
          if \<not> supportsOperation m tile n then Inl Invalid_Argument
          else if op_issueOccupancy d = 0 then Inl Invalid_Argument
          else foldR (footprintStep m d tile issueSlot) [] [0..<op_issueOccupancy d])"

section \<open>The reservation table\<close>

datatype ReservationOwnerKind = Owner_Node | Owner_Edge

record ReservationOwner =
  ro_kind :: ReservationOwnerKind
  ro_id :: nat

type_synonym ReservationTable = "ReservationOwner option list"

record ReservationDelta =
  dl_owner :: ReservationOwner
  dl_resources :: "ResourceId list"

definition mk_ReservationTable :: "ModuloResourceModel \<Rightarrow> ReservationTable" where
  "mk_ReservationTable m = replicate (length (rm_resources m)) None"

definition isFree :: "ReservationTable \<Rightarrow> ResourceId \<Rightarrow> bool result" where
  "isFree t r = (if r \<ge> length t then Inl Out_Of_Range else Inr (t ! r = None))"

definition res_owner :: "ReservationTable \<Rightarrow> ResourceId \<Rightarrow> ReservationOwner option result" where
  "res_owner t r = (if r \<ge> length t then Inl Out_Of_Range else Inr (t ! r))"

fun canReserve_loop :: "ReservationTable \<Rightarrow> ResourceId list \<Rightarrow> ResourceId list \<Rightarrow> bool" where
  "canReserve_loop t uniq [] = True"
| "canReserve_loop t uniq (r # rs) =
     (if r \<ge> length t \<or> r \<in> set uniq \<or> t ! r \<noteq> None then False
      else canReserve_loop t (uniq @ [r]) rs)"

definition canReserve :: "ReservationTable \<Rightarrow> ResourceId list \<Rightarrow> bool" where
  "canReserve t rs = canReserve_loop t [] rs"

definition reserve :: "ResourceId list \<Rightarrow> ReservationOwner \<Rightarrow> ReservationTable \<Rightarrow> ReservationTable \<times> bool" where
  "reserve rs w t =
     (if \<not> canReserve t rs then (t, False) else (fold (\<lambda>r u. u[r := Some w]) rs t, True))"

definition tryReserve ::
  "ResourceId list \<Rightarrow> ReservationOwner \<Rightarrow> ReservationTable \<Rightarrow> ReservationTable \<times> ReservationDelta option" where
  "tryReserve rs w t =
     (case reserve rs w t of
        (t', False) \<Rightarrow> (t', None)
      | (t', True) \<Rightarrow> (t', Some \<lparr>dl_owner = w, dl_resources = rs\<rparr>))"

definition release :: "ResourceId list \<Rightarrow> ReservationOwner \<Rightarrow> ReservationTable \<Rightarrow> ReservationTable result" where
  "release rs w t =
     (if \<exists>r \<in> set rs. r \<ge> length t \<or> t ! r \<noteq> Some w then Inl Invalid_Argument
      else Inr (fold (\<lambda>r u. u[r := None]) rs t))"

definition undo :: "ReservationDelta \<Rightarrow> ReservationTable \<Rightarrow> ReservationTable result" where
  "undo d t = release (dl_resources d) (dl_owner d) t"

definition clear :: "ReservationTable \<Rightarrow> ReservationTable" where
  "clear t = map (\<lambda>_. None) t"

section \<open>The contract of the reservation table\<close>

locale reservation =
  fixes owner_at :: "'t \<Rightarrow> nat \<Rightarrow> 'w option"
    and reserve_op :: "nat list \<Rightarrow> 'w \<Rightarrow> 't \<Rightarrow> 't \<times> bool"
    and release_op :: "nat list \<Rightarrow> 'w \<Rightarrow> 't \<Rightarrow> 't result"
  assumes reserve_free:
      "reserve_op rs w t = (t', True) \<Longrightarrow> r \<in> set rs \<Longrightarrow> owner_at t r = None"
    and reserve_once: "reserve_op rs w t = (t', True) \<Longrightarrow> distinct rs"
    and reserve_owns: "reserve_op rs w t = (t', True) \<Longrightarrow>
          owner_at t' r = (if r \<in> set rs then Some w else owner_at t r)"
    and reserve_refused: "reserve_op rs w t = (t', False) \<Longrightarrow> t' = t"
    and reserve_release: "reserve_op rs w t = (t', True) \<Longrightarrow> release_op rs w t' = Inr t"
begin

text \<open>Requests served one after the other.\<close>

inductive serves :: "'t \<Rightarrow> ('w \<times> nat list) list \<Rightarrow> 't \<Rightarrow> bool" where
  none: "serves t [] t"
| request: "serves t reqs u \<Longrightarrow> reserve_op rs w u = (u', True) \<Longrightarrow> serves t (reqs @ [(w, rs)]) u'"

lemma served_owned:
  assumes "serves t reqs u" and "(w, rs) \<in> set reqs" and "r \<in> set rs"
  shows "\<exists>w'. owner_at u r = Some w'"
  using assms
proof (induction rule: serves.induct)
  case (request t reqs u rs' w' u')
  then show ?case by (auto simp: reserve_owns)
qed simp

text \<open>Whatever requests were served, no resource is held by two of them, and each request holds
  every one of its resources once.\<close>

theorem served_disjoint:
  assumes "serves t reqs u" and "i < j" and "j < length reqs"
  shows "set (snd (reqs ! i)) \<inter> set (snd (reqs ! j)) = {}"
  using assms
proof (induction arbitrary: i j rule: serves.induct)
  case (request t reqs u rs w u')
  show ?case
  proof (cases "j < length reqs")
    case True
    with request show ?thesis by (simp add: nth_append)
  next
    case False
    with request.prems have j: "j = length reqs" "i < length reqs" by simp_all
    have mem: "(fst (reqs ! i), snd (reqs ! i)) \<in> set reqs" using j(2) by simp
    have "r \<notin> set rs" if r: "r \<in> set (snd (reqs ! i))" for r
    proof
      assume "r \<in> set rs"
      then have "owner_at u r = None" by (rule reserve_free [OF request.hyps(2)])
      with served_owned [OF request.hyps(1) mem r] show False by simp
    qed
    moreover have "(reqs @ [(w, rs)]) ! i = reqs ! i" "(reqs @ [(w, rs)]) ! j = (w, rs)"
      using j by (simp_all add: nth_append)
    ultimately show ?thesis by auto
  qed
qed simp

theorem served_distinct: "serves t reqs u \<Longrightarrow> (w, rs) \<in> set reqs \<Longrightarrow> distinct rs"
  by (induction rule: serves.induct) (auto dest: reserve_once)

theorem served_all_distinct: "serves t reqs u \<Longrightarrow> distinct (concat (map snd reqs))"
proof (induction rule: serves.induct)
  case (request t reqs u rs w u')
  have "r \<notin> set rs" if req: "(w', rs') \<in> set reqs" "r \<in> set rs'" for w' rs' r
  proof
    assume "r \<in> set rs"
    then have "owner_at u r = None" by (rule reserve_free [OF request.hyps(2)])
    with served_owned [OF request.hyps(1) req] show False by simp
  qed
  with request.IH reserve_once [OF request.hyps(2)] show ?case by fastforce
qed simp

end

section \<open>The table satisfies the contract\<close>

lemma canReserve_loop_iff:
  "canReserve_loop t uniq rs \<longleftrightarrow>
     distinct rs \<and> set rs \<inter> set uniq = {} \<and> (\<forall>r \<in> set rs. r < length t \<and> t ! r = None)"
  by (induction rs arbitrary: uniq) auto

lemma canReserve_iff:
  "canReserve t rs \<longleftrightarrow> distinct rs \<and> (\<forall>r \<in> set rs. r < length t \<and> t ! r = None)"
  by (simp add: canReserve_def canReserve_loop_iff)

lemma fold_update_length [simp]: "length (fold (\<lambda>r u. u[r := x]) rs t) = length t"
  by (induction rs arbitrary: t) simp_all

lemma fold_update_nth:
  "r < length t \<Longrightarrow> fold (\<lambda>r u. u[r := x]) rs t ! r = (if r \<in> set rs then x else t ! r)"
  by (induction rs arbitrary: t) (auto simp: nth_list_update)

definition owner_at :: "ReservationTable \<Rightarrow> ResourceId \<Rightarrow> ReservationOwner option" where
  "owner_at t r = (if r < length t then t ! r else None)"

interpretation table: reservation owner_at reserve release
proof unfold_locales
  fix rs w t t' r
  assume ok: "reserve rs w t = (t', True)"
  then have can: "distinct rs" "\<forall>r \<in> set rs. r < length t \<and> t ! r = None"
    and t': "t' = fold (\<lambda>r u. u[r := Some w]) rs t"
    by (auto simp: reserve_def canReserve_iff split: if_splits)
  show "distinct rs" by (rule can(1))
  show "r \<in> set rs \<Longrightarrow> owner_at t r = None" using can by (simp add: owner_at_def)
  show "owner_at t' r = (if r \<in> set rs then Some w else owner_at t r)"
    using can by (auto simp: owner_at_def t' fold_update_nth)
  have "\<forall>r \<in> set rs. r < length t' \<and> t' ! r = Some w" using can by (simp add: t' fold_update_nth)
  then have "release rs w t' = Inr (fold (\<lambda>r u. u[r := None]) rs t')"
    by (auto simp: release_def)
  moreover have "fold (\<lambda>r u. u[r := None]) rs t' = t"
    by (rule nth_equalityI) (use can in \<open>auto simp: t' fold_update_nth\<close>)
  ultimately show "release rs w t' = Inr t" by simp
next
  fix rs w t t'
  assume "reserve rs w t = (t', False)"
  then show "t' = t" by (simp add: reserve_def split: if_splits)
qed

text \<open>C35: The reservation table is exact and reversible.  A request is granted precisely when its
  resources are pairwise different, known and free; granting it changes only their owners; and
  undoing the returned delta restores the table as it was.\<close>

theorem tryReserve_undo:
  "tryReserve rs w t =
     (if distinct rs \<and> (\<forall>r \<in> set rs. r < length t \<and> t ! r = None)
      then (map (\<lambda>r. if r \<in> set rs then Some w else t ! r) [0..<length t],
            Some \<lparr>dl_owner = w, dl_resources = rs\<rparr>)
      else (t, None)) \<and>
   (case tryReserve rs w t of (t', Some d) \<Rightarrow> undo d t' = Inr t | (t', None) \<Rightarrow> t' = t)"
proof (cases "canReserve t rs")
  case True
  then have res: "reserve rs w t = (fold (\<lambda>r u. u[r := Some w]) rs t, True)"
    by (simp add: reserve_def)
  have "fold (\<lambda>r u. u[r := Some w]) rs t = map (\<lambda>r. if r \<in> set rs then Some w else t ! r) [0..<length t]"
    by (rule nth_equalityI) (simp_all add: fold_update_nth)
  with True table.reserve_release [OF res] res show ?thesis
    by (simp add: tryReserve_def canReserve_iff undo_def)
next
  case False
  then show ?thesis by (auto simp: tryReserve_def reserve_def canReserve_iff)
qed

theorem tryReserve_undo_witness:
  "tryReserve [0, 2] \<lparr>ro_kind = Owner_Node, ro_id = 7\<rparr> [None, Some \<lparr>ro_kind = Owner_Edge, ro_id = 1\<rparr>, None] =
     ([Some \<lparr>ro_kind = Owner_Node, ro_id = 7\<rparr>, Some \<lparr>ro_kind = Owner_Edge, ro_id = 1\<rparr>,
       Some \<lparr>ro_kind = Owner_Node, ro_id = 7\<rparr>],
      Some \<lparr>dl_owner = \<lparr>ro_kind = Owner_Node, ro_id = 7\<rparr>, dl_resources = [0, 2]\<rparr>)"
  using tryReserve_undo [of "[0, 2]" "\<lparr>ro_kind = Owner_Node, ro_id = 7\<rparr>"
      "[None, Some \<lparr>ro_kind = Owner_Edge, ro_id = 1\<rparr>, None]"]
  by (simp add: upt_rec)

end
