(* ===== verification/Mapping_Model.thy ===== *)
theory Mapping_Model
  imports Mapping_Resources Target_Verifier
begin

text \<open>
  Modulo mappings, their builder and their verifier (\<open>Mapping/ModuloMapping.h\<close>,
  \<open>Mapping/ModuloMapping.cpp\<close>, \<open>Mapping/ModuloMappingDiagnostic.h\<close>,
  \<open>Mapping/ModuloMappingVerifier.cpp\<close>).  A mapping gives every node a tile and an issue slot and
  every dependence a separation, value dependences with a transport plan of link steps and holds.

  The verifier carries a reservation table and its report through the loops over nodes and edges;
  loops over a \<open>std::map\<close> visit ids in increasing order.  It may raise: what its \<open>catch\<close> does not
  name propagates.
\<close>

section \<open>Mappings\<close>

record NodePlacement =
  pl_node :: TargetNodeId
  pl_tile :: TileCoord
  pl_issueSlot :: ModuloSlot

record LinkStep =
  ls_domain :: NetworkDomain
  ls_source :: TileCoord
  ls_direction :: Direction
  ls_elapsed :: nat

record VirtualHold =
  vh_domain :: NetworkDomain
  vh_tile :: TileCoord
  vh_captureElapsed :: nat
  vh_releaseElapsed :: nat

datatype TransportAction = Action_Link LinkStep | Action_Hold VirtualHold

fun action_domain :: "TransportAction \<Rightarrow> NetworkDomain" where
  "action_domain (Action_Link l) = ls_domain l"
| "action_domain (Action_Hold h) = vh_domain h"

record TransportPlan =
  tp_edge :: TargetEdgeId
  tp_domain :: NetworkDomain
  tp_actions :: "TransportAction list"
  tp_requiredSeparation :: nat

record MappedDependence =
  md_edge :: TargetEdgeId
  md_kind :: EdgeKind
  md_requiredSeparation :: nat
  md_transport :: "TransportPlan option"

record ModuloMapping =
  mm_targetName :: string
  mm_ii :: nat
  mm_placements :: "NodePlacement list"
  mm_dependences :: "MappedDependence list"

definition mm_placement :: "ModuloMapping \<Rightarrow> TargetNodeId \<Rightarrow> NodePlacement result" where
  "mm_placement m i =
     (case find_by pl_node i (mm_placements m) of None \<Rightarrow> Inl Out_Of_Range | Some p \<Rightarrow> Inr p)"

definition mm_dependence :: "ModuloMapping \<Rightarrow> TargetEdgeId \<Rightarrow> MappedDependence result" where
  "mm_dependence m i =
     (case find_by md_edge i (mm_dependences m) of None \<Rightarrow> Inl Out_Of_Range | Some d \<Rightarrow> Inr d)"

definition expectedDomain :: "EdgeKind \<Rightarrow> NetworkDomain" where
  "expectedDomain k = (if k = Kind_Predicate then Net_Predicate else Net_Data)"

section \<open>The builder\<close>

record ModuloMappingBuilder =
  mb_targetName :: string
  mb_ii :: nat
  mb_expectedNodes :: "TargetNodeId list"
  mb_expectedEdges :: "TargetEdge list"
  mb_placements :: "NodePlacement list"
  mb_dependences :: "MappedDependence list"
  mb_hasExpectedGraph :: bool

definition mk_ModuloMappingBuilder :: "TargetDFG \<Rightarrow> nat \<Rightarrow> ModuloMappingBuilder result" where
  "mk_ModuloMappingBuilder g ii =
     bindR (mk_ModuloTimeDomain ii) (\<lambda>_.
       Inr \<lparr>mb_targetName = td_targetName g, mb_ii = ii, mb_expectedNodes = sort (map tn_id (td_nodes g)),
            mb_expectedEdges = sort_key te_id (td_edges g), mb_placements = [], mb_dependences = [],
            mb_hasExpectedGraph = True\<rparr>)"

definition mk_UncheckedModuloMappingBuilder :: "string \<Rightarrow> nat \<Rightarrow> ModuloMappingBuilder result" where
  "mk_UncheckedModuloMappingBuilder targetName ii =
     bindR (mk_ModuloTimeDomain ii) (\<lambda>_.
       Inr \<lparr>mb_targetName = targetName, mb_ii = ii, mb_expectedNodes = [], mb_expectedEdges = [],
            mb_placements = [], mb_dependences = [], mb_hasExpectedGraph = False\<rparr>)"

definition mb_place ::
  "TargetNodeId \<Rightarrow> TileCoord \<Rightarrow> ModuloSlot \<Rightarrow> ModuloMappingBuilder \<Rightarrow> ModuloMappingBuilder result" where
  "mb_place i tile slot b =
     bindR (validate (mb_ii b) slot) (\<lambda>_.
       if mb_hasExpectedGraph b \<and> i \<notin> set (mb_expectedNodes b) then Inl Invalid_Argument
       else if \<exists>p \<in> set (mb_placements b). pl_node p = i then Inl Invalid_Argument
       else Inr (b\<lparr>mb_placements := mb_placements b @
                     [\<lparr>pl_node = i, pl_tile = tile, pl_issueSlot = slot\<rparr>]\<rparr>))"

fun action_invalid :: "NetworkDomain \<Rightarrow> TransportAction \<Rightarrow> bool" where
  "action_invalid domain (Action_Link l) = (ls_domain l \<noteq> domain)"
| "action_invalid domain (Action_Hold h) =
     (vh_domain h \<noteq> domain \<or> vh_releaseElapsed h \<le> vh_captureElapsed h)"

definition mb_setTransport ::
  "TargetEdgeId \<Rightarrow> TransportPlan \<Rightarrow> ModuloMappingBuilder \<Rightarrow> ModuloMappingBuilder result" where
  "mb_setTransport i plan b =
     (let found = find_by te_id i (mb_expectedEdges b);
          dep_kind = (if mb_hasExpectedGraph b then te_kind (the found)
                      else if tp_domain plan = Net_Predicate then Kind_Predicate else Kind_Data)
      in if mb_hasExpectedGraph b \<and>
            (case found of None \<Rightarrow> True
             | Some e \<Rightarrow> te_kind e = Kind_Memory \<or> tp_domain plan \<noteq> expectedDomain (te_kind e))
         then Inl Invalid_Argument
         else if tp_edge plan \<noteq> i then Inl Invalid_Argument
         else if \<exists>d \<in> set (mb_dependences b). md_edge d = i then Inl Invalid_Argument
         else if \<exists>a \<in> set (tp_actions plan). action_invalid (tp_domain plan) a then Inl Invalid_Argument
         else Inr (b\<lparr>mb_dependences := mb_dependences b @
                [\<lparr>md_edge = i, md_kind = dep_kind, md_requiredSeparation = tp_requiredSeparation plan,
                  md_transport = Some plan\<rparr>]\<rparr>))"

definition mb_setMemorySeparation ::
  "TargetEdgeId \<Rightarrow> nat \<Rightarrow> ModuloMappingBuilder \<Rightarrow> ModuloMappingBuilder result" where
  "mb_setMemorySeparation i cycles b =
     (if mb_hasExpectedGraph b \<and>
         (case find_by te_id i (mb_expectedEdges b) of None \<Rightarrow> True | Some e \<Rightarrow> te_kind e \<noteq> Kind_Memory)
      then Inl Invalid_Argument
      else if \<exists>d \<in> set (mb_dependences b). md_edge d = i then Inl Invalid_Argument
      else Inr (b\<lparr>mb_dependences := mb_dependences b @
             [\<lparr>md_edge = i, md_kind = Kind_Memory, md_requiredSeparation = cycles, md_transport = None\<rparr>]\<rparr>))"

definition mb_finish :: "ModuloMappingBuilder \<Rightarrow> ModuloMapping result" where
  "mb_finish b =
     (if mb_hasExpectedGraph b \<and>
         (length (mb_placements b) \<noteq> length (mb_expectedNodes b) \<or>
          length (mb_dependences b) \<noteq> length (mb_expectedEdges b)) then Inl Invalid_Argument
      else Inr \<lparr>mm_targetName = mb_targetName b, mm_ii = mb_ii b,
                mm_placements = sort_key pl_node (mb_placements b),
                mm_dependences = sort_key md_edge (mb_dependences b)\<rparr>)"

section \<open>Diagnostics\<close>

datatype MappingDiagnosticCode =
    MMAP_INVALID_TARGET_DFG | MMAP_INVALID_II | MMAP_TARGET_NAME_MISMATCH | MMAP_UNKNOWN_NODE
  | MMAP_UNKNOWN_EDGE | MMAP_NODE_MISSING_PLACEMENT | MMAP_NODE_DUPLICATE_PLACEMENT
  | MMAP_EDGE_MISSING_REALIZATION | MMAP_EDGE_DUPLICATE_REALIZATION | MMAP_TILE_OUT_OF_RANGE
  | MMAP_SLOT_OUT_OF_RANGE | MMAP_OPERATION_UNSUPPORTED_ON_TILE | MMAP_EXECUTION_RESOURCE_MISSING
  | MMAP_FU_RESOURCE_CONFLICT | MMAP_LSU_RESOURCE_CONFLICT | MMAP_DATA_LINK_CONFLICT
  | MMAP_PRED_LINK_CONFLICT | MMAP_OPERATION_SELF_OVERLAP | MMAP_ROUTE_SELF_RESOURCE_CONFLICT
  | MMAP_TRANSPORT_MISSING_FOR_VALUE_EDGE | MMAP_TRANSPORT_DOMAIN_MISMATCH
  | MMAP_TRANSPORT_BAD_START | MMAP_TRANSPORT_BAD_END | MMAP_TRANSPORT_DISCONTINUITY
  | MMAP_LINK_INVALID_TOPOLOGY | MMAP_LINK_TIME_BEFORE_VALUE_READY | MMAP_LINK_TIME_REGRESSION
  | MMAP_LINK_TIME_GAP_WITHOUT_STORAGE | MMAP_HOLD_INVALID_INTERVAL | MMAP_HOLD_WRONG_TILE
  | MMAP_HOLD_BEFORE_VALUE_READY | MMAP_HOLD_DISCONTINUITY | MMAP_REQUIRED_SEPARATION_MISMATCH
  | MMAP_MEMORY_TRANSPORT_PRESENT | MMAP_MEMORY_SEPARATION_TOO_SMALL
  | MMAP_MEMORY_SEPARATION_MISMATCH | MMAP_TARGET_TIMING_MISSING | MMAP_INTERNAL_ERROR

text \<open>Code, node, edge, resource, tile, slot, action index, conflicting owner; every diagnostic of
  the verifier has severity error.\<close>

datatype MappingDiagnostic =
  MDiag MappingDiagnosticCode "TargetNodeId option" "TargetEdgeId option" "ResourceId option"
    "TileCoord option" "ModuloSlot option" "nat option" "ReservationOwner option"

fun conflictCode :: "ModuloResource \<Rightarrow> MappingDiagnosticCode" where
  "conflictCode (FUResource _ _) = MMAP_FU_RESOURCE_CONFLICT"
| "conflictCode (LSUResource _ _) = MMAP_LSU_RESOURCE_CONFLICT"
| "conflictCode (LinkResource domain _ _ _) =
     (if domain = Net_Data then MMAP_DATA_LINK_CONFLICT else MMAP_PRED_LINK_CONFLICT)"

fun resourceTile :: "ModuloResource \<Rightarrow> TileCoord" where
  "resourceTile (FUResource tile _) = tile"
| "resourceTile (LSUResource tile _) = tile"
| "resourceTile (LinkResource _ source _ _) = source"

fun resourceSlot :: "ModuloResource \<Rightarrow> ModuloSlot" where
  "resourceSlot (FUResource _ slot) = slot"
| "resourceSlot (LSUResource _ slot) = slot"
| "resourceSlot (LinkResource _ _ _ slot) = slot"

section \<open>Verification of a transport\<close>

text \<open>The loop state: where and when the value is available, the link resources of the route, whether
  the route is valid so far, and the diagnostics appended.\<close>

record TransportState =
  ts_tile :: TileCoord
  ts_elapsed :: nat
  ts_route :: "ResourceId list"
  ts_valid :: bool
  ts_report :: "MappingDiagnostic list"

definition transport_fail :: "MappingDiagnostic \<Rightarrow> TransportState \<Rightarrow> TransportState" where
  "transport_fail d st = st\<lparr>ts_valid := False, ts_report := ts_report st @ [d]\<rparr>"

definition transportLink ::
  "TargetModel \<Rightarrow> ModuloResourceModel \<Rightarrow> ReservationTable \<Rightarrow> TargetEdgeId \<Rightarrow> NetworkDomain \<Rightarrow> ModuloSlot \<Rightarrow>
   nat \<Rightarrow> nat \<Rightarrow> nat \<Rightarrow> LinkStep \<Rightarrow> TransportState \<Rightarrow> TransportState result" where
  "transportLink t rm table edge domain srcSlot producerReady hop index l st =
     (let bad = (\<lambda>c. Inr (transport_fail
                  (MDiag c None (Some edge) None (Some (ls_source l)) None (Some index) None) st))
      in if index = 0 \<and> ls_elapsed l < producerReady then bad MMAP_LINK_TIME_BEFORE_VALUE_READY
         else if ls_elapsed l < ts_elapsed st then bad MMAP_LINK_TIME_REGRESSION
         else if ls_elapsed l > ts_elapsed st then bad MMAP_LINK_TIME_GAP_WITHOUT_STORAGE
         else if ls_source l \<noteq> ts_tile st then bad MMAP_TRANSPORT_DISCONTINUITY
         else
           bindR (advance (rm_ii rm) srcSlot (ls_elapsed l)) (\<lambda>slot.
           bindR (linkResource rm domain (ls_source l) (ls_direction l) slot) (\<lambda>resource.
             let nextTile = neighbor_in t (ls_source l) (ls_direction l);
                 diag = (\<lambda>c w. MDiag c None (Some edge) resource (Some (ls_source l)) (Some slot)
                                 (Some index) w)
             in case (nextTile, resource) of
                  (Some next, Some r) \<Rightarrow>
                    if r \<in> set (ts_route st)
                    then Inr (transport_fail (diag MMAP_ROUTE_SELF_RESOURCE_CONFLICT None) st)
                    else
                      let st' = st\<lparr>ts_route := ts_route st @ [r]\<rparr> in
                      bindR (isFree table r) (\<lambda>free.
                        if free then Inr (st'\<lparr>ts_tile := next, ts_elapsed := ls_elapsed l + hop\<rparr>)
                        else
                          bindR (res_owner table r) (\<lambda>w.
                          bindR (resource_at rm r) (\<lambda>semantic.
                            Inr (transport_fail (diag (conflictCode semantic) w) st'))))
                | _ \<Rightarrow> Inr (transport_fail (diag MMAP_LINK_INVALID_TOPOLOGY None) st))))"

definition transportHold ::
  "TargetEdgeId \<Rightarrow> nat \<Rightarrow> VirtualHold \<Rightarrow> TransportState \<Rightarrow> TransportState" where
  "transportHold edge index h st =
     (let bad = (\<lambda>c. transport_fail
                  (MDiag c None (Some edge) None (Some (vh_tile h)) None (Some index) None) st)
      in if vh_tile h \<noteq> ts_tile st then bad MMAP_HOLD_WRONG_TILE
         else if vh_captureElapsed h < ts_elapsed st then bad MMAP_HOLD_BEFORE_VALUE_READY
         else if vh_captureElapsed h > ts_elapsed st then bad MMAP_HOLD_DISCONTINUITY
         else if vh_releaseElapsed h \<le> vh_captureElapsed h then bad MMAP_HOLD_INVALID_INTERVAL
         else st\<lparr>ts_elapsed := vh_releaseElapsed h\<rparr>)"

definition transportAction ::
  "TargetModel \<Rightarrow> ModuloResourceModel \<Rightarrow> ReservationTable \<Rightarrow> TargetEdgeId \<Rightarrow> NetworkDomain \<Rightarrow> ModuloSlot \<Rightarrow>
   nat \<Rightarrow> nat \<Rightarrow> TransportState \<Rightarrow> nat \<times> TransportAction \<Rightarrow> TransportState result" where
  "transportAction t rm table edge domain srcSlot producerReady hop st item =
     (case item of (index, action) \<Rightarrow>
        if action_domain action \<noteq> domain then
          Inr (transport_fail (MDiag MMAP_TRANSPORT_DOMAIN_MISMATCH None (Some edge) None None None
                 (Some index) None) st)
        else case action of
          Action_Link l \<Rightarrow> transportLink t rm table edge domain srcSlot producerReady hop index l st
        | Action_Hold h \<Rightarrow> Inr (transportHold edge index h st))"

text \<open>The checks after the loop and the reservation of the route.\<close>

definition transportEnd ::
  "TargetEdge \<Rightarrow> MappedDependence \<Rightarrow> TransportPlan \<Rightarrow> NodePlacement \<Rightarrow> NodePlacement \<Rightarrow>
   ReservationTable \<Rightarrow> TransportState \<Rightarrow> ReservationTable \<times> MappingDiagnostic list" where
  "transportEnd e dep plan src dst table st =
     (if \<not> ts_valid st then (table, ts_report st)
      else if tp_actions plan = [] \<and> pl_tile src = pl_tile dst then
        (table, ts_report st @ [MDiag MMAP_TRANSPORT_BAD_END None (Some (te_id e)) None None None None None])
      else if ts_tile st \<noteq> pl_tile dst then
        (table, ts_report st @ [MDiag MMAP_TRANSPORT_BAD_END (Some (te_dst e)) (Some (te_id e)) None
                                  (Some (ts_tile st)) None None None])
      else if ts_elapsed st \<noteq> tp_requiredSeparation plan \<or>
              md_requiredSeparation dep \<noteq> tp_requiredSeparation plan then
        (table, ts_report st @
           [MDiag MMAP_REQUIRED_SEPARATION_MISMATCH None (Some (te_id e)) None None None None None])
      else if ts_route st \<noteq> [] then
        (case reserve (ts_route st) \<lparr>ro_kind = Owner_Edge, ro_id = te_id e\<rparr> table of
           (table', True) \<Rightarrow> (table', ts_report st)
         | (table', False) \<Rightarrow>
             (table', ts_report st @
                [MDiag MMAP_INTERNAL_ERROR None (Some (te_id e)) None None None None None]))
      else (table, ts_report st))"

definition verifyValueTransport ::
  "TargetDFG \<Rightarrow> TargetModel \<Rightarrow> TargetEdge \<Rightarrow> MappedDependence \<Rightarrow> (TargetNodeId \<rightharpoonup> NodePlacement) \<Rightarrow>
   ModuloResourceModel \<Rightarrow> ReservationTable \<Rightarrow> (ReservationTable \<times> MappingDiagnostic list) result" where
  "verifyValueTransport g t e dep placements rm table =
     (let err = (\<lambda>c n. Inr (table, [MDiag c n (Some (te_id e)) None None None None None])) in
      case md_transport dep of
        None \<Rightarrow> err MMAP_TRANSPORT_MISSING_FOR_VALUE_EDGE None
      | Some plan \<Rightarrow>
          if tp_edge plan \<noteq> te_id e then err MMAP_TRANSPORT_BAD_START None
          else if tp_domain plan \<noteq> expectedDomain (te_kind e) then err MMAP_TRANSPORT_DOMAIN_MISMATCH None
          else case (placements (te_src e), placements (te_dst e)) of
            (Some src, Some dst) \<Rightarrow>
              bindR (tdfg_node g (te_src e)) (\<lambda>producer.
                case tn_producerOutputReadyOffset producer of
                  None \<Rightarrow> err MMAP_TARGET_TIMING_MISSING (Some (te_src e))
                | Some ready \<Rightarrow>
                    let hop = ic_hopLatency (tm_interconnect t) in
                    if hop = 0 then err MMAP_TARGET_TIMING_MISSING None
                    else
                      bindR (foldR (transportAction t rm table (te_id e) (tp_domain plan)
                               (pl_issueSlot src) ready hop)
                              \<lparr>ts_tile = pl_tile src, ts_elapsed = ready, ts_route = [],
                               ts_valid = True, ts_report = []\<rparr>
                              (enumerate 0 (tp_actions plan))) (\<lambda>st.
                        Inr (transportEnd e dep plan src dst table st)))
          | _ \<Rightarrow> Inr (table, []))"

section \<open>Verification of a mapping\<close>

definition sorted_ids :: "('a \<Rightarrow> nat) \<Rightarrow> 'a list \<Rightarrow> nat list" where
  "sorted_ids key xs = sort (remdups (map key xs))"

definition placementEntries :: "ModuloMapping \<Rightarrow> TargetNodeId \<Rightarrow> NodePlacement list" where
  "placementEntries m i = filter (\<lambda>p. pl_node p = i) (mm_placements m)"

definition dependenceEntries :: "ModuloMapping \<Rightarrow> TargetEdgeId \<Rightarrow> MappedDependence list" where
  "dependenceEntries m i = filter (\<lambda>d. md_edge d = i) (mm_dependences m)"

definition hasUniquePlacement :: "ModuloMapping \<Rightarrow> TargetNodeId \<Rightarrow> bool" where
  "hasUniquePlacement m i \<longleftrightarrow> length (placementEntries m i) = 1"

definition hasUniqueDependence :: "ModuloMapping \<Rightarrow> TargetEdgeId \<Rightarrow> bool" where
  "hasUniqueDependence m i \<longleftrightarrow> length (dependenceEntries m i) = 1"

definition verifyCoverage :: "TargetDFG \<Rightarrow> ModuloMapping \<Rightarrow> MappingDiagnostic list" where
  "verifyCoverage g m =
     (let nd = (\<lambda>c i. MDiag c (Some i) None None None None None None);
          ed = (\<lambda>c i. MDiag c None (Some i) None None None None None) in
      concat (map (\<lambda>i.
        report_if (lookupTNode g i = None) (nd MMAP_UNKNOWN_NODE i) @
        report_if (length (placementEntries m i) > 1) (nd MMAP_NODE_DUPLICATE_PLACEMENT i))
        (sorted_ids pl_node (mm_placements m))) @
      concat (map (\<lambda>i.
        report_if (find_by te_id i (td_edges g) = None) (ed MMAP_UNKNOWN_EDGE i) @
        report_if (length (dependenceEntries m i) > 1) (ed MMAP_EDGE_DUPLICATE_REALIZATION i))
        (sorted_ids md_edge (mm_dependences m))) @
      concat (map (\<lambda>i. report_if (\<not> hasUniquePlacement m i) (nd MMAP_NODE_MISSING_PLACEMENT i))
        (sorted_ids tn_id (td_nodes g))) @
      concat (map (\<lambda>i. report_if (\<not> hasUniqueDependence m i) (ed MMAP_EDGE_MISSING_REALIZATION i))
        (sorted_ids te_id (td_edges g))))"

definition placements_of :: "TargetDFG \<Rightarrow> ModuloMapping \<Rightarrow> TargetNodeId \<rightharpoonup> NodePlacement" where
  "placements_of g m i =
     (if lookupTNode g i \<noteq> None \<and> hasUniquePlacement m i then Some (hd (placementEntries m i)) else None)"

text \<open>The search for the first owned resource of a footprint that cannot be reserved.\<close>

fun firstConflict ::
  "ModuloResourceModel \<Rightarrow> ReservationTable \<Rightarrow> TargetNodeId \<Rightarrow> ResourceId list \<Rightarrow>
   MappingDiagnostic list result" where
  "firstConflict rm table i [] = Inr []"
| "firstConflict rm table i (r # rs) =
     bindR (res_owner table r) (\<lambda>w.
       case w of
         None \<Rightarrow> firstConflict rm table i rs
       | Some owner \<Rightarrow>
           bindR (resource_at rm r) (\<lambda>semantic.
             Inr [MDiag (conflictCode semantic) (Some i) None (Some r) (Some (resourceTile semantic))
                    (Some (resourceSlot semantic)) None (Some owner)]))"

definition verifyPlacement ::
  "TargetDFG \<Rightarrow> TargetModel \<Rightarrow> ModuloMapping \<Rightarrow> ModuloResourceModel \<Rightarrow>
   ReservationTable \<times> MappingDiagnostic list \<Rightarrow> TargetNodeId \<Rightarrow>
   (ReservationTable \<times> MappingDiagnostic list) result" where
  "verifyPlacement g t m rm st i =
     (case (st, lookupTNode g i, placements_of g m i) of
        ((table, ds), Some n, Some p) \<Rightarrow>
          let diag = (\<lambda>c. MDiag c (Some i) None None (Some (pl_tile p)) (Some (pl_issueSlot p)) None None) in
          if tile_row (pl_tile p) \<ge> arr_rows (tm_array t) \<or> tile_col (pl_tile p) \<ge> arr_cols (tm_array t)
          then Inr (table, ds @ [diag MMAP_TILE_OUT_OF_RANGE])
          else if pl_issueSlot p \<ge> mm_ii m then Inr (table, ds @ [diag MMAP_SLOT_OUT_OF_RANGE])
          else if \<not> supportsOperation rm (pl_tile p) n then
            Inr (table, ds @ [diag (case findOperation t (tn_operation n) of
                   Some d \<Rightarrow> if op_executionClass d = Class_LSU then MMAP_OPERATION_UNSUPPORTED_ON_TILE
                             else MMAP_EXECUTION_RESOURCE_MISSING
                 | None \<Rightarrow> MMAP_EXECUTION_RESOURCE_MISSING)])
          else (case operationFootprint rm n (pl_tile p) (pl_issueSlot p) of
              Inl Invalid_Argument \<Rightarrow>
                Inr (table, ds @ [diag (case findOperation t (tn_operation n) of
                   Some d \<Rightarrow> if op_issueOccupancy d > mm_ii m then MMAP_OPERATION_SELF_OVERLAP
                             else MMAP_EXECUTION_RESOURCE_MISSING
                 | None \<Rightarrow> MMAP_EXECUTION_RESOURCE_MISSING)])
            | Inl e \<Rightarrow> Inl e
            | Inr footprint \<Rightarrow>
                if \<not> canReserve table footprint then
                  bindR (firstConflict rm table i footprint) (\<lambda>ds'. Inr (table, ds @ ds'))
                else (case reserve footprint \<lparr>ro_kind = Owner_Node, ro_id = i\<rparr> table of
                    (table', True) \<Rightarrow> Inr (table', ds)
                  | (table', False) \<Rightarrow>
                      Inr (table', ds @ [MDiag MMAP_INTERNAL_ERROR (Some i) None None None None None None])))
      | ((table, ds), _, _) \<Rightarrow> Inr (table, ds))"

definition verifyDependence ::
  "TargetDFG \<Rightarrow> TargetModel \<Rightarrow> ModuloMapping \<Rightarrow> ModuloResourceModel \<Rightarrow>
   ReservationTable \<times> MappingDiagnostic list \<Rightarrow> TargetEdgeId \<Rightarrow>
   (ReservationTable \<times> MappingDiagnostic list) result" where
  "verifyDependence g t m rm st i =
     (case (st, find_by te_id i (td_edges g), dependenceEntries m i) of
        ((table, ds), Some e, [dep]) \<Rightarrow>
          let diag = (\<lambda>c. MDiag c None (Some i) None None None None None) in
          if md_kind dep \<noteq> te_kind e then Inr (table, ds @ [diag MMAP_TRANSPORT_DOMAIN_MISMATCH])
          else (case te_info e of
              MemoryEdgeInfo k \<Rightarrow>
                if md_transport dep \<noteq> None then Inr (table, ds @ [diag MMAP_MEMORY_TRANSPORT_PRESENT])
                else Inr (table, ds @
                  (if md_requiredSeparation dep < memoryDependenceSeparation t k
                   then [diag MMAP_MEMORY_SEPARATION_TOO_SMALL]
                   else report_if (md_requiredSeparation dep \<noteq> memoryDependenceSeparation t k)
                          (diag MMAP_MEMORY_SEPARATION_MISMATCH)))
            | _ \<Rightarrow>
                if hasUniquePlacement m (te_src e) \<and> hasUniquePlacement m (te_dst e) then
                  bindR (verifyValueTransport g t e dep (placements_of g m) rm table) (\<lambda>(table', ds').
                    Inr (table', ds @ ds'))
                else Inr (table, ds))
      | ((table, ds), _, _) \<Rightarrow> Inr (table, ds))"

definition mapping_verify ::
  "TargetDFG \<Rightarrow> TargetModel \<Rightarrow> ModuloMapping \<Rightarrow> MappingDiagnostic list result" where
  "mapping_verify g t m =
     (let only = (\<lambda>c. Inr [MDiag c None None None None None None None]) in
      bindR (tdfg_verify g t None) (\<lambda>targetReport.
        if targetReport \<noteq> [] then only MMAP_INVALID_TARGET_DFG
        else if td_targetName g \<noteq> tm_name t then only MMAP_INVALID_TARGET_DFG
        else if mm_ii m = 0 then only MMAP_INVALID_II
        else if mm_targetName m \<noteq> tm_name t then only MMAP_TARGET_NAME_MISMATCH
        else
          bindR (mk_ModuloResourceModel t (mm_ii m)) (\<lambda>rm.
          bindR (foldR (verifyPlacement g t m rm) (mk_ReservationTable rm, verifyCoverage g m)
                  (sorted_ids tn_id (td_nodes g))) (\<lambda>st.
          bindR (foldR (verifyDependence g t m rm) st (sorted_ids te_id (td_edges g))) (\<lambda>(_, ds).
            Inr ds)))))"

end
