(* ===== verification/Example_Mapping.thy ===== *)
theory Example_Mapping
  imports Target_Legalizer Mapping_Model
begin

text \<open>
  The concrete mapping the witnesses evaluate: the legalised example graph on the 1 x 2 array with
  initiation interval 2.  The value of node 0 crosses the link to the east, and the value node 1
  sends itself is held for one cycle.
\<close>

definition demo_tdfg :: TargetDFG where
  "demo_tdfg = the (case legalize demo_dfg demo_target of Inl _ \<Rightarrow> None | Inr r \<Rightarrow> lr_dfg r)"

definition demo_tile :: "nat \<Rightarrow> TileCoord" where
  "demo_tile c = \<lparr>tile_row = 0, tile_col = c\<rparr>"

definition demo_route :: TransportPlan where
  "demo_route = \<lparr>tp_edge = 0, tp_domain = Net_Data,
     tp_actions = [Action_Link \<lparr>ls_domain = Net_Data, ls_source = demo_tile 0, ls_direction = East, ls_elapsed = 1\<rparr>],
     tp_requiredSeparation = 2\<rparr>"

definition demo_hold :: TransportPlan where
  "demo_hold = \<lparr>tp_edge = 1, tp_domain = Net_Data,
     tp_actions = [Action_Hold \<lparr>vh_domain = Net_Data, vh_tile = demo_tile 1, vh_captureElapsed = 1, vh_releaseElapsed = 2\<rparr>],
     tp_requiredSeparation = 2\<rparr>"

definition demo_mapping :: ModuloMapping where
  "demo_mapping = \<lparr>mm_targetName = ''demo'', mm_ii = 2,
     mm_placements = [\<lparr>pl_node = 0, pl_tile = demo_tile 0, pl_issueSlot = 0\<rparr>,
                      \<lparr>pl_node = 1, pl_tile = demo_tile 1, pl_issueSlot = 1\<rparr>],
     mm_dependences = [\<lparr>md_edge = 0, md_kind = Kind_Data, md_requiredSeparation = 2, md_transport = Some demo_route\<rparr>,
                       \<lparr>md_edge = 1, md_kind = Kind_Data, md_requiredSeparation = 2, md_transport = Some demo_hold\<rparr>]\<rparr>"

lemma demo_mapping_accepted: "mapping_verify demo_tdfg demo_target demo_mapping = Inr []"
  by code_simp

lemma demo_tdfg_inv: "tdfg_inv demo_tdfg"
proof -
  have "dfg_verify demo_dfg = []" by code_simp
  then have "well_formed demo_dfg" by (simp add: dfg_verify_Nil)
  with legalize_materialises [of demo_dfg demo_target] demo_dfg_facts show ?thesis
    by (auto simp: demo_tdfg_def)
qed

text \<open>The same graph squeezed into initiation interval 1: the modulo resources are free, but the value
  node 1 sends itself cannot arrive in time.\<close>

definition demo_tight :: ModuloMapping where
  "demo_tight = demo_mapping\<lparr>mm_ii := 1,
     mm_placements := [\<lparr>pl_node = 0, pl_tile = demo_tile 0, pl_issueSlot = 0\<rparr>,
                       \<lparr>pl_node = 1, pl_tile = demo_tile 1, pl_issueSlot = 0\<rparr>]\<rparr>"

end
