(* ===== verification/Mapping_Sound.thy ===== *)
theory Mapping_Sound
  imports Example_Mapping
begin

text \<open>
  What an accepted modulo mapping guarantees.  \<open>valid_mapping\<close> states it without the verifier's
  loops: placements and realisations are one to one with nodes and edges, every operation sits on a
  tile that supports it, every value travels along an unbroken path from producer to consumer whose
  arrival time is the separation of the dependence, and all modulo resources used by all nodes and
  routes together are pairwise different.  From this follows that in the running pipeline, at every
  cycle and over all overlapping iterations, no unit and no link is used twice.
\<close>

section \<open>The specification\<close>

text \<open>A value that is on a tile at a time, moved by links and holds.\<close>

inductive transport_path ::
  "TargetModel \<Rightarrow> NetworkDomain \<Rightarrow> TileCoord \<times> nat \<Rightarrow> TransportAction list \<Rightarrow> TileCoord \<times> nat \<Rightarrow> bool"
  for t domain where
  arrived: "transport_path t domain p [] p"
| link: "ls_domain l = domain \<Longrightarrow> ls_source l = tile \<Longrightarrow> ls_elapsed l = time \<Longrightarrow>
    neighbor_in t tile (ls_direction l) = Some next \<Longrightarrow>
    transport_path t domain (next, time + ic_hopLatency (tm_interconnect t)) as q \<Longrightarrow>
    transport_path t domain (tile, time) (Action_Link l # as) q"
| hold: "vh_domain h = domain \<Longrightarrow> vh_tile h = tile \<Longrightarrow> vh_captureElapsed h = time \<Longrightarrow>
    time < vh_releaseElapsed h \<Longrightarrow> transport_path t domain (tile, vh_releaseElapsed h) as q \<Longrightarrow>
    transport_path t domain (tile, time) (Action_Hold h # as) q"

inductive_cases transport_path_NilE: "transport_path t domain p [] q"

lemma transport_path_time: "transport_path t domain p as q \<Longrightarrow> snd p \<le> snd q"
  by (induction rule: transport_path.induct) auto

text \<open>Every action of a path takes time.\<close>

lemma transport_path_strict:
  assumes "transport_path t domain p as q" "as \<noteq> []" "0 < ic_hopLatency (tm_interconnect t)"
  shows "snd p < snd q"
  using assms(1)
proof cases
  case arrived
  with assms(2) show ?thesis by simp
next
  case (link l tile time there as')
  with transport_path_time [OF link(7)] assms(3) show ?thesis by simp
next
  case (hold h tile time as')
  with transport_path_time [OF hold(7)] show ?thesis by simp
qed

text \<open>The resources an operation and a route occupy.\<close>

definition unit_resource :: "TargetOperationDesc \<Rightarrow> TileCoord \<Rightarrow> ModuloSlot \<Rightarrow> ModuloResource" where
  "unit_resource d tile slot =
     (if op_executionClass d = Class_FU then FUResource tile slot else LSUResource tile slot)"

definition op_resources :: "TargetOperationDesc \<Rightarrow> nat \<Rightarrow> NodePlacement \<Rightarrow> ModuloResource list" where
  "op_resources d ii p =
     map (\<lambda>k. unit_resource d (pl_tile p) ((pl_issueSlot p + k) mod ii)) [0..<op_issueOccupancy d]"

fun link_resources :: "NetworkDomain \<Rightarrow> nat \<Rightarrow> ModuloSlot \<Rightarrow> TransportAction list \<Rightarrow> ModuloResource list" where
  "link_resources domain ii slot [] = []"
| "link_resources domain ii slot (Action_Link l # as) =
     LinkResource domain (ls_source l) (ls_direction l) ((slot + ls_elapsed l) mod ii) #
     link_resources domain ii slot as"
| "link_resources domain ii slot (Action_Hold h # as) = link_resources domain ii slot as"

definition node_uses :: "TargetModel \<Rightarrow> ModuloMapping \<Rightarrow> TargetNode \<Rightarrow> ModuloResource list" where
  "node_uses t m n =
     (case (findOperation t (tn_operation n), find_by pl_node (tn_id n) (mm_placements m)) of
        (Some d, Some p) \<Rightarrow> op_resources d (mm_ii m) p
      | _ \<Rightarrow> [])"

definition edge_uses :: "ModuloMapping \<Rightarrow> TargetEdge \<Rightarrow> ModuloResource list" where
  "edge_uses m e =
     (case (find_by md_edge (te_id e) (mm_dependences m), find_by pl_node (te_src e) (mm_placements m)) of
        (Some dep, Some p) \<Rightarrow>
          (case md_transport dep of
             None \<Rightarrow> []
           | Some plan \<Rightarrow> link_resources (tp_domain plan) (mm_ii m) (pl_issueSlot p) (tp_actions plan))
      | _ \<Rightarrow> [])"

definition placed_ok :: "TargetModel \<Rightarrow> ModuloMapping \<Rightarrow> TargetNode \<Rightarrow> bool" where
  "placed_ok t m n \<longleftrightarrow>
     (\<exists>p d. find_by pl_node (tn_id n) (mm_placements m) = Some p \<and>
        findOperation t (tn_operation n) = Some d \<and> 0 < op_issueOccupancy d \<and>
        pl_issueSlot p < mm_ii m \<and>
        tileSupportsOperation t (tile_row (pl_tile p)) (tile_col (pl_tile p)) (op_id d))"

definition realised_ok :: "TargetDFG \<Rightarrow> TargetModel \<Rightarrow> ModuloMapping \<Rightarrow> TargetEdge \<Rightarrow> bool" where
  "realised_ok g t m e \<longleftrightarrow>
     (\<exists>dep. find_by md_edge (te_id e) (mm_dependences m) = Some dep \<and> md_kind dep = te_kind e \<and>
        (case te_info e of
           MemoryEdgeInfo k \<Rightarrow>
             md_transport dep = None \<and> md_requiredSeparation dep = memoryDependenceSeparation t k
         | _ \<Rightarrow>
             (\<exists>plan src dst producer ready.
                md_transport dep = Some plan \<and> tp_domain plan = expectedDomain (te_kind e) \<and>
                find_by pl_node (te_src e) (mm_placements m) = Some src \<and>
                find_by pl_node (te_dst e) (mm_placements m) = Some dst \<and>
                tdfg_node g (te_src e) = Inr producer \<and>
                tn_producerOutputReadyOffset producer = Some ready \<and>
                (tp_actions plan = [] \<longrightarrow> pl_tile src \<noteq> pl_tile dst) \<and>
                0 < ic_hopLatency (tm_interconnect t) \<and>
                transport_path t (tp_domain plan) (pl_tile src, ready) (tp_actions plan)
                  (pl_tile dst, md_requiredSeparation dep))))"

definition valid_mapping :: "TargetDFG \<Rightarrow> TargetModel \<Rightarrow> ModuloMapping \<Rightarrow> bool" where
  "valid_mapping g t m \<longleftrightarrow>
     0 < mm_ii m \<and> td_targetName g = tm_name t \<and> mm_targetName m = tm_name t \<and>
     mset (map pl_node (mm_placements m)) = mset (map tn_id (td_nodes g)) \<and>
     mset (map md_edge (mm_dependences m)) = mset (map te_id (td_edges g)) \<and>
     (\<forall>n \<in> set (td_nodes g). placed_ok t m n) \<and>
     (\<forall>e \<in> set (td_edges g). realised_ok g t m e) \<and>
     distinct (concat (map (node_uses t m) (td_nodes g)) @ concat (map (edge_uses m) (td_edges g)))"

section \<open>Footprints\<close>

definition the_id :: "ModuloResourceModel \<Rightarrow> ModuloResource \<Rightarrow> ResourceId" where
  "the_id rm r = projr (findResource rm r)"

lemma advance_eq: "advance ii slot k = Inr s \<longleftrightarrow> slot < ii \<and> s = (slot + k) mod ii"
  by (auto simp: advance_def validate_def normalize_def bindR_eq_Inr mod_add_right_eq)

lemma fuResource_find: "fuResource rm tile s = Inr i \<Longrightarrow> findResource rm (FUResource tile s) = Inr i"
  by (simp add: fuResource_def bindR_eq_Inr split: if_splits)

lemma lsuResource_find:
  "lsuResource rm tile s = Inr (Some i) \<Longrightarrow> findResource rm (LSUResource tile s) = Inr i"
  by (auto simp: lsuResource_def bindR_eq_Inr split: if_splits)

lemma footprintStep_eq:
  assumes "footprintStep rm d tile slot fp k = Inr fp'"
  shows "fp' = fp @ [the_id rm (unit_resource d tile ((slot + k) mod rm_ii rm))]"
proof -
  from assms obtain s i where s: "advance (rm_ii rm) slot k = Inr s"
    and i: "(if op_executionClass d = Class_FU then fuResource rm tile s
            else bindR (lsuResource rm tile s) (\<lambda>r.
              case r of None \<Rightarrow> Inl Bad_Optional_Access | Some i \<Rightarrow> Inr i)) = Inr i"
    and fp': "fp' = fp @ [i]"
    unfolding footprintStep_def bindR_eq_Inr by (metis Inl_Inr_False Inr_inject)
  have "findResource rm (unit_resource d tile s) = Inr i"
  proof (cases "op_executionClass d = Class_FU")
    case True
    with i show ?thesis by (simp add: unit_resource_def fuResource_find)
  next
    case False
    with i obtain r where "lsuResource rm tile s = Inr (Some i)"
      by (auto simp: bindR_eq_Inr split: option.splits)
    with False show ?thesis by (simp add: unit_resource_def lsuResource_find)
  qed
  with s fp' show ?thesis by (simp add: the_id_def advance_eq)
qed

lemma foldR_footprint:
  "foldR (footprintStep rm d tile slot) fp ks = Inr fp' \<Longrightarrow>
   fp' = fp @ map (\<lambda>k. the_id rm (unit_resource d tile ((slot + k) mod rm_ii rm))) ks"
proof (induction ks arbitrary: fp)
  case (Cons k ks)
  from Cons.prems obtain fp1 where 1: "footprintStep rm d tile slot fp k = Inr fp1"
      "foldR (footprintStep rm d tile slot) fp1 ks = Inr fp'" by (auto simp: bindR_eq_Inr)
  from Cons.IH [OF 1(2)] footprintStep_eq [OF 1(1)] show ?case by simp
qed simp

lemma operationFootprint_eq:
  assumes "operationFootprint rm n (pl_tile p) (pl_issueSlot p) = Inr fp"
  shows "\<exists>d. findOperation (rm_target rm) (tn_operation n) = Some d \<and> 0 < op_issueOccupancy d \<and>
    tileSupportsOperation (rm_target rm) (tile_row (pl_tile p)) (tile_col (pl_tile p)) (op_id d) \<and>
    fp = map (the_id rm) (op_resources d (rm_ii rm) p)"
  using assms
  by (auto simp: operationFootprint_def supportsOperation_def op_resources_def
      split: option.splits if_splits dest!: foldR_footprint)

section \<open>Transports\<close>

lemma transport_fail_sel [simp]:
  "ts_valid (transport_fail d st) = False" "ts_report (transport_fail d st) = ts_report st @ [d]"
  by (simp_all add: transport_fail_def)

lemma transportLink_cases:
  assumes "transportLink t rm table e domain slot ready hop k l st = Inr st'"
  shows "(\<exists>d st0. st' = transport_fail d st0 \<and> ts_report st0 = ts_report st) \<or>
    (ls_source l = ts_tile st \<and> ls_elapsed l = ts_elapsed st \<and>
     (\<exists>next r. neighbor_in t (ls_source l) (ls_direction l) = Some next \<and>
        findResource rm (LinkResource domain (ls_source l) (ls_direction l)
          ((slot + ls_elapsed l) mod rm_ii rm)) = Inr r \<and>
        st' = st\<lparr>ts_route := ts_route st @ [r], ts_tile := next, ts_elapsed := ls_elapsed l + hop\<rparr>))"
proof (cases "ls_elapsed l = ts_elapsed st \<and> ls_source l = ts_tile st \<and> \<not> (k = 0 \<and> ls_elapsed l < ready)")
  case False
  with assms show ?thesis by (auto simp: transportLink_def Let_def split: if_splits)
next
  case True
  with assms obtain s res where s: "advance (rm_ii rm) slot (ls_elapsed l) = Inr s"
    and res: "linkResource rm domain (ls_source l) (ls_direction l) s = Inr res"
    by (auto simp: transportLink_def bindR_eq_Inr split: if_splits)
  show ?thesis
  proof (cases "neighbor_in t (ls_source l) (ls_direction l)")
    case None
    with True assms s res show ?thesis by (auto simp: transportLink_def Let_def split: if_splits)
  next
    case (Some nt)
    show ?thesis
    proof (cases res)
      case None
      with True assms s res Some show ?thesis
        by (auto simp: transportLink_def Let_def split: if_splits)
    next
      case (Some r)
      have f: "findResource rm (LinkResource domain (ls_source l) (ls_direction l)
          ((slot + ls_elapsed l) mod rm_ii rm)) = Inr r"
        using res s Some by (auto simp: linkResource_def advance_eq bindR_eq_Inr split: if_splits sum.splits)
      show ?thesis
        using True assms s res Some f \<open>neighbor_in t (ls_source l) (ls_direction l) = Some nt\<close>
        by (auto simp: transportLink_def Let_def bindR_eq_Inr split: if_splits)
           (metis TransportState.select_convs(5) TransportState.surjective TransportState.update_convs(3))+
    qed
  qed
qed

lemma transportHold_cases:
  "(\<exists>d. transportHold e k h st = transport_fail d st) \<or>
   (vh_tile h = ts_tile st \<and> vh_captureElapsed h = ts_elapsed st \<and>
    ts_elapsed st < vh_releaseElapsed h \<and> transportHold e k h st = st\<lparr>ts_elapsed := vh_releaseElapsed h\<rparr>)"
  by (auto simp: transportHold_def Let_def)

lemma transportAction_cases:
  assumes "transportAction t rm table e domain slot ready (ic_hopLatency (tm_interconnect t)) st (k, a) = Inr st'"
  shows "(\<exists>d st0. st' = transport_fail d st0 \<and> ts_report st0 = ts_report st) \<or>
    (ts_valid st' = ts_valid st \<and> ts_report st' = ts_report st \<and>
     ts_route st' = ts_route st @ map (the_id rm) (link_resources domain (rm_ii rm) slot [a]) \<and>
     (\<forall>as q. transport_path t domain (ts_tile st', ts_elapsed st') as q \<longrightarrow>
             transport_path t domain (ts_tile st, ts_elapsed st) (a # as) q))"
proof (cases "action_domain a = domain")
  case False
  with assms show ?thesis by (auto simp: transportAction_def)
next
  case True
  show ?thesis
  proof (cases a)
    case (Action_Link l)
    with assms True have "transportLink t rm table e domain slot ready (ic_hopLatency (tm_interconnect t)) k l st = Inr st'"
      by (simp add: transportAction_def)
    from transportLink_cases [OF this] Action_Link True show ?thesis
      by (auto simp: the_id_def intro!: transport_path.link)
  next
    case (Action_Hold h)
    with assms True have "st' = transportHold e k h st" by (simp add: transportAction_def)
    with transportHold_cases [of e k h st] Action_Hold True show ?thesis
      by (auto intro!: transport_path.hold)
  qed
qed

lemma transport_loop:
  assumes "foldR (transportAction t rm table e domain slot ready (ic_hopLatency (tm_interconnect t))) st
             (enumerate k as) = Inr st'"
    and "ts_valid st \<longleftrightarrow> ts_report st = []" and "ts_report st' = []"
  shows "ts_report st = [] \<and> ts_valid st' \<and>
    transport_path t domain (ts_tile st, ts_elapsed st) as (ts_tile st', ts_elapsed st') \<and>
    ts_route st' = ts_route st @ map (the_id rm) (link_resources domain (rm_ii rm) slot as)"
  using assms
proof (induction as arbitrary: st k)
  case Nil
  then show ?case by (auto intro: transport_path.arrived)
next
  case (Cons a as)
  from Cons.prems(1) obtain st1 where
    1: "transportAction t rm table e domain slot ready (ic_hopLatency (tm_interconnect t)) st (k, a) = Inr st1"
       "foldR (transportAction t rm table e domain slot ready (ic_hopLatency (tm_interconnect t))) st1
          (enumerate (Suc k) as) = Inr st'"
    by (auto simp: bindR_eq_Inr)
  have "ts_valid st1 \<longleftrightarrow> ts_report st1 = []"
    using transportAction_cases [OF 1(1)] Cons.prems(2) by auto
  note ih = Cons.IH [OF 1(2) this Cons.prems(3)]
  with transportAction_cases [OF 1(1)] Cons.prems(2)
  have "ts_report st = []" "ts_route st1 = ts_route st @ map (the_id rm) (link_resources domain (rm_ii rm) slot [a])"
    "transport_path t domain (ts_tile st, ts_elapsed st) (a # as) (ts_tile st', ts_elapsed st')"
    by auto
  with ih show ?case by (cases a) auto
qed

section \<open>Silent iterations\<close>

lemma find_by_filter: "find_by key k xs = (case filter (\<lambda>x. key x = k) xs of [] \<Rightarrow> None | x # _ \<Rightarrow> Some x)"
  by (induction xs) auto

lemma unique_placement:
  "hasUniquePlacement m i \<Longrightarrow> find_by pl_node i (mm_placements m) = Some (hd (placementEntries m i))"
  by (auto simp: hasUniquePlacement_def placementEntries_def find_by_filter length_Suc_conv)

lemma placements_of_Some:
  "placements_of g m i = Some p \<Longrightarrow> find_by pl_node i (mm_placements m) = Some p"
  by (auto simp: placements_of_def unique_placement split: if_splits)

lemma dependenceEntries_single:
  "dependenceEntries m i = [dep] \<Longrightarrow> find_by md_edge i (mm_dependences m) = Some dep"
  by (simp add: dependenceEntries_def find_by_filter)

lemma firstConflict_Nil:
  "firstConflict rm table i rs = Inr [] \<Longrightarrow> \<forall>r \<in> set rs. r < length table \<and> table ! r = None"
  by (induction rs) (auto simp: bindR_eq_Inr res_owner_def split: option.splits if_splits)

lemma footprint_distinct:
  "foldR (footprintStep rm d tile slot) fp ks = Inr fp' \<Longrightarrow> distinct fp \<Longrightarrow> distinct fp'"
proof (induction ks arbitrary: fp)
  case (Cons k ks)
  from Cons.prems obtain fp1 where 1: "footprintStep rm d tile slot fp k = Inr fp1"
      "foldR (footprintStep rm d tile slot) fp1 ks = Inr fp'" by (auto simp: bindR_eq_Inr)
  from 1(1) have "\<exists>i. fp1 = fp @ [i] \<and> i \<notin> set fp"
    unfolding footprintStep_def bindR_eq_Inr by (metis Inl_Inr_False Inr_inject)
  with Cons.IH [OF 1(2)] Cons.prems(2) show ?case by auto
qed simp

lemma operationFootprint_distinct: "operationFootprint rm n tile slot = Inr fp \<Longrightarrow> distinct fp"
  by (auto simp: operationFootprint_def split: option.splits if_splits dest: footprint_distinct)

lemma verifyPlacement_grows:
  "verifyPlacement g t m rm (T, ds) i = Inr (T', ds') \<Longrightarrow> \<exists>y. ds' = ds @ y"
  by (auto simp: verifyPlacement_def Let_def bindR_eq_Inr
      split: option.splits if_splits sum.splits exn.splits prod.splits bool.splits)

lemma verifyPlacement_silent:
  assumes st: "verifyPlacement g t m rm (T, []) i = Inr (T', [])"
    and n: "lookupTNode g i = Some n" and u: "hasUniquePlacement m i"
    and rm: "rm_target rm = t" "rm_ii rm = mm_ii m"
  shows "placed_ok t m n \<and>
    reserve (map (the_id rm) (node_uses t m n)) \<lparr>ro_kind = Owner_Node, ro_id = i\<rparr> T = (T', True)"
proof -
  define p where "p = hd (placementEntries m i)"
  have p: "placements_of g m i = Some p" using n u by (simp add: placements_of_def p_def)
  note fp = placements_of_Some [OF p]
  have ni: "tn_id n = i" using find_by_SomeD [OF n] by simp
  obtain f where f: "operationFootprint rm n (pl_tile p) (pl_issueSlot p) = Inr f" and slot: "pl_issueSlot p < mm_ii m"
    using st n p by (auto simp: verifyPlacement_def Let_def split: if_splits sum.splits exn.splits)
  obtain d where d: "findOperation t (tn_operation n) = Some d" "0 < op_issueOccupancy d"
      "tileSupportsOperation t (tile_row (pl_tile p)) (tile_col (pl_tile p)) (op_id d)"
      "f = map (the_id rm) (op_resources d (mm_ii m) p)"
    using operationFootprint_eq [OF f] rm by auto
  have uses: "node_uses t m n = op_resources d (mm_ii m) p" using d(1) fp ni by (simp add: node_uses_def)
  have can: "canReserve T f"
  proof (rule ccontr)
    assume no: "\<not> canReserve T f"
    with st n p f have "firstConflict rm T i f = Inr []"
      by (auto simp: verifyPlacement_def Let_def bindR_eq_Inr split: if_splits)
    with operationFootprint_distinct [OF f] firstConflict_Nil have "canReserve T f"
      by (auto simp: canReserve_iff)
    with no show False by simp
  qed
  with st n p f have "reserve f \<lparr>ro_kind = Owner_Node, ro_id = i\<rparr> T = (T', True)"
    by (auto simp: verifyPlacement_def Let_def split: if_splits prod.splits bool.splits)
  with d fp ni slot uses show ?thesis by (auto simp: placed_ok_def)
qed

lemma verifyDependence_grows:
  "verifyDependence g t m rm (T, ds) i = Inr (T', ds') \<Longrightarrow> \<exists>y. ds' = ds @ y"
  by (auto simp: verifyDependence_def Let_def bindR_eq_Inr
      split: option.splits if_splits sum.splits list.splits EdgeInfo.splits)

lemma transportEnd_silent:
  assumes "transportEnd e dep plan src dst T st = (T', [])" and "ts_valid st \<longleftrightarrow> ts_report st = []"
  shows "ts_valid st \<and> ts_report st = [] \<and> (tp_actions plan = [] \<longrightarrow> pl_tile src \<noteq> pl_tile dst) \<and>
    ts_tile st = pl_tile dst \<and> ts_elapsed st = md_requiredSeparation dep \<and>
    (if ts_route st = [] then T' = T
     else reserve (ts_route st) \<lparr>ro_kind = Owner_Edge, ro_id = te_id e\<rparr> T = (T', True))"
  using assms by (auto simp: transportEnd_def split: if_splits prod.splits bool.splits)

lemma transport_loop_inv:
  assumes "foldR (transportAction t rm table e domain slot ready (ic_hopLatency (tm_interconnect t))) st xs = Inr st'"
    and "ts_valid st \<longleftrightarrow> ts_report st = []"
  shows "ts_valid st' \<longleftrightarrow> ts_report st' = []"
proof (rule foldR_invariant [where I = "\<lambda>st. ts_valid st \<longleftrightarrow> ts_report st = []", OF assms])
  fix s x s'
  assume "ts_valid s \<longleftrightarrow> ts_report s = []"
    and "transportAction t rm table e domain slot ready (ic_hopLatency (tm_interconnect t)) s x = Inr s'"
  then show "ts_valid s' \<longleftrightarrow> ts_report s' = []" by (cases x) (auto dest!: transportAction_cases)
qed

lemma verifyValueTransport_silent:
  assumes v: "verifyValueTransport g t e dep ps rm T = Inr (T', [])"
    and src: "ps (te_src e) = Some src" and dst: "ps (te_dst e) = Some dst"
  shows "\<exists>plan producer ready.
    md_transport dep = Some plan \<and> tp_domain plan = expectedDomain (te_kind e) \<and>
    tdfg_node g (te_src e) = Inr producer \<and> tn_producerOutputReadyOffset producer = Some ready \<and>
    (tp_actions plan = [] \<longrightarrow> pl_tile src \<noteq> pl_tile dst) \<and> 0 < ic_hopLatency (tm_interconnect t) \<and>
    transport_path t (tp_domain plan) (pl_tile src, ready) (tp_actions plan)
      (pl_tile dst, md_requiredSeparation dep) \<and>
    (let rs = map (the_id rm) (link_resources (tp_domain plan) (rm_ii rm) (pl_issueSlot src) (tp_actions plan))
     in if rs = [] then T' = T else reserve rs \<lparr>ro_kind = Owner_Edge, ro_id = te_id e\<rparr> T = (T', True))"
proof -
  let ?hop = "ic_hopLatency (tm_interconnect t)"
  from v obtain plan where plan: "md_transport dep = Some plan" "tp_domain plan = expectedDomain (te_kind e)"
    by (auto simp: verifyValueTransport_def Let_def split: option.splits if_splits)
  from v src dst plan obtain producer ready st where
    p: "tdfg_node g (te_src e) = Inr producer" "tn_producerOutputReadyOffset producer = Some ready" "0 < ?hop"
    and loop: "foldR (transportAction t rm T (te_id e) (tp_domain plan) (pl_issueSlot src) ready ?hop)
      \<lparr>ts_tile = pl_tile src, ts_elapsed = ready, ts_route = [], ts_valid = True, ts_report = []\<rparr>
      (enumerate 0 (tp_actions plan)) = Inr st"
    and fin: "transportEnd e dep plan src dst T st = (T', [])"
    by (auto simp: verifyValueTransport_def Let_def bindR_eq_Inr split: option.splits if_splits)
  have "ts_valid st \<longleftrightarrow> ts_report st = []" by (rule transport_loop_inv [OF loop]) simp
  note e = transportEnd_silent [OF fin this]
  from e transport_loop [OF loop] have
    "transport_path t (tp_domain plan) (pl_tile src, ready) (tp_actions plan) (pl_tile dst, md_requiredSeparation dep)"
    "ts_route st = map (the_id rm) (link_resources (tp_domain plan) (rm_ii rm) (pl_issueSlot src) (tp_actions plan))"
    by auto
  with e plan p show ?thesis by (auto simp: Let_def)
qed

lemma verifyDependence_silent:
  assumes v: "verifyDependence g t m rm (T, []) i = Inr (T', [])"
    and e: "find_by te_id i (td_edges g) = Some e" and u: "hasUniqueDependence m i"
    and ends: "placements_of g m (te_src e) = Some src" "placements_of g m (te_dst e) = Some dst"
    and uniq: "hasUniquePlacement m (te_src e)" "hasUniquePlacement m (te_dst e)"
    and rm: "rm_ii rm = mm_ii m"
  shows "realised_ok g t m e \<and>
    (let rs = map (the_id rm) (edge_uses m e)
     in if rs = [] then T' = T else reserve rs \<lparr>ro_kind = Owner_Edge, ro_id = te_id e\<rparr> T = (T', True))"
proof -
  obtain dep where dep: "dependenceEntries m i = [dep]"
    using u by (auto simp: hasUniqueDependence_def length_Suc_conv)
  note fd = dependenceEntries_single [OF dep]
  note fs = placements_of_Some [OF ends(1)] and ft = placements_of_Some [OF ends(2)]
  have ei: "te_id e = i" using find_by_SomeD [OF e] by simp
  have kind: "md_kind dep = te_kind e"
    using v e dep by (auto simp: verifyDependence_def Let_def split: if_splits)
  show ?thesis
  proof (cases "\<exists>k. te_info e = MemoryEdgeInfo k")
    case True
    then obtain k where MemoryEdgeInfo: "te_info e = MemoryEdgeInfo k" ..
    with v e dep kind have "md_transport dep = None" "md_requiredSeparation dep = memoryDependenceSeparation t k" "T' = T"
      by (auto simp: verifyDependence_def Let_def report_if_def split: if_splits)
    with fd ei kind MemoryEdgeInfo fs show ?thesis by (simp add: realised_ok_def edge_uses_def)
  next
    case False
    with v e dep kind uniq have "verifyValueTransport g t e dep (placements_of g m) rm T = Inr (T', [])"
      by (auto simp: verifyDependence_def Let_def bindR_eq_Inr split: EdgeInfo.splits)
    from verifyValueTransport_silent [OF this ends] obtain plan producer ready where
      x: "md_transport dep = Some plan" "tp_domain plan = expectedDomain (te_kind e)"
      "tdfg_node g (te_src e) = Inr producer" "tn_producerOutputReadyOffset producer = Some ready"
      "tp_actions plan = [] \<longrightarrow> pl_tile src \<noteq> pl_tile dst" "0 < ic_hopLatency (tm_interconnect t)"
      "transport_path t (tp_domain plan) (pl_tile src, ready) (tp_actions plan) (pl_tile dst, md_requiredSeparation dep)"
      "let rs = map (the_id rm) (link_resources (tp_domain plan) (rm_ii rm) (pl_issueSlot src) (tp_actions plan))
     in if rs = [] then T' = T else reserve rs \<lparr>ro_kind = Owner_Edge, ro_id = te_id e\<rparr> T = (T', True)"
      by blast
    have "realised_ok g t m e"
      unfolding realised_ok_def using fd ei kind False fs ft x by (auto split: EdgeInfo.splits)
    moreover have "edge_uses m e = link_resources (tp_domain plan) (rm_ii rm) (pl_issueSlot src) (tp_actions plan)"
      using fd ei fs x(1) rm by (simp add: edge_uses_def)
    ultimately show ?thesis using x(8) by simp
  qed
qed

section \<open>Soundness of the verifier\<close>

lemma tdfg_verify_ids:
  assumes "tdfg_verify g t generic = Inr []"
  shows "distinct (map tn_id (td_nodes g))" and "distinct (map te_id (td_edges g))"
    and "\<forall>e \<in> set (td_edges g). lookupTNode g (te_src e) \<noteq> None \<and> lookupTNode g (te_dst e) \<noteq> None"
proof -
  have "tverify_ids g = []" and edges: "\<forall>e \<in> set (td_edges g). tverify_edge g t e = []"
    using assms by (auto simp: tdfg_verify_def bindR_eq_Inr)
  then show "distinct (map tn_id (td_nodes g))" "distinct (map te_id (td_edges g))"
    by (simp_all add: tverify_ids_def duplicates_Nil)
  show "\<forall>e \<in> set (td_edges g). lookupTNode g (te_src e) \<noteq> None \<and> lookupTNode g (te_dst e) \<noteq> None"
    using edges by (auto simp: tverify_edge_def split: option.splits)
qed

lemma resource_model_fields:
  assumes "mk_ModuloResourceModel t ii = Inr rm"
  shows "rm_target rm = t" and "rm_ii rm = ii"
proof -
  have "rm_target (fold addResource rs m) = rm_target m \<and> rm_ii (fold addResource rs m) = rm_ii m" for rs m
    by (induction rs arbitrary: m) (simp_all add: addResource_def Let_def)
  then show "rm_target rm = t" "rm_ii rm = ii"
    using assms by (auto simp: mk_ModuloResourceModel_def bindR_eq_Inr Let_def empty_resourceModel_def)
qed

lemma set_sorted_ids [simp]: "set (sorted_ids key xs) = key ` set xs"
  by (simp add: sorted_ids_def)

lemma count_filter_key: "count (mset (map key xs)) i = length (filter (\<lambda>x. key x = i) xs)"
  by (induction xs) auto

lemma coverage_mset:
  assumes "distinct (map key ns)" and "\<forall>i \<in> key ` set ns. length (filter (\<lambda>x. k x = i) xs) = 1"
    and "k ` set xs \<subseteq> key ` set ns"
  shows "mset (map k xs) = mset (map key ns)"
proof (rule multiset_eqI)
  fix i
  have c: "count (mset (map key ns)) i = (if i \<in> key ` set ns then 1 else 0)"
    using assms(1) by (simp add: distinct_count_atmost_1 del: mset_map)
  show "count (mset (map k xs)) i = count (mset (map key ns)) i"
  proof (cases "i \<in> key ` set ns")
    case True
    with assms(2) have "length (filter (\<lambda>x. k x = i) xs) = 1" by blast
    with True c show ?thesis by (simp only: count_filter_key if_True)
  next
    case False
    with assms(3) have "filter (\<lambda>x. k x = i) xs = []" by (auto simp: filter_empty_conv)
    with False c show ?thesis by (simp add: count_filter_key del: mset_map)
  qed
qed

lemma verifyCoverage_Nil:
  assumes "verifyCoverage g m = []"
  shows "\<forall>n \<in> set (td_nodes g). hasUniquePlacement m (tn_id n)"
    and "\<forall>e \<in> set (td_edges g). hasUniqueDependence m (te_id e)"
    and "pl_node ` set (mm_placements m) \<subseteq> tn_id ` set (td_nodes g)"
    and "md_edge ` set (mm_dependences m) \<subseteq> te_id ` set (td_edges g)"
  using assms by (auto simp: verifyCoverage_def Let_def find_by_None_iff)

lemma coverage_one_to_one:
  assumes "verifyCoverage g m = []" and "distinct (map tn_id (td_nodes g))" and "distinct (map te_id (td_edges g))"
  shows "mset (map pl_node (mm_placements m)) = mset (map tn_id (td_nodes g))"
    and "mset (map md_edge (mm_dependences m)) = mset (map te_id (td_edges g))"
proof -
  note c = verifyCoverage_Nil [OF assms(1)]
  show "mset (map pl_node (mm_placements m)) = mset (map tn_id (td_nodes g))"
    by (rule coverage_mset [OF assms(2) _ c(3)])
       (use c(1) in \<open>simp add: hasUniquePlacement_def placementEntries_def\<close>)
  show "mset (map md_edge (mm_dependences m)) = mset (map te_id (td_edges g))"
    by (rule coverage_mset [OF assms(3) _ c(4)])
       (use c(2) in \<open>simp add: hasUniqueDependence_def dependenceEntries_def\<close>)
qed

text \<open>The resources granted so far, in order.\<close>

definition held :: "ReservationTable \<Rightarrow> ResourceId list \<Rightarrow> ReservationTable \<Rightarrow> bool" where
  "held T0 rs T \<longleftrightarrow> (\<exists>reqs. table.serves T0 reqs T \<and> concat (map snd reqs) = rs)"

lemma held_none: "held T0 [] T0"
  unfolding held_def by (rule exI [of _ "[]"]) (simp add: table.serves.none)

lemma held_reserve:
  assumes "held T0 rs T" and "reserve rs' w T = (T', True)"
  shows "held T0 (rs @ rs') T'"
proof -
  from assms(1) obtain reqs where "table.serves T0 reqs T" "concat (map snd reqs) = rs"
    by (auto simp: held_def)
  with table.serves.request [OF this(1) assms(2)] show ?thesis
    unfolding held_def by (intro exI [of _ "reqs @ [(w, rs')]"]) simp
qed

lemma held_distinct: "held T0 rs T \<Longrightarrow> distinct rs"
  unfolding held_def using table.served_all_distinct by blast

lemma mset_sorted_ids: "distinct (map key xs) \<Longrightarrow> mset (sorted_ids key xs) = mset (map key xs)"
  by (simp add: sorted_ids_def distinct_remdups_id)

lemma mset_concat_sorted_ids:
  assumes "distinct (map key xs)" and "\<And>x. x \<in> set xs \<Longrightarrow> F (key x) = G x"
  shows "mset (concat (map F (sorted_ids key xs))) = mset (concat (map G xs))"
proof -
  have "mset (concat (map F (sorted_ids key xs))) = (\<Sum>i \<in># mset (sorted_ids key xs). mset (F i))"
    by (simp add: mset_concat comp_def sum_mset_sum_list [symmetric])
  also have "\<dots> = (\<Sum>x \<in># mset xs. mset (F (key x)))"
    by (simp add: mset_sorted_ids [OF assms(1)] image_mset.compositionality comp_def)
  also have "\<dots> = (\<Sum>x \<in># mset xs. mset (G x))"
    by (intro arg_cong [where f = sum_mset] image_mset_cong) (simp add: assms(2))
  also have "\<dots> = mset (concat (map G xs))"
    by (simp add: mset_concat comp_def sum_mset_sum_list [symmetric])
  finally show ?thesis .
qed

definition node_ids :: "TargetDFG \<Rightarrow> TargetModel \<Rightarrow> ModuloMapping \<Rightarrow> ModuloResourceModel \<Rightarrow> TargetNodeId \<Rightarrow> ResourceId list" where
  "node_ids g t m rm i = map (the_id rm) (node_uses t m (the (lookupTNode g i)))"

definition edge_ids :: "TargetDFG \<Rightarrow> ModuloMapping \<Rightarrow> ModuloResourceModel \<Rightarrow> TargetEdgeId \<Rightarrow> ResourceId list" where
  "edge_ids g m rm i = map (the_id rm) (edge_uses m (the (find_by te_id i (td_edges g))))"

lemma placement_phase:
  assumes "foldR (verifyPlacement g t m rm) (T0, ds0) (sorted_ids tn_id (td_nodes g)) = Inr (T, [])"
    and u: "ds0 = [] \<Longrightarrow> \<forall>n \<in> set (td_nodes g). hasUniquePlacement m (tn_id n)"
    and rm: "rm_target rm = t" "rm_ii rm = mm_ii m"
  shows "ds0 = [] \<and> held T0 (concat (map (node_ids g t m rm) (sorted_ids tn_id (td_nodes g)))) T \<and>
    (\<forall>i \<in> tn_id ` set (td_nodes g). placed_ok t m (the (lookupTNode g i)))"
proof -
  let ?I = "\<lambda>T pre. held T0 (concat (map (node_ids g t m rm) pre)) T \<and>
    (\<forall>i \<in> set pre. placed_ok t m (the (lookupTNode g i)))"
  have ds0: "ds0 = []"
    by (rule foldR_report_Nil [OF assms(1)]) (rule verifyPlacement_grows)
  have "ds0 = [] \<and> ?I T ([] @ sorted_ids tn_id (td_nodes g))"
  proof (rule foldR_silent [where I = ?I, OF assms(1)])
    fix T pre i T'
    assume i: "i \<in> set (sorted_ids tn_id (td_nodes g))" and I: "?I T pre"
      and st: "verifyPlacement g t m rm (T, []) i = Inr (T', [])"
    from i obtain n where n: "lookupTNode g i = Some n" using find_by_ex by (metis set_sorted_ids)
    have "hasUniquePlacement m i" using u [OF ds0] i by auto
    note s = verifyPlacement_silent [OF st n this rm]
    from I have "held T0 (concat (map (node_ids g t m rm) pre)) T" by (rule conjunct1)
    from held_reserve [OF this s [THEN conjunct2]]
    have "held T0 (concat (map (node_ids g t m rm) (pre @ [i]))) T'" by (simp add: node_ids_def n)
    with I s n show "?I T' (pre @ [i])" by simp
  qed (simp_all add: verifyPlacement_grows held_none)
  then show ?thesis by simp
qed

lemma dependence_phase:
  assumes "foldR (verifyDependence g t m rm) (T, ds) (sorted_ids te_id (td_edges g)) = Inr (T', [])"
    and u: "ds = [] \<Longrightarrow> \<forall>e \<in> set (td_edges g). hasUniqueDependence m (te_id e) \<and>
      lookupTNode g (te_src e) \<noteq> None \<and> lookupTNode g (te_dst e) \<noteq> None \<and>
      hasUniquePlacement m (te_src e) \<and> hasUniquePlacement m (te_dst e)"
    and rm: "rm_ii rm = mm_ii m" and h: "ds = [] \<Longrightarrow> held T0 rs T"
  shows "ds = [] \<and> held T0 (rs @ concat (map (edge_ids g m rm) (sorted_ids te_id (td_edges g)))) T' \<and>
    (\<forall>i \<in> te_id ` set (td_edges g). realised_ok g t m (the (find_by te_id i (td_edges g))))"
proof -
  let ?I = "\<lambda>T pre. held T0 (rs @ concat (map (edge_ids g m rm) pre)) T \<and>
    (\<forall>i \<in> set pre. realised_ok g t m (the (find_by te_id i (td_edges g))))"
  have ds: "ds = []"
    by (rule foldR_report_Nil [OF assms(1)]) (rule verifyDependence_grows)
  have "ds = [] \<and> ?I T' ([] @ sorted_ids te_id (td_edges g))"
  proof (rule foldR_silent [where I = ?I, OF assms(1)])
    fix T pre i T'
    assume i: "i \<in> set (sorted_ids te_id (td_edges g))" and I: "?I T pre"
      and st: "verifyDependence g t m rm (T, []) i = Inr (T', [])"
    from i obtain e where e: "find_by te_id i (td_edges g) = Some e" "e \<in> set (td_edges g)" "te_id e = i"
      using find_by_ex by (metis set_sorted_ids)
    from u [OF ds] e obtain src dst where p: "hasUniqueDependence m i"
      "placements_of g m (te_src e) = Some src" "placements_of g m (te_dst e) = Some dst"
      "hasUniquePlacement m (te_src e)" "hasUniquePlacement m (te_dst e)"
      by (auto simp: placements_of_def)
    note s = verifyDependence_silent [OF st e(1) p rm]
    have ids: "edge_ids g m rm i = map (the_id rm) (edge_uses m e)" by (simp add: edge_ids_def e(1))
    from I have h: "held T0 (rs @ concat (map (edge_ids g m rm) pre)) T" by (rule conjunct1)
    have "held T0 ((rs @ concat (map (edge_ids g m rm) pre)) @ edge_ids g m rm i) T'"
    proof (cases "edge_ids g m rm i = []")
      case True
      with s ids h show ?thesis by (simp add: Let_def)
    next
      case False
      with s ids have "reserve (edge_ids g m rm i) \<lparr>ro_kind = Owner_Edge, ro_id = te_id e\<rparr> T = (T', True)"
        by (simp add: Let_def)
      with h show ?thesis by (rule held_reserve)
    qed
    with I s e show "?I T' (pre @ [i])" by simp
  qed (use h ds in \<open>simp_all add: verifyDependence_grows\<close>)
  then show ?thesis by simp
qed

lemma distinct_ids_resources:
  assumes "distinct (concat (map (node_ids g t m rm) (sorted_ids tn_id (td_nodes g))) @
      concat (map (edge_ids g m rm) (sorted_ids te_id (td_edges g))))"
    and "distinct (map tn_id (td_nodes g))" and "distinct (map te_id (td_edges g))"
  shows "distinct (concat (map (node_uses t m) (td_nodes g)) @ concat (map (edge_uses m) (td_edges g)))"
proof -
  have n: "mset (concat (map (node_ids g t m rm) (sorted_ids tn_id (td_nodes g)))) =
      mset (concat (map (\<lambda>n. map (the_id rm) (node_uses t m n)) (td_nodes g)))"
    by (rule mset_concat_sorted_ids [OF assms(2)]) (simp add: node_ids_def find_by_distinct [OF assms(2)])
  have e: "mset (concat (map (edge_ids g m rm) (sorted_ids te_id (td_edges g)))) =
      mset (concat (map (\<lambda>e. map (the_id rm) (edge_uses m e)) (td_edges g)))"
    by (rule mset_concat_sorted_ids [OF assms(3)]) (simp add: edge_ids_def find_by_distinct [OF assms(3)])
  have "mset (concat (map (node_ids g t m rm) (sorted_ids tn_id (td_nodes g))) @
      concat (map (edge_ids g m rm) (sorted_ids te_id (td_edges g)))) =
    mset (map (the_id rm) (concat (map (node_uses t m) (td_nodes g)) @ concat (map (edge_uses m) (td_edges g))))"
    unfolding mset_append map_append n e by (simp add: map_concat comp_def del: mset_map)
  with assms(1) have "distinct (map (the_id rm) (concat (map (node_uses t m) (td_nodes g)) @
      concat (map (edge_uses m) (td_edges g))))"
    by (metis mset_eq_imp_distinct_iff)
  then show ?thesis by (simp only: distinct_map)
qed

lemma mapping_verify_valid:
  assumes "mapping_verify g t m = Inr []"
  shows "valid_mapping g t m"
proof -
  from assms obtain rm T1 ds1 T2 where v: "tdfg_verify g t None = Inr []"
    and names: "td_targetName g = tm_name t" "mm_ii m \<noteq> 0" "mm_targetName m = tm_name t"
    and rm: "mk_ModuloResourceModel t (mm_ii m) = Inr rm"
    and p1: "foldR (verifyPlacement g t m rm) (mk_ReservationTable rm, verifyCoverage g m)
               (sorted_ids tn_id (td_nodes g)) = Inr (T1, ds1)"
    and p2: "foldR (verifyDependence g t m rm) (T1, ds1) (sorted_ids te_id (td_edges g)) = Inr (T2, [])"
    by (auto simp: mapping_verify_def Let_def bindR_eq_Inr split: if_splits prod.splits)
  note ids = tdfg_verify_ids [OF v] and f = resource_model_fields [OF rm]
  have ds1: "ds1 = []" by (rule foldR_report_Nil [OF p2]) (rule verifyDependence_grows)
  have ph1: "verifyCoverage g m = [] \<and>
      held (mk_ReservationTable rm) (concat (map (node_ids g t m rm) (sorted_ids tn_id (td_nodes g)))) T1 \<and>
      (\<forall>i \<in> tn_id ` set (td_nodes g). placed_ok t m (the (lookupTNode g i)))"
    by (rule placement_phase [OF p1 [unfolded ds1] _ f]) (rule verifyCoverage_Nil(1))
  then have cov: "verifyCoverage g m = []" by simp
  have ends: "\<forall>e \<in> set (td_edges g). hasUniqueDependence m (te_id e) \<and>
      lookupTNode g (te_src e) \<noteq> None \<and> lookupTNode g (te_dst e) \<noteq> None \<and>
      hasUniquePlacement m (te_src e) \<and> hasUniquePlacement m (te_dst e)"
    using ids(3) verifyCoverage_Nil(1,2) [OF cov] by (fastforce simp: find_by_None_iff)
  have ph2: "ds1 = [] \<and> held (mk_ReservationTable rm)
        (concat (map (node_ids g t m rm) (sorted_ids tn_id (td_nodes g))) @
         concat (map (edge_ids g m rm) (sorted_ids te_id (td_edges g)))) T2 \<and>
      (\<forall>i \<in> te_id ` set (td_edges g). realised_ok g t m (the (find_by te_id i (td_edges g))))"
    by (rule dependence_phase [OF p2 _ f(2)]) (use ends ph1 in simp_all)
  have "\<forall>n \<in> set (td_nodes g). placed_ok t m n"
    using ph1 find_by_distinct [OF ids(1)] by fastforce
  moreover have "\<forall>e \<in> set (td_edges g). realised_ok g t m e"
    using ph2 find_by_distinct [OF ids(2)] by fastforce
  moreover have "distinct (concat (map (node_uses t m) (td_nodes g)) @ concat (map (edge_uses m) (td_edges g)))"
    using distinct_ids_resources [OF held_distinct ids(1,2)] ph2 by blast
  ultimately show ?thesis
    using names coverage_one_to_one [OF cov ids(1,2)] by (simp add: valid_mapping_def)
qed

text \<open>C1: A modulo mapping that the verifier accepts is valid: placements and realisations are one to
  one with the nodes and edges of the graph, every operation is placed on a tile and slot that can
  execute it, every value travels on an unbroken path that arrives exactly when the dependence
  separation says, memory dependences carry the separation of the target, and the modulo resources
  used by all nodes and routes together are pairwise different.\<close>

theorem mapping_verify_sound:
  assumes "mapping_verify g t m = Inr []"
  shows "valid_mapping g t m"
  using assms by (rule mapping_verify_valid)

theorem mapping_verify_sound_witness: "valid_mapping demo_tdfg demo_target demo_mapping"
  by (rule mapping_verify_sound [OF demo_mapping_accepted])

section \<open>The running pipeline\<close>

text \<open>
  Iteration \<open>i\<close> of a node in stage \<open>S\<close> issues at cycle \<open>(S + i) * II + slot\<close>.  The uses below are
  the cycles at which an instance occupies an execution unit or a link.
\<close>

definition exec_uses ::
  "TargetModel \<Rightarrow> ModuloMapping \<Rightarrow> (TargetNodeId \<Rightarrow> nat) \<Rightarrow> TargetNode \<Rightarrow> nat \<Rightarrow>
   ((TargetExecutionClass \<times> TileCoord) \<times> nat) list" where
  "exec_uses t m stage n i =
     (case (findOperation t (tn_operation n), find_by pl_node (tn_id n) (mm_placements m)) of
        (Some d, Some p) \<Rightarrow>
          map (\<lambda>k. ((op_executionClass d, pl_tile p), (stage (tn_id n) + i) * mm_ii m + pl_issueSlot p + k))
            [0..<op_issueOccupancy d]
      | _ \<Rightarrow> [])"

fun link_cycles :: "NetworkDomain \<Rightarrow> nat \<Rightarrow> TransportAction list \<Rightarrow> ((NetworkDomain \<times> TileCoord \<times> Direction) \<times> nat) list" where
  "link_cycles domain start [] = []"
| "link_cycles domain start (Action_Link l # as) =
     ((domain, ls_source l, ls_direction l), start + ls_elapsed l) # link_cycles domain start as"
| "link_cycles domain start (Action_Hold h # as) = link_cycles domain start as"

definition route_uses ::
  "ModuloMapping \<Rightarrow> (TargetNodeId \<Rightarrow> nat) \<Rightarrow> TargetEdge \<Rightarrow> nat \<Rightarrow>
   ((NetworkDomain \<times> TileCoord \<times> Direction) \<times> nat) list" where
  "route_uses m stage e i =
     (case (find_by md_edge (te_id e) (mm_dependences m), find_by pl_node (te_src e) (mm_placements m)) of
        (Some dep, Some p) \<Rightarrow>
          (case md_transport dep of
             None \<Rightarrow> []
           | Some plan \<Rightarrow>
               link_cycles (tp_domain plan) ((stage (te_src e) + i) * mm_ii m + pl_issueSlot p) (tp_actions plan))
      | _ \<Rightarrow> [])"

lemma concat_disjoint:
  "distinct (concat (map f xs)) \<Longrightarrow> x \<in> set xs \<Longrightarrow> y \<in> set xs \<Longrightarrow> x \<noteq> y \<Longrightarrow> set (f x) \<inter> set (f y) = {}"
  by (induction xs) auto

lemma concat_part: "distinct (concat (map f xs)) \<Longrightarrow> x \<in> set xs \<Longrightarrow> distinct (f x)"
  by (induction xs) auto

text \<open>Uses that differ modulo the initiation interval differ in every pair of iterations.\<close>

lemma modulo_disjoint:
  fixes U :: "'a \<Rightarrow> ('l \<times> nat) list"
  assumes d: "distinct (concat (map (\<lambda>x. map (\<lambda>(l, c). (l, c mod ii)) (U x)) xs))"
    and x: "x \<in> set xs" and y: "y \<in> set xs" and ne: "(x, i) \<noteq> (y, j)" and ii: "0 < ii"
  shows "set (map (\<lambda>(l, c). (l, c + i * ii)) (U x)) \<inter> set (map (\<lambda>(l, c). (l, c + j * ii)) (U y)) = {}"
proof (rule ccontr)
  assume "\<not> ?thesis"
  then obtain l c1 c2 where c: "(l, c1) \<in> set (U x)" "(l, c2) \<in> set (U y)" "c1 + i * ii = c2 + j * ii"
    by auto
  have m: "c1 mod ii = c2 mod ii" using arg_cong [OF c(3), of "\<lambda>c. c mod ii"] by simp
  let ?f = "\<lambda>x. map (\<lambda>(l, c). (l, c mod ii)) (U x)"
  have i1: "(l, c1 mod ii) \<in> set (?f x)" and i2: "(l, c1 mod ii) \<in> set (?f y)"
    using c(1,2) m by force+
  have xy: "x = y" using concat_disjoint [OF d x y] i1 i2 by blast
  have "inj_on (\<lambda>(l, c). (l, c mod ii)) (set (U x))"
    using concat_part [OF d x] by (simp add: distinct_map)
  from inj_onD [OF this, of "(l, c1)" "(l, c2)"] have "c1 = c2" using c m xy by simp
  with c(3) ii xy ne show False by simp
qed

lemma exec_uses_shift:
  "exec_uses t m stage n i = map (\<lambda>(l, c). (l, c + i * mm_ii m)) (exec_uses t m stage n 0)"
  by (auto simp: exec_uses_def algebra_simps split: option.splits)

lemma link_cycles_shift: "link_cycles domain (start + k) as = map (\<lambda>(l, c). (l, c + k)) (link_cycles domain start as)"
  by (induction domain start as rule: link_cycles.induct) auto

lemma route_uses_shift:
  "route_uses m stage e i = map (\<lambda>(l, c). (l, c + i * mm_ii m)) (route_uses m stage e 0)"
proof -
  have "(s + i) * ii + p = s * ii + p + i * ii" for s p ii :: nat by (simp add: algebra_simps)
  then show ?thesis by (auto simp: route_uses_def link_cycles_shift split: option.splits)
qed

text \<open>Folded into one initiation interval, the uses are the modulo resources of the mapping.\<close>

fun unit_at :: "(TargetExecutionClass \<times> TileCoord) \<times> nat \<Rightarrow> ModuloResource" where
  "unit_at ((c, tile), s) = (if c = Class_FU then FUResource tile s else LSUResource tile s)"

fun link_at :: "(NetworkDomain \<times> TileCoord \<times> Direction) \<times> nat \<Rightarrow> ModuloResource" where
  "link_at ((domain, tile, d), s) = LinkResource domain tile d s"

lemma node_uses_fold:
  "node_uses t m n = map unit_at (map (\<lambda>(l, c). (l, c mod mm_ii m)) (exec_uses t m stage n 0))"
proof -
  have "(s * ii + p + k) mod ii = (p + k) mod ii" for s ii p k :: nat
    by (simp add: add.assoc)
  then show ?thesis
    by (auto simp: node_uses_def exec_uses_def op_resources_def unit_resource_def split: option.splits)
qed

lemma link_resources_fold:
  "link_resources domain ii slot as =
   map link_at (map (\<lambda>(l, c). (l, c mod ii)) (link_cycles domain (s * ii + slot) as))"
  by (induction domain ii slot as rule: link_resources.induct) (auto simp: add.assoc)

lemma edge_uses_fold:
  "edge_uses m e = map link_at (map (\<lambda>(l, c). (l, c mod mm_ii m)) (route_uses m stage e 0))"
  by (simp add: edge_uses_def route_uses_def link_resources_fold [where s = "stage (te_src e)"] split: option.splits)

lemma distinct_concat_map_fold:
  assumes "distinct (concat (map (\<lambda>x. map f (g x)) xs))"
  shows "distinct (concat (map g xs))"
proof -
  have "concat (map (\<lambda>x. map f (g x)) xs) = map f (concat (map g xs))" by (simp add: map_concat comp_def)
  with assms show ?thesis by (simp only: distinct_map)
qed

text \<open>C2: In the running pipeline of an accepted mapping, whatever stages the nodes are given, two
  different instances (of the same node in two iterations or of two nodes) never occupy the same
  execution unit of the same tile in the same cycle, and two different transports never occupy the
  same link in the same cycle.\<close>

theorem accepted_conflict_free:
  assumes "mapping_verify g t m = Inr []"
  shows "pairwise (\<lambda>(n, i) (n', i').
             disjnt (set (exec_uses t m stage n i)) (set (exec_uses t m stage n' i')))
           (set (td_nodes g) \<times> UNIV) \<and>
         pairwise (\<lambda>(e, i) (e', i').
             disjnt (set (route_uses m stage e i)) (set (route_uses m stage e' i')))
           (set (td_edges g) \<times> UNIV)"
proof -
  have v: "0 < mm_ii m" "distinct (concat (map (node_uses t m) (td_nodes g)))"
      "distinct (concat (map (edge_uses m) (td_edges g)))"
    using mapping_verify_valid [OF assms] by (simp_all add: valid_mapping_def)
  have dn: "distinct (concat (map (\<lambda>n. map (\<lambda>(l, c). (l, c mod mm_ii m)) (exec_uses t m stage n 0)) (td_nodes g)))"
    by (rule distinct_concat_map_fold [where f = unit_at]) (use v(2) in \<open>simp only: node_uses_fold [symmetric]\<close>)
  have de: "distinct (concat (map (\<lambda>e. map (\<lambda>(l, c). (l, c mod mm_ii m)) (route_uses m stage e 0)) (td_edges g)))"
    by (rule distinct_concat_map_fold [where f = link_at]) (use v(3) in \<open>simp only: edge_uses_fold [symmetric]\<close>)
  have "disjnt (set (exec_uses t m stage n i)) (set (exec_uses t m stage n' i'))"
    if "n \<in> set (td_nodes g)" "n' \<in> set (td_nodes g)" "(n, i) \<noteq> (n', i')" for n n' i i'
    using modulo_disjoint [OF dn that v(1)] exec_uses_shift [of t m stage n i]
      exec_uses_shift [of t m stage n' i'] by (simp add: disjnt_def)
  moreover have "disjnt (set (route_uses m stage e i)) (set (route_uses m stage e' i'))"
    if "e \<in> set (td_edges g)" "e' \<in> set (td_edges g)" "(e, i) \<noteq> (e', i')" for e e' i i'
    using modulo_disjoint [OF de that v(1)] route_uses_shift [of m stage e i]
      route_uses_shift [of m stage e' i'] by (simp add: disjnt_def)
  ultimately show ?thesis by (auto simp: pairwise_def)
qed

theorem accepted_conflict_free_witness:
  "pairwise (\<lambda>(n, i) (n', i').
       disjnt (set (exec_uses demo_target demo_mapping (\<lambda>_. 0) n i))
              (set (exec_uses demo_target demo_mapping (\<lambda>_. 0) n' i')))
     (set (td_nodes demo_tdfg) \<times> UNIV)"
  using accepted_conflict_free [OF demo_mapping_accepted, of "\<lambda>_. 0"] by (rule conjunct1)

end
