(* ===== verification/Relaxation.thy ===== *)
theory Relaxation
  imports Prelude
begin

text \<open>
  Longest paths by rounds of relaxation, the algorithm the stage scheduler and the recurrence
  analysis share.  The locale \<open>relaxation\<close> states what one relaxation does to the distances; its
  lemmas say that distances never exceed a solution of the constraints, that a round without
  change is a solution, and that a system that has a solution is solved before the round whose
  number is the number of nodes.  So a change in that round refutes every solution.
\<close>

section \<open>Constraint systems\<close>

text \<open>A constraint \<open>(s, d, w)\<close> demands \<open>f d \<ge> f s + w\<close>.\<close>

type_synonym constraint = "nat \<times> nat \<times> int"

definition solution :: "constraint set \<Rightarrow> (nat \<Rightarrow> int) \<Rightarrow> bool" where
  "solution C f \<longleftrightarrow> (\<forall>(s, d, w) \<in> C. f s + w \<le> f d)"

lemma solutionI: "(\<And>s d w. (s, d, w) \<in> C \<Longrightarrow> f s + w \<le> f d) \<Longrightarrow> solution C f"
  by (auto simp: solution_def)

lemma solutionD: "solution C f \<Longrightarrow> (s, d, w) \<in> C \<Longrightarrow> f s + w \<le> f d"
  by (auto simp: solution_def)

text \<open>A solution that cannot be lowered by one on a non-empty set of nodes below \<open>n\<close>.  Of the
  non-negative solutions the one with the least sum is such.\<close>

definition lowest :: "nat \<Rightarrow> constraint set \<Rightarrow> (nat \<Rightarrow> int) \<Rightarrow> bool" where
  "lowest n C L \<longleftrightarrow> solution C L \<and> (\<forall>v < n. 0 \<le> L v) \<and>
     (\<forall>D \<subseteq> {..<n}. D \<noteq> {} \<longrightarrow> (\<forall>v \<in> D. 1 \<le> L v) \<longrightarrow>
        \<not> solution C (\<lambda>v. if v \<in> D then L v - 1 else L v))"

lemma lowestD:
  assumes "lowest n C L"
  shows "solution C L" and "v < n \<Longrightarrow> 0 \<le> L v"
    and "D \<subseteq> {..<n} \<Longrightarrow> D \<noteq> {} \<Longrightarrow> \<forall>v \<in> D. 1 \<le> L v \<Longrightarrow>
         \<not> solution C (\<lambda>v. if v \<in> D then L v - 1 else L v)"
  using assms by (simp_all add: lowest_def)

lemma least_solution:
  fixes n :: nat
  assumes "solution C f" and "\<forall>v < n. 0 \<le> f v"
  obtains L where "lowest n C L"
proof -
  let ?P = "\<lambda>f. solution C f \<and> (\<forall>v < n. 0 \<le> f v)"
  let ?sum = "\<lambda>f. nat (\<Sum>v < n. f v)"
  obtain L where L: "?P L" and min: "\<And>f. ?P f \<Longrightarrow> ?sum L \<le> ?sum f"
    using ex_has_least_nat [of ?P f ?sum] assms by blast
  show thesis
  proof (rule that, unfold lowest_def, intro conjI allI impI)
    show "solution C L" "\<And>v. v < n \<Longrightarrow> 0 \<le> L v" using L by simp_all
    fix D
    assume D: "D \<subseteq> {..<n}" "D \<noteq> {}" "\<forall>v \<in> D. 1 \<le> L v"
    let ?f = "\<lambda>v. if v \<in> D then L v - 1 else L v"
    show "\<not> solution C ?f"
    proof
      assume "solution C ?f"
      moreover have nn: "\<forall>v < n. 0 \<le> ?f v" using L D(3) by auto
      ultimately have le: "?sum L \<le> ?sum ?f" using min by blast
      have "(\<Sum>v < n. ?f v) < (\<Sum>v < n. L v)"
      proof (rule sum_strict_mono_ex1)
        show "\<exists>v \<in> {..<n}. ?f v < L v" using D by auto
      qed auto
      moreover have "0 \<le> (\<Sum>v < n. ?f v)" by (intro sum_nonneg) (use nn in auto)
      ultimately show False using le by linarith
    qed
  qed
qed

section \<open>The contract of a relaxation\<close>

locale relaxation =
  fixes n :: nat
    and inv :: "'s \<Rightarrow> bool"
    and dist :: "'s \<Rightarrow> nat \<Rightarrow> int"
    and constr :: "'c \<Rightarrow> constraint"
    and relaxes :: "'s \<Rightarrow> 'c \<Rightarrow> 's \<Rightarrow> bool"
  assumes relax_inv: "inv st \<Longrightarrow> relaxes st c st' \<Longrightarrow> inv st'"
    and relax_dist: "inv st \<Longrightarrow> relaxes st c st' \<Longrightarrow> constr c = (s, d, w) \<Longrightarrow> s < n \<Longrightarrow> d < n \<Longrightarrow> v < n \<Longrightarrow>
          dist st' v = (if v = d then max (dist st d) (dist st s + w) else dist st v)"
begin

definition within :: "'c list \<Rightarrow> bool" where
  "within cs \<longleftrightarrow> (\<forall>c \<in> set cs. case constr c of (s, d, w) \<Rightarrow> s < n \<and> d < n)"

lemma within_mem:
  assumes "within cs" and "(s, d, w) \<in> constr ` set cs"
  shows "s < n" and "d < n"
proof -
  from assms(2) obtain c where c: "c \<in> set cs" "constr c = (s, d, w)" by auto
  from assms(1) c(1) have "case constr c of (s, d, w) \<Rightarrow> s < n \<and> d < n" unfolding within_def by (rule bspec)
  with c(2) show "s < n" "d < n" by simp_all
qed

lemma solution_cong:
  assumes "within cs" and "\<And>v. v < n \<Longrightarrow> g v = f v + (k :: int)" and "solution (constr ` set cs) f"
  shows "solution (constr ` set cs) g"
proof (rule solutionI)
  fix s d w
  assume mem: "(s, d, w) \<in> constr ` set cs"
  from solutionD [OF assms(3) mem] within_mem [OF assms(1) mem] show "g s + w \<le> g d"
    by (simp add: assms(2))
qed

text \<open>One pass over all constraints, and passes repeated; between two passes the state may change in
  anything but the distances.\<close>

inductive sweep :: "'s \<Rightarrow> 'c list \<Rightarrow> 's \<Rightarrow> bool" where
  stop: "sweep st [] st"
| step: "relaxes st c st' \<Longrightarrow> sweep st' cs st'' \<Longrightarrow> sweep st (c # cs) st''"

inductive sweeps :: "'c list \<Rightarrow> nat \<Rightarrow> 's \<Rightarrow> 's \<Rightarrow> bool" for cs where
  none: "sweeps cs 0 st st"
| more: "sweeps cs k st st' \<Longrightarrow> inv st1 \<Longrightarrow> \<forall>v < n. dist st1 v = dist st' v \<Longrightarrow> sweep st1 cs st'' \<Longrightarrow>
    sweeps cs (Suc k) st st''"

lemma relax_mono:
  assumes "inv st" and "relaxes st c st'" and "within [c]" and "v < n"
  shows "dist st v \<le> dist st' v"
proof -
  obtain s d w where c: "constr c = (s, d, w)" by (metis prod_cases3)
  with assms(3) have "s < n" "d < n" by (auto simp: within_def)
  with relax_dist [OF assms(1,2) c this assms(4)] show ?thesis by auto
qed

lemma sweep_inv: "sweep st cs st' \<Longrightarrow> inv st \<Longrightarrow> inv st'"
  by (induction rule: sweep.induct) (auto dest: relax_inv)

lemma sweep_mono: "sweep st cs st' \<Longrightarrow> inv st \<Longrightarrow> within cs \<Longrightarrow> v < n \<Longrightarrow> dist st v \<le> dist st' v"
proof (induction rule: sweep.induct)
  case (step st c st' cs st'')
  then have "within [c]" "within cs" by (auto simp: within_def)
  with relax_mono [OF step.prems(1) step.hyps(1) _ step.prems(3)]
    step.IH [OF relax_inv [OF step.prems(1) step.hyps(1)] _ step.prems(3)] show ?case by simp
qed simp

text \<open>After a pass every constraint holds with the source's distance of before the pass.\<close>

lemma sweep_satisfies:
  "sweep st cs st' \<Longrightarrow> inv st \<Longrightarrow> within cs \<Longrightarrow> (s, d, w) \<in> constr ` set cs \<Longrightarrow> dist st s + w \<le> dist st' d"
proof (induction rule: sweep.induct)
  case (step st c st' cs st'')
  then have wi: "within [c]" "within cs" by (auto simp: within_def)
  note sd = within_mem [OF step.prems(2,3)]
  note i' = relax_inv [OF step.prems(1) step.hyps(1)]
  show ?case
  proof (cases "constr c = (s, d, w)")
    case True
    then have "dist st s + w \<le> dist st' d"
      using relax_dist [OF step.prems(1) step.hyps(1) True sd sd(2)] by simp
    also have "\<dots> \<le> dist st'' d" using sweep_mono [OF step.hyps(2) i' wi(2) sd(2)] .
    finally show ?thesis .
  next
    case False
    with step.prems(3) have "(s, d, w) \<in> constr ` set cs" by auto
    with step.IH [OF i' wi(2)] have "dist st' s + w \<le> dist st'' d" .
    moreover have "dist st s \<le> dist st' s" by (rule relax_mono [OF step.prems(1) step.hyps(1) wi(1) sd(1)])
    ultimately show ?thesis by simp
  qed
qed simp

text \<open>Distances stay below every solution.\<close>

lemma sweep_below:
  "sweep st cs st' \<Longrightarrow> inv st \<Longrightarrow> within cs \<Longrightarrow> solution C f \<Longrightarrow> constr ` set cs \<subseteq> C \<Longrightarrow>
   \<forall>v < n. dist st v \<le> f v \<Longrightarrow> \<forall>v < n. dist st' v \<le> f v"
proof (induction rule: sweep.induct)
  case (step st c st' cs st'')
  obtain s d w where c: "constr c = (s, d, w)" by (metis prod_cases3)
  with step.prems have sd: "s < n" "d < n" and "f s + w \<le> f d"
    by (auto simp: within_def intro: solutionD)
  with step.prems(5) have "\<forall>v < n. dist st' v \<le> f v"
    using relax_dist [OF step.prems(1) step.hyps(1) c sd] by fastforce
  moreover have "within cs" "constr ` set cs \<subseteq> C" using step.prems by (auto simp: within_def)
  ultimately show ?case using step.IH step.prems relax_inv [OF step.prems(1) step.hyps(1)] by blast
qed simp

lemma sweeps_inv: "sweeps cs k st st' \<Longrightarrow> inv st \<Longrightarrow> inv st'"
  by (induction rule: sweeps.induct) (auto dest: sweep_inv)

lemma sweeps_mono: "sweeps cs k st st' \<Longrightarrow> inv st \<Longrightarrow> within cs \<Longrightarrow> v < n \<Longrightarrow> dist st v \<le> dist st' v"
proof (induction rule: sweeps.induct)
  case (more k st st' st1 st'')
  with sweep_mono [OF more.hyps(4) more.hyps(2) more.prems(2,3)] show ?case by simp
qed simp

lemma sweeps_below:
  "sweeps cs k st st' \<Longrightarrow> inv st \<Longrightarrow> within cs \<Longrightarrow> solution (constr ` set cs) f \<Longrightarrow>
   \<forall>v < n. dist st v \<le> f v \<Longrightarrow> \<forall>v < n. dist st' v \<le> f v"
proof (induction rule: sweeps.induct)
  case (more k st st' st1 st'')
  with sweep_below [OF more.hyps(4) more.hyps(2) more.prems(2,3) subset_refl] show ?case by simp
qed simp

text \<open>A pass that changes no distance shows a solution, the least one above the start.\<close>

lemma stable_solution:
  assumes "sweep st cs st'" and "inv st" and "within cs" and "\<forall>v < n. dist st' v = dist st v"
  shows "solution (constr ` set cs) (dist st)"
proof (rule solutionI)
  fix s d w
  assume mem: "(s, d, w) \<in> constr ` set cs"
  with sweep_satisfies [OF assms(1-3) mem] within_mem [OF assms(3) mem] assms(4) show "dist st s + w \<le> dist st d" by simp
qed

text \<open>
  The nodes that have reached the least solution \<open>L\<close>.  At the start there is one, and each round
  that has not reached all of them adds one: otherwise \<open>L\<close> could be lowered on the others.
\<close>

definition settled :: "(nat \<Rightarrow> int) \<Rightarrow> 's \<Rightarrow> nat set" where
  "settled L st = {v. v < n \<and> dist st v = L v}"

lemma settled_mono:
  assumes "sweep st cs st'" and "inv st" and "within cs" and "\<forall>v < n. dist st' v \<le> L v"
  shows "settled L st \<subseteq> settled L st'"
proof
  fix v
  assume "v \<in> settled L st"
  then have v: "v < n" "dist st v = L v" by (auto simp: settled_def)
  from sweep_mono [OF assms(1-3) v(1)] assms(4) v have "dist st' v = L v" by force
  with v(1) show "v \<in> settled L st'" by (simp add: settled_def)
qed

lemma settled_grows:
  assumes low: "lowest n (constr ` set cs) L" and sw: "sweep st cs st'" and i: "inv st" and wi: "within cs"
    and below: "\<forall>v < n. dist st v \<le> L v" and nonneg: "\<forall>v < n. 0 \<le> dist st v"
    and some: "settled L st \<noteq> {..<n}"
  shows "settled L st \<subset> settled L st'"
proof
  have below': "\<forall>v < n. dist st' v \<le> L v" by (rule sweep_below [OF sw i wi lowestD(1) [OF low] subset_refl below])
  show sub: "settled L st \<subseteq> settled L st'"
    by (rule settled_mono [OF sw i wi below'])
  show "settled L st \<noteq> settled L st'"
  proof
    assume eq: "settled L st = settled L st'"
    let ?D = "{..<n} - settled L st"
    have D: "?D \<subseteq> {..<n}" "?D \<noteq> {}" using some by (auto simp: settled_def)
    have pos: "\<forall>v \<in> ?D. 1 \<le> L v" using below nonneg by (force simp: settled_def)
    have "solution (constr ` set cs) (\<lambda>v. if v \<in> ?D then L v - 1 else L v)"
    proof (rule solutionI)
      fix s d w
      assume mem: "(s, d, w) \<in> constr ` set cs"
      note sd = within_mem [OF wi mem]
      have l: "L s + w \<le> L d" using solutionD [OF lowestD(1) [OF low] mem] .
      show "(if s \<in> ?D then L s - 1 else L s) + w \<le> (if d \<in> ?D then L d - 1 else L d)"
      proof (cases "d \<in> ?D \<and> s \<notin> ?D")
        case True
        with sd have "dist st s = L s" "dist st' d < L d"
          using below' eq by (auto simp: settled_def less_le)
        with sweep_satisfies [OF sw i wi mem] True show ?thesis by simp
      next
        case False
        with l show ?thesis by auto
      qed
    qed
    with lowestD(3) [OF low D pos] show False by simp
  qed
qed

lemma settled_start:
  assumes low: "lowest n (constr ` set cs) L" and wi: "within cs"
    and zero: "\<forall>v < n. dist st v = 0" and n: "0 < n"
  shows "settled L st \<noteq> {}"
proof
  assume none: "settled L st = {}"
  have pos: "\<forall>v \<in> {..<n}. 1 \<le> L v"
  proof
    fix v
    assume v: "v \<in> {..<n}"
    with none zero have "L v \<noteq> 0" by (auto simp: settled_def)
    moreover have "0 \<le> L v" using lowestD(2) [OF low] v by simp
    ultimately show "1 \<le> L v" by simp
  qed
  have "solution (constr ` set cs) (\<lambda>v. if v \<in> {..<n} then L v - 1 else L v)"
    by (rule solution_cong [OF wi _ lowestD(1) [OF low], of _ "-1"]) simp
  moreover have "{..<n} \<noteq> {}" using n by (auto simp: lessThan_empty_iff)
  ultimately show False using lowestD(3) [OF low subset_refl _ pos] by simp
qed

lemma settled_card:
  assumes low: "lowest n (constr ` set cs) L" and wi: "within cs"
  shows "sweeps cs k st st' \<Longrightarrow> inv st \<Longrightarrow> \<forall>v < n. dist st v = 0 \<Longrightarrow> min n (Suc k) \<le> card (settled L st')"
proof (induction rule: sweeps.induct)
  case (none st)
  have fin: "finite (settled L st)" by (simp add: settled_def)
  show ?case
  proof (cases "n = 0")
    case False
    with settled_start [OF low wi none.prems(2)] fin have "0 < card (settled L st)"
      by (simp add: card_gt_0_iff)
    then show ?thesis by simp
  qed simp
next
  case (more k st st' st1 st'')
  note i1 = more.hyps(2)
  have below: "\<forall>v < n. dist st1 v \<le> L v"
    using sweeps_below [OF more.hyps(1) more.prems(1) wi lowestD(1) [OF low]] more.prems(2) more.hyps(3)
      lowestD(2) [OF low] by simp
  have nonneg: "\<forall>v < n. 0 \<le> dist st1 v"
    using sweeps_mono [OF more.hyps(1) more.prems(1) wi] more.prems(2) more.hyps(3) by simp
  have same: "settled L st' = settled L st1" using more.hyps(3) by (auto simp: settled_def)
  have fin: "finite (settled L st'')" by (simp add: settled_def)
  show ?case
  proof (cases "settled L st1 = {..<n}")
    case True
    have "settled L st1 \<subseteq> settled L st''"
      by (rule settled_mono [OF more.hyps(4) i1 wi
            sweep_below [OF more.hyps(4) i1 wi lowestD(1) [OF low] subset_refl below]])
    from card_mono [OF fin this] True show ?thesis by simp
  next
    case False
    have "settled L st1 \<subset> settled L st''"
      by (rule settled_grows [OF low more.hyps(4) i1 wi below nonneg False])
    from psubset_card_mono [OF fin this] have "card (settled L st1) < card (settled L st'')" .
    with more.IH [OF more.prems] same show ?thesis by simp
  qed
qed

theorem solved_in_time:
  assumes sol: "solution (constr ` set cs) f" "\<forall>v < n. 0 \<le> f v" and wi: "within cs"
    and i: "inv st" and zero: "\<forall>v < n. dist st v = 0"
    and sw: "sweeps cs k st st'" and k: "n \<le> Suc k"
  shows "solution (constr ` set cs) (dist st')"
proof -
  obtain L where low: "lowest n (constr ` set cs) L" using least_solution [OF sol] .
  have "n \<le> card (settled L st')" using settled_card [OF low wi sw i zero] k by simp
  moreover have "settled L st' \<subseteq> {..<n}" by (auto simp: settled_def)
  ultimately have "settled L st' = {..<n}"
    using card_seteq [of "{..<n}" "settled L st'"] by simp
  then have eq: "\<forall>v < n. dist st' v = L v" by (auto simp: settled_def)
  show ?thesis
    by (rule solution_cong [OF wi _ lowestD(1) [OF low], of _ 0]) (simp add: eq)
qed

text \<open>So one more pass changes nothing: a change in the last round refutes every solution.\<close>

theorem no_late_change:
  assumes sol: "solution (constr ` set cs) f" "\<forall>v < n. 0 \<le> f v" and wi: "within cs"
    and i: "inv st" and zero: "\<forall>v < n. dist st v = 0"
    and sw: "sweeps cs k st st'" and k: "n \<le> Suc k"
    and last: "inv st1" "\<forall>v < n. dist st1 v = dist st' v" "sweep st1 cs st''" and v: "v < n"
  shows "dist st'' v = dist st1 v"
proof (rule antisym)
  have "solution (constr ` set cs) (dist st')" by (rule solved_in_time [OF sol wi i zero sw k])
  from sweep_below [OF last(3,1) wi this] last(2) v show "dist st'' v \<le> dist st1 v" by simp
  show "dist st1 v \<le> dist st'' v" by (rule sweep_mono [OF last(3,1) wi v])
qed

end

end
