(* ===== verification/Schedule_Stages.thy ===== *)
theory Schedule_Stages
  imports Mapping_Sound Relaxation "HOL-Library.Signed_Division"
begin

text \<open>
  Stage scheduling (\<open>Schedule/StageScheduler.cpp\<close>, \<open>Schedule/StagedMapping.cpp\<close>,
  \<open>Schedule/StageAssignmentVerifier.cpp\<close> and their headers): given an accepted modulo mapping, find
  for every node the pipeline stage, so that every dependence holds across iterations.  Signed
  64-bit values are integers with the code's overflow guards written out.
\<close>

section \<open>Stages and staged mappings\<close>

type_synonym PipelineStage = nat

record StageConstraint =
  sc_edge :: TargetEdgeId
  sc_src :: TargetNodeId
  sc_dst :: TargetNodeId
  sc_minimumStageDelta :: int
  sc_distance :: nat
  sc_requiredSeparation :: nat

record NodeStage =
  ns_node :: TargetNodeId
  ns_stage :: PipelineStage

record StagedMapping =
  sm_modulo :: ModuloMapping
  sm_stages :: "NodeStage list"
  sm_maxStage :: PipelineStage

fun adjacent_duplicate :: "NodeStage list \<Rightarrow> bool" where
  "adjacent_duplicate (x # y # zs) = (ns_node x = ns_node y \<or> adjacent_duplicate (y # zs))"
| "adjacent_duplicate _ = False"

definition mk_StagedMapping :: "ModuloMapping \<Rightarrow> NodeStage list \<Rightarrow> StagedMapping result" where
  "mk_StagedMapping m stages =
     (let ordered = sort_key ns_node stages in
      if adjacent_duplicate ordered then Inl Invalid_Argument
      else Inr \<lparr>sm_modulo = m, sm_stages = ordered,
                sm_maxStage = fold (\<lambda>e k. max k (ns_stage e)) ordered 0\<rparr>)"

definition sm_stage :: "StagedMapping \<Rightarrow> TargetNodeId \<Rightarrow> PipelineStage result" where
  "sm_stage sm i =
     (case dropWhile (\<lambda>e. ns_node e < i) (sm_stages sm) of
        [] \<Rightarrow> Inl Out_Of_Range
      | e # _ \<Rightarrow> if ns_node e \<noteq> i then Inl Out_Of_Range else Inr (ns_stage e))"

definition logicalIssueTime :: "StagedMapping \<Rightarrow> TargetNodeId \<Rightarrow> nat result" where
  "logicalIssueTime sm i =
     bindR (mm_placement (sm_modulo sm) i) (\<lambda>p.
     bindR (sm_stage sm i) (\<lambda>stageValue.
       let ii = mm_ii (sm_modulo sm);
           slot = pl_issueSlot p;
           wave = stageValue * ii
       in if ii \<noteq> 0 \<and> stageValue > (u64_max - slot) div ii then Inl Overflow_Error
          else if wave > u64_max - slot then Inl Overflow_Error
          else Inr (wave + slot)))"

section \<open>The verifier of stage assignments\<close>

datatype StageAssignmentDiagnosticCode =
    SA_INVALID_TARGET_DFG | SA_INVALID_MODULO_MAPPING | SA_UNKNOWN_NODE | SA_MISSING_STAGE
  | SA_DUPLICATE_STAGE | SA_OUTPUT_ARITHMETIC_OVERFLOW | SA_CONSTRAINT_VIOLATION

datatype StageAssignmentDiagnostic =
  SADiag StageAssignmentDiagnosticCode "TargetNodeId option" "TargetEdgeId option"

definition checkedMultiplyAdd :: "nat \<Rightarrow> nat \<Rightarrow> nat \<Rightarrow> nat option" where
  "checkedMultiplyAdd lhs multiplier addend =
     (if multiplier \<noteq> 0 \<and> lhs > (u64_max - addend) div multiplier then None
      else Some (lhs * multiplier + addend))"

definition verifyStageCoverage :: "TargetDFG \<Rightarrow> StagedMapping \<Rightarrow> StageAssignmentDiagnostic list" where
  "verifyStageCoverage g sm =
     report_if (length (sm_stages sm) \<noteq> length (td_nodes g)) (SADiag SA_MISSING_STAGE None None) @
     concat (map (\<lambda>e. report_if (\<not> tdfg_containsNode g (ns_node e))
       (SADiag SA_UNKNOWN_NODE (Some (ns_node e)) None)) (sm_stages sm)) @
     concat (map (\<lambda>n. report_if (find_by ns_node (tn_id n) (sm_stages sm) = None)
       (SADiag SA_MISSING_STAGE (Some (tn_id n)) None)) (td_nodes g))"

text \<open>The loop that computes the issue issueTimes; a caught exception becomes a diagnostic.\<close>

definition verifyIssueTime ::
  "StagedMapping \<Rightarrow> (TargetNodeId \<times> nat) list \<times> StageAssignmentDiagnostic list \<Rightarrow> TargetNode \<Rightarrow>
   ((TargetNodeId \<times> nat) list \<times> StageAssignmentDiagnostic list) result" where
  "verifyIssueTime sm st n =
     (case logicalIssueTime sm (tn_id n) of
        Inr time \<Rightarrow> Inr (fst st @ [(tn_id n, time)], snd st)
      | Inl Overflow_Error \<Rightarrow> Inr (fst st, snd st @ [SADiag SA_OUTPUT_ARITHMETIC_OVERFLOW (Some (tn_id n)) None])
      | Inl Out_Of_Range \<Rightarrow> Inr (fst st, snd st @ [SADiag SA_MISSING_STAGE (Some (tn_id n)) None])
      | Inl e \<Rightarrow> Inl e)"

definition time_at :: "(TargetNodeId \<times> nat) list \<Rightarrow> TargetNodeId \<Rightarrow> nat result" where
  "time_at issueTimes i = (case find_by fst i issueTimes of None \<Rightarrow> Inl Out_Of_Range | Some x \<Rightarrow> Inr (snd x))"

definition verifyStagedEdge ::
  "StagedMapping \<Rightarrow> (TargetNodeId \<times> nat) list \<Rightarrow> StageAssignmentDiagnostic list \<Rightarrow> TargetEdge \<Rightarrow>
   StageAssignmentDiagnostic list result" where
  "verifyStagedEdge sm issueTimes ds e =
     (let diag = (\<lambda>c. SADiag c None (Some (te_id e))) in
      bindR (time_at issueTimes (te_src e)) (\<lambda>src.
      bindR (time_at issueTimes (te_dst e)) (\<lambda>dst.
        case checkedMultiplyAdd (te_distance e) (mm_ii (sm_modulo sm)) dst of
          None \<Rightarrow> Inr (ds @ [diag SA_OUTPUT_ARITHMETIC_OVERFLOW])
        | Some lhs \<Rightarrow>
            bindR (mm_dependence (sm_modulo sm) (te_id e)) (\<lambda>dep.
              if src > u64_max - md_requiredSeparation dep
              then Inr (ds @ [diag SA_OUTPUT_ARITHMETIC_OVERFLOW])
              else Inr (ds @ report_if (lhs < src + md_requiredSeparation dep)
                     (diag SA_CONSTRAINT_VIOLATION))))))"

definition stages_verify ::
  "TargetDFG \<Rightarrow> TargetModel \<Rightarrow> StagedMapping \<Rightarrow> StageAssignmentDiagnostic list result" where
  "stages_verify g t sm =
     (let only = (\<lambda>c. Inr [SADiag c None None]) in
      bindR (tdfg_verify g t None) (\<lambda>targetReport.
        if targetReport \<noteq> [] then only SA_INVALID_TARGET_DFG
        else if td_targetName g \<noteq> tm_name t then only SA_INVALID_TARGET_DFG
        else bindR (mapping_verify g t (sm_modulo sm)) (\<lambda>moduloReport.
          if moduloReport \<noteq> [] then only SA_INVALID_MODULO_MAPPING
          else if verifyStageCoverage g sm \<noteq> [] then Inr (verifyStageCoverage g sm)
          else bindR (foldR (verifyIssueTime sm) ([], []) (td_nodes g)) (\<lambda>(issueTimes, ds).
            if ds \<noteq> [] then Inr ds
            else if mm_ii (sm_modulo sm) = 0 then only SA_INVALID_MODULO_MAPPING
            else foldR (verifyStagedEdge sm issueTimes) [] (td_edges g)))))"

section \<open>Results of the scheduler\<close>

datatype StageSchedulingStatus =
    Stage_Success | Stage_InvalidTargetDFG | Stage_InvalidModuloMapping | Stage_InfeasibleStageConstraints
  | Stage_ArithmeticOverflow | Stage_VerificationFailure | Stage_InternalError

datatype StageSchedulingDiagnosticCode =
    STAGE_INVALID_TARGET_DFG | STAGE_INVALID_MODULO_MAPPING | STAGE_UNKNOWN_NODE | STAGE_UNKNOWN_EDGE
  | STAGE_MISSING_STAGE | STAGE_DUPLICATE_STAGE | STAGE_CONSTRAINT_ARITHMETIC_OVERFLOW
  | STAGE_INFEASIBLE_POSITIVE_CYCLE | STAGE_OUTPUT_ARITHMETIC_OVERFLOW
  | STAGE_FINAL_VERIFICATION_FAILED | STAGE_INTERNAL_ERROR

datatype StageSchedulingDiagnostic =
  StDiag StageSchedulingDiagnosticCode "TargetNodeId option" "TargetEdgeId option"

record StageSchedulingStats =
  st_constraints :: nat
  st_relaxationRounds :: nat
  st_successfulRelaxations :: nat
  st_maxStage :: nat
  st_maxLogicalIssueTime :: nat

record StageConstraintCycleWitness =
  cw_nodes :: "TargetNodeId list"
  cw_edges :: "TargetEdgeId list"
  cw_totalMinimumStageDelta :: int

record StageSchedulingResult =
  ss_status :: StageSchedulingStatus
  ss_mapping :: "StagedMapping option"
  ss_stats :: StageSchedulingStats
  ss_witness :: "StageConstraintCycleWitness option"
  ss_diagnostics :: "StageSchedulingDiagnostic list"

definition empty_stats :: StageSchedulingStats where
  "empty_stats = \<lparr>st_constraints = 0, st_relaxationRounds = 0, st_successfulRelaxations = 0,
     st_maxStage = 0, st_maxLogicalIssueTime = 0\<rparr>"

definition stage_failure ::
  "StageSchedulingStatus \<Rightarrow> StageSchedulingStats \<Rightarrow> StageConstraintCycleWitness option \<Rightarrow>
   StageSchedulingDiagnostic \<Rightarrow> StageSchedulingResult" where
  "stage_failure status stats w d = \<lparr>ss_status = status, ss_mapping = None, ss_stats = stats,
     ss_witness = w, ss_diagnostics = [d]\<rparr>"

section \<open>Constraints\<close>

definition checkedSignedAdd :: "int \<Rightarrow> int \<Rightarrow> int option" where
  "checkedSignedAdd lhs rhs =
     (if (rhs > 0 \<and> lhs > i64_max - rhs) \<or> (rhs < 0 \<and> lhs < i64_min - rhs) then None
      else Some (lhs + rhs))"

definition ceilDivSigned :: "int \<Rightarrow> int \<Rightarrow> int result" where
  "ceilDivSigned numerator positiveDenominator =
     (if positiveDenominator \<le> 0 then Inl Invalid_Argument
      else
        let quotient = numerator sdiv positiveDenominator;
            remainder = numerator smod positiveDenominator
        in if remainder \<noteq> 0 \<and> numerator > 0
           then (if quotient = i64_max then Inl Overflow_Error else Inr (quotient + 1))
           else Inr quotient)"

text \<open>The constraint of one edge; \<open>None\<close> is the early return on overflow.\<close>

definition stageConstraint :: "ModuloMapping \<Rightarrow> TargetEdge \<Rightarrow> StageConstraint option result" where
  "stageConstraint m e =
     bindR (mm_placement m (te_src e)) (\<lambda>source.
     bindR (mm_placement m (te_dst e)) (\<lambda>destination.
     bindR (mm_dependence m (te_id e)) (\<lambda>dependence.
       let slotDifference = int (pl_issueSlot destination) - int (pl_issueSlot source);
           numerator = int (md_requiredSeparation dependence) - slotDifference
       in bindR (ceilDivSigned numerator (int (mm_ii m))) (\<lambda>delta.
            if int (te_distance e) > delta \<and> delta < i64_min + int (te_distance e) then Inr None
            else Inr (Some \<lparr>sc_edge = te_id e, sc_src = te_src e, sc_dst = te_dst e,
                   sc_minimumStageDelta = delta - int (te_distance e), sc_distance = te_distance e,
                   sc_requiredSeparation = md_requiredSeparation dependence\<rparr>)))))"

fun stageConstraints :: "ModuloMapping \<Rightarrow> TargetEdge list \<Rightarrow> (TargetEdgeId + StageConstraint list) result" where
  "stageConstraints m [] = Inr (Inr [])"
| "stageConstraints m (e # es) =
     bindR (stageConstraint m e) (\<lambda>c.
       case c of
         None \<Rightarrow> Inr (Inl (te_id e))
       | Some c \<Rightarrow>
           bindR (stageConstraints m es) (\<lambda>r.
             case r of Inl i \<Rightarrow> Inr (Inl i) | Inr cs \<Rightarrow> Inr (Inr (c # cs))))"

section \<open>Relaxation\<close>

record RelaxState =
  rx_stages :: "nat list"
  rx_predecessor :: "nat option list"
  rx_predecessorEdge :: "TargetEdgeId option list"
  rx_lastUpdated :: "nat option"
  rx_changed :: bool
  rx_stats :: StageSchedulingStats

datatype RelaxOutcome =
    RX_Overflow TargetNodeId TargetEdgeId RelaxState
  | RX_Infeasible RelaxState
  | RX_Converged RelaxState

definition index_at :: "TargetNodeId list \<Rightarrow> TargetNodeId \<Rightarrow> nat result" where
  "index_at nodes i = (case index_of i nodes of None \<Rightarrow> Inl Out_Of_Range | Some k \<Rightarrow> Inr k)"

text \<open>One relaxation; \<open>None\<close> is the early return on overflow.\<close>

definition relaxConstraint ::
  "TargetNodeId list \<Rightarrow> RelaxState \<Rightarrow> StageConstraint \<Rightarrow> RelaxState option result" where
  "relaxConstraint nodes st c =
     bindR (index_at nodes (sc_src c)) (\<lambda>sourceIndex.
     bindR (index_at nodes (sc_dst c)) (\<lambda>destinationIndex.
       if int (rx_stages st ! sourceIndex) > i64_max then Inr None
       else case checkedSignedAdd (int (rx_stages st ! sourceIndex)) (sc_minimumStageDelta c) of
         None \<Rightarrow> Inr None
       | Some signedCandidate \<Rightarrow>
           if signedCandidate > 0 \<and> nat signedCandidate > rx_stages st ! destinationIndex then
             Inr (Some (st\<lparr>rx_stages := (rx_stages st)[destinationIndex := nat signedCandidate],
               rx_predecessor := (rx_predecessor st)[destinationIndex := Some sourceIndex],
               rx_predecessorEdge := (rx_predecessorEdge st)[destinationIndex := Some (sc_edge c)],
               rx_changed := True, rx_lastUpdated := Some destinationIndex,
               rx_stats := (rx_stats st)\<lparr>st_successfulRelaxations :=
                 st_successfulRelaxations (rx_stats st) + 1\<rparr>\<rparr>))
           else Inr (Some st)))"

fun relaxAll ::
  "TargetNodeId list \<Rightarrow> RelaxState \<Rightarrow> StageConstraint list \<Rightarrow>
   ((TargetNodeId \<times> TargetEdgeId \<times> RelaxState) + RelaxState) result" where
  "relaxAll nodes st [] = Inr (Inr st)"
| "relaxAll nodes st (c # cs) =
     bindR (relaxConstraint nodes st c) (\<lambda>r.
       case r of
         None \<Rightarrow> Inr (Inl (sc_dst c, sc_edge c, st))
       | Some st' \<Rightarrow> relaxAll nodes st' cs)"

text \<open>The loop over the rounds, with the number of rounds left.\<close>

fun relaxRounds ::
  "TargetNodeId list \<Rightarrow> StageConstraint list \<Rightarrow> nat \<Rightarrow> nat \<Rightarrow> RelaxState \<Rightarrow> RelaxOutcome result" where
  "relaxRounds nodes cs round 0 st = Inr (RX_Converged st)"
| "relaxRounds nodes cs round (Suc left) st =
     bindR (relaxAll nodes (st\<lparr>rx_changed := False, rx_lastUpdated := None\<rparr>) cs) (\<lambda>r.
       case r of
         Inl (node, edge, st') \<Rightarrow> Inr (RX_Overflow node edge st')
       | Inr st1 \<Rightarrow>
           let st' = st1\<lparr>rx_stats := (rx_stats st1)\<lparr>st_relaxationRounds := round + 1\<rparr>\<rparr>
           in if \<not> rx_changed st' then Inr (RX_Converged st')
              else if round + 1 = length nodes \<and> rx_lastUpdated st' \<noteq> None then Inr (RX_Infeasible st')
              else relaxRounds nodes cs (round + 1) left st')"

definition initial_relax :: "nat \<Rightarrow> nat \<Rightarrow> RelaxState" where
  "initial_relax n constraints = \<lparr>rx_stages = replicate n 0, rx_predecessor = replicate n None,
     rx_predecessorEdge = replicate n None, rx_lastUpdated = None, rx_changed = False,
     rx_stats = empty_stats\<lparr>st_constraints := constraints\<rparr>\<rparr>"

section \<open>The cycle reported for infeasible constraints\<close>

fun walk_back :: "RelaxState \<Rightarrow> nat \<Rightarrow> nat \<Rightarrow> nat option" where
  "walk_back st 0 current = Some current"
| "walk_back st (Suc k) current =
     (case (rx_predecessor st ! current, rx_predecessorEdge st ! current) of
        (Some p, Some _) \<Rightarrow> walk_back st k p
      | _ \<Rightarrow> None)"

text \<open>The do-while loop that collects the cycle; it stops after one node more than there are.\<close>

fun collect_cycle ::
  "TargetNodeId list \<Rightarrow> RelaxState \<Rightarrow> nat \<Rightarrow> nat \<Rightarrow> nat \<Rightarrow> TargetNodeId list \<Rightarrow> TargetEdgeId list \<Rightarrow>
   (nat \<times> TargetNodeId list \<times> TargetEdgeId list) option" where
  "collect_cycle nodes st cycleStart 0 current ns es = Some (current, ns, es)"
| "collect_cycle nodes st cycleStart (Suc k) current ns es =
     (case (rx_predecessor st ! current, rx_predecessorEdge st ! current) of
        (Some p, Some e) \<Rightarrow>
          if p = cycleStart then Some (p, ns @ [nodes ! current], es @ [e])
          else collect_cycle nodes st cycleStart k p (ns @ [nodes ! current]) (es @ [e])
      | _ \<Rightarrow> None)"

fun total_delta :: "StageConstraint list \<Rightarrow> int \<Rightarrow> TargetEdgeId list \<Rightarrow> int option" where
  "total_delta cs acc [] = Some acc"
| "total_delta cs acc (e # es) =
     (case find_by sc_edge e cs of
        None \<Rightarrow> None
      | Some c \<Rightarrow>
          (case checkedSignedAdd acc (sc_minimumStageDelta c) of
             None \<Rightarrow> None | Some acc' \<Rightarrow> total_delta cs acc' es))"

definition rotate_by :: "nat \<Rightarrow> 'a list \<Rightarrow> 'a list" where
  "rotate_by k xs = drop k xs @ take k xs"

definition witnessFor ::
  "TargetNodeId list \<Rightarrow> RelaxState \<Rightarrow> nat \<Rightarrow> StageConstraint list \<Rightarrow> StageConstraintCycleWitness option" where
  "witnessFor nodes st updated byEdge =
     (if nodes = [] \<or> rx_predecessor st ! updated = None \<or> rx_predecessorEdge st ! updated = None then None
      else case walk_back st (length nodes) updated of
        None \<Rightarrow> None
      | Some cycleStart \<Rightarrow>
          (case collect_cycle nodes st cycleStart (length nodes + 1) cycleStart [] [] of
             None \<Rightarrow> None
           | Some (current, cycleNodes, cycleEdges) \<Rightarrow>
               if current \<noteq> cycleStart \<or> cycleNodes = [] then None
               else
                 let k = the (index_of (Min (set cycleNodes)) cycleNodes);
                     ns = rotate_by k cycleNodes;
                     es = rotate_by k cycleEdges
                 in case total_delta byEdge 0 es of
                      None \<Rightarrow> None
                    | Some acc \<Rightarrow> Some \<lparr>cw_nodes = ns, cw_edges = es, cw_totalMinimumStageDelta = acc\<rparr>))"

section \<open>The scheduler\<close>

text \<open>The part under the last \<open>try\<close>: the staged mapping, its statistics and its verification.\<close>

fun max_issue_time :: "StagedMapping \<Rightarrow> nat \<Rightarrow> TargetNode list \<Rightarrow> nat \<times> exn option" where
  "max_issue_time sm m [] = (m, None)"
| "max_issue_time sm m (n # ns) =
     (case logicalIssueTime sm (tn_id n) of
        Inl e \<Rightarrow> (m, Some e)
      | Inr time \<Rightarrow> max_issue_time sm (max m time) ns)"

definition stageOutput ::
  "TargetDFG \<Rightarrow> TargetModel \<Rightarrow> ModuloMapping \<Rightarrow> NodeStage list \<Rightarrow> StageSchedulingStats \<Rightarrow> StageSchedulingResult" where
  "stageOutput g t m assignments stats =
     (let caught = (\<lambda>stats e.
            if e = Overflow_Error
            then stage_failure Stage_ArithmeticOverflow stats None (StDiag STAGE_OUTPUT_ARITHMETIC_OVERFLOW None None)
            else stage_failure Stage_InternalError stats None (StDiag STAGE_INTERNAL_ERROR None None))
      in case mk_StagedMapping m assignments of
           Inl e \<Rightarrow> caught stats e
         | Inr staged \<Rightarrow>
             let stats1 = stats\<lparr>st_maxStage := sm_maxStage staged\<rparr> in
             case max_issue_time staged 0 (td_nodes g) of
               (time, raised) \<Rightarrow>
                 let stats2 = stats1\<lparr>st_maxLogicalIssueTime := time\<rparr> in
                 (case raised of
                    Some e \<Rightarrow> caught stats2 e
                  | None \<Rightarrow>
                      (case stages_verify g t staged of
                         Inl e \<Rightarrow> caught stats2 e
                       | Inr [] \<Rightarrow> \<lparr>ss_status = Stage_Success, ss_mapping = Some staged, ss_stats = stats2,
                                   ss_witness = None, ss_diagnostics = []\<rparr>
                       | Inr (_ # _) \<Rightarrow> stage_failure Stage_VerificationFailure stats2 None
                                         (StDiag STAGE_FINAL_VERIFICATION_FAILED None None))))"

text \<open>What follows the relaxation.\<close>

definition stageFinish ::
  "TargetDFG \<Rightarrow> TargetModel \<Rightarrow> ModuloMapping \<Rightarrow> TargetNodeId list \<Rightarrow> StageConstraint list \<Rightarrow> RelaxOutcome \<Rightarrow>
   StageSchedulingResult" where
  "stageFinish g t m nodes constraints outcome =
     (case outcome of
        RX_Overflow node edge st \<Rightarrow>
          stage_failure Stage_ArithmeticOverflow (rx_stats st) None
            (StDiag STAGE_CONSTRAINT_ARITHMETIC_OVERFLOW (Some node) (Some edge))
      | RX_Infeasible st \<Rightarrow>
          stage_failure Stage_InfeasibleStageConstraints (rx_stats st)
            (witnessFor nodes st (the (rx_lastUpdated st)) constraints)
            (StDiag STAGE_INFEASIBLE_POSITIVE_CYCLE None None)
      | RX_Converged st \<Rightarrow>
          stageOutput g t m
            (map (\<lambda>(i, s). \<lparr>ns_node = i, ns_stage = s\<rparr>) (zip nodes (rx_stages st)))
            (rx_stats st))"

definition schedule :: "TargetDFG \<Rightarrow> TargetModel \<Rightarrow> ModuloMapping \<Rightarrow> StageSchedulingResult result" where
  "schedule g t m =
     (let fail = (\<lambda>status c node edge. Inr (stage_failure status empty_stats None (StDiag c node edge))) in
      bindR (tdfg_verify g t None) (\<lambda>targetReport.
        if targetReport \<noteq> [] then fail Stage_InvalidTargetDFG STAGE_INVALID_TARGET_DFG None None
        else if td_targetName g \<noteq> tm_name t then fail Stage_InvalidTargetDFG STAGE_INVALID_TARGET_DFG None None
        else if mm_ii m = 0 then fail Stage_InvalidModuloMapping STAGE_INVALID_MODULO_MAPPING None None
        else bindR (mapping_verify g t m) (\<lambda>moduloReport.
          if moduloReport \<noteq> [] then fail Stage_InvalidModuloMapping STAGE_INVALID_MODULO_MAPPING None None
          else
            let nodes = sort (map tn_id (td_nodes g)) in
            case stageConstraints m (td_edges g) of
              Inl Overflow_Error \<Rightarrow> fail Stage_ArithmeticOverflow STAGE_CONSTRAINT_ARITHMETIC_OVERFLOW None None
            | Inl Out_Of_Range \<Rightarrow> fail Stage_InvalidModuloMapping STAGE_INVALID_MODULO_MAPPING None None
            | Inl e \<Rightarrow> Inl e
            | Inr (Inl edge) \<Rightarrow>
                fail Stage_ArithmeticOverflow STAGE_CONSTRAINT_ARITHMETIC_OVERFLOW None (Some edge)
            | Inr (Inr constraints) \<Rightarrow>
                let ordered = sort_key sc_edge constraints in
                bindR (relaxRounds nodes ordered 0 (length nodes) (initial_relax (length nodes) (length ordered)))
                 (\<lambda>outcome. Inr (stageFinish g t m nodes constraints outcome)))))"

end
