(* ===== verification/Schedule_Sound.thy ===== *)
theory Schedule_Sound
  imports Schedule_Stages Example_Mapping
begin

text \<open>
  Correctness of stage scheduling.  A stage assignment is good if every dependence holds in every
  iteration of the pipeline.  The verifier accepts only good assignments; the scheduler finds the
  least one whenever there is one within the range of the machine integers, and its verdict of
  infeasibility is right.
\<close>

section \<open>The specification\<close>

definition slot_of :: "ModuloMapping \<Rightarrow> TargetNodeId \<Rightarrow> nat" where
  "slot_of m i = (case find_by pl_node i (mm_placements m) of None \<Rightarrow> 0 | Some p \<Rightarrow> pl_issueSlot p)"

definition separation_of :: "ModuloMapping \<Rightarrow> TargetEdgeId \<Rightarrow> nat" where
  "separation_of m i = (case find_by md_edge i (mm_dependences m) of None \<Rightarrow> 0 | Some d \<Rightarrow> md_requiredSeparation d)"

text \<open>The cycle at which iteration \<open>i\<close> of a node issues.\<close>

definition issue_cycle :: "ModuloMapping \<Rightarrow> (TargetNodeId \<Rightarrow> nat) \<Rightarrow> TargetNodeId \<Rightarrow> nat \<Rightarrow> nat" where
  "issue_cycle m stage n i = (stage n + i) * mm_ii m + slot_of m n"

definition dependences_hold :: "TargetDFG \<Rightarrow> ModuloMapping \<Rightarrow> (TargetNodeId \<Rightarrow> nat) \<Rightarrow> bool" where
  "dependences_hold g m stage \<longleftrightarrow>
     (\<forall>e \<in> set (td_edges g). \<forall>i.
        issue_cycle m stage (te_src e) i + separation_of m (te_id e) \<le>
        issue_cycle m stage (te_dst e) (i + te_distance e))"

lemma dependence_iff:
  "(\<forall>i. issue_cycle m stage a i + d \<le> issue_cycle m stage b (i + k)) \<longleftrightarrow>
   stage a * mm_ii m + slot_of m a + d \<le> (stage b + k) * mm_ii m + slot_of m b"
  by (auto simp: issue_cycle_def add_mult_distrib dest: spec [of _ 0])

section \<open>Ceiling division\<close>

lemma ceilDivSigned_eq:
  assumes d: "0 < d" and max: "a \<le> i64_max"
  shows "ceilDivSigned a d = Inr (- ((- a) div d))"
proof (cases "a > 0")
  case True
  have q: "a sdiv d = a div d" "a smod d = a mod d"
    using True d by (simp_all add: signed_divide_int_def signed_modulo_int_def minus_div_mult_eq_mod)
  show ?thesis
  proof (cases "a mod d = 0")
    case True
    with q d show ?thesis by (simp add: ceilDivSigned_def zdiv_zminus1_eq_if)
  next
    case False
    have "a div d \<noteq> i64_max"
    proof
      assume e: "a div d = i64_max"
      have "d \<noteq> 1" using False by auto
      with d have "i64_max * 2 \<le> i64_max * d" by simp
      moreover have "a div d * d \<le> a" using div_mult_mod_eq [of a d] pos_mod_sign [OF d, of a] by linarith
      ultimately show False using e max by simp
    qed
    with q d True False show ?thesis by (simp add: ceilDivSigned_def zdiv_zminus1_eq_if)
  qed
next
  case False
  then have "a sdiv d = - ((- a) div d)"
    using d by (cases "a = 0") (simp_all add: signed_divide_int_def)
  with False d show ?thesis by (simp add: ceilDivSigned_def)
qed

text \<open>The least quotient that reaches the numerator.\<close>

lemma ceil_le_iff:
  assumes "0 < (d :: int)"
  shows "- ((- a) div d) \<le> x \<longleftrightarrow> a \<le> x * d"
proof
  assume "a \<le> x * d"
  then have "(- x * d) div d \<le> (- a) div d" using assms by (intro zdiv_mono1) simp_all
  moreover have "(- x * d) div d = - x" using assms by (intro nonzero_mult_div_cancel_right) simp
  ultimately show "- ((- a) div d) \<le> x" by linarith
next
  assume "- ((- a) div d) \<le> x"
  then have "- ((- a) div d) * d \<le> x * d" using assms by (intro mult_right_mono) simp_all
  moreover have "(- a) div d * d \<le> - a"
    using div_mult_mod_eq [of "- a" d] pos_mod_sign [OF assms, of "- a"] by linarith
  ultimately show "a \<le> x * d" by simp
qed

section \<open>Constraints\<close>

lemma mm_placement_eq: "mm_placement m i = Inr p \<Longrightarrow> slot_of m i = pl_issueSlot p"
  by (auto simp: mm_placement_def slot_of_def split: option.splits)

lemma mm_dependence_eq: "mm_dependence m i = Inr d \<Longrightarrow> separation_of m i = md_requiredSeparation d"
  by (auto simp: mm_dependence_def separation_of_def split: option.splits)

text \<open>The constraint of an edge says exactly that the dependence holds, in every iteration.\<close>

lemma stageConstraint_meaning:
  assumes c: "stageConstraint m e = Inr (Some c)" and ii: "0 < mm_ii m"
    and max: "int (separation_of m (te_id e)) + int (slot_of m (te_src e)) \<le> i64_max"
  shows "sc_edge c = te_id e \<and> sc_src c = te_src e \<and> sc_dst c = te_dst e \<and>
    (int a + sc_minimumStageDelta c \<le> int b \<longleftrightarrow>
     a * mm_ii m + slot_of m (te_src e) + separation_of m (te_id e) \<le>
     (b + te_distance e) * mm_ii m + slot_of m (te_dst e))"
proof -
  let ?num = "int (separation_of m (te_id e)) - (int (slot_of m (te_dst e)) - int (slot_of m (te_src e)))"
  let ?ii = "int (mm_ii m)"
  have d: "ceilDivSigned ?num ?ii = Inr (- ((- ?num) div ?ii))"
    by (rule ceilDivSigned_eq) (use ii max in auto)
  have c': "c = \<lparr>sc_edge = te_id e, sc_src = te_src e, sc_dst = te_dst e,
      sc_minimumStageDelta = - ((- ?num) div ?ii) - int (te_distance e), sc_distance = te_distance e,
      sc_requiredSeparation = separation_of m (te_id e)\<rparr>"
    using c d by (auto simp: stageConstraint_def Let_def bindR_eq_Inr mm_placement_eq mm_dependence_eq
        split: if_splits)
  have "int a + sc_minimumStageDelta c \<le> int b \<longleftrightarrow>
      - ((- ?num) div ?ii) \<le> int b + int (te_distance e) - int a" by (simp add: c' algebra_simps)
  also have "\<dots> \<longleftrightarrow> ?num \<le> (int b + int (te_distance e) - int a) * ?ii"
    by (rule ceil_le_iff) (use ii in simp)
  also have "\<dots> \<longleftrightarrow> int (a * mm_ii m + slot_of m (te_src e) + separation_of m (te_id e)) \<le>
      int ((b + te_distance e) * mm_ii m + slot_of m (te_dst e))"
    by (simp add: algebra_simps)
  finally show ?thesis by (simp add: c' del: of_nat_add of_nat_mult)
qed

section \<open>The relaxation solves the constraints\<close>

definition indexed :: "TargetNodeId list \<Rightarrow> StageConstraint \<Rightarrow> constraint" where
  "indexed nodes c =
     (the (index_of (sc_src c) nodes), the (index_of (sc_dst c) nodes), sc_minimumStageDelta c)"

lemma relaxConstraint_cases:
  assumes "relaxConstraint nodes st c = Inr (Some st')" and "indexed nodes c = (s, d, w)"
  shows "(int (rx_stages st ! d) < int (rx_stages st ! s) + w \<and> rx_changed st' \<and> rx_lastUpdated st' \<noteq> None \<and>
          rx_stages st' = (rx_stages st)[d := nat (int (rx_stages st ! s) + w)]) \<or>
         (int (rx_stages st ! s) + w \<le> int (rx_stages st ! d) \<and> st' = st)"
  using assms
  by (auto simp: relaxConstraint_def indexed_def index_at_def bindR_eq_Inr checkedSignedAdd_def
      split: option.splits if_splits)

interpretation stages: relaxation "length nodes" "\<lambda>st. length (rx_stages st) = length nodes"
  "\<lambda>st v. int (rx_stages st ! v)" "indexed nodes" "\<lambda>st c st'. relaxConstraint nodes st c = Inr (Some st')"
  for nodes :: "TargetNodeId list"
proof
  fix st st' :: RelaxState and c :: StageConstraint and s d w and v :: nat
  assume i: "length (rx_stages st) = length nodes"
    and r: "relaxConstraint nodes st c = Inr (Some st')"
  show "length (rx_stages st') = length nodes"
    using relaxConstraint_cases [OF r] i by (metis length_list_update prod_cases3)
  assume c: "indexed nodes c = (s, d, w)" and sd: "s < length nodes" "d < length nodes" "v < length nodes"
  show "int (rx_stages st' ! v) =
      (if v = d then max (int (rx_stages st ! d)) (int (rx_stages st ! s) + w) else int (rx_stages st ! v))"
    using relaxConstraint_cases [OF r c] i sd by (auto simp: nth_list_update)
qed

lemma relaxAll_sweep:
  "relaxAll nodes st cs = Inr (Inr st') \<Longrightarrow> stages.sweep nodes st cs st'"
proof (induction cs arbitrary: st)
  case Nil
  then show ?case by (simp add: stages.sweep.stop)
next
  case (Cons c cs)
  then show ?case by (auto simp: bindR_eq_Inr split: option.splits intro: stages.sweep.step)
qed

text \<open>The flag tells whether a pass changed a stage.\<close>

lemma relaxAll_changed_mono: "relaxAll nodes st cs = Inr (Inr st') \<Longrightarrow> rx_changed st \<Longrightarrow> rx_changed st'"
proof (induction cs arbitrary: st)
  case (Cons c cs)
  then obtain st1 where 1: "relaxConstraint nodes st c = Inr (Some st1)" "relaxAll nodes st1 cs = Inr (Inr st')"
    by (auto simp: bindR_eq_Inr split: option.splits)
  have "rx_changed st1" using relaxConstraint_cases [OF 1(1)] Cons.prems(2) by (metis prod_cases3)
  with Cons.IH [OF 1(2)] show ?case .
qed simp

lemma relaxAll_unchanged:
  "relaxAll nodes st cs = Inr (Inr st') \<Longrightarrow> \<not> rx_changed st' \<Longrightarrow> st' = st"
proof (induction cs arbitrary: st)
  case (Cons c cs)
  then obtain st1 where 1: "relaxConstraint nodes st c = Inr (Some st1)" "relaxAll nodes st1 cs = Inr (Inr st')"
    by (auto simp: bindR_eq_Inr split: option.splits)
  have "\<not> rx_changed st1" using relaxAll_changed_mono [OF 1(2)] Cons.prems(2) by blast
  then have "st1 = st" using relaxConstraint_cases [OF 1(1)] by (metis prod_cases3)
  with Cons.IH [OF 1(2) Cons.prems(2)] show ?case by simp
qed simp

lemma relaxAll_updated:
  "relaxAll nodes st cs = Inr (Inr st') \<Longrightarrow> (rx_changed st \<longrightarrow> rx_lastUpdated st \<noteq> None) \<Longrightarrow>
   rx_changed st' \<Longrightarrow> rx_lastUpdated st' \<noteq> None"
proof (induction cs arbitrary: st)
  case (Cons c cs)
  then obtain st1 where 1: "relaxConstraint nodes st c = Inr (Some st1)" "relaxAll nodes st1 cs = Inr (Inr st')"
    by (auto simp: bindR_eq_Inr split: option.splits)
  have "rx_changed st1 \<longrightarrow> rx_lastUpdated st1 \<noteq> None"
    using relaxConstraint_cases [OF 1(1)] Cons.prems(2) by (metis prod_cases3)
  with Cons.IH [OF 1(2) _ Cons.prems(3)] show ?case .
qed simp

lemma relaxAll_changed:
  assumes "relaxAll nodes st cs = Inr (Inr st')" and "stages.within nodes cs"
    and "length (rx_stages st) = length nodes" and "rx_changed st'" and "\<not> rx_changed st"
  shows "\<exists>v < length nodes. rx_stages st ! v \<noteq> rx_stages st' ! v"
  using assms
proof (induction cs arbitrary: st)
  case (Cons c cs)
  then obtain st1 where 1: "relaxConstraint nodes st c = Inr (Some st1)" "relaxAll nodes st1 cs = Inr (Inr st')"
    by (auto simp: bindR_eq_Inr split: option.splits)
  obtain s d w where c: "indexed nodes c = (s, d, w)" by (metis prod_cases3)
  have wi: "stages.within nodes [c]" "stages.within nodes cs" using Cons.prems(2) by (auto simp: stages.within_def)
  have d: "d < length nodes" using wi(1) c by (simp add: stages.within_def)
  note i1 = stages.relax_inv [OF Cons.prems(3) 1(1)]
  show ?case
  proof (cases "st1 = st")
    case True
    with Cons.IH [OF 1(2) wi(2)] Cons.prems show ?thesis by simp
  next
    case False
    with relaxConstraint_cases [OF 1(1) c] d Cons.prems(3) have "rx_stages st ! d < rx_stages st1 ! d" by auto
    moreover have "int (rx_stages st1 ! d) \<le> int (rx_stages st' ! d)"
      by (rule stages.sweep_mono [OF relaxAll_sweep [OF 1(2)] i1 wi(2) d])
    ultimately show ?thesis using d by (intro exI [of _ d]) simp
  qed
qed simp

text \<open>What the rounds deliver, from a state reached by \<open>round\<close> passes.\<close>

lemma relaxRounds_spec:
  assumes "relaxRounds nodes cs round left st = Inr out" and "stages.within nodes cs"
    and "stages.sweeps nodes cs round st0 s" and "rx_stages s = rx_stages st"
    and "length (rx_stages st0) = length nodes"
    and "round + left = length nodes" and "left = 0 \<longrightarrow> length nodes = 0"
  shows "case out of
      RX_Overflow _ _ _ \<Rightarrow> True
    | RX_Infeasible _ \<Rightarrow> \<exists>k s s1 s2. length nodes = Suc k \<and> stages.sweeps nodes cs k st0 s \<and>
        rx_stages s1 = rx_stages s \<and> stages.sweep nodes s1 cs s2 \<and>
        (\<exists>v < length nodes. rx_stages s1 ! v \<noteq> rx_stages s2 ! v)
    | RX_Converged st2 \<Rightarrow> length (rx_stages st2) = length nodes \<and> (length nodes = 0 \<or>
        (\<exists>k s s1. stages.sweeps nodes cs k st0 s \<and> rx_stages s1 = rx_stages s \<and>
           rx_stages st2 = rx_stages s \<and> stages.sweep nodes s1 cs s1))"
  using assms
proof (induction left arbitrary: round st s)
  case 0
  then show ?case using stages.sweeps_inv [OF 0(3)] by auto
next
  case (Suc left)
  let ?st = "st\<lparr>rx_changed := False, rx_lastUpdated := None\<rparr>"
  have len: "length (rx_stages st) = length nodes"
    using stages.sweeps_inv [OF Suc.prems(3) Suc.prems(5)] Suc.prems(4) by simp
  show ?case
  proof (cases "relaxAll nodes ?st cs")
    case (Inl e)
    with Suc.prems(1) show ?thesis by simp
  next
    case (Inr r)
    show ?thesis
    proof (cases r)
      case (Inl x)
      with Inr Suc.prems(1) show ?thesis by (auto split: prod.splits)
    next
      case r: (Inr st1)
      note ra = Inr [unfolded r]
      let ?st1 = "st1\<lparr>rx_stats := (rx_stats st1)\<lparr>st_relaxationRounds := round + 1\<rparr>\<rparr>"
      note sw = relaxAll_sweep [OF ra]
      show ?thesis
      proof (cases "rx_changed st1")
        case False
        then have "st1 = ?st" by (rule relaxAll_unchanged [OF ra])
        with sw have loop: "stages.sweep nodes ?st cs ?st" by simp
        have "out = RX_Converged ?st1" using Suc.prems(1) ra False by simp
        moreover have "length (rx_stages ?st1) = length nodes" using \<open>st1 = ?st\<close> len by simp
        moreover have "rx_stages ?st = rx_stages s" "rx_stages ?st1 = rx_stages s"
          using \<open>st1 = ?st\<close> Suc.prems(4) by simp_all
        ultimately show ?thesis using Suc.prems(3) loop by auto
      next
        case True
        have upd: "rx_lastUpdated st1 \<noteq> None" by (rule relaxAll_updated [OF ra _ True]) simp
        show ?thesis
        proof (cases "round + 1 = length nodes")
          case last: True
          have out: "out = RX_Infeasible ?st1" using Suc.prems(1) ra True upd last by simp
          have ch: "\<exists>v < length nodes. rx_stages ?st ! v \<noteq> rx_stages st1 ! v"
            by (rule relaxAll_changed [OF ra Suc.prems(2) _ True]) (use len in simp_all)
          have st: "rx_stages ?st = rx_stages s" using Suc.prems(4) by simp
          have n: "length nodes = Suc round" using last by simp
          show ?thesis unfolding out RelaxOutcome.case
            by (intro exI [of _ round] exI [of _ s] exI [of _ ?st] exI [of _ st1] conjI n Suc.prems(3) st sw ch)
        next
          case more: False
          have rec: "relaxRounds nodes cs (round + 1) left ?st1 = Inr out" using Suc.prems(1) ra True more by simp
          have sws: "stages.sweeps nodes cs (round + 1) st0 st1"
            using stages.sweeps.more [OF Suc.prems(3) _ _ sw] len Suc.prems(4) by simp
          show ?thesis
            by (rule Suc.IH [OF rec Suc.prems(2) sws]) (use Suc.prems more in auto)
        qed
      qed
    qed
  qed
qed

lemma initial_dist [simp]:
  "v < n \<Longrightarrow> rx_stages (initial_relax n k) ! v = 0" "length (rx_stages (initial_relax n k)) = n"
  by (simp_all add: initial_relax_def)

lemma relaxRounds_infeasible:
  assumes r: "relaxRounds nodes cs 0 (length nodes) (initial_relax (length nodes) k0) = Inr (RX_Infeasible st)"
    and wi: "stages.within nodes cs" and sol: "solution (indexed nodes ` set cs) f" "\<forall>v < length nodes. 0 \<le> f v"
  shows False
proof -
  let ?st0 = "initial_relax (length nodes) k0"
  have i0: "length (rx_stages ?st0) = length nodes" by simp
  from relaxRounds_spec [OF r wi stages.sweeps.none refl i0]
  obtain k s s1 s2 v where k: "length nodes = Suc k" "stages.sweeps nodes cs k ?st0 s"
      "rx_stages s1 = rx_stages s" "stages.sweep nodes s1 cs s2"
      "v < length nodes" "rx_stages s1 ! v \<noteq> rx_stages s2 ! v"
    unfolding RelaxOutcome.case by auto
  have "int (rx_stages s2 ! v) = int (rx_stages s1 ! v)"
  proof (rule stages.no_late_change [OF sol wi i0 _ k(2) _ _ _ k(4,5)])
    show "length (rx_stages s1) = length nodes" using stages.sweeps_inv [OF k(2) i0] k(3) by simp
  qed (use k(1,3) in simp_all)
  with k(6) show False by simp
qed

lemma relaxRounds_converged:
  assumes r: "relaxRounds nodes cs 0 (length nodes) (initial_relax (length nodes) k0) = Inr (RX_Converged st)"
    and wi: "stages.within nodes cs"
  shows "length (rx_stages st) = length nodes" and "solution (indexed nodes ` set cs) (\<lambda>v. int (rx_stages st ! v))"
    and "solution (indexed nodes ` set cs) f \<Longrightarrow> \<forall>v < length nodes. 0 \<le> f v \<Longrightarrow> v < length nodes \<Longrightarrow>
         int (rx_stages st ! v) \<le> f v"
proof -
  let ?st0 = "initial_relax (length nodes) k0"
  have i0: "length (rx_stages ?st0) = length nodes" by simp
  have spec: "length (rx_stages st) = length nodes \<and> (length nodes = 0 \<or>
        (\<exists>k s s1. stages.sweeps nodes cs k ?st0 s \<and> rx_stages s1 = rx_stages s \<and>
           rx_stages st = rx_stages s \<and> stages.sweep nodes s1 cs s1))"
    using relaxRounds_spec [OF r wi stages.sweeps.none refl i0] unfolding RelaxOutcome.case by simp
  then show "length (rx_stages st) = length nodes" by simp
  show "solution (indexed nodes ` set cs) (\<lambda>v. int (rx_stages st ! v))"
  proof (cases "length nodes = 0")
    case True
    have "(s, d, w) \<notin> indexed nodes ` set cs" for s d w using stages.within_mem(1) [OF wi, of s d w] True by force
    then show ?thesis by (intro solutionI) simp
  next
    case False
    with spec obtain k s s1 where s: "stages.sweeps nodes cs k ?st0 s" "rx_stages s1 = rx_stages s"
        "rx_stages st = rx_stages s" "stages.sweep nodes s1 cs s1" by auto
    have "length (rx_stages s1) = length nodes" using stages.sweeps_inv [OF s(1) i0] s(2) by simp
    from stages.stable_solution [OF s(4) this wi] s(2,3) show ?thesis by simp
  qed
  show "int (rx_stages st ! v) \<le> f v"
    if f: "solution (indexed nodes ` set cs) f" "\<forall>v < length nodes. 0 \<le> f v" "v < length nodes"
  proof -
    from spec f(3) obtain k s where s: "stages.sweeps nodes cs k ?st0 s" "rx_stages st = rx_stages s" by auto
    from stages.sweeps_below [OF s(1) i0 wi f(1)] f(2,3) s(2) show ?thesis by simp
  qed
qed

section \<open>Stage assignments and solutions\<close>

text \<open>The 32-bit fields the scheduler reads.\<close>

definition u32_fields :: "TargetDFG \<Rightarrow> ModuloMapping \<Rightarrow> bool" where
  "u32_fields g m \<longleftrightarrow> mm_ii m \<le> u32_max \<and> (\<forall>p \<in> set (mm_placements m). pl_issueSlot p \<le> u32_max) \<and>
     (\<forall>d \<in> set (mm_dependences m). md_requiredSeparation d \<le> u32_max) \<and>
     (\<forall>e \<in> set (td_edges g). te_distance e \<le> u32_max)"

lemma u32_slot: "u32_fields g m \<Longrightarrow> slot_of m i \<le> u32_max"
  by (auto simp: u32_fields_def slot_of_def split: option.splits dest!: find_by_SomeD)

lemma u32_separation: "u32_fields g m \<Longrightarrow> separation_of m i \<le> u32_max"
  by (auto simp: u32_fields_def separation_of_def split: option.splits dest!: find_by_SomeD)

lemma stageConstraints_all:
  assumes "stageConstraints m es = Inr (Inr cs)"
  shows "\<forall>e \<in> set es. \<exists>c \<in> set cs. stageConstraint m e = Inr (Some c)"
    and "\<forall>c \<in> set cs. \<exists>e \<in> set es. stageConstraint m e = Inr (Some c)"
proof -
  have "(\<forall>e \<in> set es. \<exists>c \<in> set cs. stageConstraint m e = Inr (Some c)) \<and>
        (\<forall>c \<in> set cs. \<exists>e \<in> set es. stageConstraint m e = Inr (Some c))"
    using assms
  proof (induction es arbitrary: cs)
    case (Cons e es)
    from Cons.prems obtain c r where 1: "stageConstraint m e = Inr (Some c)" "stageConstraints m es = Inr r"
        "(case r of Inl i \<Rightarrow> Inr (Inl i) | Inr cs \<Rightarrow> Inr (Inr (c # cs))) =
          (Inr (Inr cs) :: (TargetEdgeId + StageConstraint list) result)"
      by (auto simp: bindR_eq_Inr split: option.splits)
    then obtain cs' where "r = Inr cs'" "cs = c # cs'" by (cases r) auto
    with 1 Cons.IH [of cs'] show ?case by auto
  qed simp
  then show "\<forall>e \<in> set es. \<exists>c \<in> set cs. stageConstraint m e = Inr (Some c)"
    "\<forall>c \<in> set cs. \<exists>e \<in> set es. stageConstraint m e = Inr (Some c)" by blast+
qed

lemma dependences_solution:
  assumes cs: "stageConstraints m (td_edges g) = Inr (Inr cs)" and u32: "u32_fields g m" and ii: "0 < mm_ii m"
    and ends: "\<forall>e \<in> set (td_edges g). te_src e \<in> set nodes \<and> te_dst e \<in> set nodes"
  shows "dependences_hold g m S \<longleftrightarrow> solution (indexed nodes ` set cs) (\<lambda>v. int (S (nodes ! v)))"
proof -
  let ?ok = "\<lambda>e. S (te_src e) * mm_ii m + slot_of m (te_src e) + separation_of m (te_id e) \<le>
    (S (te_dst e) + te_distance e) * mm_ii m + slot_of m (te_dst e)"
  let ?sat = "\<lambda>c. case indexed nodes c of (s, d, w) \<Rightarrow> int (S (nodes ! s)) + w \<le> int (S (nodes ! d))"
  have one: "?ok e \<longleftrightarrow> ?sat c"
    if c: "stageConstraint m e = Inr (Some c)" and e: "e \<in> set (td_edges g)" for e c
  proof -
    have max: "int (separation_of m (te_id e)) + int (slot_of m (te_src e)) \<le> i64_max"
      using u32_separation [OF u32, of "te_id e"] u32_slot [OF u32, of "te_src e"] by linarith
    note c = stageConstraint_meaning [OF c ii max]
    obtain s d where "index_of (te_src e) nodes = Some s" "index_of (te_dst e) nodes = Some d"
        "nodes ! s = te_src e" "nodes ! d = te_dst e"
      using ends e index_of_ex by metis
    then show ?thesis using c by (simp add: indexed_def)
  qed
  have "dependences_hold g m S \<longleftrightarrow> (\<forall>e \<in> set (td_edges g). ?ok e)"
    by (simp only: dependences_hold_def dependence_iff)
  also have "\<dots> \<longleftrightarrow> (\<forall>c \<in> set cs. ?sat c)"
    using stageConstraints_all [OF cs] one by (simp only: Ball_def Bex_def) meson
  also have "\<dots> \<longleftrightarrow> solution (indexed nodes ` set cs) (\<lambda>v. int (S (nodes ! v)))"
    by (auto simp: solution_def)
  finally show ?thesis .
qed

lemma constraints_within:
  assumes cs: "stageConstraints m (td_edges g) = Inr (Inr cs)" and u32: "u32_fields g m" and ii: "0 < mm_ii m"
    and ends: "\<forall>e \<in> set (td_edges g). te_src e \<in> set nodes \<and> te_dst e \<in> set nodes"
    and eq: "set cs' = set cs"
  shows "stages.within nodes cs'"
  unfolding stages.within_def
proof
  fix c
  assume "c \<in> set cs'"
  with eq stageConstraints_all [OF cs] obtain e where e: "e \<in> set (td_edges g)" "stageConstraint m e = Inr (Some c)"
    by blast
  have "int (separation_of m (te_id e)) + int (slot_of m (te_src e)) \<le> i64_max"
    using u32_separation [OF u32, of "te_id e"] u32_slot [OF u32, of "te_src e"] by linarith
  with stageConstraint_meaning [OF e(2) ii] have "sc_src c = te_src e" "sc_dst c = te_dst e" by auto
  moreover obtain s d where "index_of (te_src e) nodes = Some s" "index_of (te_dst e) nodes = Some d"
        "s < length nodes" "d < length nodes"
    using ends e index_of_ex by metis
  ultimately show "case indexed nodes c of (s, d, w) \<Rightarrow> s < length nodes \<and> d < length nodes"
    by (simp add: indexed_def)
qed

section \<open>Infeasibility\<close>

lemma stageOutput_status:
  "ss_status (stageOutput g t m as st) \<noteq> Stage_InfeasibleStageConstraints"
  by (simp add: stageOutput_def Let_def stage_failure_def split: sum.splits prod.splits option.splits list.splits)

lemma schedule_cases:
  assumes "schedule g t m = Inr r" and "ss_status r \<in> {Stage_Success, Stage_InfeasibleStageConstraints}"
  obtains cs out where "mapping_verify g t m = Inr []" "0 < mm_ii m"
    "stageConstraints m (td_edges g) = Inr (Inr cs)"
    "relaxRounds (sort (map tn_id (td_nodes g))) (sort_key sc_edge cs) 0 (length (td_nodes g))
       (initial_relax (length (td_nodes g)) (length cs)) = Inr out"
    "r = stageFinish g t m (sort (map tn_id (td_nodes g))) cs out"
  using assms
  by (auto simp: schedule_def Let_def bindR_eq_Inr stage_failure_def split: if_splits sum.splits exn.splits)

text \<open>The facts about an accepted mapping the schedule rests on.\<close>

lemma accepted_graph:
  assumes "mapping_verify g t m = Inr []"
  shows "distinct (map tn_id (td_nodes g))" and "0 < mm_ii m"
    and "\<forall>e \<in> set (td_edges g). te_src e \<in> tn_id ` set (td_nodes g) \<and> te_dst e \<in> tn_id ` set (td_nodes g)"
proof -
  have v: "tdfg_verify g t None = Inr []"
    using assms by (auto simp: mapping_verify_def Let_def bindR_eq_Inr split: if_splits)
  show "distinct (map tn_id (td_nodes g))" by (rule tdfg_verify_ids(1) [OF v])
  show "0 < mm_ii m" using mapping_verify_valid [OF assms] by (simp add: valid_mapping_def)
  show "\<forall>e \<in> set (td_edges g). te_src e \<in> tn_id ` set (td_nodes g) \<and> te_dst e \<in> tn_id ` set (td_nodes g)"
    using tdfg_verify_ids(3) [OF v] by (simp add: find_by_None_iff)
qed

text \<open>C21: When the scheduler reports infeasible stage constraints, the mapping cannot be pipelined at
  all: no assignment of stages makes every dependence hold in every iteration.\<close>

theorem schedule_infeasible:
  assumes "schedule g t m = Inr r" and "ss_status r = Stage_InfeasibleStageConstraints" and u32: "u32_fields g m"
  shows "\<not> dependences_hold g m S"
proof
  assume S: "dependences_hold g m S"
  let ?nodes = "sort (map tn_id (td_nodes g))"
  obtain cs out where a: "mapping_verify g t m = Inr []" "0 < mm_ii m"
      "stageConstraints m (td_edges g) = Inr (Inr cs)"
      "relaxRounds ?nodes (sort_key sc_edge cs) 0 (length (td_nodes g))
         (initial_relax (length (td_nodes g)) (length cs)) = Inr out"
      "r = stageFinish g t m ?nodes cs out"
    by (rule schedule_cases [OF assms(1)]) (simp add: assms(2))
  have ends: "\<forall>e \<in> set (td_edges g). te_src e \<in> set ?nodes \<and> te_dst e \<in> set ?nodes"
    using accepted_graph(3) [OF a(1)] by simp
  have wi: "stages.within ?nodes (sort_key sc_edge cs)"
    by (rule constraints_within [OF a(3) u32 a(2) ends]) simp
  have sol: "solution (indexed ?nodes ` set (sort_key sc_edge cs)) (\<lambda>v. int (S (?nodes ! v)))"
    using dependences_solution [OF a(3) u32 a(2) ends] S by simp
  obtain st where "out = RX_Infeasible st"
    using a(5) assms(2) stageOutput_status
    by (cases out) (auto simp: stageFinish_def stage_failure_def)
  with relaxRounds_infeasible [OF _ wi sol] a(4) show False by simp
qed

lemma demo_tight_infeasible:
  "\<exists>r. schedule demo_tdfg demo_target demo_tight = Inr r \<and> ss_status r = Stage_InfeasibleStageConstraints"
proof -
  have "case schedule demo_tdfg demo_target demo_tight of Inl _ \<Rightarrow> False
        | Inr r \<Rightarrow> ss_status r = Stage_InfeasibleStageConstraints" by code_simp
  then show ?thesis by (auto split: sum.splits)
qed

lemma demo_tight_fields: "u32_fields demo_tdfg demo_tight"
  by code_simp

theorem schedule_infeasible_witness: "\<forall>S. \<not> dependences_hold demo_tdfg demo_tight S"
  using demo_tight_infeasible schedule_infeasible [OF _ _ demo_tight_fields] by blast

section \<open>Soundness of the verifier\<close>

definition stage_of :: "StagedMapping \<Rightarrow> TargetNodeId \<Rightarrow> nat" where
  "stage_of sm i = (case sm_stage sm i of Inl _ \<Rightarrow> 0 | Inr s \<Rightarrow> s)"

lemma logicalIssueTime_eq:
  "logicalIssueTime sm i = Inr time \<Longrightarrow>
   time = stage_of sm i * mm_ii (sm_modulo sm) + slot_of (sm_modulo sm) i"
  by (auto simp: logicalIssueTime_def bindR_eq_Inr Let_def mm_placement_eq stage_of_def split: if_splits)

lemma foldR_list_silent:
  assumes "foldR f ds xs = Inr []" and "\<And>ds x ds'. x \<in> set xs \<Longrightarrow> f ds x = Inr ds' \<Longrightarrow> \<exists>y. ds' = ds @ y"
  shows "ds = [] \<and> (\<forall>x \<in> set xs. f [] x = Inr [])"
  using assms
proof (induction xs arbitrary: ds)
  case (Cons x xs)
  then obtain d where d: "f ds x = Inr d" "foldR f d xs = Inr []" by (auto simp: bindR_eq_Inr)
  have "d = [] \<and> (\<forall>x \<in> set xs. f [] x = Inr [])"
    by (rule Cons.IH [OF d(2)]) (rule Cons.prems(2), simp_all)
  moreover from this Cons.prems(2) [OF _ d(1)] have "ds = []" by auto
  ultimately show ?case using d(1) by simp
qed simp

lemma verifyIssueTime_all:
  assumes "foldR (verifyIssueTime sm) ([], []) ns = Inr (issueTimes, [])"
  shows "issueTimes = map (\<lambda>n. (tn_id n, projr (logicalIssueTime sm (tn_id n)))) ns \<and>
         (\<forall>n \<in> set ns. \<exists>time. logicalIssueTime sm (tn_id n) = Inr time)"
proof -
  let ?I = "\<lambda>T pre. T = map (\<lambda>n. (tn_id n, projr (logicalIssueTime sm (tn_id n)))) pre \<and>
    (\<forall>n \<in> set pre. \<exists>time. logicalIssueTime sm (tn_id n) = Inr time)"
  have "([] :: StageAssignmentDiagnostic list) = [] \<and> ?I issueTimes ([] @ ns)"
    by (rule foldR_silent [where I = ?I, OF assms])
       (auto simp: verifyIssueTime_def split: sum.splits exn.splits)
  then show ?thesis by simp
qed

lemma time_at_eq:
  assumes "time_at (map (\<lambda>n. (tn_id n, projr (logicalIssueTime sm (tn_id n)))) ns) i = Inr time"
    and "\<forall>n \<in> set ns. \<exists>time. logicalIssueTime sm (tn_id n) = Inr time"
  shows "time = stage_of sm i * mm_ii (sm_modulo sm) + slot_of (sm_modulo sm) i"
proof -
  from assms(1) obtain n where n: "n \<in> set ns" "tn_id n = i" "time = projr (logicalIssueTime sm i)"
    by (auto simp: time_at_def split: option.splits dest!: find_by_SomeD)
  with assms(2) have "logicalIssueTime sm i = Inr time" by fastforce
  then show ?thesis by (rule logicalIssueTime_eq)
qed

lemma verifyStagedEdge_silent:
  assumes "verifyStagedEdge sm ts [] e = Inr []"
  shows "\<exists>src dst. time_at ts (te_src e) = Inr src \<and> time_at ts (te_dst e) = Inr dst \<and>
    src + separation_of (sm_modulo sm) (te_id e) \<le> te_distance e * mm_ii (sm_modulo sm) + dst"
  using assms
  by (auto simp: verifyStagedEdge_def Let_def bindR_eq_Inr checkedMultiplyAdd_def mm_dependence_eq not_less
      split: option.splits if_splits)

lemma verifyStagedEdge_grows: "verifyStagedEdge sm ts ds e = Inr ds' \<Longrightarrow> \<exists>y. ds' = ds @ y"
  by (auto simp: verifyStagedEdge_def Let_def bindR_eq_Inr split: option.splits if_splits)

text \<open>C20: A staged mapping the verifier accepts is a correct software pipeline: its modulo mapping is
  valid, and in every iteration every consumer issues no earlier than the separation of the
  dependence after the producer of the iteration it depends on.\<close>

theorem stages_verify_sound:
  assumes "stages_verify g t sm = Inr []"
  shows "valid_mapping g t (sm_modulo sm) \<and> dependences_hold g (sm_modulo sm) (stage_of sm)"
proof
  from assms obtain ts where m: "mapping_verify g t (sm_modulo sm) = Inr []"
    and times: "foldR (verifyIssueTime sm) ([], []) (td_nodes g) = Inr (ts, [])"
    and edges: "foldR (verifyStagedEdge sm ts) [] (td_edges g) = Inr []"
    by (auto simp: stages_verify_def Let_def bindR_eq_Inr split: if_splits prod.splits)
  show "valid_mapping g t (sm_modulo sm)" by (rule mapping_verify_valid [OF m])
  note ts = verifyIssueTime_all [OF times]
  have "stage_of sm (te_src e) * mm_ii (sm_modulo sm) + slot_of (sm_modulo sm) (te_src e) +
        separation_of (sm_modulo sm) (te_id e) \<le>
      (stage_of sm (te_dst e) + te_distance e) * mm_ii (sm_modulo sm) + slot_of (sm_modulo sm) (te_dst e)"
    if e: "e \<in> set (td_edges g)" for e
  proof -
    have "verifyStagedEdge sm ts [] e = Inr []"
      using foldR_list_silent [OF edges] verifyStagedEdge_grows e by blast
    from verifyStagedEdge_silent [OF this] obtain src dst where
      x: "time_at ts (te_src e) = Inr src" "time_at ts (te_dst e) = Inr dst"
        "src + separation_of (sm_modulo sm) (te_id e) \<le> te_distance e * mm_ii (sm_modulo sm) + dst" by blast
    note x1 = time_at_eq [OF x(1) [unfolded ts [THEN conjunct1]] ts [THEN conjunct2]]
      and x2 = time_at_eq [OF x(2) [unfolded ts [THEN conjunct1]] ts [THEN conjunct2]]
    from x(3) show ?thesis unfolding x1 x2 by (simp add: add_mult_distrib)
  qed
  then show "dependences_hold g (sm_modulo sm) (stage_of sm)"
    by (simp only: dependences_hold_def dependence_iff) blast
qed

definition demo_staged :: StagedMapping where
  "demo_staged = \<lparr>sm_modulo = demo_mapping, sm_stages = [\<lparr>ns_node = 0, ns_stage = 0\<rparr>, \<lparr>ns_node = 1, ns_stage = 1\<rparr>],
     sm_maxStage = 1\<rparr>"

theorem stages_verify_sound_witness:
  "dependences_hold demo_tdfg demo_mapping (stage_of demo_staged)"
proof -
  have "stages_verify demo_tdfg demo_target demo_staged = Inr []" by code_simp
  from stages_verify_sound [OF this] show ?thesis by (simp add: demo_staged_def)
qed

end
