(* ===== verification/Schedule_Complete.thy ===== *)
theory Schedule_Complete
  imports Schedule_Sound
begin

text \<open>
  The stage scheduler finds a schedule whenever there is one within the range of the machine
  integers: none of its overflow exits is taken, the relaxation converges to stages no later than
  those of any schedule, and its own verifier accepts them.
\<close>

section \<open>The constraints are built\<close>

definition machine_range :: "TargetDFG \<Rightarrow> ModuloMapping \<Rightarrow> (TargetNodeId \<Rightarrow> nat) \<Rightarrow> bool" where
  "machine_range g m S \<longleftrightarrow> u32_fields g m \<and> (\<forall>n \<in> set (td_nodes g). S (tn_id n) < 2 ^ 30) \<and>
     (\<forall>e \<in> set (td_edges g). te_distance e * mm_ii m \<le> 2 ^ 62)"

lemma accepted_lookups:
  assumes "mapping_verify g t m = Inr []"
  shows "i \<in> tn_id ` set (td_nodes g) \<Longrightarrow> \<exists>p. mm_placement m i = Inr p"
    and "e \<in> set (td_edges g) \<Longrightarrow> \<exists>d. mm_dependence m (te_id e) = Inr d"
proof -
  note v = mapping_verify_valid [OF assms]
  have p: "pl_node ` set (mm_placements m) = tn_id ` set (td_nodes g)"
    using v by (metis valid_mapping_def set_map set_mset_mset)
  have d: "md_edge ` set (mm_dependences m) = te_id ` set (td_edges g)"
    using v by (metis valid_mapping_def set_map set_mset_mset)
  show "\<exists>p. mm_placement m i = Inr p" if "i \<in> tn_id ` set (td_nodes g)"
    using find_by_ex [of i pl_node "mm_placements m"] p that by (auto simp: mm_placement_def)
  show "\<exists>d. mm_dependence m (te_id e) = Inr d" if "e \<in> set (td_edges g)"
    using find_by_ex [of "te_id e" md_edge "mm_dependences m"] d that by (auto simp: mm_dependence_def)
qed

lemma neg_div_bound:
  assumes "0 < (d :: int)" and "- k \<le> a" and "0 \<le> k"
  shows "- k \<le> - ((- a) div d)"
proof -
  have "(- a) div d \<le> k div d" using assms by (intro zdiv_mono1) simp_all
  also have "\<dots> \<le> k" using zdiv_mono2 [of k 1 d] assms by simp
  finally show ?thesis by simp
qed

lemma stageConstraint_built:
  assumes m: "mapping_verify g t m = Inr []" and u32: "u32_fields g m" and e: "e \<in> set (td_edges g)"
  shows "\<exists>c. stageConstraint m e = Inr (Some c) \<and> - (2 ^ 33) \<le> sc_minimumStageDelta c"
proof -
  note g = accepted_graph [OF m]
  from g(3) e have "te_src e \<in> tn_id ` set (td_nodes g)" "te_dst e \<in> tn_id ` set (td_nodes g)" by auto
  then obtain p q where l: "mm_placement m (te_src e) = Inr p" "mm_placement m (te_dst e) = Inr q"
    using accepted_lookups(1) [OF m] by blast
  obtain d where l3: "mm_dependence m (te_id e) = Inr d" using accepted_lookups(2) [OF m e] by blast
  let ?num = "int (md_requiredSeparation d) - (int (pl_issueSlot q) - int (pl_issueSlot p))"
  have u: "pl_issueSlot p \<le> u32_max" "pl_issueSlot q \<le> u32_max" "md_requiredSeparation d \<le> u32_max"
      "te_distance e \<le> u32_max"
    using u32_slot [OF u32] u32_separation [OF u32] mm_placement_eq [OF l(1)] mm_placement_eq [OF l(2)]
      mm_dependence_eq [OF l3] u32 e by (metis, metis, metis, simp add: u32_fields_def)
  have c: "ceilDivSigned ?num (int (mm_ii m)) = Inr (- ((- ?num) div int (mm_ii m)))"
    by (rule ceilDivSigned_eq) (use g(2) u in linarith)+
  have b: "- 4294967295 \<le> - ((- ?num) div int (mm_ii m))"
    by (rule neg_div_bound) (use g(2) u in linarith)+
  with l l3 c u(4) show ?thesis
    by (auto simp: stageConstraint_def Let_def)
qed

lemma stageConstraints_built:
  assumes "\<forall>e \<in> set es. \<exists>c. stageConstraint m e = Inr (Some c)"
  shows "\<exists>cs. stageConstraints m es = Inr (Inr cs)"
  using assms by (induction es) auto

section \<open>The relaxation does not overflow\<close>

lemma relaxConstraint_defined:
  assumes c: "indexed nodes c = (s, d, w)" "sc_src c \<in> set nodes" "sc_dst c \<in> set nodes" "- (2 ^ 33) \<le> w"
    and f: "int (rx_stages st ! s) \<le> f s" "f s + w \<le> f d" "f s < 2 ^ 30" "f d < 2 ^ 30"
  shows "\<exists>st'. relaxConstraint nodes st c = Inr (Some st')"
proof -
  obtain i j where ij: "index_of (sc_src c) nodes = Some i" "index_of (sc_dst c) nodes = Some j"
    using c(2,3) index_of_ex by metis
  with c(1) have "i = s" "j = d" "sc_minimumStageDelta c = w" by (simp_all add: indexed_def)
  with ij have "index_at nodes (sc_src c) = Inr s" "index_at nodes (sc_dst c) = Inr d"
    by (simp_all add: index_at_def)
  moreover have "checkedSignedAdd (int (rx_stages st ! s)) w = Some (int (rx_stages st ! s) + w)"
    using c(4) f by (simp add: checkedSignedAdd_def)
  ultimately show ?thesis using f \<open>sc_minimumStageDelta c = w\<close> by (auto simp: relaxConstraint_def)
qed

lemma relaxAll_defined:
  assumes "stages.within nodes cs" and "solution (indexed nodes ` set cs) f"
    and "\<forall>v < length nodes. f v < 2 ^ 30"
    and "\<forall>c \<in> set cs. sc_src c \<in> set nodes \<and> sc_dst c \<in> set nodes \<and> - (2 ^ 33) \<le> sc_minimumStageDelta c"
    and "length (rx_stages st) = length nodes" and "\<forall>v < length nodes. int (rx_stages st ! v) \<le> f v"
  shows "\<exists>st'. relaxAll nodes st cs = Inr (Inr st')"
  using assms
proof (induction cs arbitrary: st)
  case (Cons c cs)
  obtain s d w where c: "indexed nodes c = (s, d, w)" by (metis prod_cases3)
  have wi: "stages.within nodes [c]" "stages.within nodes cs" using Cons.prems(1) by (auto simp: stages.within_def)
  have sd: "s < length nodes" "d < length nodes" using wi(1) c by (simp_all add: stages.within_def)
  have sol: "solution (indexed nodes ` set [c]) f" "solution (indexed nodes ` set cs) f"
    using Cons.prems(2) by (auto simp: solution_def)
  have fd: "f s + w \<le> f d" using solutionD [OF sol(1)] c by simp
  have w: "sc_minimumStageDelta c = w" using c by (simp add: indexed_def)
  obtain st1 where st1: "relaxConstraint nodes st c = Inr (Some st1)"
    using relaxConstraint_defined [OF c, of st f] Cons.prems(3,4,6) sd fd w by auto
  have sw: "stages.sweep nodes st [c] st1" by (rule stages.sweep.step [OF st1 stages.sweep.stop])
  have "\<forall>v < length nodes. int (rx_stages st1 ! v) \<le> f v"
    by (rule stages.sweep_below [OF sw Cons.prems(5) wi(1) sol(1) subset_refl Cons.prems(6)])
  then have "\<exists>st'. relaxAll nodes st1 cs = Inr (Inr st')"
    using Cons.IH [OF wi(2) sol(2) Cons.prems(3)] Cons.prems(4) stages.relax_inv [OF Cons.prems(5) st1] by simp
  with st1 show ?case by simp
qed simp

lemma relaxRounds_defined:
  assumes wi: "stages.within nodes cs" and sol: "solution (indexed nodes ` set cs) f"
    and f: "\<forall>v < length nodes. f v < 2 ^ 30"
    and cs: "\<forall>c \<in> set cs. sc_src c \<in> set nodes \<and> sc_dst c \<in> set nodes \<and> - (2 ^ 33) \<le> sc_minimumStageDelta c"
    and "length (rx_stages st) = length nodes" and "\<forall>v < length nodes. int (rx_stages st ! v) \<le> f v"
  shows "\<exists>st'. relaxRounds nodes cs round left st \<in> {Inr (RX_Converged st'), Inr (RX_Infeasible st')}"
  using assms(5,6)
proof (induction left arbitrary: round st)
  case 0
  then show ?case by auto
next
  case (Suc left)
  let ?st = "st\<lparr>rx_changed := False, rx_lastUpdated := None\<rparr>"
  obtain st1 where st1: "relaxAll nodes ?st cs = Inr (Inr st1)"
    using relaxAll_defined [OF wi sol f cs, of ?st] Suc.prems by auto
  note sw = relaxAll_sweep [OF st1]
  have i: "length (rx_stages ?st) = length nodes" using Suc.prems(1) by simp
  have "length (rx_stages st1) = length nodes" by (rule stages.sweep_inv [OF sw i])
  moreover have "\<forall>v < length nodes. int (rx_stages st1 ! v) \<le> f v"
    by (rule stages.sweep_below [OF sw i wi sol subset_refl]) (use Suc.prems(2) in simp)
  ultimately show ?case
    using Suc.IH [of "st1\<lparr>rx_stats := (rx_stats st1)\<lparr>st_relaxationRounds := round + 1\<rparr>\<rparr>" "round + 1"] st1
    by (auto simp: Let_def)
qed

section \<open>The output is accepted\<close>

lemma not_adjacent_duplicate: "distinct (map ns_node xs) \<Longrightarrow> \<not> adjacent_duplicate xs"
  by (induction xs rule: adjacent_duplicate.induct) auto

lemma dropWhile_sorted_key:
  "sorted (map ns_node xs) \<Longrightarrow> distinct (map ns_node xs) \<Longrightarrow> x \<in> set xs \<Longrightarrow>
   \<exists>ys. dropWhile (\<lambda>e. ns_node e < ns_node x) xs = x # ys"
proof (induction xs)
  case (Cons y ys)
  then show ?case by (cases "y = x") (auto simp: order.strict_iff_order)
qed simp

lemma mk_StagedMapping_ok:
  assumes "distinct (map ns_node as)"
  shows "\<exists>sm. mk_StagedMapping m as = Inr sm \<and> sm_modulo sm = m \<and> set (sm_stages sm) = set as \<and>
    length (sm_stages sm) = length as \<and> (\<forall>a \<in> set as. sm_stage sm (ns_node a) = Inr (ns_stage a))"
proof -
  let ?xs = "sort_key ns_node as"
  have d: "distinct (map ns_node ?xs)" using assms by simp
  have "\<exists>ys. dropWhile (\<lambda>e. ns_node e < ns_node a) ?xs = a # ys" if "a \<in> set as" for a
    by (rule dropWhile_sorted_key) (use d that in auto)
  then show ?thesis
    using not_adjacent_duplicate [OF d] by (fastforce simp: mk_StagedMapping_def Let_def sm_stage_def)
qed

lemma issue_time_defined:
  assumes "mm_placement (sm_modulo sm) i = Inr p" and "sm_stage sm i = Inr s" and "s < 2 ^ 30"
    and "0 < mm_ii (sm_modulo sm)" and "mm_ii (sm_modulo sm) \<le> u32_max" and "pl_issueSlot p \<le> u32_max"
  shows "logicalIssueTime sm i = Inr (s * mm_ii (sm_modulo sm) + pl_issueSlot p)"
    and "s * mm_ii (sm_modulo sm) + pl_issueSlot p \<le> 2 ^ 62 + u32_max"
proof -
  let ?ii = "mm_ii (sm_modulo sm)"
  have "s * ?ii \<le> 2 ^ 30 * u32_max" using assms(3,5) by (intro mult_mono) simp_all
  then have w: "s * ?ii \<le> 2 ^ 62" by simp
  with assms(6) show "s * ?ii + pl_issueSlot p \<le> 2 ^ 62 + u32_max" by simp
  have "\<not> s > (u64_max - pl_issueSlot p) div ?ii"
  proof -
    have "s * ?ii \<le> u64_max - pl_issueSlot p" using w assms(6) by simp
    then have "s * ?ii div ?ii \<le> (u64_max - pl_issueSlot p) div ?ii" by (rule div_le_mono)
    with assms(4) show ?thesis by simp
  qed
  moreover have "\<not> s * ?ii > u64_max - pl_issueSlot p" using w assms(6) by simp
  ultimately show "logicalIssueTime sm i = Inr (s * ?ii + pl_issueSlot p)"
    using assms(1,2) by (simp add: logicalIssueTime_def Let_def)
qed

lemma max_issue_time_ok:
  "\<forall>n \<in> set ns. \<exists>time. logicalIssueTime sm (tn_id n) = Inr time \<Longrightarrow> snd (max_issue_time sm k ns) = None"
  by (induction ns arbitrary: k) auto

lemma verifyIssueTime_ok:
  "\<forall>n \<in> set ns. \<exists>time. logicalIssueTime sm (tn_id n) = Inr time \<Longrightarrow>
   foldR (verifyIssueTime sm) (ts, []) ns =
     Inr (ts @ map (\<lambda>n. (tn_id n, projr (logicalIssueTime sm (tn_id n)))) ns, [])"
  by (induction ns arbitrary: ts) (auto simp: verifyIssueTime_def)

lemma foldR_list_ok: "\<forall>x \<in> set xs. f [] x = Inr [] \<Longrightarrow> foldR f [] xs = Inr []"
  by (induction xs) auto

lemma verifyStagedEdge_ok:
  assumes "time_at ts (te_src e) = Inr src" and "time_at ts (te_dst e) = Inr dst"
    and "mm_dependence (sm_modulo sm) (te_id e) = Inr d"
    and "src + md_requiredSeparation d \<le> te_distance e * mm_ii (sm_modulo sm) + dst"
    and "te_distance e * mm_ii (sm_modulo sm) + dst \<le> u64_max"
    and "src + md_requiredSeparation d \<le> u64_max" and "0 < mm_ii (sm_modulo sm)"
  shows "verifyStagedEdge sm ts [] e = Inr []"
proof -
  let ?ii = "mm_ii (sm_modulo sm)"
  have "te_distance e * ?ii \<le> u64_max - dst" using assms(5) by simp
  then have "te_distance e * ?ii div ?ii \<le> (u64_max - dst) div ?ii" by (rule div_le_mono)
  with assms(7) have "checkedMultiplyAdd (te_distance e) ?ii dst = Some (te_distance e * ?ii + dst)"
    by (simp add: checkedMultiplyAdd_def)
  with assms show ?thesis by (simp add: verifyStagedEdge_def Let_def report_if_def)
qed

text \<open>The verifier accepts every assignment of stages for which the dependences hold in range.\<close>

lemma stages_verify_accepts:
  assumes m: "mapping_verify g t (sm_modulo sm) = Inr []" and inv: "tdfg_inv g"
    and dep: "dependences_hold g (sm_modulo sm) (stage_of sm)" and r: "machine_range g (sm_modulo sm) (stage_of sm)"
    and st: "\<forall>n \<in> set (td_nodes g). \<exists>s. sm_stage sm (tn_id n) = Inr s"
    and nodes: "ns_node ` set (sm_stages sm) = tn_id ` set (td_nodes g)" "length (sm_stages sm) = length (td_nodes g)"
  shows "stages_verify g t sm = Inr []" and "\<forall>n \<in> set (td_nodes g). \<exists>time. logicalIssueTime sm (tn_id n) = Inr time"
proof -
  let ?m = "sm_modulo sm" and ?ii = "mm_ii (sm_modulo sm)"
  have u32: "u32_fields g ?m" and ii: "?ii \<le> u32_max" using r by (simp_all add: machine_range_def u32_fields_def)
  note gr = accepted_graph [OF m]
  have time: "logicalIssueTime sm i = Inr (stage_of sm i * ?ii + slot_of ?m i) \<and>
      stage_of sm i * ?ii + slot_of ?m i \<le> 2 ^ 62 + u32_max" if i: "i \<in> tn_id ` set (td_nodes g)" for i
  proof -
    obtain p where p: "mm_placement ?m i = Inr p" using accepted_lookups(1) [OF m i] by blast
    obtain s where s: "sm_stage sm i = Inr s" using st i by blast
    have se: "stage_of sm i = s" using s by (simp add: stage_of_def)
    have "s < 2 ^ 30" using r i se by (auto simp: machine_range_def)
    moreover have "pl_issueSlot p \<le> u32_max" using u32_slot [OF u32, of i] mm_placement_eq [OF p] by simp
    ultimately show ?thesis using issue_time_defined [OF p s _ gr(2) ii] se mm_placement_eq [OF p] by simp
  qed
  then show times: "\<forall>n \<in> set (td_nodes g). \<exists>time. logicalIssueTime sm (tn_id n) = Inr time" by blast
  let ?ts = "map (\<lambda>n. (tn_id n, projr (logicalIssueTime sm (tn_id n)))) (td_nodes g)"
  have at: "time_at ?ts i = Inr (stage_of sm i * ?ii + slot_of ?m i)" if i: "i \<in> tn_id ` set (td_nodes g)" for i
  proof -
    have "i \<in> fst ` set ?ts" using i by force
    from find_by_ex [OF this] show ?thesis using time [OF i] by (auto simp: time_at_def)
  qed
  have edges: "verifyStagedEdge sm ?ts [] e = Inr []" if e: "e \<in> set (td_edges g)" for e
  proof -
    from gr(3) e have i: "te_src e \<in> tn_id ` set (td_nodes g)" "te_dst e \<in> tn_id ` set (td_nodes g)" by auto
    obtain d where d: "mm_dependence ?m (te_id e) = Inr d" using accepted_lookups(2) [OF m e] by blast
    have sep: "md_requiredSeparation d = separation_of ?m (te_id e)" using mm_dependence_eq [OF d] by simp
    have h: "stage_of sm (te_src e) * ?ii + slot_of ?m (te_src e) + separation_of ?m (te_id e) \<le>
        (stage_of sm (te_dst e) + te_distance e) * ?ii + slot_of ?m (te_dst e)"
      using dep e by (simp only: dependences_hold_def dependence_iff)
    have dd: "te_distance e * ?ii \<le> 2 ^ 62" using r e by (simp add: machine_range_def)
    show ?thesis
      by (rule verifyStagedEdge_ok [OF at [OF i(1)] at [OF i(2)] d _ _ _ gr(2)])
         (use h dd time [OF i(1)] time [OF i(2)] u32_separation [OF u32, of "te_id e"]
          in \<open>simp_all add: sep add_mult_distrib\<close>)
  qed
  have "tdfg_containsNode g i \<longleftrightarrow> i \<in> tn_id ` set (td_nodes g)" for i
    using inv index_ok_dom unfolding tdfg_inv_def tdfg_containsNode_def by blast
  then have cov: "verifyStageCoverage g sm = []"
    using nodes by (auto simp: verifyStageCoverage_def find_by_None_iff)
  have v: "tdfg_verify g t None = Inr []" "td_targetName g = tm_name t"
    using m by (auto simp: mapping_verify_def Let_def bindR_eq_Inr split: if_splits)
  show "stages_verify g t sm = Inr []"
    using v m cov gr(2) verifyIssueTime_ok [OF times, of "[]"] foldR_list_ok [of "td_edges g" "verifyStagedEdge sm ?ts"] edges
    by (simp add: stages_verify_def)
qed

section \<open>Completeness\<close>

text \<open>The relaxation on an accepted mapping that has a schedule in range.\<close>

lemma relaxation_converges:
  fixes g :: TargetDFG
  defines "nodes \<equiv> sort (map tn_id (td_nodes g))"
  assumes m: "mapping_verify g t m = Inr []" and S: "dependences_hold g m S" and r: "machine_range g m S"
  obtains cs st where "stageConstraints m (td_edges g) = Inr (Inr cs)"
    and "relaxRounds nodes (sort_key sc_edge cs) 0 (length nodes) (initial_relax (length nodes) (length cs)) =
         Inr (RX_Converged st)"
    and "length (rx_stages st) = length nodes"
    and "\<forall>S'. dependences_hold g m S' \<longleftrightarrow> solution (indexed nodes ` set cs) (\<lambda>v. int (S' (nodes ! v)))"
    and "solution (indexed nodes ` set cs) (\<lambda>v. int (rx_stages st ! v))"
    and "\<forall>v < length nodes. rx_stages st ! v \<le> S (nodes ! v)"
proof -
  have u32: "u32_fields g m" using r by (simp add: machine_range_def)
  note gr = accepted_graph [OF m]
  have ends: "\<forall>e \<in> set (td_edges g). te_src e \<in> set nodes \<and> te_dst e \<in> set nodes"
    using gr(3) by (simp add: nodes_def)
  obtain cs where cs: "stageConstraints m (td_edges g) = Inr (Inr cs)"
    using stageConstraints_built [of "td_edges g" m] stageConstraint_built [OF m u32] by blast
  let ?cs = "sort_key sc_edge cs" and ?f = "\<lambda>v. int (S (nodes ! v))"
  have wi: "stages.within nodes ?cs" by (rule constraints_within [OF cs u32 gr(2) ends]) simp
  have sol: "solution (indexed nodes ` set ?cs) ?f" using dependences_solution [OF cs u32 gr(2) ends] S by simp
  have f: "\<forall>v < length nodes. ?f v < 2 ^ 30"
  proof (intro allI impI)
    fix v
    assume "v < length nodes"
    then have "nodes ! v \<in> set nodes" by simp
    then have "S (nodes ! v) < 2 ^ 30" using r by (auto simp: nodes_def machine_range_def)
    then show "?f v < 2 ^ 30" by simp
  qed
  have c: "sc_src c \<in> set nodes \<and> sc_dst c \<in> set nodes \<and> - (2 ^ 33) \<le> sc_minimumStageDelta c"
    if "c \<in> set ?cs" for c
  proof -
    from that stageConstraints_all(2) [OF cs] obtain e where e: "e \<in> set (td_edges g)" "stageConstraint m e = Inr (Some c)"
      by auto
    have "int (separation_of m (te_id e)) + int (slot_of m (te_src e)) \<le> i64_max"
      using u32_separation [OF u32, of "te_id e"] u32_slot [OF u32, of "te_src e"] by linarith
    with stageConstraint_meaning [OF e(2) gr(2)] stageConstraint_built [OF m u32 e(1)] e ends show ?thesis by auto
  qed
  obtain st where st: "relaxRounds nodes ?cs 0 (length nodes) (initial_relax (length nodes) (length cs)) \<in>
      {Inr (RX_Converged st), Inr (RX_Infeasible st)}"
    using relaxRounds_defined [OF wi sol f, of "initial_relax (length nodes) (length cs)" 0 "length nodes"] c by auto
  moreover have "relaxRounds nodes ?cs 0 (length nodes) (initial_relax (length nodes) (length cs)) \<noteq> Inr (RX_Infeasible st)"
    using relaxRounds_infeasible [OF _ wi sol] by auto
  ultimately have conv: "relaxRounds nodes ?cs 0 (length nodes) (initial_relax (length nodes) (length cs)) = Inr (RX_Converged st)"
    by simp
  note k = relaxRounds_converged [OF conv wi]
  show thesis
  proof (rule that [OF cs conv k(1)])
    show "\<forall>S'. dependences_hold g m S' \<longleftrightarrow> solution (indexed nodes ` set cs) (\<lambda>v. int (S' (nodes ! v)))"
      by (intro allI) (rule dependences_solution [OF cs u32 gr(2) ends])
    show "solution (indexed nodes ` set cs) (\<lambda>v. int (rx_stages st ! v))" using k(2) by simp
    show "\<forall>v < length nodes. rx_stages st ! v \<le> S (nodes ! v)" using k(3) [OF sol] by simp
  qed
qed

text \<open>C10: Whenever an accepted mapping can be pipelined at all, with stages and dependence distances
  in the range of the machine integers, the scheduler succeeds: it returns a staged mapping whose
  stages make every dependence hold in every iteration, and no schedule, however it was found, puts
  any node into an earlier stage.\<close>

theorem schedule_complete:
  assumes m: "mapping_verify g t m = Inr []" and inv: "tdfg_inv g"
    and S: "dependences_hold g m S" and r: "machine_range g m S"
  shows "\<exists>res sm. schedule g t m = Inr res \<and> ss_status res = Stage_Success \<and> ss_mapping res = Some sm \<and>
    sm_modulo sm = m \<and> dependences_hold g m (stage_of sm) \<and>
    (\<forall>n \<in> set (td_nodes g). stage_of sm (tn_id n) \<le> S (tn_id n))"
proof -
  define nodes where "nodes = sort (map tn_id (td_nodes g))"
  have dist: "distinct nodes" and len: "length nodes = length (td_nodes g)" and set: "set nodes = tn_id ` set (td_nodes g)"
    using accepted_graph(1) [OF m] by (simp_all add: nodes_def)
  obtain cs st where cs: "stageConstraints m (td_edges g) = Inr (Inr cs)"
    and conv: "relaxRounds nodes (sort_key sc_edge cs) 0 (length nodes) (initial_relax (length nodes) (length cs)) =
         Inr (RX_Converged st)"
    and l: "length (rx_stages st) = length nodes"
    and iff: "\<forall>S'. dependences_hold g m S' \<longleftrightarrow> solution (indexed nodes ` set cs) (\<lambda>v. int (S' (nodes ! v)))"
    and sol: "solution (indexed nodes ` set cs) (\<lambda>v. int (rx_stages st ! v))"
    and least: "\<forall>v < length nodes. rx_stages st ! v \<le> S (nodes ! v)"
    unfolding nodes_def by (rule relaxation_converges [OF m S r])
  let ?as = "map (\<lambda>(i, s). \<lparr>ns_node = i, ns_stage = s\<rparr>) (zip nodes (rx_stages st))"
  have nn: "map ns_node ?as = nodes" using l by (simp add: comp_def split_def)
  obtain sm where sm: "mk_StagedMapping m ?as = Inr sm" "sm_modulo sm = m" "set (sm_stages sm) = set ?as"
      "length (sm_stages sm) = length ?as" "\<forall>a \<in> set ?as. sm_stage sm (ns_node a) = Inr (ns_stage a)"
    using mk_StagedMapping_ok [of ?as m] dist nn by auto
  have at: "sm_stage sm (nodes ! v) = Inr (rx_stages st ! v)" if "v < length nodes" for v
  proof -
    have "\<lparr>ns_node = nodes ! v, ns_stage = rx_stages st ! v\<rparr> \<in> set ?as"
      using that l by (force simp: set_zip)
    with sm(5) show ?thesis by fastforce
  qed
  have stage: "stage_of sm (nodes ! v) = rx_stages st ! v" if "v < length nodes" for v
    using at [OF that] by (simp add: stage_of_def)
  have le: "\<forall>n \<in> set (td_nodes g). stage_of sm (tn_id n) \<le> S (tn_id n) \<and> (\<exists>s. sm_stage sm (tn_id n) = Inr s)"
  proof
    fix n
    assume "n \<in> set (td_nodes g)"
    then have "tn_id n \<in> set nodes" by (simp add: set)
    then obtain v where "v < length nodes" "nodes ! v = tn_id n" by (metis in_set_conv_nth)
    with least stage at show "stage_of sm (tn_id n) \<le> S (tn_id n) \<and> (\<exists>s. sm_stage sm (tn_id n) = Inr s)" by metis
  qed
  have dep: "dependences_hold g m (stage_of sm)"
    unfolding iff [rule_format]
  proof (rule solutionI)
    fix a b w
    assume mem: "(a, b, w) \<in> indexed nodes ` set cs"
    have wi: "stages.within nodes cs"
      by (rule constraints_within [OF cs _ accepted_graph(2) [OF m]])
         (use r accepted_graph(3) [OF m] in \<open>simp_all add: machine_range_def set\<close>)
    from solutionD [OF sol mem] stages.within_mem [OF wi mem]
    show "int (stage_of sm (nodes ! a)) + w \<le> int (stage_of sm (nodes ! b))" by (simp add: stage)
  qed
  have range: "machine_range g m (stage_of sm)"
    using r le unfolding machine_range_def by (meson le_less_trans)
  have nodes': "ns_node ` set (sm_stages sm) = tn_id ` set (td_nodes g)"
    using sm(3) nn set by (metis set_map)
  have l': "length (sm_stages sm) = length (td_nodes g)" using sm(4) l len by simp
  have acc: "stages_verify g t sm = Inr []" "\<forall>n \<in> set (td_nodes g). \<exists>time. logicalIssueTime sm (tn_id n) = Inr time"
    using stages_verify_accepts [of g t sm] m inv dep range le nodes' l' sm(2) by simp_all
  define out where "out = stageOutput g t m ?as (rx_stats st)"
  obtain k where "max_issue_time sm 0 (td_nodes g) = (k, None)"
    using max_issue_time_ok [OF acc(2), of 0] by (metis prod.collapse)
  with sm(1) acc(1) have out: "ss_status out = Stage_Success" "ss_mapping out = Some sm"
    by (simp_all add: out_def stageOutput_def Let_def)
  have "schedule g t m = Inr out"
  proof -
    have v: "tdfg_verify g t None = Inr []" "td_targetName g = tm_name t" "mm_ii m \<noteq> 0"
      using m by (auto simp: mapping_verify_def Let_def bindR_eq_Inr split: if_splits)
    show ?thesis
      using v m cs conv by (simp add: schedule_def Let_def nodes_def stageFinish_def out_def)
  qed
  with out sm(2) dep le show ?thesis by blast
qed

lemma demo_range: "machine_range demo_tdfg demo_mapping (\<lambda>i. i)"
  by code_simp

lemma demo_hold: "dependences_hold demo_tdfg demo_mapping (\<lambda>i. i)"
  unfolding dependences_hold_def dependence_iff by code_simp

theorem schedule_complete_witness:
  "\<exists>res sm. schedule demo_tdfg demo_target demo_mapping = Inr res \<and> ss_status res = Stage_Success \<and>
    ss_mapping res = Some sm \<and> dependences_hold demo_tdfg demo_mapping (stage_of sm)"
  using schedule_complete [OF demo_mapping_accepted demo_tdfg_inv demo_hold demo_range] by blast

end
