(* ===== verification/Analysis_MII.thy ===== *)
theory Analysis_MII
  imports Schedule_Complete "HOL-Library.Char_ord" "HOL-Library.List_Lexorder"
begin

text \<open>
  The minimum initiation interval (\<open>Analysis/MIIAnalyzer.cpp\<close>, \<open>Analysis/MIIResult.h\<close>,
  \<open>Analysis/RecurrenceConstraint.h\<close>): resource bounds from the demand of each execution class and
  each operation, and the recurrence bound by binary search over a longest-path feasibility test.
  128-bit distances are integers: with 32-bit separations, distances and intervals and fewer than
  \<open>2 ^ 32\<close> nodes they stay below \<open>2 ^ 97\<close>.  Unset predecessors (the maximal \<open>size_t\<close>) are \<open>None\<close>.
\<close>

section \<open>Data\<close>

record RecurrenceConstraint =
  rc_edge :: TargetEdgeId
  rc_src :: TargetNodeId
  rc_dst :: TargetNodeId
  rc_distance :: nat
  rc_intrinsicSeparation :: nat

record IndexedConstraint =
  ix_constraint :: RecurrenceConstraint
  ix_srcIndex :: nat
  ix_dstIndex :: nat

record RecurrenceWitness =
  rw_edges :: "TargetEdgeId list"
  rw_totalSeparation :: nat
  rw_totalDistance :: nat

record FeasibilityResult =
  fe_feasible :: bool
  fe_witness :: "RecurrenceWitness option"

datatype MIIStatus =
    MII_Success | MII_InvalidTargetDFG | MII_NoCompatibleResource | MII_UnschedulableZeroDistanceCycle
  | MII_TargetContractError | MII_InternalError

datatype MIIAnalysisDiagnosticCode =
    MII_INVALID_TARGET_DFG | MII_NO_COMPATIBLE_RESOURCE | MII_ZERO_DISTANCE_CYCLE
  | MII_TARGET_LATENCY_MISSING | MII_TARGET_OCCUPANCY_INVALID | MII_TARGET_MEMORY_TIMING_MISSING
  | MII_ARITHMETIC_OVERFLOW | MII_INTERNAL_ERROR

datatype MIIAnalysisDiagnostic =
  MIDiag MIIAnalysisDiagnosticCode "TargetNodeId option" "TargetEdgeId option"

record ResourceMIIBreakdown =
  rb_selfOccupancyMII :: nat
  rb_fuMII :: nat
  rb_lsuMII :: nat
  rb_perOperationMII :: nat

record MIIResult =
  mi_status :: MIIStatus
  mi_resourceMII :: nat
  mi_recurrenceMII :: nat
  mi_mii :: nat
  mi_resourceBreakdown :: ResourceMIIBreakdown
  mi_recurrenceWitness :: "RecurrenceWitness option"
  mi_diagnostics :: "MIIAnalysisDiagnostic list"

definition empty_MIIResult :: MIIResult where
  "empty_MIIResult = \<lparr>mi_status = MII_Success, mi_resourceMII = 0, mi_recurrenceMII = 0, mi_mii = 0,
     mi_resourceBreakdown = \<lparr>rb_selfOccupancyMII = 1, rb_fuMII = 1, rb_lsuMII = 1, rb_perOperationMII = 1\<rparr>,
     mi_recurrenceWitness = None, mi_diagnostics = []\<rparr>"

definition addDiagnostic ::
  "MIIStatus \<Rightarrow> MIIAnalysisDiagnosticCode \<Rightarrow> TargetNodeId option \<Rightarrow> TargetEdgeId option \<Rightarrow> MIIResult \<Rightarrow> MIIResult" where
  "addDiagnostic status c node edge r =
     r\<lparr>mi_status := status, mi_diagnostics := mi_diagnostics r @ [MIDiag c node edge]\<rparr>"

definition checkedAdd64 :: "nat \<Rightarrow> nat \<Rightarrow> nat option" where
  "checkedAdd64 lhs rhs = (if rhs > u64_max - lhs then None else Some (lhs + rhs))"

definition ceilDivToMII :: "nat \<Rightarrow> nat \<Rightarrow> nat option" where
  "ceilDivToMII numerator denominator =
     (if numerator = 0 then Some 1
      else if denominator = 0 then None
      else
        let quotient = numerator div denominator;
            rounded = quotient + (if numerator mod denominator = 0 then 0 else 1)
        in if rounded > u32_max then None else Some rounded)"

section \<open>Feasibility of an initiation interval\<close>

record EvalState =
  ev_longest :: "int list"
  ev_predecessorNode :: "nat option list"
  ev_predecessorConstraint :: "nat option list"
  ev_lastUpdated :: "nat option"

definition constraint_weight :: "nat \<Rightarrow> IndexedConstraint \<Rightarrow> int" where
  "constraint_weight ii c =
     int (rc_intrinsicSeparation (ix_constraint c)) - int (rc_distance (ix_constraint c)) * int ii"

definition evalConstraint :: "nat \<Rightarrow> EvalState \<Rightarrow> nat \<times> IndexedConstraint \<Rightarrow> EvalState" where
  "evalConstraint ii st item =
     (case item of (index, c) \<Rightarrow>
        let candidate = ev_longest st ! ix_srcIndex c + constraint_weight ii c in
        if ev_longest st ! ix_dstIndex c < candidate then
          st\<lparr>ev_longest := (ev_longest st)[ix_dstIndex c := candidate],
             ev_predecessorNode := (ev_predecessorNode st)[ix_dstIndex c := Some (ix_srcIndex c)],
             ev_predecessorConstraint := (ev_predecessorConstraint st)[ix_dstIndex c := Some index],
             ev_lastUpdated := Some (ix_dstIndex c)\<rparr>
        else st)"

fun evalRounds :: "nat \<Rightarrow> IndexedConstraint list \<Rightarrow> nat \<Rightarrow> EvalState \<Rightarrow> bool \<times> EvalState" where
  "evalRounds ii cs 0 st = (False, st)"
| "evalRounds ii cs (Suc rounds) st =
     (let st' = foldl (evalConstraint ii) (st\<lparr>ev_lastUpdated := None\<rparr>) (enumerate 0 cs)
      in if ev_lastUpdated st' = None then (True, st') else evalRounds ii cs rounds st')"

fun eval_walk :: "EvalState \<Rightarrow> nat \<Rightarrow> nat \<Rightarrow> nat option" where
  "eval_walk st 0 node = Some node"
| "eval_walk st (Suc k) node =
     (if node \<ge> length (ev_predecessorNode st) then None
      else case ev_predecessorNode st ! node of None \<Rightarrow> None | Some p \<Rightarrow> eval_walk st k p)"

text \<open>The do-while loop over the cycle; the first argument is how many constraints may still be added.\<close>

fun eval_cycle :: "nat \<Rightarrow> EvalState \<Rightarrow> nat \<Rightarrow> nat \<Rightarrow> nat list \<Rightarrow> nat list option" where
  "eval_cycle 0 st cycleNode current acc = None"
| "eval_cycle (Suc k) st cycleNode current acc =
     (if current \<ge> length (ev_predecessorConstraint st) then None
      else case (ev_predecessorConstraint st ! current, ev_predecessorNode st ! current) of
        (Some c, Some p) \<Rightarrow>
          if p = cycleNode then Some (acc @ [c]) else eval_cycle k st cycleNode p (acc @ [c])
      | _ \<Rightarrow> None)"

fun sum_witness :: "IndexedConstraint list \<Rightarrow> RecurrenceWitness \<Rightarrow> nat list \<Rightarrow> RecurrenceWitness option" where
  "sum_witness cs w [] = Some w"
| "sum_witness cs w (i # is) =
     (let c = ix_constraint (cs ! i) in
      case (checkedAdd64 (rw_totalSeparation w) (rc_intrinsicSeparation c),
            checkedAdd64 (rw_totalDistance w) (rc_distance c)) of
        (Some s, Some d) \<Rightarrow>
          sum_witness cs \<lparr>rw_edges = rw_edges w @ [rc_edge c], rw_totalSeparation = s, rw_totalDistance = d\<rparr> is
      | _ \<Rightarrow> None)"

definition buildWitness :: "EvalState \<Rightarrow> IndexedConstraint list \<Rightarrow> nat \<Rightarrow> RecurrenceWitness option" where
  "buildWitness st cs nodeCount =
     (if length (ev_predecessorNode st) \<noteq> nodeCount then None
      else case ev_lastUpdated st of
        None \<Rightarrow> None
      | Some updated \<Rightarrow>
          (case eval_walk st nodeCount updated of
             None \<Rightarrow> None
           | Some cycleNode \<Rightarrow>
               (case eval_cycle (nodeCount + 1) st cycleNode cycleNode [] of
                  None \<Rightarrow> None
                | Some cycleConstraints \<Rightarrow>
                    sum_witness cs \<lparr>rw_edges = [], rw_totalSeparation = 0, rw_totalDistance = 0\<rparr>
                      (sort_key (\<lambda>i. rc_edge (ix_constraint (cs ! i))) cycleConstraints))))"

definition initial_eval :: "nat \<Rightarrow> EvalState" where
  "initial_eval nodeCount = \<lparr>ev_longest = replicate nodeCount 0, ev_predecessorNode = replicate nodeCount None,
     ev_predecessorConstraint = replicate nodeCount None, ev_lastUpdated = None\<rparr>"

definition mii_evaluate :: "IndexedConstraint list \<Rightarrow> nat \<Rightarrow> nat \<Rightarrow> FeasibilityResult" where
  "mii_evaluate cs nodeCount ii =
     (case evalRounds ii cs nodeCount (initial_eval nodeCount) of
        (True, st) \<Rightarrow> \<lparr>fe_feasible = True, fe_witness = None\<rparr>
      | (False, st) \<Rightarrow> \<lparr>fe_feasible = False, fe_witness = buildWitness st cs nodeCount\<rparr>)"

text \<open>The binary search.\<close>

function recurrence_search :: "IndexedConstraint list \<Rightarrow> nat \<Rightarrow> nat \<Rightarrow> nat \<Rightarrow> nat" where
  "recurrence_search cs nodeCount low high =
     (if low < high then
        let mid = low + (high - low) div 2 in
        if fe_feasible (mii_evaluate cs nodeCount mid) then recurrence_search cs nodeCount low mid
        else recurrence_search cs nodeCount (mid + 1) high
      else low)"
  by pat_completeness auto
termination
  by (relation "measure (\<lambda>(cs, n, low, high). high - low)") (auto simp: Let_def)

declare recurrence_search.simps [simp del]

section \<open>Resource demand\<close>

record DemandState =
  dm_result :: MIIResult
  dm_fuDemand :: nat
  dm_lsuDemand :: nat
  dm_selfOccupancy :: nat
  dm_operationDemand :: "(string \<times> nat) list"

text \<open>The map entry of a key is updated in place or inserted.\<close>

definition demand_of :: "string \<Rightarrow> (string \<times> nat) list \<Rightarrow> nat" where
  "demand_of name ops = (case find_by fst name ops of None \<Rightarrow> 0 | Some x \<Rightarrow> snd x)"

fun set_demand :: "string \<Rightarrow> nat \<Rightarrow> (string \<times> nat) list \<Rightarrow> (string \<times> nat) list" where
  "set_demand name v [] = [(name, v)]"
| "set_demand name v (x # xs) = (if fst x = name then (name, v) # xs else x # set_demand name v xs)"

definition demandNode :: "TargetModel \<Rightarrow> DemandState \<Rightarrow> TargetNode \<Rightarrow> DemandState" where
  "demandNode t st n =
     (let err = (\<lambda>status c st. st\<lparr>dm_result := addDiagnostic status c (Some (tn_id n)) None (dm_result st)\<rparr>) in
      if tn_issueOccupancy n = 0 then err MII_TargetContractError MII_TARGET_OCCUPANCY_INVALID st
      else if findOperation t (tn_operation n) = None then err MII_InvalidTargetDFG MII_INVALID_TARGET_DFG st
      else
        let demand = tn_issueOccupancy n;
            perOperation = demand_of (tn_operation n) (dm_operationDemand st)
        in case checkedAdd64 perOperation demand of
             None \<Rightarrow> err MII_InternalError MII_ARITHMETIC_OVERFLOW
                       (st\<lparr>dm_operationDemand := set_demand (tn_operation n) perOperation (dm_operationDemand st)\<rparr>)
           | Some d \<Rightarrow>
               let st1 = st\<lparr>dm_operationDemand := set_demand (tn_operation n) d (dm_operationDemand st)\<rparr>;
                   st2 = (if tn_executionClass n = Class_FU then
                            (case checkedAdd64 (dm_fuDemand st1) demand of
                               None \<Rightarrow> err MII_InternalError MII_ARITHMETIC_OVERFLOW st1
                             | Some f \<Rightarrow> st1\<lparr>dm_fuDemand := f\<rparr>)
                          else
                            (case checkedAdd64 (dm_lsuDemand st1) demand of
                               None \<Rightarrow> err MII_InternalError MII_ARITHMETIC_OVERFLOW st1
                             | Some l \<Rightarrow> st1\<lparr>dm_lsuDemand := l\<rparr>))
               in st2\<lparr>dm_selfOccupancy := max (dm_selfOccupancy st2) demand\<rparr>)"

definition demandNodes :: "TargetModel \<Rightarrow> TargetNode list \<Rightarrow> DemandState" where
  "demandNodes t ns =
     foldl (demandNode t) \<lparr>dm_result = empty_MIIResult, dm_fuDemand = 0, dm_lsuDemand = 0, dm_selfOccupancy = 1,
                           dm_operationDemand = []\<rparr> ns"

text \<open>The loop over the demands per operation, in the order of the names.  \<open>Inl\<close> is an early return.\<close>

fun perOperationBounds ::
  "TargetModel \<Rightarrow> MIIResult \<Rightarrow> (string \<times> nat) list \<Rightarrow> (MIIResult + MIIResult) result" where
  "perOperationBounds t r [] = Inr (Inr r)"
| "perOperationBounds t r ((name, demand) # ops) =
     bindR (operation t name) (\<lambda>d.
       let capacity = compatibleResourceCount t d in
       if capacity = 0 then
         perOperationBounds t (addDiagnostic MII_NoCompatibleResource MII_NO_COMPATIBLE_RESOURCE None None r) ops
       else case ceilDivToMII demand capacity of
         None \<Rightarrow> Inr (Inl (addDiagnostic MII_InternalError MII_ARITHMETIC_OVERFLOW None None r))
       | Some bound \<Rightarrow>
           let b = mi_resourceBreakdown r in
           perOperationBounds t
             (r\<lparr>mi_resourceBreakdown := b\<lparr>rb_perOperationMII := max (rb_perOperationMII b) bound\<rparr>\<rparr>) ops)"

definition resourceTotal :: "MIIResult + MIIResult \<Rightarrow> MIIResult + MIIResult" where
  "resourceTotal x =
     (case x of
        Inl r \<Rightarrow> Inl r
      | Inr r \<Rightarrow>
          if mi_status r = MII_NoCompatibleResource then Inl r
          else
            let b = mi_resourceBreakdown r in
            Inr (r\<lparr>mi_resourceMII :=
              max 1 (max (rb_selfOccupancyMII b) (max (rb_fuMII b)
                (max (rb_lsuMII b) (rb_perOperationMII b))))\<rparr>))"

definition resourceBounds :: "TargetDFG \<Rightarrow> TargetModel \<Rightarrow> (MIIResult + MIIResult) result" where
  "resourceBounds g t =
     (let fuCapacity = executionResourceCount t Class_FU;
          lsuCapacity = executionResourceCount t Class_LSU;
          dm = demandNodes t (td_nodes g);
          r = dm_result dm
      in if mi_diagnostics r \<noteq> [] \<and> mi_status r \<noteq> MII_Success \<and>
            mi_status r \<in> {MII_InvalidTargetDFG, MII_TargetContractError, MII_InternalError} then Inr (Inl r)
         else if (dm_fuDemand dm > 0 \<and> fuCapacity = 0) \<or> (dm_lsuDemand dm > 0 \<and> lsuCapacity = 0) then
           Inr (Inl (addDiagnostic MII_NoCompatibleResource MII_NO_COMPATIBLE_RESOURCE None None r))
         else case (ceilDivToMII (dm_selfOccupancy dm) 1, ceilDivToMII (dm_fuDemand dm) fuCapacity,
                    ceilDivToMII (dm_lsuDemand dm) lsuCapacity) of
           (Some selfBound, Some fuBound, Some lsuBound) \<Rightarrow>
             let r1 = r\<lparr>mi_resourceBreakdown :=
                   \<lparr>rb_selfOccupancyMII = max 1 selfBound, rb_fuMII = max 1 fuBound,
                    rb_lsuMII = max 1 lsuBound, rb_perOperationMII = 1\<rparr>\<rparr>
             in bindR (perOperationBounds t r1 (sort_key fst (dm_operationDemand dm))) (\<lambda>r2.
                  Inr (resourceTotal r2))
         | _ \<Rightarrow> Inr (Inl (addDiagnostic MII_InternalError MII_ARITHMETIC_OVERFLOW None None r)))"

section \<open>Recurrence constraints\<close>

type_synonym RecurrenceState = "MIIResult \<times> IndexedConstraint list \<times> nat"

definition recurrenceError ::
  "TargetEdge \<Rightarrow> MIIStatus \<Rightarrow> MIIAnalysisDiagnosticCode \<Rightarrow> TargetNodeId option \<Rightarrow> RecurrenceState \<Rightarrow> RecurrenceState" where
  "recurrenceError e status c node st =
     (case st of (r, cs, sumSeparation) \<Rightarrow> (addDiagnostic status c node (Some (te_id e)) r, cs, sumSeparation))"

text \<open>A constraint is pushed and its separation added to the sum, which bounds the interval.\<close>

definition pushConstraint :: "TargetNodeId list \<Rightarrow> TargetEdge \<Rightarrow> nat \<Rightarrow> RecurrenceState \<Rightarrow> RecurrenceState" where
  "pushConstraint nodes e separation st =
     (case (st, index_of (te_src e) nodes, index_of (te_dst e) nodes) of
        ((r, cs, sumSeparation), Some s, Some d) \<Rightarrow>
          let cs' = cs @ [\<lparr>ix_constraint = \<lparr>rc_edge = te_id e, rc_src = te_src e, rc_dst = te_dst e,
                      rc_distance = te_distance e, rc_intrinsicSeparation = wrap32 separation\<rparr>,
                      ix_srcIndex = s, ix_dstIndex = d\<rparr>]
          in (case checkedAdd64 sumSeparation separation of
                None \<Rightarrow> recurrenceError e MII_InternalError MII_ARITHMETIC_OVERFLOW None (r, cs', sumSeparation)
              | Some s' \<Rightarrow> (r, cs', s'))
      | _ \<Rightarrow> recurrenceError e MII_InvalidTargetDFG MII_INVALID_TARGET_DFG None st)"

definition recurrenceConstraint ::
  "TargetDFG \<Rightarrow> TargetModel \<Rightarrow> TargetNodeId list \<Rightarrow> RecurrenceState \<Rightarrow> TargetEdge \<Rightarrow> RecurrenceState result" where
  "recurrenceConstraint g t nodes st e =
     (case te_info e of
        MemoryEdgeInfo k \<Rightarrow>
          let separation = memoryDependenceSeparation t k in
          Inr (if separation = 0
               then recurrenceError e MII_TargetContractError MII_TARGET_MEMORY_TIMING_MISSING None st
               else pushConstraint nodes e separation st)
      | _ \<Rightarrow>
          bindR (tdfg_node g (te_src e)) (\<lambda>producer.
            let missing = recurrenceError e MII_TargetContractError MII_TARGET_LATENCY_MISSING (Some (te_src e)) st
            in case tn_resultLatency producer of
                 None \<Rightarrow> Inr missing
               | Some separation \<Rightarrow> Inr (if separation = 0 then missing else pushConstraint nodes e separation st)))"

definition recurrenceConstraints ::
  "TargetDFG \<Rightarrow> TargetModel \<Rightarrow> TargetNodeId list \<Rightarrow> MIIResult \<Rightarrow> RecurrenceState result" where
  "recurrenceConstraints g t nodes r =
     foldR (recurrenceConstraint g t nodes) (r, [], 0) (sort_key te_id (td_edges g))"

section \<open>The analysis\<close>

text \<open>What follows the constraints: the zero-distance test, the search and the final interval.\<close>

definition recurrenceBound :: "MIIResult \<Rightarrow> IndexedConstraint list \<Rightarrow> nat \<Rightarrow> nat \<Rightarrow> MIIResult" where
  "recurrenceBound r cs sumSeparation nodeCount =
     (let finish = (\<lambda>r. r\<lparr>mi_status := MII_Success,
                        mi_mii := (let m = max (mi_resourceMII r) (mi_recurrenceMII r) in if m = 0 then 1 else m)\<rparr>) in
      if cs = [] then finish (r\<lparr>mi_recurrenceMII := 1\<rparr>)
      else
        let zero = mii_evaluate (filter (\<lambda>c. rc_distance (ix_constraint c) = 0) cs) nodeCount 0 in
        if \<not> fe_feasible zero then
          addDiagnostic MII_UnschedulableZeroDistanceCycle MII_ZERO_DISTANCE_CYCLE None
            (case fe_witness zero of
               None \<Rightarrow> None
             | Some w \<Rightarrow> (case rw_edges w of [] \<Rightarrow> None | e # _ \<Rightarrow> Some e))
            (r\<lparr>mi_recurrenceWitness := fe_witness zero\<rparr>)
        else if sumSeparation = 0 then addDiagnostic MII_InternalError MII_INTERNAL_ERROR None None r
        else if sumSeparation > u32_max then addDiagnostic MII_InternalError MII_ARITHMETIC_OVERFLOW None None r
        else if \<not> fe_feasible (mii_evaluate cs nodeCount (max 1 sumSeparation)) then
          addDiagnostic MII_InternalError MII_INTERNAL_ERROR None None r
        else
          let low = recurrence_search cs nodeCount 1 (max 1 sumSeparation);
              r1 = r\<lparr>mi_recurrenceMII := low\<rparr>
          in finish (if low > 1
                     then r1\<lparr>mi_recurrenceWitness := fe_witness (mii_evaluate cs nodeCount (low - 1))\<rparr>
                     else r1))"

definition allDiagnosticsAreNoResource :: "TargetDFGDiagnostic list \<Rightarrow> bool" where
  "allDiagnosticsAreNoResource ds \<longleftrightarrow> ds \<noteq> [] \<and>
     (\<forall>d \<in> set ds. case d of TDiag c _ _ _ \<Rightarrow> c = TDFG_NO_COMPATIBLE_EXECUTION_RESOURCE)"

definition mii_analyze :: "TargetDFG \<Rightarrow> TargetModel \<Rightarrow> MIIResult result" where
  "mii_analyze g t =
     bindR (tdfg_verify g t None) (\<lambda>targetReport.
       if targetReport \<noteq> [] then
         Inr (if allDiagnosticsAreNoResource targetReport
              then addDiagnostic MII_NoCompatibleResource MII_NO_COMPATIBLE_RESOURCE None None empty_MIIResult
              else addDiagnostic MII_InvalidTargetDFG MII_INVALID_TARGET_DFG None None empty_MIIResult)
       else if td_targetName g \<noteq> tm_name t then
         Inr (addDiagnostic MII_InvalidTargetDFG MII_INVALID_TARGET_DFG None None empty_MIIResult)
       else
         bindR (resourceBounds g t) (\<lambda>bounds.
           case bounds of
             Inl r \<Rightarrow> Inr r
           | Inr r \<Rightarrow>
               let nodes = sort (map tn_id (td_nodes g)) in
               bindR (recurrenceConstraints g t nodes r) (\<lambda>(r1, cs, sumSeparation).
                 if mi_status r1 \<in> {MII_TargetContractError, MII_InvalidTargetDFG, MII_InternalError}
                 then Inr r1
                 else Inr (recurrenceBound r1 cs sumSeparation (length nodes)))))"

end
