(* ===== verification/Analysis_Recurrence.thy ===== *)
theory Analysis_Recurrence
  imports Analysis_MII
begin

text \<open>
  The recurrence bound is exact: the analysis returns the least initiation interval for which the
  dependence cycles of the graph can be timed at all, and reports an unschedulable zero-distance
  cycle only when no interval can.
\<close>

section \<open>The feasibility test\<close>

definition weighted :: "nat \<Rightarrow> IndexedConstraint \<Rightarrow> constraint" where
  "weighted ii c = (ix_srcIndex c, ix_dstIndex c, constraint_weight ii c)"

interpretation longest: relaxation n "\<lambda>st. length (ev_longest st) = n" "\<lambda>st v. ev_longest st ! v"
  "\<lambda>item. weighted ii (snd item)" "\<lambda>st item st'. st' = evalConstraint ii st item"
  for n ii
  by unfold_locales (auto simp: evalConstraint_def weighted_def Let_def nth_list_update split: prod.splits)

lemma within_iff:
  "longest.within n ii items \<longleftrightarrow> (\<forall>item \<in> set items. ix_srcIndex (snd item) < n \<and> ix_dstIndex (snd item) < n)"
  unfolding longest.within_def by (simp add: weighted_def)

lemma fold_sweep: "longest.sweep ii st items (foldl (evalConstraint ii) st items)"
proof (induction items arbitrary: st)
  case Nil
  show ?case by (simp add: longest.sweep.stop)
next
  case (Cons c items)
  show ?case unfolding foldl.simps by (rule longest.sweep.step [OF refl Cons.IH])
qed

lemma evalConstraint_cases:
  "evalConstraint ii st item = st \<or>
   (ev_lastUpdated (evalConstraint ii st item) \<noteq> None \<and>
    ev_longest (evalConstraint ii st item) =
      (ev_longest st)[ix_dstIndex (snd item) := ev_longest st ! ix_srcIndex (snd item) + constraint_weight ii (snd item)] \<and>
    ev_longest st ! ix_dstIndex (snd item) < ev_longest st ! ix_srcIndex (snd item) + constraint_weight ii (snd item))"
  by (auto simp: evalConstraint_def Let_def split: prod.splits)

lemma fold_updated_mono:
  "ev_lastUpdated st \<noteq> None \<Longrightarrow> ev_lastUpdated (foldl (evalConstraint ii) st items) \<noteq> None"
proof (induction items arbitrary: st)
  case (Cons c items)
  have "ev_lastUpdated (evalConstraint ii st c) \<noteq> None"
    using evalConstraint_cases [of ii st c] Cons.prems by auto
  from Cons.IH [OF this] show ?case by simp
qed simp

lemma fold_unchanged:
  "ev_lastUpdated (foldl (evalConstraint ii) st items) = None \<Longrightarrow> foldl (evalConstraint ii) st items = st"
proof (induction items arbitrary: st)
  case (Cons c items)
  have "ev_lastUpdated (evalConstraint ii st c) = None"
  proof (rule ccontr)
    assume "ev_lastUpdated (evalConstraint ii st c) \<noteq> None"
    from fold_updated_mono [OF this, of ii items] Cons.prems show False by simp
  qed
  then have "evalConstraint ii st c = st" using evalConstraint_cases [of ii st c] by simp
  with Cons show ?case by simp
qed simp

lemma fold_changed:
  assumes "longest.within n ii items" and "length (ev_longest st) = n" and "ev_lastUpdated st = None"
    and "ev_lastUpdated (foldl (evalConstraint ii) st items) \<noteq> None"
  shows "\<exists>v < n. ev_longest st ! v \<noteq> ev_longest (foldl (evalConstraint ii) st items) ! v"
  using assms
proof (induction items arbitrary: st)
  case (Cons c items)
  have wi: "longest.within n ii [c]" "longest.within n ii items" using Cons.prems(1) by (auto simp: within_iff)
  let ?st = "evalConstraint ii st c"
  have len: "length (ev_longest ?st) = n" using longest.relax_inv [OF Cons.prems(2) refl] .
  show ?case
  proof (cases "?st = st")
    case True
    with Cons show ?thesis using wi(2) by simp
  next
    case False
    let ?d = "ix_dstIndex (snd c)"
    have d: "?d < n" using wi(1) by (simp add: within_iff)
    have "ev_longest st ! ?d < ev_longest ?st ! ?d"
      using evalConstraint_cases [of ii st c] False d Cons.prems(2) by auto
    also have "\<dots> \<le> ev_longest (foldl (evalConstraint ii) ?st items) ! ?d"
      by (rule longest.sweep_mono [OF fold_sweep len wi(2) d])
    finally show ?thesis using d by (intro exI [of _ ?d]) simp
  qed
qed simp

lemma evalRounds_spec:
  assumes "evalRounds ii cs k st = (b, st')" and wi: "longest.within n ii (enumerate 0 cs)"
    and "longest.sweeps n ii (enumerate 0 cs) round st0 s" and "ev_longest s = ev_longest st"
    and "length (ev_longest st0) = n" and "0 < k"
  shows "if b then \<exists>s1. length (ev_longest s1) = n \<and> longest.sweep ii s1 (enumerate 0 cs) s1
    else \<exists>s s1 s2. longest.sweeps n ii (enumerate 0 cs) (round + k - 1) st0 s \<and> ev_longest s1 = ev_longest s \<and>
      longest.sweep ii s1 (enumerate 0 cs) s2 \<and> (\<exists>v < n. ev_longest s1 ! v \<noteq> ev_longest s2 ! v)"
  using assms(1,3-)
proof (induction k arbitrary: round st s)
  case (Suc k)
  let ?st = "st\<lparr>ev_lastUpdated := None\<rparr>"
  let ?st1 = "foldl (evalConstraint ii) ?st (enumerate 0 cs)"
  have len: "length (ev_longest ?st) = n"
    using longest.sweeps_inv [OF Suc.prems(2) Suc.prems(4)] Suc.prems(3) by simp
  have sw: "longest.sweep ii ?st (enumerate 0 cs) ?st1" by (rule fold_sweep)
  show ?case
  proof (cases "ev_lastUpdated ?st1 = None")
    case True
    then have "?st1 = ?st" by (rule fold_unchanged)
    with sw have "longest.sweep ii ?st (enumerate 0 cs) ?st" by simp
    moreover have b using True Suc.prems(1) by (simp add: Let_def)
    ultimately show ?thesis using len by (simp only: if_True) blast
  next
    case False
    have rec: "evalRounds ii cs k ?st1 = (b, st')" using Suc.prems(1) False by (simp add: Let_def)
    show ?thesis
    proof (cases "k = 0")
      case True
      have ch: "\<exists>v < n. ev_longest ?st ! v \<noteq> ev_longest ?st1 ! v"
        by (rule fold_changed [OF wi len _ False]) simp
      have nb: "b = False" using rec True by simp
      have eq: "ev_longest ?st = ev_longest s" using Suc.prems(3) by simp
      have "longest.sweeps n ii (enumerate 0 cs) (round + Suc k - 1) st0 s" using True Suc.prems(2) by simp
      then show ?thesis unfolding nb if_False
        by (intro exI [of _ s] exI [of _ ?st] exI [of _ ?st1] conjI eq sw ch)
    next
      case k: False
      have "longest.sweeps n ii (enumerate 0 cs) (Suc round) st0 ?st1"
        by (rule longest.sweeps.more [OF Suc.prems(2) len _ sw]) (use Suc.prems(3) in simp)
      from Suc.IH [OF rec this refl Suc.prems(4)] k show ?thesis unfolding add_Suc add_Suc_right by blast
    qed
  qed
qed simp

lemma shift_nonneg:
  assumes "solution C f"
  obtains f' where "solution C f'" and "\<forall>v < n. (0 :: int) \<le> f' v"
proof
  let ?k = "\<Sum>v < (n :: nat). \<bar>f v\<bar>"
  show "solution C (\<lambda>v. f v + ?k)" using assms by (auto simp: solution_def)
  show "\<forall>v < n. 0 \<le> f v + ?k"
  proof (intro allI impI)
    fix v
    assume "v < n"
    then have "\<bar>f v\<bar> \<le> ?k" by (intro member_le_sum) simp_all
    then show "0 \<le> f v + ?k" by linarith
  qed
qed

text \<open>The test accepts exactly the systems that have a solution.\<close>

lemma within_enumerate:
  "longest.within n ii (enumerate 0 cs) \<longleftrightarrow> (\<forall>c \<in> set cs. ix_srcIndex c < n \<and> ix_dstIndex c < n)"
proof -
  have "set cs = snd ` set (enumerate 0 cs)" by (metis map_snd_enumerate set_map)
  then show ?thesis by (auto simp: within_iff)
qed

lemma constr_enumerate: "(\<lambda>item. weighted ii (snd item)) ` set (enumerate 0 cs) = weighted ii ` set cs"
proof -
  have "set cs = snd ` set (enumerate 0 cs)" by (metis map_snd_enumerate set_map)
  then show ?thesis by (simp only: image_image)
qed

lemma mii_evaluate_iff:
  assumes wi: "\<forall>c \<in> set cs. ix_srcIndex c < n \<and> ix_dstIndex c < n" and n: "0 < n"
  shows "fe_feasible (mii_evaluate cs n ii) \<longleftrightarrow> (\<exists>f. solution (weighted ii ` set cs) f)"
proof -
  obtain b st' where e: "evalRounds ii cs n (initial_eval n) = (b, st')" by (cases "evalRounds ii cs n (initial_eval n)")
  have b: "fe_feasible (mii_evaluate cs n ii) = b" using e by (cases b) (simp_all add: mii_evaluate_def)
  have i0: "length (ev_longest (initial_eval n)) = n" "\<forall>v < n. ev_longest (initial_eval n) ! v = 0"
    by (simp_all add: initial_eval_def)
  have w: "longest.within n ii (enumerate 0 cs)" using wi by (simp add: within_enumerate)
  note spec = evalRounds_spec [OF e w longest.sweeps.none refl i0(1) n]
  show ?thesis
  proof (cases b)
    case True
    with spec obtain s1 where s1: "length (ev_longest s1) = n" "longest.sweep ii s1 (enumerate 0 cs) s1" by auto
    from longest.stable_solution [OF s1(2,1) w] have "solution (weighted ii ` set cs) (\<lambda>v. ev_longest s1 ! v)"
      by (simp add: constr_enumerate)
    with b True show ?thesis by blast
  next
    case False
    with spec obtain s s1 s2 v where s: "longest.sweeps n ii (enumerate 0 cs) (n - 1) (initial_eval n) s"
      "ev_longest s1 = ev_longest s" "longest.sweep ii s1 (enumerate 0 cs) s2" "v < n"
      "ev_longest s1 ! v \<noteq> ev_longest s2 ! v" by auto
    have "\<not> solution (weighted ii ` set cs) f" for f
    proof
      assume "solution (weighted ii ` set cs) f"
      from shift_nonneg [OF this] obtain f' where "solution (weighted ii ` set cs) f'" "\<forall>v < n. 0 \<le> f' v" .
      then have f': "solution ((\<lambda>item. weighted ii (snd item)) ` set (enumerate 0 cs)) f'" "\<forall>v < n. 0 \<le> f' v"
        by (simp_all add: constr_enumerate)
      have "ev_longest s2 ! v = ev_longest s1 ! v"
        by (rule longest.no_late_change [OF f' w i0 s(1) _ _ _ s(3,4)])
           (use n s(2) longest.sweeps_inv [OF s(1) i0(1)] in simp_all)
      with s(5) show False by simp
    qed
    with b False show ?thesis by simp
  qed
qed

section \<open>The search\<close>

lemma recurrence_search_least:
  assumes "low \<le> high" and "fe_feasible (mii_evaluate cs n high)"
    and "\<forall>i j. i \<le> j \<longrightarrow> fe_feasible (mii_evaluate cs n i) \<longrightarrow> fe_feasible (mii_evaluate cs n j)"
  shows "fe_feasible (mii_evaluate cs n (recurrence_search cs n low high)) \<and>
    low \<le> recurrence_search cs n low high \<and> recurrence_search cs n low high \<le> high \<and>
    (\<forall>i. low \<le> i \<longrightarrow> i < recurrence_search cs n low high \<longrightarrow> \<not> fe_feasible (mii_evaluate cs n i))"
  using assms
proof (induction cs n low high rule: recurrence_search.induct)
  case (1 cs n low high)
  let ?mid = "low + (high - low) div 2"
  show ?case
  proof (cases "low < high")
    case False
    then have "recurrence_search cs n low high = low" by (subst recurrence_search.simps) simp
    with False "1.prems" show ?thesis by simp
  next
    case True
    show ?thesis
    proof (cases "fe_feasible (mii_evaluate cs n ?mid)")
      case ok: True
      have "recurrence_search cs n low high = recurrence_search cs n low ?mid"
        using True ok by (subst recurrence_search.simps) (simp add: Let_def)
      moreover have "?mid \<le> high" using True by linarith
      ultimately show ?thesis using "1.IH"(1) [OF True refl ok _ ok "1.prems"(3)] by auto
    next
      case no: False
      have eq: "recurrence_search cs n low high = recurrence_search cs n (?mid + 1) high"
        using True no by (subst recurrence_search.simps) (simp add: Let_def)
      have ih: "fe_feasible (mii_evaluate cs n (recurrence_search cs n (?mid + 1) high)) \<and>
          ?mid + 1 \<le> recurrence_search cs n (?mid + 1) high \<and> recurrence_search cs n (?mid + 1) high \<le> high \<and>
          (\<forall>i. ?mid + 1 \<le> i \<longrightarrow> i < recurrence_search cs n (?mid + 1) high \<longrightarrow> \<not> fe_feasible (mii_evaluate cs n i))"
        by (rule "1.IH"(2) [OF True refl no _ "1.prems"(2,3)]) (use True in auto)
      have "\<not> fe_feasible (mii_evaluate cs n i)" if "i < recurrence_search cs n (?mid + 1) high" for i
      proof (cases "i \<le> ?mid")
        case True
        with no "1.prems"(3) show ?thesis by blast
      next
        case False
        with ih that show ?thesis by simp
      qed
      with ih show ?thesis unfolding eq by auto
    qed
  qed
qed

section \<open>The constraints of the graph\<close>

text \<open>The separation a dependence needs whatever the mapping: the latency of the producer, or what the
  memory system asks for.\<close>

definition intrinsic_separation :: "TargetDFG \<Rightarrow> TargetModel \<Rightarrow> TargetEdge \<Rightarrow> nat" where
  "intrinsic_separation g t e =
     (case te_info e of
        MemoryEdgeInfo k \<Rightarrow> memoryDependenceSeparation t k
      | _ \<Rightarrow> (case tdfg_node g (te_src e) of
                Inl _ \<Rightarrow> 0
              | Inr n \<Rightarrow> (case tn_resultLatency n of None \<Rightarrow> 0 | Some l \<Rightarrow> l)))"

text \<open>Issue times of one iteration that respect every dependence when iterations start every \<open>ii\<close>
  cycles.\<close>

definition recurrence_feasible :: "TargetDFG \<Rightarrow> TargetModel \<Rightarrow> nat \<Rightarrow> bool" where
  "recurrence_feasible g t ii \<longleftrightarrow>
     (\<exists>time. \<forall>e \<in> set (td_edges g).
        time (te_src e) + int (intrinsic_separation g t e) \<le> time (te_dst e) + int (te_distance e) * int ii)"

abbreviation mii_errors :: "MIIStatus set" where
  "mii_errors \<equiv> {MII_TargetContractError, MII_InvalidTargetDFG, MII_InternalError}"

definition models_edge :: "TargetDFG \<Rightarrow> TargetModel \<Rightarrow> TargetNodeId list \<Rightarrow> TargetEdge \<Rightarrow> IndexedConstraint \<Rightarrow> bool" where
  "models_edge g t nodes e c \<longleftrightarrow>
     index_of (te_src e) nodes = Some (ix_srcIndex c) \<and> index_of (te_dst e) nodes = Some (ix_dstIndex c) \<and>
     rc_distance (ix_constraint c) = te_distance e \<and>
     rc_intrinsicSeparation (ix_constraint c) = wrap32 (intrinsic_separation g t e)"

lemma addDiagnostic_status [simp]: "mi_status (addDiagnostic s c n e r) = s"
  by (simp add: addDiagnostic_def)

lemma recurrenceError_status [simp]: "mi_status (fst (recurrenceError e s c n st)) = s"
  by (simp add: recurrenceError_def split: prod.splits)

lemma pushConstraint_cases:
  assumes "pushConstraint nodes e separation (r, cs, k) = (r', cs', k')" and "mi_status r' \<notin> mii_errors"
  shows "r' = r \<and> k' = k + separation \<and> (\<exists>c. cs' = cs @ [c] \<and>
     index_of (te_src e) nodes = Some (ix_srcIndex c) \<and> index_of (te_dst e) nodes = Some (ix_dstIndex c) \<and>
     rc_distance (ix_constraint c) = te_distance e \<and> rc_intrinsicSeparation (ix_constraint c) = wrap32 separation)"
  using assms
  by (auto simp: pushConstraint_def Let_def checkedAdd64_def recurrenceError_def split: option.splits if_splits)

lemma recurrenceConstraint_cases:
  assumes "recurrenceConstraint g t nodes st e = Inr st'" and ok: "mi_status (fst st') \<notin> mii_errors"
  shows "st' = pushConstraint nodes e (intrinsic_separation g t e) st"
proof (cases "\<exists>k. te_info e = MemoryEdgeInfo k")
  case True
  with assms show ?thesis
    by (auto simp: recurrenceConstraint_def intrinsic_separation_def Let_def split: if_splits)
next
  case False
  then have v: "recurrenceConstraint g t nodes st e = bindR (tdfg_node g (te_src e)) (\<lambda>producer.
      let missing = recurrenceError e MII_TargetContractError MII_TARGET_LATENCY_MISSING (Some (te_src e)) st
      in case tn_resultLatency producer of
           None \<Rightarrow> Inr missing
         | Some separation \<Rightarrow> Inr (if separation = 0 then missing else pushConstraint nodes e separation st))"
    by (simp add: recurrenceConstraint_def split: EdgeInfo.splits)
  obtain p where p: "tdfg_node g (te_src e) = Inr p" using assms(1) v by (auto simp: bindR_eq_Inr)
  have "intrinsic_separation g t e = (case tn_resultLatency p of None \<Rightarrow> 0 | Some l \<Rightarrow> l)"
    using False p by (simp add: intrinsic_separation_def split: EdgeInfo.splits)
  with assms v p show ?thesis by (auto simp: Let_def split: option.splits if_splits)
qed

lemma recurrenceConstraints_all:
  assumes "foldR (recurrenceConstraint g t nodes) (r, cs, k) es = Inr (r', cs', k')"
    and "mi_status r' \<notin> mii_errors"
  shows "r' = r \<and> k' = k + (\<Sum>e \<leftarrow> es. intrinsic_separation g t e) \<and>
    (\<exists>ds. cs' = cs @ ds \<and> list_all2 (models_edge g t nodes) es ds)"
  using assms
proof (induction es arbitrary: r cs k)
  case (Cons e es)
  then obtain r1 cs1 k1 where 1: "recurrenceConstraint g t nodes (r, cs, k) e = Inr (r1, cs1, k1)"
      "foldR (recurrenceConstraint g t nodes) (r1, cs1, k1) es = Inr (r', cs', k')"
    by (auto simp: bindR_eq_Inr)
  note ih = Cons.IH [OF 1(2) Cons.prems(2)]
  then have ok: "mi_status r1 \<notin> mii_errors" using Cons.prems(2) by simp
  have "pushConstraint nodes e (intrinsic_separation g t e) (r, cs, k) = (r1, cs1, k1)"
    by (rule recurrenceConstraint_cases [OF 1(1), symmetric]) (use ok in simp)
  from pushConstraint_cases [OF this ok] obtain c where
    c: "r1 = r" "k1 = k + intrinsic_separation g t e" "cs1 = cs @ [c]" "models_edge g t nodes e c"
    unfolding models_edge_def by blast
  from ih obtain ds where "cs' = cs1 @ ds" "list_all2 (models_edge g t nodes) es ds" by blast
  with c have "cs' = cs @ (c # ds)" "list_all2 (models_edge g t nodes) (e # es) (c # ds)" by simp_all
  moreover have "r' = r" "k' = k + (\<Sum>e \<leftarrow> e # es. intrinsic_separation g t e)" using ih c by simp_all
  ultimately show ?case by blast
qed simp

lemma models_edge_set:
  assumes "list_all2 (models_edge g t nodes) es cs"
  shows "\<forall>e \<in> set es. \<exists>c \<in> set cs. models_edge g t nodes e c" and "\<forall>c \<in> set cs. \<exists>e \<in> set es. models_edge g t nodes e c"
  using assms by (induction rule: list_all2_induct) auto

lemma constraints_feasible:
  assumes cs: "list_all2 (models_edge g t nodes) es cs" and es: "set es = set (td_edges g)"
    and nodes: "distinct nodes" and small: "\<forall>e \<in> set es. intrinsic_separation g t e \<le> u32_max"
  shows "(\<exists>f. solution (weighted ii ` set cs) f) \<longleftrightarrow> recurrence_feasible g t ii"
proof -
  note rel = models_edge_set [OF cs]
  have w: "weighted ii c = (s, d, int (intrinsic_separation g t e) - int (te_distance e) * int ii) \<and>
      nodes ! s = te_src e \<and> nodes ! d = te_dst e \<and> s < length nodes \<and> d < length nodes"
    if "models_edge g t nodes e c" "e \<in> set es" "s = ix_srcIndex c" "d = ix_dstIndex c" for e c s d
  proof -
    have "wrap32 (intrinsic_separation g t e) = intrinsic_separation g t e"
      using small that(2) by (intro wrap32_small) force
    with that index_of_SomeD [of "te_src e" nodes s] index_of_SomeD [of "te_dst e" nodes d] show ?thesis
      by (simp add: models_edge_def weighted_def constraint_weight_def)
  qed
  show ?thesis
  proof
    assume "\<exists>f. solution (weighted ii ` set cs) f"
    then obtain f where f: "solution (weighted ii ` set cs) f" ..
    show "recurrence_feasible g t ii"
      unfolding recurrence_feasible_def
    proof (intro exI ballI)
      fix e
      assume e: "e \<in> set (td_edges g)"
      with rel(1) es obtain c where c: "c \<in> set cs" "models_edge g t nodes e c" by auto
      from w [OF c(2) _ refl refl] e es have
        "(ix_srcIndex c, ix_dstIndex c, int (intrinsic_separation g t e) - int (te_distance e) * int ii) \<in> weighted ii ` set cs"
        using c(1) by (metis imageI)
      from solutionD [OF f this]
      show "f (the (index_of (te_src e) nodes)) + int (intrinsic_separation g t e) \<le>
          f (the (index_of (te_dst e) nodes)) + int (te_distance e) * int ii"
        using c(2) by (simp add: models_edge_def)
    qed
  next
    assume "recurrence_feasible g t ii"
    then obtain time where time: "\<forall>e \<in> set (td_edges g).
        time (te_src e) + int (intrinsic_separation g t e) \<le> time (te_dst e) + int (te_distance e) * int ii"
      by (auto simp: recurrence_feasible_def)
    have "solution (weighted ii ` set cs) (\<lambda>v. time (nodes ! v))"
    proof (rule solutionI)
      fix s d x
      assume "(s, d, x) \<in> weighted ii ` set cs"
      then obtain c where c: "c \<in> set cs" "weighted ii c = (s, d, x)" by auto
      with rel(2) obtain e where e: "e \<in> set es" "models_edge g t nodes e c" by auto
      have sd: "s = ix_srcIndex c" "d = ix_dstIndex c" using c(2) by (simp_all add: weighted_def)
      from w [OF e(2,1) sd] c(2) time e(1) es show "time (nodes ! s) + x \<le> time (nodes ! d)" by force
    qed
    then show "\<exists>f. solution (weighted ii ` set cs) f" by blast
  qed
qed

lemma recurrence_feasible_mono: "recurrence_feasible g t i \<Longrightarrow> i \<le> j \<Longrightarrow> recurrence_feasible g t j"
proof -
  assume "recurrence_feasible g t i" and ij: "i \<le> j"
  then obtain time where time: "\<forall>e \<in> set (td_edges g).
      time (te_src e) + int (intrinsic_separation g t e) \<le> time (te_dst e) + int (te_distance e) * int i"
    by (auto simp: recurrence_feasible_def)
  have "int k * int i \<le> int k * int j" for k using ij by (intro mult_left_mono) simp_all
  with time show ?thesis unfolding recurrence_feasible_def by (meson add_left_mono order_trans)
qed

section \<open>The recurrence bound\<close>

lemma perOperationBounds_return:
  "perOperationBounds t r ops = Inr (Inl r') \<Longrightarrow> mi_status r' = MII_InternalError"
proof (induction ops arbitrary: r)
  case (Cons op ops)
  obtain name demand where op: "op = (name, demand)" by (cases op)
  from Cons.prems op obtain d where "operation t name = Inr d" by (auto simp: bindR_eq_Inr)
  with Cons op show ?case by (auto simp: Let_def split: if_splits option.splits)
qed simp

lemma resourceTotal_return: "resourceTotal x = Inl r \<Longrightarrow> x = Inl r \<or> mi_status r = MII_NoCompatibleResource"
  by (auto simp: resourceTotal_def Let_def split: sum.splits if_splits)

lemma resourceBounds_return:
  "resourceBounds g t = Inr (Inl r) \<Longrightarrow> mi_status r \<in> insert MII_NoCompatibleResource mii_errors"
  by (auto simp: resourceBounds_def Let_def bindR_eq_Inr
      split: if_splits option.splits dest!: resourceTotal_return perOperationBounds_return)

lemma mii_analyze_phases:
  assumes "mii_analyze g t = Inr r" and "mi_status r \<in> {MII_Success, MII_UnschedulableZeroDistanceCycle}"
  obtains r0 r1 cs k where "tdfg_verify g t None = Inr []" "td_targetName g = tm_name t"
    "resourceBounds g t = Inr (Inr r0)"
    "recurrenceConstraints g t (sort (map tn_id (td_nodes g))) r0 = Inr (r1, cs, k)"
    "mi_status r1 \<notin> mii_errors" "r = recurrenceBound r1 cs k (length (td_nodes g))"
proof -
  have v: "tdfg_verify g t None = Inr []" "td_targetName g = tm_name t"
    using assms by (auto simp: mii_analyze_def bindR_eq_Inr split: if_splits)
  then obtain bounds where b: "resourceBounds g t = Inr bounds"
    using assms by (auto simp: mii_analyze_def bindR_eq_Inr)
  show thesis
  proof (cases bounds)
    case (Inl r')
    with assms v b resourceBounds_return [of g t r'] show ?thesis by (auto simp: mii_analyze_def)
  next
    case (Inr r0)
    with assms v b that show ?thesis
      by (auto simp: mii_analyze_def Let_def bindR_eq_Inr split: if_splits)
  qed
qed

text \<open>The constraints on which the bound is computed.\<close>

lemma analyzed_constraints:
  assumes "tdfg_verify g t None = Inr []"
    and "recurrenceConstraints g t (sort (map tn_id (td_nodes g))) r0 = Inr (r1, cs, k)"
    and "mi_status r1 \<notin> mii_errors"
  shows "r1 = r0" and "k = (\<Sum>e \<leftarrow> sort_key te_id (td_edges g). intrinsic_separation g t e)"
    and "list_all2 (models_edge g t (sort (map tn_id (td_nodes g)))) (sort_key te_id (td_edges g)) cs"
    and "\<forall>c \<in> set cs. ix_srcIndex c < length (td_nodes g) \<and> ix_dstIndex c < length (td_nodes g)"
proof -
  let ?nodes = "sort (map tn_id (td_nodes g))" and ?es = "sort_key te_id (td_edges g)"
  note all = recurrenceConstraints_all [OF assms(2) [unfolded recurrenceConstraints_def] assms(3)]
  then show "r1 = r0" "k = (\<Sum>e \<leftarrow> ?es. intrinsic_separation g t e)" by simp_all
  from all show l: "list_all2 (models_edge g t ?nodes) ?es cs" by simp
  show "\<forall>c \<in> set cs. ix_srcIndex c < length (td_nodes g) \<and> ix_dstIndex c < length (td_nodes g)"
  proof
    fix c
    assume "c \<in> set cs"
    with models_edge_set(2) [OF l] obtain e where "models_edge g t ?nodes e c" by blast
    then show "ix_srcIndex c < length (td_nodes g) \<and> ix_dstIndex c < length (td_nodes g)"
      using index_of_SomeD [of "te_src e" ?nodes] index_of_SomeD [of "te_dst e" ?nodes]
      by (simp add: models_edge_def)
  qed
qed

lemma recurrenceMII_bound:
  assumes "mii_analyze g t = Inr r" and "mi_status r = MII_Success" and "1 \<le> ii"
  shows "recurrence_feasible g t ii \<longleftrightarrow> mi_recurrenceMII r \<le> ii"
proof -
  let ?nodes = "sort (map tn_id (td_nodes g))" and ?es = "sort_key te_id (td_edges g)"
  let ?n = "length (td_nodes g)"
  obtain r0 r1 cs k where v: "tdfg_verify g t None = Inr []"
    and c: "recurrenceConstraints g t ?nodes r0 = Inr (r1, cs, k)" "mi_status r1 \<notin> mii_errors"
    and r: "r = recurrenceBound r1 cs k ?n"
    by (rule mii_analyze_phases [OF assms(1)]) (use assms(2) in simp)
  note a = analyzed_constraints [OF v c]
  have dist: "distinct ?nodes" using tdfg_verify_ids(1) [OF v] by simp
  show ?thesis
  proof (cases "cs = []")
    case True
    then have "td_edges g = []" using a(3) by (metis list_all2_Nil2 set_empty set_sort)
    then show ?thesis using True r assms(3) by (simp add: recurrenceBound_def recurrence_feasible_def Let_def)
  next
    case False
    then obtain c where "c \<in> set cs" by (meson last_in_set)
    with a(4) have n: "0 < ?n" by force
    let ?hi = "max 1 k" and ?low = "recurrence_search cs ?n 1 (max 1 k)"
    have h: "k \<le> u32_max" "fe_feasible (mii_evaluate cs ?n ?hi)" "mi_recurrenceMII r = ?low"
      using assms(2) r False by (auto simp: recurrenceBound_def Let_def split: if_splits)
    have small: "\<forall>e \<in> set ?es. intrinsic_separation g t e \<le> u32_max"
    proof
      fix e
      assume "e \<in> set ?es"
      then have "intrinsic_separation g t e \<le> (\<Sum>e \<leftarrow> ?es. intrinsic_separation g t e)"
        by (intro member_le_sum_list) simp_all
      with a(2) h(1) show "intrinsic_separation g t e \<le> u32_max" by simp
    qed
    have iff: "fe_feasible (mii_evaluate cs ?n i) \<longleftrightarrow> recurrence_feasible g t i" for i
      unfolding mii_evaluate_iff [OF a(4) n] by (rule constraints_feasible [OF a(3) _ dist small]) simp
    have mono: "\<forall>i j. i \<le> j \<longrightarrow> fe_feasible (mii_evaluate cs ?n i) \<longrightarrow> fe_feasible (mii_evaluate cs ?n j)"
      using recurrence_feasible_mono by (simp add: iff)
    have s: "fe_feasible (mii_evaluate cs ?n ?low)"
      "\<forall>i. 1 \<le> i \<longrightarrow> i < ?low \<longrightarrow> \<not> fe_feasible (mii_evaluate cs ?n i)"
      using recurrence_search_least [OF _ h(2) mono, of 1] by auto
    show ?thesis
    proof (cases "?low \<le> ii")
      case True
      with s(1) mono have "fe_feasible (mii_evaluate cs ?n ii)" by blast
      with True h(3) iff show ?thesis by simp
    next
      case False
      with s(2) assms(3) have "\<not> fe_feasible (mii_evaluate cs ?n ii)" by simp
      with False h(3) iff show ?thesis by simp
    qed
  qed
qed

text \<open>C18: A successful analysis has found the exact recurrence bound: an initiation interval allows
  some timing of the operations that respects every dependence if and only if it is at least the
  reported \<open>recurrenceMII\<close>.\<close>

theorem recurrenceMII_exact:
  assumes "mii_analyze g t = Inr r" and "mi_status r = MII_Success" and "1 \<le> ii"
  shows "recurrence_feasible g t ii \<longleftrightarrow> mi_recurrenceMII r \<le> ii"
  using assms by (rule recurrenceMII_bound)

theorem recurrenceMII_exact_witness:
  "recurrence_feasible demo_tdfg demo_target 1 \<longleftrightarrow> mi_recurrenceMII (projr (mii_analyze demo_tdfg demo_target)) \<le> 1"
proof -
  have "case mii_analyze demo_tdfg demo_target of Inl _ \<Rightarrow> False | Inr r \<Rightarrow> mi_status r = MII_Success"
    by code_simp
  then obtain r where r: "mii_analyze demo_tdfg demo_target = Inr r" "mi_status r = MII_Success"
    by (auto split: sum.splits)
  from recurrenceMII_exact [OF r, of 1] show ?thesis by (simp add: r)
qed

text \<open>C19: When the analysis reports an unschedulable zero-distance cycle, no initiation interval,
  however long, allows the operations to be timed.\<close>

theorem zero_cycle_unschedulable:
  assumes "mii_analyze g t = Inr r" and "mi_status r = MII_UnschedulableZeroDistanceCycle"
    and small: "\<forall>e \<in> set (td_edges g). intrinsic_separation g t e \<le> u32_max"
  shows "\<not> recurrence_feasible g t ii"
proof
  assume feas: "recurrence_feasible g t ii"
  let ?nodes = "sort (map tn_id (td_nodes g))" and ?es = "sort_key te_id (td_edges g)" and ?n = "length (td_nodes g)"
  obtain r0 r1 cs k where v: "tdfg_verify g t None = Inr []"
    and c: "recurrenceConstraints g t ?nodes r0 = Inr (r1, cs, k)" "mi_status r1 \<notin> mii_errors"
    and r: "r = recurrenceBound r1 cs k ?n"
    by (rule mii_analyze_phases [OF assms(1)]) (use assms(2) in simp)
  note a = analyzed_constraints [OF v c]
  let ?zero = "filter (\<lambda>c. rc_distance (ix_constraint c) = 0) cs"
  have no: "\<not> fe_feasible (mii_evaluate ?zero ?n 0)" and "cs \<noteq> []"
    using assms(2) r by (auto simp: recurrenceBound_def Let_def split: if_splits)
  then obtain c where "c \<in> set cs" by (meson last_in_set)
  with a(4) have n: "0 < ?n" by force
  have "distinct ?nodes" using tdfg_verify_ids(1) [OF v] by simp
  with constraints_feasible [OF a(3), of ii] feas small obtain f where f: "solution (weighted ii ` set cs) f" by auto
  have "solution (weighted 0 ` set ?zero) f"
  proof (rule solutionI)
    fix s d w
    assume "(s, d, w) \<in> weighted 0 ` set ?zero"
    then obtain c where c: "c \<in> set cs" "rc_distance (ix_constraint c) = 0" "weighted 0 c = (s, d, w)" by auto
    then have "weighted ii c = (s, d, w)" by (simp add: weighted_def constraint_weight_def)
    with c(1) have "(s, d, w) \<in> weighted ii ` set cs" by (metis imageI)
    from solutionD [OF f this] show "f s + w \<le> f d" .
  qed
  moreover have "\<forall>c \<in> set ?zero. ix_srcIndex c < ?n \<and> ix_dstIndex c < ?n" using a(4) by simp
  ultimately have "fe_feasible (mii_evaluate ?zero ?n 0)" using mii_evaluate_iff [OF _ n] by blast
  with no show False by simp
qed

definition demo_loop :: TargetDFG where
  "demo_loop = demo_tdfg\<lparr>td_edges := map (\<lambda>e. e\<lparr>te_distance := 0\<rparr>) (td_edges demo_tdfg)\<rparr>"

theorem zero_cycle_unschedulable_witness: "\<not> recurrence_feasible demo_loop demo_target 5"
proof -
  have "case mii_analyze demo_loop demo_target of Inl _ \<Rightarrow> False
      | Inr r \<Rightarrow> mi_status r = MII_UnschedulableZeroDistanceCycle"
    by code_simp
  then obtain r where r: "mii_analyze demo_loop demo_target = Inr r"
    "mi_status r = MII_UnschedulableZeroDistanceCycle"
    by (auto split: sum.splits)
  have "\<forall>e \<in> set (td_edges demo_loop). intrinsic_separation demo_loop demo_target e \<le> u32_max" by code_simp
  with r show ?thesis by (rule zero_cycle_unschedulable)
qed

end
