(* ===== verification/Analysis_Bound.thy ===== *)
theory Analysis_Bound
  imports Analysis_Recurrence
begin

text \<open>
  The minimum initiation interval is a true lower bound: no mapping the verifier accepts, with any
  stage assignment under which its dependences hold, has a smaller one.  Occupied resources are
  counted against the resources there are, and dependences against the recurrence bound.
\<close>

section \<open>Recurrences\<close>

text \<open>A result is late by at most one cycle when its producer's output is ready: the first action of
  a transport takes that cycle.  Both contracts of the repository (\<open>cgra_v2.json\<close> and
  \<open>cgra_v3.json\<close>) keep to it: every operation has latency 1 and ready offset 0, LOAD has 2 and 2.\<close>

definition latency_contract :: "TargetDFG \<Rightarrow> bool" where
  "latency_contract g \<longleftrightarrow>
     (\<forall>n \<in> set (td_nodes g). case (tn_resultLatency n, tn_producerOutputReadyOffset n) of
        (Some latency, Some ready) \<Rightarrow> latency \<le> ready + 1 | _ \<Rightarrow> True)"

lemma realised_transport:
  assumes "realised_ok g t m e" and "\<nexists>k. te_info e = MemoryEdgeInfo k"
  obtains dep p ready domain tile as tile' where "find_by md_edge (te_id e) (mm_dependences m) = Some dep"
    "tdfg_node g (te_src e) = Inr p" "tn_producerOutputReadyOffset p = Some ready" "as \<noteq> []"
    "0 < ic_hopLatency (tm_interconnect t)"
    "transport_path t domain (tile, ready) as (tile', md_requiredSeparation dep)"
proof -
  from assms obtain dep p ready and plan :: TransportPlan and src dst :: NodePlacement where
    d: "find_by md_edge (te_id e) (mm_dependences m) = Some dep" "tdfg_node g (te_src e) = Inr p"
      "tn_producerOutputReadyOffset p = Some ready" "0 < ic_hopLatency (tm_interconnect t)"
      "tp_actions plan = [] \<longrightarrow> pl_tile src \<noteq> pl_tile dst"
      "transport_path t (tp_domain plan) (pl_tile src, ready) (tp_actions plan) (pl_tile dst, md_requiredSeparation dep)"
    by (cases "te_info e"; simp add: realised_ok_def) blast+
  moreover have "tp_actions plan \<noteq> []" using d(5,6) by (auto elim!: transport_path_NilE)
  ultimately show ?thesis using that by blast
qed

lemma realised_separation:
  assumes "realised_ok g t m e" and "latency_contract g" and node: "\<forall>p. tdfg_node g (te_src e) = Inr p \<longrightarrow> p \<in> set (td_nodes g)"
  shows "intrinsic_separation g t e \<le> separation_of m (te_id e)"
proof (cases "\<exists>k. te_info e = MemoryEdgeInfo k")
  case True
  with assms(1) show ?thesis by (auto simp: realised_ok_def intrinsic_separation_def separation_of_def)
next
  case False
  with assms(1) obtain dep p ready domain tile as tile' where
    d: "find_by md_edge (te_id e) (mm_dependences m) = Some dep" "tdfg_node g (te_src e) = Inr p"
      "tn_producerOutputReadyOffset p = Some ready" "as \<noteq> []" "0 < ic_hopLatency (tm_interconnect t)"
      "transport_path t domain (tile, ready) as (tile', md_requiredSeparation dep)"
    by (rule realised_transport) (use False in blast)
  have "ready + 1 \<le> md_requiredSeparation dep" using transport_path_strict [OF d(6,4,5)] by simp
  moreover have "\<forall>l. tn_resultLatency p = Some l \<longrightarrow> l \<le> ready + 1"
    using assms(2) node d(2,3) by (fastforce simp: latency_contract_def)
  moreover have "intrinsic_separation g t e = (case tn_resultLatency p of None \<Rightarrow> 0 | Some l \<Rightarrow> l)"
    using False d(2) by (simp add: intrinsic_separation_def split: EdgeInfo.splits)
  ultimately show ?thesis using d(1) by (auto simp: separation_of_def split: option.splits)
qed

lemma pipelined_recurrence_feasible:
  assumes m: "mapping_verify g t m = Inr []" and dep: "dependences_hold g m S" and lat: "latency_contract g"
    and node: "\<forall>i p. tdfg_node g i = Inr p \<longrightarrow> p \<in> set (td_nodes g)"
  shows "recurrence_feasible g t (mm_ii m)"
  unfolding recurrence_feasible_def
proof (intro exI ballI)
  fix e
  assume e: "e \<in> set (td_edges g)"
  let ?time = "\<lambda>i. int (S i * mm_ii m + slot_of m i)"
  have "realised_ok g t m e" using mapping_verify_valid [OF m] e by (simp add: valid_mapping_def)
  then have s: "intrinsic_separation g t e \<le> separation_of m (te_id e)"
    by (rule realised_separation [OF _ lat]) (use node in blast)
  have "S (te_src e) * mm_ii m + slot_of m (te_src e) + separation_of m (te_id e) \<le>
      (S (te_dst e) + te_distance e) * mm_ii m + slot_of m (te_dst e)"
    using dep e by (simp only: dependences_hold_def dependence_iff)
  with s have "S (te_src e) * mm_ii m + slot_of m (te_src e) + intrinsic_separation g t e \<le>
      S (te_dst e) * mm_ii m + slot_of m (te_dst e) + te_distance e * mm_ii m" by (simp add: add_mult_distrib)
  then show "?time (te_src e) + int (intrinsic_separation g t e) \<le> ?time (te_dst e) + int (te_distance e) * int (mm_ii m)"
    by (metis of_nat_add of_nat_le_iff of_nat_mult)
qed

section \<open>Counting resources\<close>

text \<open>What the target verifier guarantees of a node.\<close>

lemma verified_node:
  assumes "tdfg_verify g t None = Inr []" and "n \<in> set (td_nodes g)" and "findOperation t (tn_operation n) = Some d"
  shows "op_issueOccupancy d = tn_issueOccupancy n" and "op_executionClass d = tn_executionClass n"
    and "findOperation t (op_id d) = Some d"
proof -
  have "tverify_node g t None n = []" using assms(1,2) by (auto simp: tdfg_verify_def bindR_eq_Inr)
  then have "tverify_node_op t d n = []" using assms(3) by (simp add: tverify_node_def)
  then show "op_issueOccupancy d = tn_issueOccupancy n" "op_executionClass d = tn_executionClass n"
    by (simp_all add: tverify_node_op_def Let_def)
  show "findOperation t (op_id d) = Some d"
    using \<open>tverify_node_op t d n = []\<close> by (intro executable_registered) (simp add: tverify_node_op_def Let_def)
qed

text \<open>The uses of any part of the nodes are different resources, so there are no more than there are
  resources of that kind.\<close>

lemma distinct_concat_filter: "distinct (concat (map f xs)) \<Longrightarrow> distinct (concat (map f (filter P xs)))"
  by (induction xs) auto

lemma demand_bounded:
  assumes m: "mapping_verify g t m = Inr []" and v: "tdfg_verify g t None = Inr []"
    and tiles: "\<And>n d p. n \<in> set (td_nodes g) \<Longrightarrow> P n \<Longrightarrow> findOperation t (tn_operation n) = Some d \<Longrightarrow>
      find_by pl_node (tn_id n) (mm_placements m) = Some p \<Longrightarrow>
      tileSupportsOperation t (tile_row (pl_tile p)) (tile_col (pl_tile p)) (op_id d) \<Longrightarrow>
      op_executionClass d = c \<and> pl_tile p \<in> T"
    and T: "finite T" "card T \<le> cap"
  shows "(\<Sum>n \<leftarrow> filter P (td_nodes g). tn_issueOccupancy n) \<le> cap * mm_ii m"
proof -
  let ?ns = "filter P (td_nodes g)" and ?ii = "mm_ii m"
  let ?R = "(\<lambda>(tile, slot). if c = Class_FU then FUResource tile slot else LSUResource tile slot) ` (T \<times> {..<?ii})"
  note val = mapping_verify_valid [OF m]
  have ii: "0 < ?ii" using val by (simp add: valid_mapping_def)
  have use: "length (node_uses t m n) = tn_issueOccupancy n \<and> set (node_uses t m n) \<subseteq> ?R" if n: "n \<in> set ?ns" for n
  proof -
    from n val obtain p d where pd: "find_by pl_node (tn_id n) (mm_placements m) = Some p"
        "findOperation t (tn_operation n) = Some d"
        "tileSupportsOperation t (tile_row (pl_tile p)) (tile_col (pl_tile p)) (op_id d)"
      by (auto simp: valid_mapping_def placed_ok_def)
    have uses: "node_uses t m n = op_resources d ?ii p" using pd by (simp add: node_uses_def)
    have c: "op_executionClass d = c" "pl_tile p \<in> T" using tiles [OF _ _ pd(2,1,3)] n by auto
    have "set (op_resources d ?ii p) \<subseteq> ?R"
      using c ii by (auto simp: op_resources_def unit_resource_def image_iff)
    with uses verified_node(1) [OF v _ pd(2)] n show ?thesis by (simp add: op_resources_def)
  qed
  have "distinct (concat (map (node_uses t m) (td_nodes g)))" using val by (simp add: valid_mapping_def)
  then have dist: "distinct (concat (map (node_uses t m) ?ns))"
    by (rule distinct_concat_filter)
  have "(\<Sum>n \<leftarrow> ?ns. tn_issueOccupancy n) = (\<Sum>n \<leftarrow> ?ns. length (node_uses t m n))"
    using use by (intro arg_cong [where f = sum_list] map_cong) simp_all
  also have "\<dots> = length (concat (map (node_uses t m) ?ns))" by (simp add: length_concat comp_def)
  also have "\<dots> = card (set (concat (map (node_uses t m) ?ns)))" by (rule distinct_card [OF dist, symmetric])
  also have "\<dots> \<le> card ?R"
  proof (rule card_mono)
    show "finite ?R" using T(1) by simp
    show "set (concat (map (node_uses t m) ?ns)) \<subseteq> ?R" using use by auto
  qed
  also have "\<dots> \<le> card (T \<times> {..<?ii})" using T(1) by (intro card_image_le) simp
  also have "\<dots> \<le> cap * ?ii" using T(2) by (simp add: card_cartesian_product)
  finally show ?thesis .
qed

lemma ceilDivToMII_bound: "ceilDivToMII d cap = Some b \<Longrightarrow> d \<le> cap * ii \<Longrightarrow> 1 \<le> ii \<Longrightarrow> b \<le> ii"
proof -
  assume c: "ceilDivToMII d cap = Some b" and le: "d \<le> cap * ii" and ii: "1 \<le> ii"
  show "b \<le> ii"
  proof (cases "d = 0 \<or> cap = 0")
    case True
    with c ii show ?thesis by (auto simp: ceilDivToMII_def split: if_splits)
  next
    case False
    then have b: "b = d div cap + (if d mod cap = 0 then 0 else 1)"
      using c by (auto simp: ceilDivToMII_def Let_def split: if_splits)
    show ?thesis
    proof (cases "d mod cap = 0")
      case True
      with b le False show ?thesis using div_le_mono [OF le, of cap] by simp
    next
      case nz: False
      have "d \<noteq> cap * ii" using nz by auto
      with le have "d div cap < ii" using False by (simp add: div_less_iff_less_mult mult.commute)
      with b nz show ?thesis by simp
    qed
  qed
qed

section \<open>The demand the analysis sums up\<close>

lemma demand_of_set [simp]: "demand_of name (set_demand k v ops) = (if name = k then v else demand_of name ops)"
  by (induction ops) (auto simp: demand_of_def)

lemma keys_set_demand: "fst ` set (set_demand k v ops) = insert k (fst ` set ops)"
  by (induction ops) auto

lemma distinct_set_demand: "distinct (map fst ops) \<Longrightarrow> distinct (map fst (set_demand k v ops))"
  by (induction ops) (auto simp: keys_set_demand [unfolded set_map [symmetric]] simp flip: set_map)

lemma demandNode_ok:
  assumes "mi_diagnostics (dm_result (demandNode t st n)) = []"
  shows "dm_result (demandNode t st n) = dm_result st" and "0 < tn_issueOccupancy n"
    and "dm_fuDemand (demandNode t st n) = dm_fuDemand st + (if tn_executionClass n = Class_FU then tn_issueOccupancy n else 0)"
    and "dm_lsuDemand (demandNode t st n) = dm_lsuDemand st + (if tn_executionClass n = Class_FU then 0 else tn_issueOccupancy n)"
    and "dm_selfOccupancy (demandNode t st n) = max (dm_selfOccupancy st) (tn_issueOccupancy n)"
    and "dm_operationDemand (demandNode t st n) = set_demand (tn_operation n)
           (demand_of (tn_operation n) (dm_operationDemand st) + tn_issueOccupancy n) (dm_operationDemand st)"
  using assms
  by (auto simp: demandNode_def Let_def addDiagnostic_def checkedAdd64_def split: if_splits option.splits)

lemma demandNode_status:
  "mi_diagnostics (dm_result st) \<noteq> [] \<longrightarrow> mi_status (dm_result st) \<in> mii_errors \<Longrightarrow>
   mi_diagnostics (dm_result (demandNode t st n)) \<noteq> [] \<longrightarrow> mi_status (dm_result (demandNode t st n)) \<in> mii_errors"
  by (auto simp: demandNode_def Let_def addDiagnostic_def split: if_splits option.splits)

definition occupancy_sum :: "(TargetNode \<Rightarrow> bool) \<Rightarrow> TargetNode list \<Rightarrow> nat" where
  "occupancy_sum P ns = (\<Sum>n \<leftarrow> filter P ns. tn_issueOccupancy n)"

lemma occupancy_sum_snoc [simp]:
  "occupancy_sum P (ns @ [n]) = occupancy_sum P ns + (if P n then tn_issueOccupancy n else 0)"
  by (simp add: occupancy_sum_def)

lemma demandNodes_sums:
  assumes "mi_diagnostics (dm_result (demandNodes t ns)) = []"
  shows "dm_result (demandNodes t ns) = empty_MIIResult \<and>
    dm_fuDemand (demandNodes t ns) = occupancy_sum (\<lambda>n. tn_executionClass n = Class_FU) ns \<and>
    dm_lsuDemand (demandNodes t ns) = occupancy_sum (\<lambda>n. tn_executionClass n \<noteq> Class_FU) ns \<and>
    dm_selfOccupancy (demandNodes t ns) = Max (insert 1 (tn_issueOccupancy ` set ns)) \<and>
    distinct (map fst (dm_operationDemand (demandNodes t ns))) \<and>
    (\<forall>name. demand_of name (dm_operationDemand (demandNodes t ns)) = occupancy_sum (\<lambda>n. tn_operation n = name) ns)"
  using assms
proof (induction ns rule: rev_induct)
  case Nil
  show ?case by (simp add: demandNodes_def occupancy_sum_def demand_of_def)
next
  case (snoc n ns)
  have eq: "demandNodes t (ns @ [n]) = demandNode t (demandNodes t ns) n" by (simp add: demandNodes_def)
  note step = demandNode_ok [OF snoc.prems [unfolded eq]]
  have "mi_diagnostics (dm_result (demandNodes t ns)) = []" using snoc.prems step(1) eq by simp
  note ih = snoc.IH [OF this]
  have "Max (insert 1 (tn_issueOccupancy ` set (ns @ [n]))) = max (Max (insert 1 (tn_issueOccupancy ` set ns))) (tn_issueOccupancy n)"
  proof -
    have "insert 1 (tn_issueOccupancy ` set (ns @ [n])) = insert (tn_issueOccupancy n) (insert 1 (tn_issueOccupancy ` set ns))"
      by auto
    also have "Max \<dots> = max (tn_issueOccupancy n) (Max (insert 1 (tn_issueOccupancy ` set ns)))"
      by (rule Max_insert) simp_all
    finally show ?thesis by (simp only: max.commute)
  qed
  with ih step show ?case unfolding eq by (simp add: distinct_set_demand)
qed

lemma demandNodes_status:
  "mi_diagnostics (dm_result (demandNodes t ns)) \<noteq> [] \<longrightarrow> mi_status (dm_result (demandNodes t ns)) \<in> mii_errors"
proof (induction ns rule: rev_induct)
  case (snoc n ns)
  from demandNode_status [OF snoc.IH, of t n] show ?case by (simp add: demandNodes_def)
qed (simp add: demandNodes_def empty_MIIResult_def)

lemma perOperationBounds_le:
  assumes "perOperationBounds t r ops = Inr (Inr r')"
    and "\<forall>(name, demand) \<in> set ops. \<forall>d. operation t name = Inr d \<longrightarrow> demand \<le> compatibleResourceCount t d * ii"
    and "rb_perOperationMII (mi_resourceBreakdown r) \<le> ii" and "1 \<le> ii"
  shows "rb_perOperationMII (mi_resourceBreakdown r') \<le> ii \<and>
    rb_selfOccupancyMII (mi_resourceBreakdown r') = rb_selfOccupancyMII (mi_resourceBreakdown r) \<and>
    rb_fuMII (mi_resourceBreakdown r') = rb_fuMII (mi_resourceBreakdown r) \<and>
    rb_lsuMII (mi_resourceBreakdown r') = rb_lsuMII (mi_resourceBreakdown r)"
  using assms(1-3)
proof (induction ops arbitrary: r)
  case (Cons op ops)
  obtain name demand where op: "op = (name, demand)" by (cases op)
  from Cons.prems(1) op obtain d where d: "operation t name = Inr d" by (auto simp: bindR_eq_Inr)
  have le: "demand \<le> compatibleResourceCount t d * ii" using Cons.prems(2) op d by simp
  show ?case
  proof (cases "compatibleResourceCount t d = 0")
    case True
    with Cons op d show ?thesis by (auto simp: Let_def addDiagnostic_def)
  next
    case False
    with Cons.prems(1) op d obtain b where b: "ceilDivToMII demand (compatibleResourceCount t d) = Some b"
      by (auto simp: Let_def split: option.splits)
    let ?b = "mi_resourceBreakdown r"
    let ?r = "r\<lparr>mi_resourceBreakdown := ?b\<lparr>rb_perOperationMII := max (rb_perOperationMII ?b) b\<rparr>\<rparr>"
    have rec: "perOperationBounds t ?r ops = Inr (Inr r')" using Cons.prems(1) op d b False by (simp add: Let_def)
    have "rb_perOperationMII (mi_resourceBreakdown ?r) \<le> ii"
      using ceilDivToMII_bound [OF b le assms(4)] Cons.prems(3) by simp
    from Cons.IH [OF rec _ this] Cons.prems(2) show ?thesis by simp
  qed
qed simp

lemma resourceBounds_phases:
  assumes "resourceBounds g t = Inr (Inr r)"
  obtains dm r' a b c where "dm = demandNodes t (td_nodes g)" "mi_diagnostics (dm_result dm) = []"
    "ceilDivToMII (dm_selfOccupancy dm) 1 = Some a"
    "ceilDivToMII (dm_fuDemand dm) (executionResourceCount t Class_FU) = Some b"
    "ceilDivToMII (dm_lsuDemand dm) (executionResourceCount t Class_LSU) = Some c"
    "perOperationBounds t ((dm_result dm)\<lparr>mi_resourceBreakdown :=
       \<lparr>rb_selfOccupancyMII = max 1 a, rb_fuMII = max 1 b, rb_lsuMII = max 1 c, rb_perOperationMII = 1\<rparr>\<rparr>)
       (sort_key fst (dm_operationDemand dm)) = Inr (Inr r')"
    "mi_resourceMII r = max 1 (max (rb_selfOccupancyMII (mi_resourceBreakdown r')) (max (rb_fuMII (mi_resourceBreakdown r'))
       (max (rb_lsuMII (mi_resourceBreakdown r')) (rb_perOperationMII (mi_resourceBreakdown r')))))"
proof -
  let ?dm = "demandNodes t (td_nodes g)"
  have diag: "mi_diagnostics (dm_result ?dm) = []"
    using assms demandNodes_status [of t "td_nodes g"]
    by (auto simp: resourceBounds_def Let_def split: if_splits)
  obtain a b c r2 where abc: "ceilDivToMII (dm_selfOccupancy ?dm) 1 = Some a"
    "ceilDivToMII (dm_fuDemand ?dm) (executionResourceCount t Class_FU) = Some b"
    "ceilDivToMII (dm_lsuDemand ?dm) (executionResourceCount t Class_LSU) = Some c"
    "perOperationBounds t ((dm_result ?dm)\<lparr>mi_resourceBreakdown :=
       \<lparr>rb_selfOccupancyMII = max 1 a, rb_fuMII = max 1 b, rb_lsuMII = max 1 c, rb_perOperationMII = 1\<rparr>\<rparr>)
       (sort_key fst (dm_operationDemand ?dm)) = Inr r2" "resourceTotal r2 = Inr r"
    using assms by (auto simp: resourceBounds_def Let_def bindR_eq_Inr split: if_splits option.splits)
  from abc(5) obtain r' where r': "r2 = Inr r'"
    "mi_resourceMII r = max 1 (max (rb_selfOccupancyMII (mi_resourceBreakdown r')) (max (rb_fuMII (mi_resourceBreakdown r'))
       (max (rb_lsuMII (mi_resourceBreakdown r')) (rb_perOperationMII (mi_resourceBreakdown r')))))"
    by (auto simp: resourceTotal_def Let_def split: sum.splits if_splits)
  show thesis by (rule that [OF refl diag abc(1-3) _ r'(2)]) (use abc(4) r'(1) in simp)
qed

section \<open>The bound\<close>

lemma card_image_length: "card (f ` set xs) \<le> length xs"
  by (metis card_length length_map set_map)

text \<open>Demand against capacity, for each class and for each operation.\<close>

lemma class_demand_bounded:
  assumes m: "mapping_verify g t m = Inr []" and v: "tdfg_verify g t None = Inr []"
  shows "occupancy_sum (\<lambda>n. tn_executionClass n = Class_FU) (td_nodes g) \<le> executionResourceCount t Class_FU * mm_ii m"
    and "occupancy_sum (\<lambda>n. tn_executionClass n \<noteq> Class_FU) (td_nodes g) \<le> executionResourceCount t Class_LSU * mm_ii m"
proof -
  let ?grid = "List.product [0..<arr_rows (tm_array t)] [0..<arr_cols (tm_array t)]"
  let ?tile = "\<lambda>(r, c). \<lparr>tile_row = r, tile_col = c\<rparr> :: TileCoord"
  let ?lsu = "\<lambda>d. \<lparr>tile_row = lsu_row d, tile_col = lsu_col d\<rparr> :: TileCoord"
  show "occupancy_sum (\<lambda>n. tn_executionClass n = Class_FU) (td_nodes g) \<le> executionResourceCount t Class_FU * mm_ii m"
    unfolding occupancy_sum_def
  proof (rule demand_bounded [OF m v, where T = "?tile ` set ?grid" and c = Class_FU])
    fix n d p
    assume n: "n \<in> set (td_nodes g)" "tn_executionClass n = Class_FU" "findOperation t (tn_operation n) = Some d"
      and s: "tileSupportsOperation t (tile_row (pl_tile p)) (tile_col (pl_tile p)) (op_id d)"
    show "op_executionClass d = Class_FU \<and> pl_tile p \<in> ?tile ` set ?grid"
      using verified_node(2) [OF v n(1,3)] n(2) tileSupports_in_array [OF s]
      by (auto intro!: image_eqI [of _ _ "(tile_row (pl_tile p), tile_col (pl_tile p))"])
  next
    show "card (?tile ` set ?grid) \<le> executionResourceCount t Class_FU"
      using card_image_length [of ?tile ?grid] by (simp add: executionResourceCount_def)
  qed simp
  show "occupancy_sum (\<lambda>n. tn_executionClass n \<noteq> Class_FU) (td_nodes g) \<le> executionResourceCount t Class_LSU * mm_ii m"
    unfolding occupancy_sum_def
  proof (rule demand_bounded [OF m v, where T = "?lsu ` set (tm_lsuTiles t)" and c = Class_LSU])
    fix n d p
    assume n: "n \<in> set (td_nodes g)" "tn_executionClass n \<noteq> Class_FU" "findOperation t (tn_operation n) = Some d"
      and s: "tileSupportsOperation t (tile_row (pl_tile p)) (tile_col (pl_tile p)) (op_id d)"
    have c: "op_executionClass d = Class_LSU"
      using verified_node(2) [OF v n(1,3)] n(2) by (cases "op_executionClass d") auto
    then have "tileHasLSU t (tile_row (pl_tile p)) (tile_col (pl_tile p))"
      using s verified_node(3) [OF v n(1,3)] by (auto simp: tileSupportsOperation_def split: if_splits)
    with c show "op_executionClass d = Class_LSU \<and> pl_tile p \<in> ?lsu ` set (tm_lsuTiles t)"
      by (auto simp: tileHasLSU_def image_iff intro!: bexI)
  next
    show "card (?lsu ` set (tm_lsuTiles t)) \<le> executionResourceCount t Class_LSU"
      using card_image_length [of ?lsu "tm_lsuTiles t"] by (simp add: executionResourceCount_def)
  qed simp
qed

lemma operation_demand_bounded:
  assumes m: "mapping_verify g t m = Inr []" and v: "tdfg_verify g t None = Inr []"
    and op: "operation t name = Inr d"
  shows "occupancy_sum (\<lambda>n. tn_operation n = name) (td_nodes g) \<le> compatibleResourceCount t d * mm_ii m"
proof (cases "\<exists>n \<in> set (td_nodes g). tn_operation n = name")
  case False
  then have "filter (\<lambda>n. tn_operation n = name) (td_nodes g) = []" by (auto simp: filter_empty_conv)
  then show ?thesis by (simp add: occupancy_sum_def)
next
  case True
  then obtain n0 where n0: "n0 \<in> set (td_nodes g)" "tn_operation n0 = name" by blast
  have fd: "findOperation t name = Some d" using op by (auto simp: operation_def split: option.splits)
  have enc: "hasValidEncoding t d"
  proof -
    have "tverify_node g t None n0 = []" using v n0 by (auto simp: tdfg_verify_def bindR_eq_Inr)
    then have "isOperationExecutable t d" using fd n0 by (simp add: tverify_node_def tverify_node_op_def Let_def)
    then show ?thesis by (auto simp: isOperationExecutable_def compatibleResourceCount_def split: if_splits)
  qed
  have fi: "findOperation t (op_id d) = Some d" using verified_node(3) [OF v n0(1)] fd n0(2) by simp
  let ?tile = "\<lambda>(r, c). \<lparr>tile_row = r, tile_col = c\<rparr> :: TileCoord"
  let ?lsu = "\<lambda>d. \<lparr>tile_row = lsu_row d, tile_col = lsu_col d\<rparr> :: TileCoord"
  let ?ok = "filter (\<lambda>(row, col). tileSupportsOperation t row col (op_id d))
             (List.product [0..<arr_rows (tm_array t)] [0..<arr_cols (tm_array t)])"
  let ?T = "if op_executionClass d = Class_LSU then ?lsu ` set (tm_lsuTiles t) else ?tile ` set ?ok"
  show ?thesis
    unfolding occupancy_sum_def
  proof (rule demand_bounded [OF m v, where T = ?T and c = "op_executionClass d"])
    fix n d' p
    assume n: "n \<in> set (td_nodes g)" "tn_operation n = name" "findOperation t (tn_operation n) = Some d'"
      and s: "tileSupportsOperation t (tile_row (pl_tile p)) (tile_col (pl_tile p)) (op_id d')"
    have d': "d' = d" using n fd by simp
    have "pl_tile p \<in> ?T"
    proof (cases "op_executionClass d = Class_LSU")
      case True
      then have "tileHasLSU t (tile_row (pl_tile p)) (tile_col (pl_tile p))"
        using s d' fi by (auto simp: tileSupportsOperation_def split: if_splits)
      with True show ?thesis by (auto simp: tileHasLSU_def image_iff intro!: bexI)
    next
      case False
      with s d' tileSupports_in_array [OF s] show ?thesis
        by (auto intro!: image_eqI [of _ _ "(tile_row (pl_tile p), tile_col (pl_tile p))"])
    qed
    with d' show "op_executionClass d' = op_executionClass d \<and> pl_tile p \<in> ?T" by simp
  next
    show "card ?T \<le> compatibleResourceCount t d"
      using enc card_image_length [of ?tile ?ok] card_image_length [of ?lsu "tm_lsuTiles t"]
      by (simp add: compatibleResourceCount_def)
  qed simp
qed

lemma self_occupancy_bounded:
  assumes m: "mapping_verify g t m = Inr []" and v: "tdfg_verify g t None = Inr []" and n: "n \<in> set (td_nodes g)"
  shows "tn_issueOccupancy n \<le> mm_ii m"
proof -
  from n mapping_verify_valid [OF m] obtain p d where pd:
      "find_by pl_node (tn_id n) (mm_placements m) = Some p" "findOperation t (tn_operation n) = Some d"
    by (auto simp: valid_mapping_def placed_ok_def)
  have "tn_issueOccupancy n \<le> (\<Sum>x \<leftarrow> filter (\<lambda>x. x = n) (td_nodes g). tn_issueOccupancy x)"
    using n by (intro member_le_sum_list) simp_all
  also have "\<dots> \<le> 1 * mm_ii m"
    by (rule demand_bounded [OF m v, where T = "{pl_tile p}" and c = "op_executionClass d"]) (use pd in simp_all)
  finally show ?thesis by simp
qed

lemma resourceMII_bound:
  assumes rb: "resourceBounds g t = Inr (Inr r)" and m: "mapping_verify g t m = Inr []" and v: "tdfg_verify g t None = Inr []"
  shows "mi_resourceMII r \<le> mm_ii m"
proof -
  have ii: "1 \<le> mm_ii m" using mapping_verify_valid [OF m] by (simp add: valid_mapping_def)
  obtain dm r' a b c where dm: "dm = demandNodes t (td_nodes g)" "mi_diagnostics (dm_result dm) = []"
    and abc: "ceilDivToMII (dm_selfOccupancy dm) 1 = Some a"
      "ceilDivToMII (dm_fuDemand dm) (executionResourceCount t Class_FU) = Some b"
      "ceilDivToMII (dm_lsuDemand dm) (executionResourceCount t Class_LSU) = Some c"
    and per: "perOperationBounds t ((dm_result dm)\<lparr>mi_resourceBreakdown :=
       \<lparr>rb_selfOccupancyMII = max 1 a, rb_fuMII = max 1 b, rb_lsuMII = max 1 c, rb_perOperationMII = 1\<rparr>\<rparr>)
       (sort_key fst (dm_operationDemand dm)) = Inr (Inr r')"
    and res: "mi_resourceMII r = max 1 (max (rb_selfOccupancyMII (mi_resourceBreakdown r'))
       (max (rb_fuMII (mi_resourceBreakdown r')) (max (rb_lsuMII (mi_resourceBreakdown r'))
          (rb_perOperationMII (mi_resourceBreakdown r')))))"
    by (rule resourceBounds_phases [OF rb])
  note sums = demandNodes_sums [OF dm(2) [unfolded dm(1)], folded dm(1)]
  have "dm_selfOccupancy dm \<le> 1 * mm_ii m"
    using sums ii self_occupancy_bounded [OF m v] by auto
  from ceilDivToMII_bound [OF abc(1) this ii] have a: "a \<le> mm_ii m" .
  have b: "b \<le> mm_ii m" and c: "c \<le> mm_ii m"
    using ceilDivToMII_bound [OF abc(2) _ ii] ceilDivToMII_bound [OF abc(3) _ ii]
      class_demand_bounded [OF m v] sums by simp_all
  have ops: "\<forall>(name, demand) \<in> set (sort_key fst (dm_operationDemand dm)). \<forall>d. operation t name = Inr d \<longrightarrow>
      demand \<le> compatibleResourceCount t d * mm_ii m"
  proof (clarsimp)
    fix name demand d
    assume nd: "(name, demand) \<in> set (dm_operationDemand dm)" and op: "operation t name = Inr d"
    have "find_by fst (fst (name, demand)) (dm_operationDemand dm) = Some (name, demand)"
      by (rule find_by_distinct) (use sums nd in simp_all)
    then have "demand = occupancy_sum (\<lambda>n. tn_operation n = name) (td_nodes g)"
      using sums by (metis demand_of_def fst_conv option.simps(5) snd_conv)
    with operation_demand_bounded [OF m v op] show "demand \<le> compatibleResourceCount t d * mm_ii m" by simp
  qed
  from perOperationBounds_le [OF per ops _ ii] ii a b c show ?thesis by (simp add: res)
qed

lemma recurrenceBound_fields:
  assumes "mi_status (recurrenceBound r cs k n) = MII_Success"
  shows "mi_resourceMII (recurrenceBound r cs k n) = mi_resourceMII r"
    and "mi_mii (recurrenceBound r cs k n) =
         max 1 (max (mi_resourceMII r) (mi_recurrenceMII (recurrenceBound r cs k n)))"
  using assms by (auto simp: recurrenceBound_def Let_def split: if_splits)

lemma mii_bounds_mapping:
  assumes a: "mii_analyze g t = Inr r" "mi_status r = MII_Success" and m: "mapping_verify g t m = Inr []"
    and dep: "dependences_hold g m S" and lat: "latency_contract g"
  shows "mi_mii r \<le> mm_ii m"
proof -
  have ii: "1 \<le> mm_ii m" using mapping_verify_valid [OF m] by (simp add: valid_mapping_def)
  obtain r0 r1 cs k where p: "tdfg_verify g t None = Inr []" "resourceBounds g t = Inr (Inr r0)"
    "recurrenceConstraints g t (sort (map tn_id (td_nodes g))) r0 = Inr (r1, cs, k)"
    "mi_status r1 \<notin> mii_errors" "r = recurrenceBound r1 cs k (length (td_nodes g))"
    by (rule mii_analyze_phases [OF a(1)]) (use a(2) in simp)
  have r1: "r1 = r0" by (rule analyzed_constraints(1) [OF p(1,3,4)])
  have node: "\<forall>i p. tdfg_node g i = Inr p \<longrightarrow> p \<in> set (td_nodes g)"
    by (auto simp: tdfg_node_def at_index_def vec_at_def split: option.splits if_splits)
  have "recurrence_feasible g t (mm_ii m)" by (rule pipelined_recurrence_feasible [OF m dep lat node])
  then have "mi_recurrenceMII r \<le> mm_ii m" using recurrenceMII_bound [OF a ii] by simp
  moreover have "mi_resourceMII r0 \<le> mm_ii m" by (rule resourceMII_bound [OF p(2) m p(1)])
  ultimately show ?thesis
    using recurrenceBound_fields(2) [of r1 cs k "length (td_nodes g)"] a(2) p(5) r1 ii by simp
qed

text \<open>C17: The reported minimum initiation interval is a lower bound for every software pipeline: if a
  modulo mapping is accepted by the verifier and some stage assignment satisfies its dependences,
  then its initiation interval is at least the analysed \<open>mii\<close>, provided every result latency is at most
  one more than the offset at which the producer's output is ready.  The analysis charges an edge
  the latency and the verifier only the ready offset and the cycles of the transport, of which there is
  at least one; both contracts of the repository (latency 1 and offset 0, LOAD 2 and 2) meet the
  condition, and without it the analysis may report more than a mapping needs.\<close>

theorem mii_lower_bound:
  assumes a: "mii_analyze g t = Inr r" "mi_status r = MII_Success" and m: "mapping_verify g t m = Inr []"
    and dep: "dependences_hold g m S" and lat: "latency_contract g"
  shows "mi_mii r \<le> mm_ii m"
  by (rule mii_bounds_mapping [OF assms])

text \<open>The example with the timing of the contracts: latency 1 and ready offset 0.  The value node 1 sends
  itself then arrives one cycle after it was issued, and initiation interval 1 is reached.\<close>

definition early_target :: TargetModel where
  "early_target = demo_target\<lparr>tm_operations := [demo_op\<lparr>op_producerOutputReadyOffset := Some 0\<rparr>]\<rparr>"

definition early_tdfg :: TargetDFG where
  "early_tdfg = the (case legalize demo_dfg early_target of Inl _ \<Rightarrow> None | Inr r \<Rightarrow> lr_dfg r)"

definition early_mapping :: ModuloMapping where
  "early_mapping = \<lparr>mm_targetName = ''demo'', mm_ii = 1,
     mm_placements = [\<lparr>pl_node = 0, pl_tile = demo_tile 0, pl_issueSlot = 0\<rparr>,
                      \<lparr>pl_node = 1, pl_tile = demo_tile 1, pl_issueSlot = 0\<rparr>],
     mm_dependences =
       [\<lparr>md_edge = 0, md_kind = Kind_Data, md_requiredSeparation = 1, md_transport = Some
          (demo_route\<lparr>tp_actions := [Action_Link \<lparr>ls_domain = Net_Data, ls_source = demo_tile 0, ls_direction = East, ls_elapsed = 0\<rparr>],
             tp_requiredSeparation := 1\<rparr>)\<rparr>,
        \<lparr>md_edge = 1, md_kind = Kind_Data, md_requiredSeparation = 1, md_transport = Some
          (demo_hold\<lparr>tp_actions := [Action_Hold \<lparr>vh_domain = Net_Data, vh_tile = demo_tile 1, vh_captureElapsed = 0, vh_releaseElapsed = 1\<rparr>],
             tp_requiredSeparation := 1\<rparr>)\<rparr>]\<rparr>"

theorem mii_lower_bound_witness: "mi_mii (projr (mii_analyze early_tdfg early_target)) \<le> 1"
proof -
  have "case mii_analyze early_tdfg early_target of Inl _ \<Rightarrow> False | Inr r \<Rightarrow> mi_status r = MII_Success"
    by code_simp
  then obtain r where r: "mii_analyze early_tdfg early_target = Inr r" "mi_status r = MII_Success"
    by (auto split: sum.splits)
  have m: "mapping_verify early_tdfg early_target early_mapping = Inr []" by code_simp
  have "dependences_hold early_tdfg early_mapping (\<lambda>i. i)"
    unfolding dependences_hold_def dependence_iff by code_simp
  moreover have "latency_contract early_tdfg" by code_simp
  ultimately have "mi_mii r \<le> mm_ii early_mapping" by (rule mii_lower_bound [OF r m])
  then show ?thesis using r by (simp add: early_mapping_def)
qed

end
