(* ===== verification/RegAlloc_Lifetime.thy ===== *)
theory RegAlloc_Lifetime
  imports Analysis_Bound
begin

text \<open>
  Storage segments and the periodic lifetime tests (\<open>RegisterAllocation/StorageRequirement.h\<close>,
  \<open>RegisterAllocation/PeriodicLifetime.cpp\<close>).  A segment is written and read once per iteration, so
  its instances repeat with the initiation interval; the tests decide from one representative of each
  residue class whether any two of the infinitely many instances clash.
\<close>

section \<open>Storage segments\<close>

type_synonym StorageSegmentId = nat

datatype StorageOriginKind = ExplicitVirtualHold | TerminalSlack

record StorageOrigin =
  so_kind :: StorageOriginKind
  so_edge :: TargetEdgeId
  so_transportActionIndex :: "nat option"

record StorageSegment =
  sg_id :: StorageSegmentId
  sg_edge :: TargetEdgeId
  sg_tile :: TileCoord
  sg_domain :: RegisterBankDomain
  sg_writeTime :: nat
  sg_readTime :: nat
  sg_origins :: "StorageOrigin list"

record StorageRequirements =
  sr_ii :: nat
  sr_segments :: "StorageSegment list"

definition sr_segment :: "StorageRequirements \<Rightarrow> StorageSegmentId \<Rightarrow> StorageSegment result" where
  "sr_segment r i = (case find_by sg_id i (sr_segments r) of None \<Rightarrow> Inl Out_Of_Range | Some s \<Rightarrow> Inr s)"

section \<open>Periodic lifetimes\<close>

definition boundaryReuseAllowed :: "SameAddressReadWritePolicy \<Rightarrow> bool" where
  "boundaryReuseAllowed policy \<longleftrightarrow> policy = ReadOldThenWriteNew"

definition intervalsConflict :: "int \<Rightarrow> int \<Rightarrow> int \<Rightarrow> int \<Rightarrow> SameAddressReadWritePolicy \<Rightarrow> bool" where
  "intervalsConflict lhsWrite lhsRead rhsWrite rhsRead policy =
     (let overlapStart = max lhsWrite rhsWrite;
          overlapEnd = min lhsRead rhsRead
      in if overlapStart < overlapEnd then True
         else if overlapStart = overlapEnd \<and> \<not> boundaryReuseAllowed policy then True
         else False)"

definition fixedRegisterSelfOverlaps ::
  "StorageSegment \<Rightarrow> nat \<Rightarrow> SameAddressReadWritePolicy \<Rightarrow> bool" where
  "fixedRegisterSelfOverlaps segment ii policy =
     (if ii = 0 \<or> sg_readTime segment \<le> sg_writeTime segment then True
      else
        let duration = sg_readTime segment - sg_writeTime segment in
        if duration > ii then True else if duration < ii then False else \<not> boundaryReuseAllowed policy)"

definition periodicLifetimesConflict ::
  "StorageSegment \<Rightarrow> StorageSegment \<Rightarrow> nat \<Rightarrow> SameAddressReadWritePolicy \<Rightarrow> bool" where
  "periodicLifetimesConflict lhs rhs ii policy =
     (if ii = 0 \<or> sg_readTime lhs \<le> sg_writeTime lhs \<or> sg_readTime rhs \<le> sg_writeTime rhs then True
      else
        let lhsDuration = sg_readTime lhs - sg_writeTime lhs;
            rhsDuration = sg_readTime rhs - sg_writeTime rhs
        in if lhsDuration > ii \<or> rhsDuration > ii then True
           else
             let lhsWrite = int (sg_writeTime lhs mod ii);
                 rhsWrite = int (sg_writeTime rhs mod ii);
                 lhsRead = lhsWrite + int lhsDuration;
                 rhsRead = rhsWrite + int rhsDuration;
                 period = int ii
             in \<exists>shift \<in> {- period, 0, period}.
                  intervalsConflict lhsWrite lhsRead (rhsWrite + shift) (rhsRead + shift) policy)"

section \<open>What the tests decide\<close>

text \<open>The instances of two segments in iterations \<open>i\<close> and \<open>j\<close> clash.\<close>

definition instances_clash ::
  "nat \<Rightarrow> SameAddressReadWritePolicy \<Rightarrow> StorageSegment \<Rightarrow> nat \<Rightarrow> StorageSegment \<Rightarrow> nat \<Rightarrow> bool" where
  "instances_clash ii policy a i b j \<longleftrightarrow>
     intervalsConflict (int (sg_writeTime a + i * ii)) (int (sg_readTime a + i * ii))
       (int (sg_writeTime b + j * ii)) (int (sg_readTime b + j * ii)) policy"

lemma intervalsConflict_iff:
  "intervalsConflict a b c d policy \<longleftrightarrow>
   max a c < min b d \<or> (max a c = min b d \<and> \<not> boundaryReuseAllowed policy)"
  by (simp add: intervalsConflict_def)

lemma instances_clash_iff:
  "instances_clash ii policy a i b j \<longleftrightarrow>
   (let wa = sg_writeTime a + i * ii; ra = sg_readTime a + i * ii;
        wb = sg_writeTime b + j * ii; rb = sg_readTime b + j * ii
    in max wa wb < min ra rb \<or> (max wa wb = min ra rb \<and> \<not> boundaryReuseAllowed policy))"
  unfolding instances_clash_def intervalsConflict_iff Let_def
  by (simp only: of_nat_max [symmetric] of_nat_min [symmetric] of_nat_less_iff of_nat_eq_iff)

lemma intervalsConflict_shift:
  "intervalsConflict (a + k) (b + k) (c + k) (d + k) policy \<longleftrightarrow> intervalsConflict a b c d policy"
  by (simp add: intervalsConflict_iff max_add_distrib_left [symmetric] min_add_distrib_left [symmetric])

lemma intervalsConflict_touch: "intervalsConflict a b c d policy \<Longrightarrow> c \<le> b \<and> a \<le> d"
  by (auto simp: intervalsConflict_iff)

text \<open>Within one period of each other only the neighbouring shifts can touch.\<close>

lemma shift_range:
  fixes k :: int
  assumes "0 \<le> a" "a < p" "b \<le> a + p" "0 \<le> c" "c < p" "d \<le> c + p"
    and "intervalsConflict a b (c + k * p) (d + k * p) policy"
  shows "k \<in> {-1, 0, 1}"
proof -
  from intervalsConflict_touch [OF assms(7)] have t: "c + k * p \<le> b" "a \<le> d + k * p" by auto
  have "\<not> 2 \<le> k"
  proof
    assume "2 \<le> k"
    then have "2 * p \<le> k * p" using assms by (intro mult_right_mono) auto
    with t assms show False by linarith
  qed
  moreover have "\<not> k \<le> -2"
  proof
    assume "k \<le> -2"
    then have "k * p \<le> -2 * p" using assms by (intro mult_right_mono) auto
    with t assms show False by linarith
  qed
  ultimately show ?thesis by auto
qed

lemma nat_difference: "\<exists>i j. int j - int i = k"
  by (rule exI [of _ "nat (- k)"], rule exI [of _ "nat k"]) auto

text \<open>The representatives of two residue classes stand for all their instances.\<close>

lemma instances_clash_shift:
  assumes "sg_writeTime a \<le> sg_readTime a" and "sg_writeTime b \<le> sg_readTime b"
  shows "instances_clash ii policy a i b j \<longleftrightarrow>
    intervalsConflict (int (sg_writeTime a mod ii)) (int (sg_writeTime a mod ii) + int (sg_readTime a - sg_writeTime a))
      (int (sg_writeTime b mod ii) + ((int j + int (sg_writeTime b div ii)) - (int i + int (sg_writeTime a div ii))) * int ii)
      (int (sg_writeTime b mod ii) + int (sg_readTime b - sg_writeTime b) +
        ((int j + int (sg_writeTime b div ii)) - (int i + int (sg_writeTime a div ii))) * int ii) policy"
proof -
  let ?q = "(int i + int (sg_writeTime a div ii)) * int ii"
  have e: "int (w + n * ii) = int (w mod ii) + (int n + int (w div ii)) * int ii" for w n
    by (metis (no_types, lifting) add.commute add.left_commute distrib_right div_mult_mod_eq of_nat_add of_nat_mult)
  have r: "int (sg_readTime s + n * ii) = int (sg_writeTime s + n * ii) + int (sg_readTime s - sg_writeTime s)"
    if "sg_writeTime s \<le> sg_readTime s" for s n
    using that by simp
  show ?thesis
    unfolding instances_clash_def r [OF assms(1)] r [OF assms(2)] e [of "sg_writeTime a"] e [of "sg_writeTime b"]
    by (subst (2) intervalsConflict_shift [of _ ?q, symmetric]) (simp add: algebra_simps)
qed

lemma long_clash:
  fixes p :: int
  assumes "0 < p" "p < d - c" "a < b"
  shows "\<exists>k. intervalsConflict a b (c + k * p) (d + k * p) policy"
proof -
  let ?k = "(a - c) div p"
  have "c + ?k * p \<le> a" "a < c + ?k * p + p"
    using assms(1) div_mult_mod_eq [of "a - c" p] pos_mod_bound [of p "a - c"] pos_mod_sign [of p "a - c"]
    by linarith+
  with assms have "max a (c + ?k * p) < min b (d + ?k * p)" by auto
  then show ?thesis by (auto simp: intervalsConflict_iff)
qed

lemma long_clash':
  fixes p :: int
  assumes "0 < p" "p < b - a" "c < d"
  shows "\<exists>k. intervalsConflict a b (c + k * p) (d + k * p) policy"
proof -
  obtain k where "intervalsConflict c d (a + k * p) (b + k * p) policy" using long_clash assms by blast
  then have "intervalsConflict (a + k * p) (b + k * p) c d policy"
    by (simp add: intervalsConflict_iff max.commute min.commute)
  then have "intervalsConflict a b (c + (- k) * p) (d + (- k) * p) policy"
    using intervalsConflict_shift [of "a + k * p" "- k * p" "b + k * p" c d policy] by simp
  then show ?thesis by blast
qed

lemma conflict_decides_clash:
  assumes ii: "0 < ii" and a: "sg_writeTime a < sg_readTime a" and b: "sg_writeTime b < sg_readTime b"
  shows "periodicLifetimesConflict a b ii policy \<longleftrightarrow> (\<exists>i j. instances_clash ii policy a i b j)"
proof -
  let ?wa = "int (sg_writeTime a mod ii)" and ?wb = "int (sg_writeTime b mod ii)" and ?p = "int ii"
  let ?ra = "?wa + int (sg_readTime a - sg_writeTime a)" and ?rb = "?wb + int (sg_readTime b - sg_writeTime b)"
  let ?at = "\<lambda>k. intervalsConflict ?wa ?ra (?wb + k * ?p) (?rb + k * ?p) policy"
  have all: "(\<exists>i j. instances_clash ii policy a i b j) \<longleftrightarrow> (\<exists>k. ?at k)"
  proof
    assume "\<exists>k. ?at k"
    then obtain k where k: "?at k" ..
    obtain i j where "int j - int i = k - (int (sg_writeTime b div ii) - int (sg_writeTime a div ii))"
      using nat_difference by blast
    then have "(int j + int (sg_writeTime b div ii)) - (int i + int (sg_writeTime a div ii)) = k" by linarith
    with k instances_clash_shift [of a b ii policy i j] a b show "\<exists>i j. instances_clash ii policy a i b j" by auto
  next
    assume "\<exists>i j. instances_clash ii policy a i b j"
    with a b show "\<exists>k. ?at k" unfolding instances_clash_shift [OF less_imp_le less_imp_le, OF a b] by blast
  qed
  have p: "0 < ?p" "0 \<le> ?wa" "?wa < ?p" "0 \<le> ?wb" "?wb < ?p" using ii by auto
  show ?thesis
  proof (cases "sg_readTime a - sg_writeTime a > ii \<or> sg_readTime b - sg_writeTime b > ii")
    case True
    then have "\<exists>k. ?at k"
    proof
      assume "ii < sg_readTime a - sg_writeTime a"
      then show ?thesis using p b by (intro long_clash') auto
    next
      assume "ii < sg_readTime b - sg_writeTime b"
      then show ?thesis using p a by (intro long_clash) auto
    qed
    with True all show ?thesis by (simp add: periodicLifetimesConflict_def Let_def)
  next
    case False
    then have short: "?ra \<le> ?wa + ?p" "?rb \<le> ?wb + ?p" by auto
    have "(\<exists>k. ?at k) \<longleftrightarrow> ?at (-1) \<or> ?at 0 \<or> ?at 1"
      using shift_range [OF p(2,3) short(1) p(4,5) short(2)] by blast
    with False all a b ii show ?thesis by (simp add: periodicLifetimesConflict_def Let_def)
  qed
qed

lemma self_overlap_decides_clash:
  assumes ii: "0 < ii" and a: "sg_writeTime a < sg_readTime a"
  shows "fixedRegisterSelfOverlaps a ii policy \<longleftrightarrow> (\<exists>i j. i \<noteq> j \<and> instances_clash ii policy a i a j)"
proof
  assume "fixedRegisterSelfOverlaps a ii policy"
  then have "instances_clash ii policy a 0 a 1"
    using assms by (auto simp: fixedRegisterSelfOverlaps_def instances_clash_def intervalsConflict_iff Let_def
        split: if_splits)
  then show "\<exists>i j. i \<noteq> j \<and> instances_clash ii policy a i a j" by (intro exI [of _ 0] exI [of _ 1]) simp
next
  assume "\<exists>i j. i \<noteq> j \<and> instances_clash ii policy a i a j"
  then obtain i j where ij: "i \<noteq> j" "instances_clash ii policy a i a j" by blast
  have next_period: "x * ii + ii \<le> y * ii" if "x < y" for x y :: nat
    using mult_right_mono [of "Suc x" y ii] that by simp
  from ij(1) consider "i * ii + ii \<le> j * ii" | "j * ii + ii \<le> i * ii"
    using next_period by (meson nat_neq_iff)
  then have "ii < sg_readTime a - sg_writeTime a \<or>
      (ii = sg_readTime a - sg_writeTime a \<and> \<not> boundaryReuseAllowed policy)"
    using ij(2) a unfolding instances_clash_iff Let_def by cases linarith+
  then show "fixedRegisterSelfOverlaps a ii policy" by (auto simp: fixedRegisterSelfOverlaps_def)
qed

text \<open>Two instances that do not clash leave each other's value alone.\<close>

lemma no_clash_preserves:
  assumes "\<not> instances_clash ii policy a i b j" and "sg_writeTime b < sg_readTime b" and "sg_writeTime a < sg_readTime a"
  shows "sg_writeTime b + j * ii < sg_writeTime a + i * ii \<or>
     sg_readTime a + i * ii < sg_writeTime b + j * ii \<or>
     (sg_readTime a + i * ii = sg_writeTime b + j * ii \<and> boundaryReuseAllowed policy)"
  using assms unfolding instances_clash_iff Let_def by linarith

text \<open>C16: The two lifetime tests are exact for the infinite periodic execution: two segments are in
  conflict if and only if some instance of one and some instance of the other, over all iterations,
  overlap (or merely touch, when the register file does not read the old value before writing), and a
  segment overlaps itself if and only if two of its own instances do.\<close>

theorem lifetime_tests_exact:
  assumes "0 < ii" and "sg_writeTime a < sg_readTime a" and "sg_writeTime b < sg_readTime b"
  shows "(periodicLifetimesConflict a b ii policy \<longleftrightarrow> (\<exists>i j. instances_clash ii policy a i b j)) \<and>
    (fixedRegisterSelfOverlaps a ii policy \<longleftrightarrow> (\<exists>i j. i \<noteq> j \<and> instances_clash ii policy a i a j))"
  using assms by (simp only: conflict_decides_clash self_overlap_decides_clash)

definition demo_segment :: "nat \<Rightarrow> nat \<Rightarrow> StorageSegment" where
  "demo_segment w r = \<lparr>sg_id = 0, sg_edge = 0, sg_tile = demo_tile 1, sg_domain = Bank_Data,
     sg_writeTime = w, sg_readTime = r, sg_origins = []\<rparr>"

theorem lifetime_tests_exact_witness:
  "(\<exists>i j. instances_clash 4 RW_Forbidden (demo_segment 1 3) i (demo_segment 6 7) j) \<and>
   \<not> (\<exists>i j. instances_clash 4 ReadOldThenWriteNew (demo_segment 1 3) i (demo_segment 7 8) j)"
proof -
  have c: "periodicLifetimesConflict (demo_segment 1 3) (demo_segment 6 7) 4 RW_Forbidden"
    "\<not> periodicLifetimesConflict (demo_segment 1 3) (demo_segment 7 8) 4 ReadOldThenWriteNew" by code_simp+
  have t: "sg_writeTime (demo_segment 1 3) < sg_readTime (demo_segment 1 3)"
    "sg_writeTime (demo_segment 6 7) < sg_readTime (demo_segment 6 7)"
    "sg_writeTime (demo_segment 7 8) < sg_readTime (demo_segment 7 8)" by (simp_all add: demo_segment_def)
  from c lifetime_tests_exact [of 4, OF _ t(1,2)] lifetime_tests_exact [of 4, OF _ t(1,3)]
  show ?thesis by simp
qed

end
