(* ===== verification/RegAlloc_Storage.thy ===== *)
theory RegAlloc_Storage
  imports RegAlloc_Lifetime
begin

text \<open>
  The storage a staged mapping needs (\<open>RegisterAllocation/StorageRequirementAnalysis.cpp\<close>): one
  segment per virtual hold of a transport and one for the slack between arrival and use, where
  adjacent pieces on the same tile are merged.
\<close>

section \<open>Results\<close>

datatype StorageRequirementStatus =
    SRS_Success | SRS_InvalidTargetDFG | SRS_InvalidStagedMapping | SRS_TargetRFContractError
  | SRS_ArithmeticOverflow | SRS_InternalError

datatype StorageRequirementDiagnosticCode =
    SRD_INVALID_TARGET_DFG | SRD_INVALID_STAGED_MAPPING | SRD_TARGET_BANK_MISSING
  | SRD_TARGET_RF_CONTRACT_INVALID | SRD_STORAGE_TIMING_INVALID | SRD_STORAGE_ARITHMETIC_OVERFLOW
  | SRD_INTERNAL_ERROR

datatype StorageRequirementDiagnostic =
  SRDiag (srd_code: StorageRequirementDiagnosticCode) (srd_edge: "TargetEdgeId option")
    (srd_segment: "StorageSegmentId option")

record StorageRequirementStats =
  su_storageSegments :: nat
  su_dataSegments :: nat
  su_predicateSegments :: nat
  su_explicitHoldSegments :: nat
  su_terminalSlackSegments :: nat
  su_coalescedOrigins :: nat

record StorageRequirementResult =
  srr_status :: StorageRequirementStatus
  srr_requirements :: "StorageRequirements option"
  srr_stats :: StorageRequirementStats
  srr_diagnostics :: "StorageRequirementDiagnostic list"

definition srr_ok :: "StorageRequirementResult \<Rightarrow> bool" where
  "srr_ok r \<longleftrightarrow> srr_status r = SRS_Success \<and> srr_requirements r \<noteq> None"

definition empty_storage_stats :: StorageRequirementStats where
  "empty_storage_stats = \<lparr>su_storageSegments = 0, su_dataSegments = 0, su_predicateSegments = 0,
     su_explicitHoldSegments = 0, su_terminalSlackSegments = 0, su_coalescedOrigins = 0\<rparr>"

section \<open>The analysis\<close>

text \<open>How the loop over the edges may stop: an exception, or a return with a status, a diagnostic and
  the number of merged origins counted so far.\<close>

datatype storage_stop =
    Storage_Raises exn nat
  | Storage_Returns StorageRequirementStatus StorageRequirementDiagnostic nat

definition storage_checkedAdd :: "nat \<Rightarrow> nat \<Rightarrow> nat option" where
  "storage_checkedAdd lhs rhs = (if lhs > u64_max - rhs then None else Some (lhs + rhs))"

definition storage_checkedMul :: "nat \<Rightarrow> nat \<Rightarrow> nat option" where
  "storage_checkedMul lhs rhs = (if lhs \<noteq> 0 \<and> rhs > u64_max div lhs then None else Some (lhs * rhs))"

definition bankDomain :: "NetworkDomain \<Rightarrow> RegisterBankDomain" where
  "bankDomain domain = (if domain = Net_Data then Bank_Data else Bank_Predicate)"

type_synonym SegmentState = "StorageSegment list \<times> nat"

definition coalesces :: "TargetEdgeId \<Rightarrow> TileCoord \<Rightarrow> RegisterBankDomain \<Rightarrow> nat \<Rightarrow> StorageSegment \<Rightarrow> bool" where
  "coalesces edge tile domain writeTime previous \<longleftrightarrow>
     sg_edge previous = edge \<and> sg_tile previous = tile \<and> sg_domain previous = domain \<and>
     sg_readTime previous = writeTime"

definition appendSegment ::
  "TargetEdgeId \<Rightarrow> TileCoord \<Rightarrow> NetworkDomain \<Rightarrow> nat \<Rightarrow> nat \<Rightarrow> StorageOrigin \<Rightarrow> bool \<Rightarrow> SegmentState \<Rightarrow> SegmentState" where
  "appendSegment edge tile networkDomain writeTime readTime origin allowCoalesce st =
     (let segments = fst st;
          domain = bankDomain networkDomain
      in if allowCoalesce \<and> segments \<noteq> [] \<and> coalesces edge tile domain writeTime (last segments)
         then (butlast segments @ [(last segments)
                 \<lparr>sg_readTime := readTime, sg_origins := sg_origins (last segments) @ [origin]\<rparr>], snd st + 1)
         else (segments @ [\<lparr>sg_id = wrap32 (length segments), sg_edge = edge, sg_tile = tile, sg_domain = domain,
                 sg_writeTime = writeTime, sg_readTime = readTime, sg_origins = [origin]\<rparr>], snd st))"

definition holdOrigin :: "TargetEdgeId \<Rightarrow> nat \<Rightarrow> StorageOrigin" where
  "holdOrigin edge actionIndex =
     \<lparr>so_kind = ExplicitVirtualHold, so_edge = edge, so_transportActionIndex = Some (wrap32 actionIndex)\<rparr>"

definition slackOrigin :: "TargetEdgeId \<Rightarrow> StorageOrigin" where
  "slackOrigin edge = \<lparr>so_kind = TerminalSlack, so_edge = edge, so_transportActionIndex = None\<rparr>"

text \<open>One action of a transport; the flag says whether the action before it was a hold.\<close>

definition storageAction ::
  "TargetEdgeId \<Rightarrow> NetworkDomain \<Rightarrow> nat \<Rightarrow> SegmentState \<times> bool \<Rightarrow> nat \<times> TransportAction \<Rightarrow>
   storage_stop + (SegmentState \<times> bool)" where
  "storageAction edge domain producerTime st item =
     (case snd item of
        Action_Link _ \<Rightarrow> Inr (fst st, False)
      | Action_Hold hold \<Rightarrow>
          (case (storage_checkedAdd producerTime (vh_captureElapsed hold),
                 storage_checkedAdd producerTime (vh_releaseElapsed hold)) of
             (Some writeTime, Some readTime) \<Rightarrow>
               if readTime \<le> writeTime then
                 Inl (Storage_Returns SRS_InvalidStagedMapping
                   (SRDiag SRD_STORAGE_TIMING_INVALID (Some edge) None) (snd (fst st)))
               else
                 Inr (appendSegment edge (vh_tile hold) domain writeTime readTime
                        (holdOrigin edge (fst item)) (snd st) (fst st), True)
           | _ \<Rightarrow> Inl (Storage_Returns SRS_ArithmeticOverflow
                     (SRDiag SRD_STORAGE_ARITHMETIC_OVERFLOW (Some edge) None) (snd (fst st)))))"

definition storageSlack ::
  "StagedMapping \<Rightarrow> TargetEdge \<Rightarrow> MappedDependence \<Rightarrow> NetworkDomain \<Rightarrow> nat \<Rightarrow> nat \<Rightarrow> SegmentState \<times> bool \<Rightarrow>
   storage_stop + SegmentState" where
  "storageSlack sm e dep domain producerTime destinationTime st =
     (let overflow = Inl (Storage_Returns SRS_ArithmeticOverflow
            (SRDiag SRD_STORAGE_ARITHMETIC_OVERFLOW (Some (te_id e)) None) (snd (fst st)))
      in case (storage_checkedAdd producerTime (md_requiredSeparation dep),
               storage_checkedMul (te_distance e) (mm_ii (sm_modulo sm))) of
           (Some arrivalTime, Some distanceCycles) \<Rightarrow>
             (case storage_checkedAdd destinationTime distanceCycles of
                None \<Rightarrow> overflow
              | Some consumerUseTime \<Rightarrow>
                  if consumerUseTime < arrivalTime then
                    Inl (Storage_Returns SRS_InvalidStagedMapping
                      (SRDiag SRD_STORAGE_TIMING_INVALID (Some (te_id e)) None) (snd (fst st)))
                  else if consumerUseTime > arrivalTime then
                    (case mm_placement (sm_modulo sm) (te_dst e) of
                       Inl x \<Rightarrow> Inl (Storage_Raises x (snd (fst st)))
                     | Inr p \<Rightarrow> Inr (appendSegment (te_id e) (pl_tile p) domain arrivalTime consumerUseTime
                                      (slackOrigin (te_id e)) (snd st) (fst st)))
                  else Inr (fst st))
         | _ \<Rightarrow> overflow)"

definition storageEdge :: "StagedMapping \<Rightarrow> SegmentState \<Rightarrow> TargetEdge \<Rightarrow> storage_stop + SegmentState" where
  "storageEdge sm st e =
     (if te_kind e = Kind_Memory then Inr st
      else case mm_dependence (sm_modulo sm) (te_id e) of
        Inl x \<Rightarrow> Inl (Storage_Raises x (snd st))
      | Inr dep \<Rightarrow>
          (case md_transport dep of
             None \<Rightarrow> Inl (Storage_Returns SRS_InvalidStagedMapping
                       (SRDiag SRD_INVALID_STAGED_MAPPING (Some (te_id e)) None) (snd st))
           | Some plan \<Rightarrow>
               (case (logicalIssueTime sm (te_src e), logicalIssueTime sm (te_dst e)) of
                  (Inl x, _) \<Rightarrow> Inl (Storage_Raises x (snd st))
                | (Inr _, Inl x) \<Rightarrow> Inl (Storage_Raises x (snd st))
                | (Inr producerTime, Inr destinationTime) \<Rightarrow>
                    bindR (foldR (storageAction (te_id e) (tp_domain plan) producerTime) (st, False)
                             (enumerate 0 (tp_actions plan)))
                      (storageSlack sm e dep (tp_domain plan) producerTime destinationTime))))"

definition storageEdges :: "TargetDFG \<Rightarrow> StagedMapping \<Rightarrow> storage_stop + SegmentState" where
  "storageEdges g sm = foldR (storageEdge sm) ([], 0) (sort_key te_id (td_edges g))"

definition storageBank :: "TargetModel \<Rightarrow> StorageSegment \<Rightarrow> StorageRequirementDiagnosticCode option" where
  "storageBank t s =
     (case registerBank t (sg_domain s) (tile_row (sg_tile s)) (tile_col (sg_tile s)) of
        None \<Rightarrow> Some SRD_TARGET_BANK_MISSING
      | Some bank \<Rightarrow>
          if rf_allocatableIndices bank = [] \<or> rf_depth bank = 0 \<or> rf_readPorts bank = 0 \<or> rf_writePorts bank = 0
          then Some SRD_TARGET_RF_CONTRACT_INVALID else None)"

fun storageBanks :: "TargetModel \<Rightarrow> StorageSegment list \<Rightarrow> StorageRequirementDiagnostic option" where
  "storageBanks t [] = None"
| "storageBanks t (s # ss) =
     (case storageBank t s of
        Some c \<Rightarrow> Some (SRDiag c (Some (sg_edge s)) (Some (sg_id s)))
      | None \<Rightarrow> storageBanks t ss)"

definition storage_failure ::
  "StorageRequirementStatus \<Rightarrow> StorageRequirementDiagnostic \<Rightarrow> nat \<Rightarrow> StorageRequirementResult" where
  "storage_failure status d coalesced = \<lparr>srr_status = status, srr_requirements = None,
     srr_stats = empty_storage_stats\<lparr>su_coalescedOrigins := coalesced\<rparr>, srr_diagnostics = [d]\<rparr>"

definition storageStats :: "SegmentState \<Rightarrow> StorageRequirementStats" where
  "storageStats st =
     (let segments = fst st;
          origins = concat (map sg_origins segments)
      in \<lparr>su_storageSegments = length segments,
          su_dataSegments = length (filter (\<lambda>s. sg_domain s = Bank_Data) segments),
          su_predicateSegments = length (filter (\<lambda>s. sg_domain s \<noteq> Bank_Data) segments),
          su_explicitHoldSegments = length (filter (\<lambda>o'. so_kind o' = ExplicitVirtualHold) origins),
          su_terminalSlackSegments = length (filter (\<lambda>o'. so_kind o' \<noteq> ExplicitVirtualHold) origins),
          su_coalescedOrigins = snd st\<rparr>)"

definition storage_analyze ::
  "TargetDFG \<Rightarrow> TargetModel \<Rightarrow> StagedMapping \<Rightarrow> StorageRequirementResult result" where
  "storage_analyze g t sm =
     bindR (tdfg_verify g t None) (\<lambda>targetReport.
       if targetReport \<noteq> [] then
         Inr (storage_failure SRS_InvalidTargetDFG (SRDiag SRD_INVALID_TARGET_DFG None None) 0)
       else bindR (stages_verify g t sm) (\<lambda>stageReport.
         if stageReport \<noteq> [] \<or> mm_ii (sm_modulo sm) = 0 then
           Inr (storage_failure SRS_InvalidStagedMapping (SRDiag SRD_INVALID_STAGED_MAPPING None None) 0)
         else case storageEdges g sm of
           Inl (Storage_Returns status d coalesced) \<Rightarrow> Inr (storage_failure status d coalesced)
         | Inl (Storage_Raises Overflow_Error coalesced) \<Rightarrow>
             Inr (storage_failure SRS_ArithmeticOverflow (SRDiag SRD_STORAGE_ARITHMETIC_OVERFLOW None None) coalesced)
         | Inl (Storage_Raises Out_Of_Range coalesced) \<Rightarrow>
             Inr (storage_failure SRS_InvalidStagedMapping (SRDiag SRD_INVALID_STAGED_MAPPING None None) coalesced)
         | Inl (Storage_Raises x _) \<Rightarrow> Inl x
         | Inr st \<Rightarrow>
             (case storageBanks t (fst st) of
                Some d \<Rightarrow> Inr (storage_failure SRS_TargetRFContractError d (snd st))
              | None \<Rightarrow> Inr \<lparr>srr_status = SRS_Success,
                    srr_requirements = Some \<lparr>sr_ii = mm_ii (sm_modulo sm), sr_segments = fst st\<rparr>,
                    srr_stats = storageStats st, srr_diagnostics = []\<rparr>)))"

end
