(* ===== verification/RegAlloc_Storage_Sound.thy ===== *)
theory RegAlloc_Storage_Sound
  imports RegAlloc_Storage
begin

text \<open>
  What the storage analysis computes.  The demands of an edge are the pieces of time for which its
  value must be stored; the segments are exactly these demands, in order, with contiguous pieces
  merged.  On an accepted staged mapping the analysis never fails for a timing reason.
\<close>

section \<open>Storage demands\<close>

record StorageDemand =
  dd_origin :: StorageOrigin
  dd_tile :: TileCoord
  dd_domain :: RegisterBankDomain
  dd_from :: nat
  dd_to :: nat

fun hold_demands :: "TargetEdgeId \<Rightarrow> NetworkDomain \<Rightarrow> nat \<Rightarrow> nat \<Rightarrow> TransportAction list \<Rightarrow> StorageDemand list" where
  "hold_demands edge domain start k [] = []"
| "hold_demands edge domain start k (Action_Link l # as) = hold_demands edge domain start (Suc k) as"
| "hold_demands edge domain start k (Action_Hold h # as) =
     \<lparr>dd_origin = holdOrigin edge k, dd_tile = vh_tile h, dd_domain = bankDomain domain,
      dd_from = start + vh_captureElapsed h, dd_to = start + vh_releaseElapsed h\<rparr> #
     hold_demands edge domain start (Suc k) as"

definition issue_time :: "StagedMapping \<Rightarrow> TargetNodeId \<Rightarrow> nat" where
  "issue_time sm i = stage_of sm i * mm_ii (sm_modulo sm) + slot_of (sm_modulo sm) i"

definition use_time :: "StagedMapping \<Rightarrow> TargetEdge \<Rightarrow> nat" where
  "use_time sm e = issue_time sm (te_dst e) + te_distance e * mm_ii (sm_modulo sm)"

definition slack_demand :: "StagedMapping \<Rightarrow> TargetEdge \<Rightarrow> NetworkDomain \<Rightarrow> StorageDemand list" where
  "slack_demand sm e domain =
     (let arrival = issue_time sm (te_src e) + separation_of (sm_modulo sm) (te_id e) in
      case find_by pl_node (te_dst e) (mm_placements (sm_modulo sm)) of
        None \<Rightarrow> []
      | Some p \<Rightarrow>
          if arrival < use_time sm e
          then [\<lparr>dd_origin = slackOrigin (te_id e), dd_tile = pl_tile p, dd_domain = bankDomain domain,
                 dd_from = arrival, dd_to = use_time sm e\<rparr>]
          else [])"

definition edge_plan :: "StagedMapping \<Rightarrow> TargetEdge \<Rightarrow> TransportPlan option" where
  "edge_plan sm e = Option.bind (find_by md_edge (te_id e) (mm_dependences (sm_modulo sm))) md_transport"

definition edge_demands :: "StagedMapping \<Rightarrow> TargetEdge \<Rightarrow> StorageDemand list" where
  "edge_demands sm e =
     (case edge_plan sm e of
        None \<Rightarrow> []
      | Some plan \<Rightarrow>
          hold_demands (te_id e) (tp_domain plan) (issue_time sm (te_src e)) 0 (tp_actions plan) @
          slack_demand sm e (tp_domain plan))"

text \<open>A segment is the union of contiguous demands.\<close>

fun chained :: "nat \<Rightarrow> StorageDemand list \<Rightarrow> nat \<Rightarrow> bool" where
  "chained a [] b \<longleftrightarrow> a = b"
| "chained a (d # ds) b \<longleftrightarrow> dd_from d = a \<and> a < dd_to d \<and> chained (dd_to d) ds b"

definition segment_of :: "StorageSegment \<Rightarrow> StorageDemand list \<Rightarrow> bool" where
  "segment_of s ds \<longleftrightarrow> ds \<noteq> [] \<and> map dd_origin ds = sg_origins s \<and>
     chained (sg_writeTime s) ds (sg_readTime s) \<and>
     (\<forall>d \<in> set ds. so_edge (dd_origin d) = sg_edge s \<and> dd_tile d = sg_tile s \<and> dd_domain d = sg_domain s)"

definition segments_cover :: "StorageSegment list \<Rightarrow> StorageDemand list \<Rightarrow> bool" where
  "segments_cover segs ds \<longleftrightarrow>
     map sg_id segs = map wrap32 [0..<length segs] \<and>
     (\<exists>parts. concat parts = ds \<and> list_all2 segment_of segs parts)"

lemma chained_snoc: "chained a (ds @ [d]) c \<longleftrightarrow> (\<exists>b. chained a ds b \<and> dd_from d = b \<and> b < dd_to d \<and> dd_to d = c)"
  by (induction ds arbitrary: a) auto

lemma chained_le: "chained a ds b \<Longrightarrow> a \<le> b \<and> (ds \<noteq> [] \<longrightarrow> a < b)"
proof (induction ds arbitrary: a)
  case (Cons d ds)
  from Cons.prems Cons.IH [of "dd_to d"] show ?case by auto
qed simp

lemma segment_of_time: "segment_of s ds \<Longrightarrow> sg_writeTime s < sg_readTime s"
  using chained_le by (auto simp: segment_of_def)

lemma chained_within: "chained a ds b \<Longrightarrow> d \<in> set ds \<Longrightarrow> a \<le> dd_from d \<and> dd_from d < dd_to d \<and> dd_to d \<le> b"
proof (induction ds arbitrary: a)
  case (Cons x ds)
  then show ?case using chained_le [of "dd_to x" ds b] by fastforce
qed simp

lemma segments_cover_Nil: "segments_cover [] []"
  by (auto simp: segments_cover_def)

lemma appendSegment_covers:
  assumes "segments_cover (fst st) ds" and "w < r" and o: "so_edge origin = edge"
  shows "segments_cover (fst (appendSegment edge tile domain w r origin c st))
    (ds @ [\<lparr>dd_origin = origin, dd_tile = tile, dd_domain = bankDomain domain, dd_from = w, dd_to = r\<rparr>])"
    (is "segments_cover ?new (ds @ [?d])")
proof -
  from assms(1) obtain parts where ids: "map sg_id (fst st) = map wrap32 [0..<length (fst st)]"
    and parts: "concat parts = ds" "list_all2 segment_of (fst st) parts"
    by (auto simp: segments_cover_def)
  show ?thesis
  proof (cases "c \<and> fst st \<noteq> [] \<and> coalesces edge tile (bankDomain domain) w (last (fst st))")
    case True
    then obtain ss s where st: "fst st = ss @ [s]" and s: "coalesces edge tile (bankDomain domain) w s"
      by (metis append_butlast_last_id)
    from parts(2) st obtain ps p where p: "parts = ps @ [p]" "list_all2 segment_of ss ps" "segment_of s p"
      by (auto simp: list_all2_append1 list_all2_Cons1)
    let ?s = "s\<lparr>sg_readTime := r, sg_origins := sg_origins s @ [origin]\<rparr>"
    have new: "?new = ss @ [?s]" using True st by (simp add: appendSegment_def Let_def)
    have "segment_of ?s (p @ [?d])"
      using p(3) s assms(2) o by (auto simp: segment_of_def coalesces_def chained_snoc)
    with p have "list_all2 segment_of (ss @ [?s]) (ps @ [p @ [?d]])" by (simp add: list_all2_appendI)
    moreover have "concat (ps @ [p @ [?d]]) = ds @ [?d]" using p parts(1) by auto
    moreover have "map sg_id (ss @ [?s]) = map wrap32 [0..<length (ss @ [?s])]" using ids st by simp
    ultimately show ?thesis unfolding new segments_cover_def by blast
  next
    case False
    let ?s = "\<lparr>sg_id = wrap32 (length (fst st)), sg_edge = edge, sg_tile = tile, sg_domain = bankDomain domain,
                 sg_writeTime = w, sg_readTime = r, sg_origins = [origin]\<rparr>"
    have new: "?new = fst st @ [?s]" using False by (auto simp: appendSegment_def Let_def)
    have "segment_of ?s [?d]" using assms(2) o by (simp add: segment_of_def)
    with parts have "list_all2 segment_of (fst st @ [?s]) (parts @ [[?d]])" by (simp add: list_all2_appendI)
    moreover have "concat (parts @ [[?d]]) = ds @ [?d]" using parts by simp
    moreover have "map sg_id (fst st @ [?s]) = map wrap32 [0..<length (fst st @ [?s])]" using ids by simp
    ultimately show ?thesis unfolding new segments_cover_def by blast
  qed
qed

section \<open>The loop over the actions\<close>

lemma transport_path_holds:
  assumes "transport_path t domain p as q"
  shows "snd p \<le> snd q \<and> (\<forall>h. Action_Hold h \<in> set as \<longrightarrow>
    vh_captureElapsed h < vh_releaseElapsed h \<and> vh_releaseElapsed h \<le> snd q)"
  using assms by (induction rule: transport_path.induct) fastforce+

lemma storage_checkedAdd_small: "lhs + rhs \<le> u64_max \<Longrightarrow> storage_checkedAdd lhs rhs = Some (lhs + rhs)"
  by (simp add: storage_checkedAdd_def)

lemma storageActions_cover:
  assumes "\<forall>h. Action_Hold h \<in> set as \<longrightarrow>
      vh_captureElapsed h < vh_releaseElapsed h \<and> start + vh_releaseElapsed h \<le> u64_max"
    and "segments_cover (fst st) ds"
  shows "\<exists>st' b'. foldR (storageAction edge domain start) (st, b) (enumerate k as) = Inr (st', b') \<and>
    segments_cover (fst st') (ds @ hold_demands edge domain start k as)"
  using assms
proof (induction as arbitrary: st b k ds)
  case (Cons a as)
  show ?case
  proof (cases a)
    case (Action_Link l)
    have "storageAction edge domain start (st, b) (k, a) = Inr (st, False)"
      by (simp add: storageAction_def Action_Link)
    moreover from Cons.IH [of st ds False "Suc k"] Cons.prems obtain st' b' where
      "foldR (storageAction edge domain start) (st, False) (enumerate (Suc k) as) = Inr (st', b')"
      "segments_cover (fst st') (ds @ hold_demands edge domain start (Suc k) as)" by auto
    ultimately show ?thesis by (simp add: Action_Link)
  next
    case (Action_Hold h)
    let ?st = "appendSegment edge (vh_tile h) domain (start + vh_captureElapsed h) (start + vh_releaseElapsed h)
      (holdOrigin edge k) b st"
    have h: "vh_captureElapsed h < vh_releaseElapsed h" "start + vh_releaseElapsed h \<le> u64_max"
      using Cons.prems(1) Action_Hold by auto
    then have "storageAction edge domain start (st, b) (k, a) = Inr (?st, True)"
      by (simp add: storageAction_def Action_Hold storage_checkedAdd_small)
    moreover have c: "segments_cover (fst ?st) (ds @ [\<lparr>dd_origin = holdOrigin edge k, dd_tile = vh_tile h,
        dd_domain = bankDomain domain, dd_from = start + vh_captureElapsed h, dd_to = start + vh_releaseElapsed h\<rparr>])"
      by (rule appendSegment_covers [OF Cons.prems(2)]) (use h in \<open>simp_all add: holdOrigin_def\<close>)
    moreover from Cons.IH [OF _ c, of True "Suc k"] Cons.prems(1) obtain st' b' where
      "foldR (storageAction edge domain start) (?st, True) (enumerate (Suc k) as) = Inr (st', b')"
      "segments_cover (fst st') ((ds @ [\<lparr>dd_origin = holdOrigin edge k, dd_tile = vh_tile h,
        dd_domain = bankDomain domain, dd_from = start + vh_captureElapsed h, dd_to = start + vh_releaseElapsed h\<rparr>]) @
        hold_demands edge domain start (Suc k) as)" by auto
    ultimately show ?thesis by (simp add: Action_Hold)
  qed
qed simp

section \<open>The times of an accepted staged mapping\<close>

lemma verifyStagedEdge_range:
  assumes "verifyStagedEdge sm ts [] e = Inr []"
    and "time_at ts (te_src e) = Inr src" and "time_at ts (te_dst e) = Inr dst"
    and "separation_of (sm_modulo sm) (te_id e) \<le> u64_max" and "dst \<le> u64_max"
  shows "src + separation_of (sm_modulo sm) (te_id e) \<le> u64_max \<and>
    (0 < mm_ii (sm_modulo sm) \<longrightarrow> te_distance e * mm_ii (sm_modulo sm) + dst \<le> u64_max)"
proof -
  let ?ii = "mm_ii (sm_modulo sm)"
  have "src \<le> u64_max - separation_of (sm_modulo sm) (te_id e)" and d: "?ii \<noteq> 0 \<longrightarrow> te_distance e \<le> (u64_max - dst) div ?ii"
    using assms(1-3) by (auto simp: verifyStagedEdge_def Let_def bindR_eq_Inr checkedMultiplyAdd_def mm_dependence_eq
        not_less split: option.splits if_splits)
  moreover have "te_distance e * ?ii \<le> u64_max - dst" if "0 < ?ii"
    using d that by (simp add: less_eq_div_iff_mult_less_eq)
  ultimately show ?thesis using assms(4,5) by fastforce
qed

lemma staged_times:
  assumes "stages_verify g t sm = Inr []" and u32: "u32_fields g (sm_modulo sm)"
  shows "tdfg_verify g t None = Inr []" and "mapping_verify g t (sm_modulo sm) = Inr []" and "0 < mm_ii (sm_modulo sm)"
    and "\<forall>n \<in> set (td_nodes g). logicalIssueTime sm (tn_id n) = Inr (issue_time sm (tn_id n))"
    and "\<forall>e \<in> set (td_edges g). issue_time sm (te_src e) + separation_of (sm_modulo sm) (te_id e) \<le> use_time sm e"
    and "\<forall>e \<in> set (td_edges g). issue_time sm (te_src e) + separation_of (sm_modulo sm) (te_id e) \<le> u64_max \<and>
      use_time sm e \<le> u64_max"
proof -
  let ?m = "sm_modulo sm"
  from assms(1) obtain ts where v: "tdfg_verify g t None = Inr []" and m: "mapping_verify g t ?m = Inr []"
    and times: "foldR (verifyIssueTime sm) ([], []) (td_nodes g) = Inr (ts, [])"
    and edges: "foldR (verifyStagedEdge sm ts) [] (td_edges g) = Inr []"
    by (auto simp: stages_verify_def Let_def bindR_eq_Inr split: if_splits prod.splits)
  show "tdfg_verify g t None = Inr []" "mapping_verify g t ?m = Inr []" by (fact v, fact m)
  show ii: "0 < mm_ii ?m" by (rule accepted_graph(2) [OF m])
  note ts = verifyIssueTime_all [OF times]
  show l: "\<forall>n \<in> set (td_nodes g). logicalIssueTime sm (tn_id n) = Inr (issue_time sm (tn_id n))"
    using ts logicalIssueTime_eq by (fastforce simp: issue_time_def)
  have at: "time_at ts i = Inr (issue_time sm i)" if "i \<in> tn_id ` set (td_nodes g)" for i
  proof -
    from that obtain n where n: "n \<in> set (td_nodes g)" "tn_id n = i" by auto
    have "i \<in> fst ` set ts" using n ts by force
    from find_by_ex [OF this] obtain x where "find_by fst i ts = Some x" by auto
    then have "time_at ts i = Inr (snd x)" by (simp add: time_at_def)
    with time_at_eq [OF this [unfolded ts [THEN conjunct1]] ts [THEN conjunct2]] show ?thesis
      by (simp add: issue_time_def)
  qed
  have big: "issue_time sm i \<le> u64_max" if "i \<in> tn_id ` set (td_nodes g)" for i
  proof -
    from that l have "logicalIssueTime sm i = Inr (issue_time sm i)" by auto
    then obtain p where "mm_placement ?m i = Inr p" "issue_time sm i - pl_issueSlot p \<le> u64_max - pl_issueSlot p"
      by (auto simp: logicalIssueTime_def bindR_eq_Inr Let_def split: if_splits)
    with u32_slot [OF u32, of i] show ?thesis by (simp add: mm_placement_eq)
  qed
  have e: "issue_time sm (te_src e) + separation_of ?m (te_id e) \<le> use_time sm e \<and>
      issue_time sm (te_src e) + separation_of ?m (te_id e) \<le> u64_max \<and> use_time sm e \<le> u64_max"
    if e: "e \<in> set (td_edges g)" for e
  proof -
    have ends: "te_src e \<in> tn_id ` set (td_nodes g)" "te_dst e \<in> tn_id ` set (td_nodes g)"
      using accepted_graph(3) [OF m] e by auto
    have s: "verifyStagedEdge sm ts [] e = Inr []"
      using foldR_list_silent [OF edges] verifyStagedEdge_grows e by blast
    have "separation_of ?m (te_id e) \<le> u64_max" using u32_separation [OF u32, of "te_id e"] by simp
    from verifyStagedEdge_range [OF s at [OF ends(1)] at [OF ends(2)] this big [OF ends(2)]]
      verifyStagedEdge_silent [OF s] ii at [OF ends(1)] at [OF ends(2)]
    show ?thesis by (simp add: use_time_def add.commute)
  qed
  then show "\<forall>e \<in> set (td_edges g). issue_time sm (te_src e) + separation_of ?m (te_id e) \<le> use_time sm e"
    and "\<forall>e \<in> set (td_edges g). issue_time sm (te_src e) + separation_of ?m (te_id e) \<le> u64_max \<and> use_time sm e \<le> u64_max"
    by simp_all
qed

section \<open>The analysis computes the demands\<close>

lemma storageSlack_covers:
  assumes d: "mm_dependence (sm_modulo sm) (te_id e) = Inr dep"
    and p: "find_by pl_node (te_dst e) (mm_placements (sm_modulo sm)) = Some p"
    and t: "issue_time sm (te_src e) + separation_of (sm_modulo sm) (te_id e) \<le> use_time sm e" "use_time sm e \<le> u64_max"
    and c: "segments_cover (fst st) ds"
  shows "\<exists>st'. storageSlack sm e dep domain (issue_time sm (te_src e)) (issue_time sm (te_dst e)) (st, b) = Inr st' \<and>
    segments_cover (fst st') (ds @ slack_demand sm e domain)"
proof -
  let ?arr = "issue_time sm (te_src e) + separation_of (sm_modulo sm) (te_id e)"
  have sep: "md_requiredSeparation dep = separation_of (sm_modulo sm) (te_id e)" using mm_dependence_eq [OF d] by simp
  have 1: "storage_checkedAdd (issue_time sm (te_src e)) (md_requiredSeparation dep) = Some ?arr"
    using t unfolding sep by (intro storage_checkedAdd_small) simp
  have "te_distance e * mm_ii (sm_modulo sm) \<le> u64_max" using t(2) by (simp add: use_time_def)
  then have 2: "storage_checkedMul (te_distance e) (mm_ii (sm_modulo sm)) = Some (te_distance e * mm_ii (sm_modulo sm))"
    by (cases "te_distance e = 0")
       (simp_all add: storage_checkedMul_def not_less less_eq_div_iff_mult_less_eq mult.commute)
  have 3: "storage_checkedAdd (issue_time sm (te_dst e)) (te_distance e * mm_ii (sm_modulo sm)) = Some (use_time sm e)"
    using t(2) unfolding use_time_def by (rule storage_checkedAdd_small)
  show ?thesis
  proof (cases "?arr < use_time sm e")
    case True
    let ?st = "appendSegment (te_id e) (pl_tile p) domain ?arr (use_time sm e) (slackOrigin (te_id e)) b st"
    have "storageSlack sm e dep domain (issue_time sm (te_src e)) (issue_time sm (te_dst e)) (st, b) = Inr ?st"
      using True p by (simp add: storageSlack_def 1 2 3 mm_placement_def)
    moreover have "segments_cover (fst ?st) (ds @ slack_demand sm e domain)"
      using appendSegment_covers [OF c True, of "slackOrigin (te_id e)" "te_id e" "pl_tile p" domain b] True p
      by (simp add: slack_demand_def slackOrigin_def)
    ultimately show ?thesis by blast
  next
    case False
    then have "storageSlack sm e dep domain (issue_time sm (te_src e)) (issue_time sm (te_dst e)) (st, b) = Inr st"
      using t(1) by (simp add: storageSlack_def 1 2 3)
    with False c p show ?thesis by (simp add: slack_demand_def)
  qed
qed

lemma storageEdge_covers:
  assumes v: "realised_ok g t (sm_modulo sm) e"
    and l: "logicalIssueTime sm (te_src e) = Inr (issue_time sm (te_src e))"
      "logicalIssueTime sm (te_dst e) = Inr (issue_time sm (te_dst e))"
    and tm: "issue_time sm (te_src e) + separation_of (sm_modulo sm) (te_id e) \<le> use_time sm e" "use_time sm e \<le> u64_max"
    and c: "segments_cover (fst st) ds"
  shows "\<exists>st'. storageEdge sm st e = Inr st' \<and> segments_cover (fst st') (ds @ edge_demands sm e)"
proof (cases "\<exists>k. te_info e = MemoryEdgeInfo k")
  case True
  with v have "edge_plan sm e = None" by (auto simp: realised_ok_def edge_plan_def)
  moreover from True have "te_kind e = Kind_Memory" by auto
  ultimately show ?thesis using c by (simp add: storageEdge_def edge_demands_def)
next
  case False
  with v obtain dep plan tile dst ready where
    d: "find_by md_edge (te_id e) (mm_dependences (sm_modulo sm)) = Some dep" "md_transport dep = Some plan"
      "find_by pl_node (te_dst e) (mm_placements (sm_modulo sm)) = Some dst"
      "transport_path t (tp_domain plan) (tile, ready) (tp_actions plan) (pl_tile dst, md_requiredSeparation dep)"
    by (cases "te_info e") (auto simp: realised_ok_def)
  have dep: "mm_dependence (sm_modulo sm) (te_id e) = Inr dep" using d(1) by (simp add: mm_dependence_def)
  have plan: "edge_plan sm e = Some plan" using d by (simp add: edge_plan_def)
  have kind: "te_kind e \<noteq> Kind_Memory" using False by (cases "te_info e") auto
  have "\<forall>h. Action_Hold h \<in> set (tp_actions plan) \<longrightarrow> vh_captureElapsed h < vh_releaseElapsed h \<and>
      issue_time sm (te_src e) + vh_releaseElapsed h \<le> u64_max"
    using transport_path_holds [OF d(4)] tm mm_dependence_eq [OF dep] by fastforce
  from storageActions_cover [OF this c] obtain st1 b1 where
    1: "foldR (storageAction (te_id e) (tp_domain plan) (issue_time sm (te_src e))) (st, False)
          (enumerate 0 (tp_actions plan)) = Inr (st1, b1)"
    "segments_cover (fst st1) (ds @ hold_demands (te_id e) (tp_domain plan) (issue_time sm (te_src e)) 0 (tp_actions plan))"
    by blast
  from storageSlack_covers [OF dep d(3) tm 1(2)] obtain st2 where
    "storageSlack sm e dep (tp_domain plan) (issue_time sm (te_src e)) (issue_time sm (te_dst e)) (st1, b1) = Inr st2"
    "segments_cover (fst st2) ((ds @ hold_demands (te_id e) (tp_domain plan) (issue_time sm (te_src e)) 0 (tp_actions plan))
       @ slack_demand sm e (tp_domain plan))" by blast
  with 1 kind dep d(2) l plan show ?thesis by (simp add: storageEdge_def edge_demands_def)
qed

lemma foldR_covers:
  assumes "\<forall>e \<in> set es. \<forall>st ds. segments_cover (fst st) ds \<longrightarrow>
      (\<exists>st'. storageEdge sm st e = Inr st' \<and> segments_cover (fst st') (ds @ edge_demands sm e))"
    and "segments_cover (fst st) ds"
  shows "\<exists>st'. foldR (storageEdge sm) st es = Inr st' \<and> segments_cover (fst st') (ds @ concat (map (edge_demands sm) es))"
  using assms
proof (induction es arbitrary: st ds)
  case (Cons e es)
  have "\<exists>st'. storageEdge sm st e = Inr st' \<and> segments_cover (fst st') (ds @ edge_demands sm e)"
    using Cons.prems by (meson list.set_intros(1))
  then obtain st1 where 1: "storageEdge sm st e = Inr st1" "segments_cover (fst st1) (ds @ edge_demands sm e)" by blast
  have "\<exists>st'. foldR (storageEdge sm) st1 es = Inr st' \<and>
      segments_cover (fst st') ((ds @ edge_demands sm e) @ concat (map (edge_demands sm) es))"
    by (rule Cons.IH [OF _ 1(2)]) (use Cons.prems(1) in simp)
  with 1(1) show ?case by simp
qed simp

definition all_demands :: "TargetDFG \<Rightarrow> StagedMapping \<Rightarrow> StorageDemand list" where
  "all_demands g sm = concat (map (edge_demands sm) (sort_key te_id (td_edges g)))"

lemma storageEdges_cover:
  assumes "stages_verify g t sm = Inr []" and "u32_fields g (sm_modulo sm)"
  shows "\<exists>st. storageEdges g sm = Inr st \<and> segments_cover (fst st) (all_demands g sm)"
proof -
  note s = staged_times [OF assms]
  have "\<exists>st'. storageEdge sm st e = Inr st' \<and> segments_cover (fst st') (ds @ edge_demands sm e)"
    if "e \<in> set (td_edges g)" "segments_cover (fst st) ds" for e st ds
  proof (rule storageEdge_covers)
    show "realised_ok g t (sm_modulo sm) e" using mapping_verify_valid [OF s(2)] that(1) by (simp add: valid_mapping_def)
    show "logicalIssueTime sm (te_src e) = Inr (issue_time sm (te_src e))"
      "logicalIssueTime sm (te_dst e) = Inr (issue_time sm (te_dst e))"
      using accepted_graph(3) [OF s(2)] s(4) that(1) by auto
  qed (use s that in auto)
  then show ?thesis
    unfolding storageEdges_def all_demands_def
    using foldR_covers [of "sort_key te_id (td_edges g)" sm "([], 0)" "[]"] segments_cover_Nil by auto
qed

section \<open>Merging is maximal\<close>

text \<open>Two pieces of one value that follow each other in the same bank of the same tile.\<close>

definition contiguous :: "StorageSegment \<Rightarrow> StorageSegment \<Rightarrow> bool" where
  "contiguous a b \<longleftrightarrow> sg_edge a = sg_edge b \<and> sg_tile a = sg_tile b \<and> sg_domain a = sg_domain b \<and>
     sg_readTime a = sg_writeTime b"

definition merged :: "StorageSegment list \<Rightarrow> bool" where
  "merged = successively (\<lambda>a b. \<not> contiguous a b)"

lemma merged_Nil [simp]: "merged []"
  by (simp add: merged_def)

lemma merged_snoc: "merged (ss @ [s]) \<longleftrightarrow> merged ss \<and> (ss \<noteq> [] \<longrightarrow> \<not> contiguous (last ss) s)"
  by (auto simp: merged_def successively_append_iff)

text \<open>How far the last segment of an edge reaches; after a link it ends before the current time.\<close>

definition reaches :: "TargetEdgeId \<Rightarrow> nat \<Rightarrow> bool \<Rightarrow> StorageSegment list \<Rightarrow> bool" where
  "reaches edge time b segs \<longleftrightarrow> merged segs \<and>
     (segs \<noteq> [] \<longrightarrow> sg_edge (last segs) = edge \<longrightarrow>
       sg_readTime (last segs) \<le> time \<and> (\<not> b \<longrightarrow> sg_readTime (last segs) < time))"

lemma appendSegment_reaches:
  assumes "reaches edge w b (fst st)"
  shows "reaches edge r True (fst (appendSegment edge tile domain w r origin b st))"
    and "sg_edge ` set (fst (appendSegment edge tile domain w r origin b st)) \<subseteq> insert edge (sg_edge ` set (fst st))"
proof -
  let ?new = "fst (appendSegment edge tile domain w r origin b st)"
  have "reaches edge r True ?new \<and> sg_edge ` set ?new \<subseteq> insert edge (sg_edge ` set (fst st))"
  proof (cases "b \<and> fst st \<noteq> [] \<and> coalesces edge tile (bankDomain domain) w (last (fst st))")
    case True
    then obtain ss s where st: "fst st = ss @ [s]" by (metis append_butlast_last_id)
    with True have new: "?new = ss @ [s\<lparr>sg_readTime := r, sg_origins := sg_origins s @ [origin]\<rparr>]"
      by (simp add: appendSegment_def Let_def)
    from assms st have "merged ?new" unfolding new by (auto simp: reaches_def merged_snoc contiguous_def)
    then show ?thesis unfolding reaches_def by (auto simp: new st)
  next
    case False
    then have new: "?new = fst st @ [\<lparr>sg_id = wrap32 (length (fst st)), sg_edge = edge, sg_tile = tile,
        sg_domain = bankDomain domain, sg_writeTime = w, sg_readTime = r, sg_origins = [origin]\<rparr>]"
      by (auto simp: appendSegment_def Let_def)
    from assms False have "merged ?new" unfolding new
      by (auto simp: reaches_def merged_snoc contiguous_def coalesces_def)
    then show ?thesis unfolding reaches_def by (simp add: new)
  qed
  then show "reaches edge r True ?new" "sg_edge ` set ?new \<subseteq> insert edge (sg_edge ` set (fst st))" by simp_all
qed

lemma storageAction_Link: "storageAction edge domain start (st, b) (k, Action_Link l) = Inr (st, False)"
  by (simp add: storageAction_def)

lemma storageAction_Hold:
  "storageAction edge domain start (st, b) (k, Action_Hold h) = Inr x \<Longrightarrow>
     x = (appendSegment edge (vh_tile h) domain (start + vh_captureElapsed h) (start + vh_releaseElapsed h)
            (holdOrigin edge k) b st, True)"
  by (auto simp: storageAction_def storage_checkedAdd_def split: if_splits)

lemma storageActions_merged:
  assumes "transport_path t domain' p as q" and "0 < ic_hopLatency (tm_interconnect t)"
    and "foldR (storageAction edge domain start) (st, b) (enumerate k as) = Inr (st', b')"
    and "reaches edge (start + snd p) b (fst st)"
  shows "reaches edge (start + snd q) b' (fst st') \<and> sg_edge ` set (fst st') \<subseteq> insert edge (sg_edge ` set (fst st))"
  using assms
proof (induction arbitrary: st b k rule: transport_path.induct)
  case (arrived p)
  then show ?case by auto
next
  case (link l tile time there as q)
  from link.prems(2) have "foldR (storageAction edge domain start) (st, False) (enumerate (Suc k) as) = Inr (st', b')"
    by (simp add: storageAction_Link)
  moreover have "reaches edge (start + snd (there, time + ic_hopLatency (tm_interconnect t))) False (fst st)"
    using link.prems(1,3) by (auto simp: reaches_def)
  ultimately show ?case using link.IH link.prems(1) by blast
next
  case (hold h tile time as q)
  let ?st = "appendSegment edge (vh_tile h) domain (start + vh_captureElapsed h) (start + vh_releaseElapsed h)
    (holdOrigin edge k) b st"
  from hold.prems(2) have st': "foldR (storageAction edge domain start) (?st, True) (enumerate (Suc k) as) = Inr (st', b')"
    by (auto simp: bindR_eq_Inr dest: storageAction_Hold)
  have w: "reaches edge (start + vh_captureElapsed h) b (fst st)" using hold.prems(3) hold.hyps(3) by simp
  have "reaches edge (start + snd (tile, vh_releaseElapsed h)) True (fst ?st)"
    using appendSegment_reaches(1) [OF w] by simp
  from hold.IH [OF hold.prems(1) st' this] appendSegment_reaches(2) [OF w] show ?case by blast
qed

lemma storageSlack_merged:
  assumes "storageSlack sm e dep domain start dest (st, b) = Inr st'"
    and "reaches (te_id e) (start + md_requiredSeparation dep) b (fst st)"
  shows "merged (fst st') \<and> sg_edge ` set (fst st') \<subseteq> insert (te_id e) (sg_edge ` set (fst st))"
proof -
  from assms(1) consider "st' = st"
    | r tile origin where "st' = appendSegment (te_id e) tile domain (start + md_requiredSeparation dep) r origin b st"
    by (auto simp: storageSlack_def storage_checkedAdd_def Let_def split: option.splits if_splits sum.splits)
  then show ?thesis
  proof cases
    case 1
    with assms(2) show ?thesis by (auto simp: reaches_def)
  next
    case 2
    with appendSegment_reaches [OF assms(2)] show ?thesis by (simp add: reaches_def)
  qed
qed

lemma storageEdge_merged:
  assumes "storageEdge sm st e = Inr st'" and "realised_ok g t (sm_modulo sm) e"
    and "merged (fst st)" and "te_id e \<notin> sg_edge ` set (fst st)"
  shows "merged (fst st') \<and> sg_edge ` set (fst st') \<subseteq> insert (te_id e) (sg_edge ` set (fst st))"
proof (cases "\<exists>k. te_info e = MemoryEdgeInfo k")
  case True
  then have "te_kind e = Kind_Memory" by auto
  with assms(1,3) show ?thesis by (auto simp: storageEdge_def)
next
  case False
  then obtain dep ready and plan :: TransportPlan and src dst :: NodePlacement where
    d: "find_by md_edge (te_id e) (mm_dependences (sm_modulo sm)) = Some dep" "md_transport dep = Some plan"
      "0 < ic_hopLatency (tm_interconnect t)"
      "transport_path t (tp_domain plan) (pl_tile src, ready) (tp_actions plan) (pl_tile dst, md_requiredSeparation dep)"
    using assms(2) by (cases "te_info e"; simp add: realised_ok_def) blast+
  have kind: "te_kind e \<noteq> Kind_Memory" using False by (cases "te_info e") auto
  from assms(1) d(1,2) kind obtain start dest st1 b1 where
    1: "foldR (storageAction (te_id e) (tp_domain plan) start) (st, False) (enumerate 0 (tp_actions plan)) = Inr (st1, b1)"
      "storageSlack sm e dep (tp_domain plan) start dest (st1, b1) = Inr st'"
    by (auto simp: storageEdge_def mm_dependence_def bindR_eq_Inr split: sum.splits)
  have "reaches (te_id e) (start + snd (pl_tile src, ready)) False (fst st)"
    unfolding reaches_def
  proof (intro conjI impI)
    assume "fst st \<noteq> []" "sg_edge (last (fst st)) = te_id e"
    then have "te_id e \<in> sg_edge ` set (fst st)" by (metis imageI last_in_set)
    with assms(4) show "sg_readTime (last (fst st)) \<le> start + snd (pl_tile src, ready)"
      "sg_readTime (last (fst st)) < start + snd (pl_tile src, ready)" by simp_all
  qed (rule assms(3))
  from storageActions_merged [OF d(4,3) 1(1) this]
  have "reaches (te_id e) (start + md_requiredSeparation dep) b1 (fst st1)"
    "sg_edge ` set (fst st1) \<subseteq> insert (te_id e) (sg_edge ` set (fst st))" by simp_all
  with storageSlack_merged [OF 1(2)] show ?thesis by blast
qed

lemma storageEdges_merged:
  assumes "foldR (storageEdge sm) st es = Inr st'" and "\<forall>e \<in> set es. realised_ok g t (sm_modulo sm) e"
    and "distinct (map te_id es)" and "merged (fst st)" and "sg_edge ` set (fst st) \<inter> te_id ` set es = {}"
  shows "merged (fst st')"
  using assms
proof (induction es arbitrary: st)
  case (Cons e es)
  from Cons.prems(1) obtain st1 where 1: "storageEdge sm st e = Inr st1" "foldR (storageEdge sm) st1 es = Inr st'"
    by (auto simp: bindR_eq_Inr)
  have 2: "merged (fst st1) \<and> sg_edge ` set (fst st1) \<subseteq> insert (te_id e) (sg_edge ` set (fst st))"
    by (rule storageEdge_merged [OF 1(1), of g t]) (use Cons.prems in auto)
  have disjoint: "A \<inter> C = {}" if "A \<subseteq> insert x B" "x \<notin> C" "B \<inter> C = {}" for x :: nat and A B C using that by blast
  have "te_id e \<notin> te_id ` set es" "sg_edge ` set (fst st) \<inter> te_id ` set es = {}"
    using Cons.prems(3,5) by (simp_all add: Int_insert_right split: if_splits)
  then have "sg_edge ` set (fst st1) \<inter> te_id ` set es = {}" by (rule disjoint [OF conjunct2 [OF 2]])
  with Cons.IH [OF 1(2)] Cons.prems(2,3) 2 show ?case by simp
qed simp

lemma storageBanks_None:
  "storageBanks t ss = None \<longleftrightarrow> (\<forall>s \<in> set ss. storageBank t s = None)"
  by (induction ss) (auto split: option.splits)

lemma storage_analyze_cases:
  assumes "stages_verify g t sm = Inr []" and "u32_fields g (sm_modulo sm)"
  shows "\<exists>r segs. storage_analyze g t sm = Inr r \<and> segments_cover segs (all_demands g sm) \<and> merged segs \<and>
    (if \<forall>s \<in> set segs. storageBank t s = None
     then srr_status r = SRS_Success \<and> srr_requirements r = Some \<lparr>sr_ii = mm_ii (sm_modulo sm), sr_segments = segs\<rparr>
     else srr_status r = SRS_TargetRFContractError \<and> srr_requirements r = None)"
proof -
  note s = staged_times [OF assms]
  from storageEdges_cover [OF assms] obtain st where
    st: "storageEdges g sm = Inr st" "segments_cover (fst st) (all_demands g sm)" by blast
  have "merged (fst st)"
  proof (rule storageEdges_merged [OF st(1) [unfolded storageEdges_def], of g t])
    show "\<forall>e \<in> set (sort_key te_id (td_edges g)). realised_ok g t (sm_modulo sm) e"
      using mapping_verify_valid [OF s(2)] by (simp add: valid_mapping_def)
    show "distinct (map te_id (sort_key te_id (td_edges g)))"
      using tdfg_verify_ids(2) [OF s(1)] by (simp add: distinct_map)
  qed simp_all
  show ?thesis
  proof (cases "storageBanks t (fst st)")
    case None
    then have "\<forall>s \<in> set (fst st). storageBank t s = None" by (simp add: storageBanks_None)
    with None s(1,3) st \<open>merged (fst st)\<close> assms(1) show ?thesis
      by (intro exI [of _ "\<lparr>srr_status = SRS_Success,
            srr_requirements = Some \<lparr>sr_ii = mm_ii (sm_modulo sm), sr_segments = fst st\<rparr>,
            srr_stats = storageStats st, srr_diagnostics = []\<rparr>"] exI [of _ "fst st"])
         (simp add: storage_analyze_def)
  next
    case (Some d)
    then have "\<not> (\<forall>s \<in> set (fst st). storageBank t s = None)" using storageBanks_None [of t "fst st"] by simp
    with Some s(1,3) st \<open>merged (fst st)\<close> assms(1) show ?thesis
      by (intro exI [of _ "storage_failure SRS_TargetRFContractError d (snd st)"] exI [of _ "fst st"])
         (auto simp: storage_analyze_def storage_failure_def)
  qed
qed

text \<open>C15: On every staged mapping the verifier accepts, the storage analysis returns normally with
  segments that cover exactly the storage demands of the transports: each virtual hold and each slack
  between arrival and use belongs to exactly one segment, at its tile and in its register bank, the
  demands of one segment follow each other without a gap, and the merging is maximal: no segment
  continues the one before it, so that a value keeps its register as long as it stays on a tile.  The
  only possible failure is a target
  whose register banks cannot serve some segment.\<close>

theorem storage_covers_demands:
  assumes "stages_verify g t sm = Inr []" and "u32_fields g (sm_modulo sm)"
  shows "\<exists>r segs. storage_analyze g t sm = Inr r \<and> segments_cover segs (all_demands g sm) \<and> merged segs \<and>
    (if \<forall>s \<in> set segs. storageBank t s = None
     then srr_status r = SRS_Success \<and> srr_requirements r = Some \<lparr>sr_ii = mm_ii (sm_modulo sm), sr_segments = segs\<rparr>
     else srr_status r = SRS_TargetRFContractError \<and> srr_requirements r = None)"
  using assms by (rule storage_analyze_cases)

lemma demo_staged_accepted: "stages_verify demo_tdfg demo_target demo_staged = Inr []"
  by code_simp

lemma demo_staged_fields: "u32_fields demo_tdfg (sm_modulo demo_staged)"
  by code_simp

theorem storage_covers_demands_witness:
  "\<exists>r segs. storage_analyze demo_tdfg demo_target demo_staged = Inr r \<and>
    segments_cover segs (all_demands demo_tdfg demo_staged) \<and> merged segs \<and> length (all_demands demo_tdfg demo_staged) = 2"
proof -
  have "length (all_demands demo_tdfg demo_staged) = 2" by code_simp
  with storage_covers_demands [OF demo_staged_accepted demo_staged_fields] show ?thesis by blast
qed

end
