(* ===== verification/RegAlloc_Model.thy ===== *)
theory RegAlloc_Model
  imports RegAlloc_Storage_Sound
begin

text \<open>
  Register allocations and their verifier (\<open>RegisterAllocation/RFAllocatedMapping.h\<close> and \<open>.cpp\<close>,
  \<open>RegisterAllocation/RFAllocationVerifier.h\<close> and \<open>.cpp\<close>).  Counters per modulo slot are functions
  that start at zero.  A pointer to a bank that earlier checks have shown to exist is dereferenced
  by raising \<open>Logic_Error\<close> otherwise.
\<close>

section \<open>Allocated mappings\<close>

record PhysicalRegister =
  pr_tile :: TileCoord
  pr_bank :: string
  pr_index :: nat

record StorageAllocation =
  sa_segment :: StorageSegmentId
  sa_reg :: PhysicalRegister
  sa_readPort :: nat
  sa_writePort :: nat
  sa_boundaryWritePort :: "nat option"

record RFAllocatedMapping =
  ra_staged :: StagedMapping
  ra_requirements :: StorageRequirements
  ra_allocations :: "StorageAllocation list"

fun adjacent_segments :: "StorageAllocation list \<Rightarrow> bool" where
  "adjacent_segments (x # y # zs) = (sa_segment x = sa_segment y \<or> adjacent_segments (y # zs))"
| "adjacent_segments _ = False"

definition mk_RFAllocatedMapping ::
  "StagedMapping \<Rightarrow> StorageRequirements \<Rightarrow> StorageAllocation list \<Rightarrow> RFAllocatedMapping result" where
  "mk_RFAllocatedMapping staged requirements allocations =
     (let ordered = sort_key sa_segment allocations in
      if adjacent_segments ordered then Inl Invalid_Argument
      else Inr \<lparr>ra_staged = staged, ra_requirements = requirements, ra_allocations = ordered\<rparr>)"

definition allocationFor :: "RFAllocatedMapping \<Rightarrow> StorageSegmentId \<Rightarrow> StorageAllocation result" where
  "allocationFor m i =
     (case dropWhile (\<lambda>a. sa_segment a < i) (ra_allocations m) of
        [] \<Rightarrow> Inl Out_Of_Range
      | a # _ \<Rightarrow> if sa_segment a \<noteq> i then Inl Out_Of_Range else Inr a)"

definition registerFor :: "RFAllocatedMapping \<Rightarrow> StorageSegmentId \<Rightarrow> PhysicalRegister result" where
  "registerFor m i = bindR (allocationFor m i) (\<lambda>a. Inr (sa_reg a))"

definition registerForVirtualHold ::
  "RFAllocatedMapping \<Rightarrow> TargetEdgeId \<Rightarrow> nat \<Rightarrow> PhysicalRegister option result" where
  "registerForVirtualHold m edge actionIndex =
     (case find (\<lambda>s. \<exists>o' \<in> set (sg_origins s). so_kind o' = ExplicitVirtualHold \<and> so_edge o' = edge \<and>
                   so_transportActionIndex o' = Some actionIndex) (sr_segments (ra_requirements m)) of
        None \<Rightarrow> Inr None
      | Some s \<Rightarrow> bindR (registerFor m (sg_id s)) (\<lambda>r. Inr (Some r)))"

definition registerForTerminalSlack :: "RFAllocatedMapping \<Rightarrow> TargetEdgeId \<Rightarrow> PhysicalRegister option result" where
  "registerForTerminalSlack m edge =
     (case find (\<lambda>s. \<exists>o' \<in> set (sg_origins s). so_kind o' = TerminalSlack \<and> so_edge o' = edge)
             (sr_segments (ra_requirements m)) of
        None \<Rightarrow> Inr None
      | Some s \<Rightarrow> bindR (registerFor m (sg_id s)) (\<lambda>r. Inr (Some r)))"

section \<open>Sources of register writes\<close>

definition incomingSource :: "Direction \<Rightarrow> RegisterBankDomain \<Rightarrow> string" where
  "incomingSource direction domain =
     (case opposite direction of North \<Rightarrow> ''NORTH'' | South \<Rightarrow> ''SOUTH'' | East \<Rightarrow> ''EAST'' | West \<Rightarrow> ''WEST'') @
     (if domain = Bank_Data then ''_DATA_IN'' else ''_PRED_IN'')"

fun resultSource :: "TargetResultSource \<Rightarrow> string" where
  "resultSource FuDataResult = ''FU_DATA_RESULT''"
| "resultSource FuPredicateResult = ''FU_PRED_RESULT''"
| "resultSource LsuLoadData = ''LSU_LOAD_DATA''"
| "resultSource Source_None = ''''"

fun first_hold :: "StorageOrigin list \<Rightarrow> nat option" where
  "first_hold [] = None"
| "first_hold (o' # os) =
     (case so_transportActionIndex o' of
        Some k \<Rightarrow> if so_kind o' = ExplicitVirtualHold then Some k else first_hold os
      | None \<Rightarrow> first_hold os)"

definition storageWriteSource ::
  "TargetDFG \<Rightarrow> TargetModel \<Rightarrow> StagedMapping \<Rightarrow> StorageSegment \<Rightarrow> string result" where
  "storageWriteSource g t sm s =
     bindR (tdfg_edge g (sg_edge s)) (\<lambda>edge.
     bindR (mm_dependence (sm_modulo sm) (te_id edge)) (\<lambda>dep.
       case md_transport dep of
         None \<Rightarrow> Inr ''''
       | Some transport \<Rightarrow>
           let produced = bindR (tdfg_node g (te_src edge)) (\<lambda>n.
                 bindR (operation t (tn_operation n)) (\<lambda>d. Inr (resultSource (op_resultSource d))))
           in case first_hold (sg_origins s) of
                Some index \<Rightarrow>
                  if index > 0 then
                    bindR (vec_at (tp_actions transport) (index - 1)) (\<lambda>a.
                      case a of
                        Action_Link l \<Rightarrow> Inr (incomingSource (ls_direction l) (sg_domain s))
                      | Action_Hold _ \<Rightarrow> produced)
                  else produced
              | None \<Rightarrow>
                  (case rev (tp_actions transport) of
                     Action_Link l # _ \<Rightarrow> Inr (incomingSource (ls_direction l) (sg_domain s))
                   | _ \<Rightarrow> Inr '''')))"

definition boundaryWriteSource :: "TargetDFG \<Rightarrow> StorageSegment \<Rightarrow> string result" where
  "boundaryWriteSource g s =
     bindR (tdfg_edge g (sg_edge s)) (\<lambda>edge.
       if te_distance edge = 0 then Inr ''''
       else case te_info edge of
         MemoryEdgeInfo _ \<Rightarrow> Inl Bad_Variant_Access
       | _ \<Rightarrow>
           (case info_boundary (te_info edge) of
              Some (v # _) \<Rightarrow>
                (case bv_value v of
                   ExternalValueRef _ \<Rightarrow> Inr ''''
                 | ConstantRef c \<Rightarrow>
                     if te_kind edge = Kind_Data then Inr ''CONST_DATA''
                     else (case find_by c_id c (td_constants g) of
                             None \<Rightarrow> Inr ''''
                           | Some k \<Rightarrow> Inr (if c_bits k \<noteq> 0 then ''CONST_TRUE'' else ''CONST_FALSE'')))
            | _ \<Rightarrow> Inr ''''))"

section \<open>The verifier\<close>

datatype RFAllocationVerificationCode =
    RFV_INVALID_TARGET_DFG | RFV_INVALID_STAGED_MAPPING | RFV_UNKNOWN_STORAGE_SEGMENT
  | RFV_DUPLICATE_STORAGE_ALLOCATION | RFV_UNALLOCATED_STORAGE_SEGMENT | RFV_INVALID_REGISTER_INDEX
  | RFV_BANK_DOMAIN_MISMATCH | RFV_FIXED_REGISTER_SELF_OVERLAP | RFV_READ_PORT_CONFLICT
  | RFV_WRITE_PORT_CONFLICT | RFV_SAME_ADDRESS_RW_CONFLICT | RFV_PERIODIC_REGISTER_CONFLICT
  | RFV_STORAGE_TIMING_INVALID

datatype RFAllocationVerificationDiagnostic =
  RVDiag RFAllocationVerificationCode "StorageSegmentId option" "StorageSegmentId option"

definition verifyAllocation ::
  "StorageSegment list \<Rightarrow> StorageAllocation list \<times> RFAllocationVerificationDiagnostic list \<Rightarrow> StorageAllocation \<Rightarrow>
   StorageAllocation list \<times> RFAllocationVerificationDiagnostic list" where
  "verifyAllocation segments st a =
     (if \<forall>s \<in> set segments. sg_id s \<noteq> sa_segment a
      then (fst st, snd st @ [RVDiag RFV_UNKNOWN_STORAGE_SEGMENT (Some (sa_segment a)) None])
      else if find_by sa_segment (sa_segment a) (fst st) \<noteq> None
      then (fst st, snd st @ [RVDiag RFV_DUPLICATE_STORAGE_ALLOCATION (Some (sa_segment a)) None])
      else (fst st @ [a], snd st))"

definition verifyCovered ::
  "StorageSegment list \<Rightarrow> StorageAllocation list \<Rightarrow> RFAllocationVerificationDiagnostic list" where
  "verifyCovered segments allocations =
     concat (map (\<lambda>s. report_if (find_by sa_segment (sg_id s) allocations = None)
       (RVDiag RFV_UNALLOCATED_STORAGE_SEGMENT (Some (sg_id s)) None)) segments)"

definition alloc_at :: "StorageAllocation list \<Rightarrow> StorageSegmentId \<Rightarrow> StorageAllocation result" where
  "alloc_at allocations i =
     (case find_by sa_segment i allocations of None \<Rightarrow> Inl Out_Of_Range | Some a \<Rightarrow> Inr a)"

definition segmentBank :: "TargetModel \<Rightarrow> StorageSegment \<Rightarrow> RegisterFileDesc option" where
  "segmentBank t s = registerBank t (sg_domain s) (tile_row (sg_tile s)) (tile_col (sg_tile s))"

definition verifyRegister ::
  "TargetModel \<Rightarrow> nat \<Rightarrow> StorageAllocation list \<Rightarrow> RFAllocationVerificationDiagnostic list \<Rightarrow> StorageSegment \<Rightarrow>
   RFAllocationVerificationDiagnostic list result" where
  "verifyRegister t ii allocations ds s =
     bindR (alloc_at allocations (sg_id s)) (\<lambda>a.
       let diag = (\<lambda>c. RVDiag c (Some (sg_id s)) None) in
       case segmentBank t s of
         None \<Rightarrow> Inr (ds @ [diag RFV_BANK_DOMAIN_MISMATCH])
       | Some bank \<Rightarrow> Inr (ds @
           report_if (pr_tile (sa_reg a) \<noteq> sg_tile s \<or> pr_bank (sa_reg a) \<noteq> rf_id bank \<or> rf_domain bank \<noteq> sg_domain s)
             (diag RFV_BANK_DOMAIN_MISMATCH) @
           report_if (\<not> allocates bank (pr_index (sa_reg a))) (diag RFV_INVALID_REGISTER_INDEX) @
           report_if (fixedRegisterSelfOverlaps s ii (rf_sameAddressReadWritePolicy bank))
             (diag RFV_FIXED_REGISTER_SELF_OVERLAP)))"

text \<open>The counters and port assignments of a bank of a tile in one modulo slot.\<close>

type_synonym PortKey = "TileCoord \<times> string \<times> nat"

record PortState =
  ps_reads :: "PortKey \<Rightarrow> nat"
  ps_writes :: "PortKey \<Rightarrow> nat"
  ps_readAssignments :: "PortKey \<Rightarrow> nat set"
  ps_writeAssignments :: "PortKey \<Rightarrow> nat set"

definition empty_ports :: PortState where
  "empty_ports = \<lparr>ps_reads = (\<lambda>_. 0), ps_writes = (\<lambda>_. 0), ps_readAssignments = (\<lambda>_. {}), ps_writeAssignments = (\<lambda>_. {})\<rparr>"

definition portAccepts :: "RegisterFileDesc \<Rightarrow> nat \<Rightarrow> string \<Rightarrow> bool" where
  "portAccepts bank port source =
     (case rf_writePortSources bank (''W'' @ to_string port) of None \<Rightarrow> False | Some sources \<Rightarrow> source \<in> set sources)"

definition countAccess :: "nat \<Rightarrow> StorageAllocation \<Rightarrow> StorageSegment \<Rightarrow> PortState \<Rightarrow> PortState" where
  "countAccess ii a s ps =
     (let write = (sg_tile s, pr_bank (sa_reg a), sg_writeTime s mod ii);
          read = (sg_tile s, pr_bank (sa_reg a), sg_readTime s mod ii)
      in ps\<lparr>ps_writes := (ps_writes ps)(write := ps_writes ps write + 1),
            ps_reads := (ps_reads ps)(read := ps_reads ps read + 1)\<rparr>)"

definition assignPort :: "PortKey \<Rightarrow> nat \<Rightarrow> nat \<Rightarrow> (PortKey \<Rightarrow> nat set) \<Rightarrow> bool \<times> (PortKey \<Rightarrow> nat set)" where
  "assignPort key port capacity m =
     (if port \<ge> capacity then (False, m) else (port \<notin> m key, m(key := insert port (m key))))"

definition verifyBoundaryPort ::
  "RegisterFileDesc \<Rightarrow> StorageAllocation \<Rightarrow> string \<Rightarrow> RFAllocationVerificationDiagnostic \<Rightarrow>
   RFAllocationVerificationDiagnostic list" where
  "verifyBoundaryPort bank a source d =
     (if source \<noteq> '''' then
        (case sa_boundaryWritePort a of
           None \<Rightarrow> [d]
         | Some port \<Rightarrow> report_if (port \<ge> rf_writePorts bank \<or> \<not> portAccepts bank port source) d)
      else report_if (sa_boundaryWritePort a \<noteq> None) d)"

definition verifyPorts ::
  "TargetDFG \<Rightarrow> TargetModel \<Rightarrow> StagedMapping \<Rightarrow> nat \<Rightarrow> StorageAllocation list \<Rightarrow>
   PortState \<times> RFAllocationVerificationDiagnostic list \<Rightarrow> StorageSegment \<Rightarrow>
   (PortState \<times> RFAllocationVerificationDiagnostic list) result" where
  "verifyPorts g t sm ii allocations st s =
     bindR (alloc_at allocations (sg_id s)) (\<lambda>a.
       case segmentBank t s of
         None \<Rightarrow> Inl Logic_Error
       | Some bank \<Rightarrow>
           let write = (sg_tile s, pr_bank (sa_reg a), sg_writeTime s mod ii);
               read = (sg_tile s, pr_bank (sa_reg a), sg_readTime s mod ii);
               ps = countAccess ii a s (fst st);
               r = assignPort read (sa_readPort a) (rf_readPorts bank) (ps_readAssignments ps);
               w = assignPort write (sa_writePort a) (rf_writePorts bank) (ps_writeAssignments ps);
               ps' = ps\<lparr>ps_readAssignments := snd r, ps_writeAssignments := snd w\<rparr>;
               wdiag = RVDiag RFV_WRITE_PORT_CONFLICT (Some (sg_id s)) None;
               rdiag = RVDiag RFV_READ_PORT_CONFLICT (Some (sg_id s)) None
           in bindR (storageWriteSource g t sm s) (\<lambda>source.
              bindR (boundaryWriteSource g s) (\<lambda>boundarySource.
                Inr (ps', snd st @
                  report_if (ps_writes ps write > rf_writePorts bank) wdiag @
                  report_if (ps_reads ps read > rf_readPorts bank) rdiag @
                  report_if (\<not> fst r) rdiag @
                  report_if (\<not> fst w) wdiag @
                  report_if (\<not> portAccepts bank (sa_writePort a) source) wdiag @
                  verifyBoundaryPort bank a boundarySource wdiag))))"

text \<open>The accesses of every physical register in one modulo slot.  The diagnostics carry no segment, so
  the order of the keys does not matter.\<close>

type_synonym RegisterEventKey = "TileCoord \<times> string \<times> nat \<times> nat"

definition registerEvent :: "StorageAllocation list \<Rightarrow> StorageSegment \<Rightarrow> nat \<Rightarrow> RegisterEventKey result" where
  "registerEvent allocations s slot =
     bindR (alloc_at allocations (sg_id s)) (\<lambda>a.
       Inr (pr_tile (sa_reg a), pr_bank (sa_reg a), pr_index (sa_reg a), slot))"

definition registerEventStep ::
  "nat \<Rightarrow> StorageAllocation list \<Rightarrow> RegisterEventKey list \<times> RegisterEventKey list \<Rightarrow> StorageSegment \<Rightarrow>
   (RegisterEventKey list \<times> RegisterEventKey list) result" where
  "registerEventStep ii allocations st s =
     bindR (registerEvent allocations s (sg_writeTime s mod ii)) (\<lambda>w.
     bindR (registerEvent allocations s (sg_readTime s mod ii)) (\<lambda>r.
       Inr (fst st @ [w], snd st @ [r])))"

definition eventBank :: "TargetModel \<Rightarrow> RegisterEventKey \<Rightarrow> RegisterFileDesc option" where
  "eventBank t key =
     (case key of (tile, bank, _, _) \<Rightarrow>
        registerBank t (if bank = rf_id (tm_predicateRF t) then Bank_Predicate else Bank_Data)
          (tile_row tile) (tile_col tile))"

definition verifyRegisterEvent ::
  "TargetModel \<Rightarrow> RegisterEventKey list \<times> RegisterEventKey list \<Rightarrow> RegisterEventKey \<Rightarrow>
   RFAllocationVerificationDiagnostic list" where
  "verifyRegisterEvent t events key =
     (let writes = count_list (fst events) key;
          reads = count_list (snd events) key;
          d = RVDiag RFV_SAME_ADDRESS_RW_CONFLICT None None
      in report_if (writes > 1) d @
         report_if (reads \<noteq> 0 \<and> writes \<noteq> 0 \<and>
           (case eventBank t key of
              None \<Rightarrow> False
            | Some bank \<Rightarrow> rf_sameAddressReadWritePolicy bank \<noteq> ReadOldThenWriteNew)) d)"

definition verifyPair ::
  "TargetModel \<Rightarrow> nat \<Rightarrow> StorageAllocation list \<Rightarrow> StorageSegment \<Rightarrow> RFAllocationVerificationDiagnostic list \<Rightarrow>
   StorageSegment \<Rightarrow> RFAllocationVerificationDiagnostic list result" where
  "verifyPair t ii allocations lhs ds rhs =
     bindR (alloc_at allocations (sg_id lhs)) (\<lambda>a.
     bindR (alloc_at allocations (sg_id rhs)) (\<lambda>b.
       if sa_reg a \<noteq> sa_reg b then Inr ds
       else case segmentBank t lhs of
         None \<Rightarrow> Inl Logic_Error
       | Some bank \<Rightarrow> Inr (ds @
           report_if (periodicLifetimesConflict lhs rhs ii (rf_sameAddressReadWritePolicy bank))
             (RVDiag RFV_PERIODIC_REGISTER_CONFLICT (Some (sg_id lhs)) (Some (sg_id rhs))))))"

fun verifyPairs ::
  "TargetModel \<Rightarrow> nat \<Rightarrow> StorageAllocation list \<Rightarrow> RFAllocationVerificationDiagnostic list \<Rightarrow> StorageSegment list \<Rightarrow>
   RFAllocationVerificationDiagnostic list result" where
  "verifyPairs t ii allocations ds [] = Inr ds"
| "verifyPairs t ii allocations ds (lhs # rest) =
     bindR (alloc_at allocations (sg_id lhs)) (\<lambda>_.
     bindR (foldR (verifyPair t ii allocations lhs) ds rest) (\<lambda>ds'. verifyPairs t ii allocations ds' rest))"

definition verifyAccesses ::
  "TargetDFG \<Rightarrow> TargetModel \<Rightarrow> StagedMapping \<Rightarrow> nat \<Rightarrow> StorageAllocation list \<Rightarrow> StorageSegment list \<Rightarrow>
   RFAllocationVerificationDiagnostic list result" where
  "verifyAccesses g t sm ii allocations segments =
     bindR (foldR (verifyPorts g t sm ii allocations) (empty_ports, []) segments) (\<lambda>(_, ds1).
     bindR (foldR (registerEventStep ii allocations) ([], []) segments) (\<lambda>events.
       verifyPairs t ii allocations
         (ds1 @ concat (map (verifyRegisterEvent t events) (remdups (fst events @ snd events)))) segments))"

definition rfv_verify ::
  "TargetDFG \<Rightarrow> TargetModel \<Rightarrow> RFAllocatedMapping \<Rightarrow> RFAllocationVerificationDiagnostic list result" where
  "rfv_verify g t m =
     (let only = (\<lambda>c. Inr [RVDiag c None None]);
          segments = sr_segments (ra_requirements m)
      in bindR (tdfg_verify g t None) (\<lambda>targetReport.
         if targetReport \<noteq> [] then only RFV_INVALID_TARGET_DFG
         else bindR (stages_verify g t (ra_staged m)) (\<lambda>stageReport.
         if stageReport \<noteq> [] then only RFV_INVALID_STAGED_MAPPING
         else bindR (storage_analyze g t (ra_staged m)) (\<lambda>requirementsResult.
         if \<not> srr_ok requirementsResult then only RFV_STORAGE_TIMING_INVALID
         else if srr_requirements requirementsResult \<noteq> Some (ra_requirements m) then only RFV_STORAGE_TIMING_INVALID
         else
           let (allocations, ds) = foldl (verifyAllocation segments) ([], []) (ra_allocations m);
               ds' = ds @ verifyCovered segments allocations;
               ii = sr_ii (ra_requirements m)
           in if ds' \<noteq> [] then Inr ds'
              else bindR (foldR (verifyRegister t ii allocations) [] segments) (\<lambda>ds2.
                if ds2 \<noteq> [] then Inr ds2
                else verifyAccesses g t (ra_staged m) ii allocations segments)))))"

end
