(* ===== verification/RegAlloc_Sound.thy ===== *)
theory RegAlloc_Sound
  imports RegAlloc_Model
begin

text \<open>
  What an accepted register allocation guarantees for the running pipeline: no stored value is
  overwritten before it is read, in any iteration, and no port is used twice in one cycle.
\<close>

section \<open>The specification\<close>

definition alloc_of :: "RFAllocatedMapping \<Rightarrow> StorageSegment \<Rightarrow> StorageAllocation" where
  "alloc_of m s = the (find_by sa_segment (sg_id s) (ra_allocations m))"

text \<open>A segment has a register of the bank of its tile, and ports that exist and accept its sources.\<close>

definition allocated_ok :: "TargetDFG \<Rightarrow> TargetModel \<Rightarrow> RFAllocatedMapping \<Rightarrow> StorageSegment \<Rightarrow> bool" where
  "allocated_ok g t m s \<longleftrightarrow>
     find_by sa_segment (sg_id s) (ra_allocations m) = Some (alloc_of m s) \<and>
     (\<exists>bank source boundarySource.
        segmentBank t s = Some bank \<and> rf_domain bank = sg_domain s \<and>
        pr_tile (sa_reg (alloc_of m s)) = sg_tile s \<and> pr_bank (sa_reg (alloc_of m s)) = rf_id bank \<and>
        pr_index (sa_reg (alloc_of m s)) \<in> set (rf_allocatableIndices bank) \<and>
        sa_readPort (alloc_of m s) < rf_readPorts bank \<and> sa_writePort (alloc_of m s) < rf_writePorts bank \<and>
        storageWriteSource g t (ra_staged m) s = Inr source \<and> portAccepts bank (sa_writePort (alloc_of m s)) source \<and>
        boundaryWriteSource g s = Inr boundarySource \<and>
        (case sa_boundaryWritePort (alloc_of m s) of
           None \<Rightarrow> boundarySource = ''''
         | Some port \<Rightarrow> boundarySource \<noteq> '''' \<and> port < rf_writePorts bank \<and> portAccepts bank port boundarySource))"

text \<open>The value written by instance \<open>i\<close> of segment \<open>a\<close> is still there when it is read: an instance of
  a segment in the same register writes earlier, or after the read, or in the cycle of the read when
  the register file reads the old value first.\<close>

definition survives :: "nat \<Rightarrow> SameAddressReadWritePolicy \<Rightarrow> StorageSegment \<Rightarrow> nat \<Rightarrow> StorageSegment \<Rightarrow> nat \<Rightarrow> bool" where
  "survives ii policy a i b j \<longleftrightarrow>
     sg_writeTime b + j * ii < sg_writeTime a + i * ii \<or>
     sg_readTime a + i * ii < sg_writeTime b + j * ii \<or>
     (sg_readTime a + i * ii = sg_writeTime b + j * ii \<and> policy = ReadOldThenWriteNew)"

definition same_register :: "RFAllocatedMapping \<Rightarrow> StorageSegment \<Rightarrow> StorageSegment \<Rightarrow> bool" where
  "same_register m a b \<longleftrightarrow> sa_reg (alloc_of m a) = sa_reg (alloc_of m b) \<and> sg_domain a = sg_domain b"

definition valid_allocation :: "TargetDFG \<Rightarrow> TargetModel \<Rightarrow> RFAllocatedMapping \<Rightarrow> bool" where
  "valid_allocation g t m \<longleftrightarrow>
     (let segs = sr_segments (ra_requirements m); ii = sr_ii (ra_requirements m) in
      (\<forall>s \<in> set segs. allocated_ok g t m s) \<and>
      (\<forall>k < length segs. \<forall>l < length segs. \<forall>i j bank. (k, i) \<noteq> (l, j) \<longrightarrow>
         same_register m (segs ! k) (segs ! l) \<longrightarrow> segmentBank t (segs ! k) = Some bank \<longrightarrow>
         survives ii (rf_sameAddressReadWritePolicy bank) (segs ! k) i (segs ! l) j) \<and>
      (\<forall>k < length segs. \<forall>l < length segs. \<forall>i j. k \<noteq> l \<longrightarrow> sg_tile (segs ! k) = sg_tile (segs ! l) \<longrightarrow>
         pr_bank (sa_reg (alloc_of m (segs ! k))) = pr_bank (sa_reg (alloc_of m (segs ! l))) \<longrightarrow>
         (sg_readTime (segs ! k) + i * ii = sg_readTime (segs ! l) + j * ii \<longrightarrow>
            sa_readPort (alloc_of m (segs ! k)) \<noteq> sa_readPort (alloc_of m (segs ! l))) \<and>
         (sg_writeTime (segs ! k) + i * ii = sg_writeTime (segs ! l) + j * ii \<longrightarrow>
            sa_writePort (alloc_of m (segs ! k)) \<noteq> sa_writePort (alloc_of m (segs ! l)))))"

section \<open>The phases of the verifier\<close>

lemma foldl_verifyAllocation:
  assumes "foldl (verifyAllocation segs) (as, ds) xs = (ys, [])"
  shows "ds = [] \<and> ys = as @ xs"
  using assms
proof (induction xs arbitrary: as ds)
  case (Cons x xs)
  obtain as1 ds1 where 1: "verifyAllocation segs (as, ds) x = (as1, ds1)" by (cases "verifyAllocation segs (as, ds) x")
  with Cons have "ds1 = [] \<and> ys = as1 @ xs" by simp
  with 1 show ?case by (auto simp: verifyAllocation_def split: if_splits)
qed simp

lemma alloc_at_eq: "alloc_at (ra_allocations m) (sg_id s) = Inr a \<longleftrightarrow>
    find_by sa_segment (sg_id s) (ra_allocations m) = Some (alloc_of m s) \<and> a = alloc_of m s"
  by (auto simp: alloc_at_def alloc_of_def split: option.splits)

lemma rfv_phases:
  assumes "rfv_verify g t m = Inr []"
  shows "stages_verify g t (ra_staged m) = Inr []"
    and "\<exists>r. storage_analyze g t (ra_staged m) = Inr r \<and> srr_ok r \<and> srr_requirements r = Some (ra_requirements m)"
    and "foldR (verifyRegister t (sr_ii (ra_requirements m)) (ra_allocations m)) [] (sr_segments (ra_requirements m)) = Inr []"
    and "verifyAccesses g t (ra_staged m) (sr_ii (ra_requirements m)) (ra_allocations m)
           (sr_segments (ra_requirements m)) = Inr []"
proof -
  let ?segs = "sr_segments (ra_requirements m)"
  obtain as ds where f: "foldl (verifyAllocation ?segs) ([], []) (ra_allocations m) = (as, ds)"
    by (cases "foldl (verifyAllocation ?segs) ([], []) (ra_allocations m)")
  from assms have "ds = []"
    by (auto simp: rfv_verify_def Let_def bindR_eq_Inr f split: if_splits)
  with f foldl_verifyAllocation [of ?segs "[]" "[]" "ra_allocations m" as] have "as = ra_allocations m" by simp
  with assms f show "stages_verify g t (ra_staged m) = Inr []"
    and "\<exists>r. storage_analyze g t (ra_staged m) = Inr r \<and> srr_ok r \<and> srr_requirements r = Some (ra_requirements m)"
    and "foldR (verifyRegister t (sr_ii (ra_requirements m)) (ra_allocations m)) [] ?segs = Inr []"
    and "verifyAccesses g t (ra_staged m) (sr_ii (ra_requirements m)) (ra_allocations m) ?segs = Inr []"
    by (auto simp: rfv_verify_def Let_def bindR_eq_Inr split: if_splits)
qed

lemma verifyRegister_grows: "verifyRegister t ii as ds s = Inr ds' \<Longrightarrow> \<exists>y. ds' = ds @ y"
  by (auto simp: verifyRegister_def Let_def bindR_eq_Inr split: option.splits)

lemma verifyRegister_silent:
  assumes "verifyRegister t ii (ra_allocations m) [] s = Inr []"
  shows "find_by sa_segment (sg_id s) (ra_allocations m) = Some (alloc_of m s) \<and>
    (\<exists>bank. segmentBank t s = Some bank \<and> rf_domain bank = sg_domain s \<and>
        pr_tile (sa_reg (alloc_of m s)) = sg_tile s \<and> pr_bank (sa_reg (alloc_of m s)) = rf_id bank \<and>
        pr_index (sa_reg (alloc_of m s)) \<in> set (rf_allocatableIndices bank) \<and>
        \<not> fixedRegisterSelfOverlaps s ii (rf_sameAddressReadWritePolicy bank))"
  using assms by (auto simp: verifyRegister_def Let_def bindR_eq_Inr alloc_at_eq allocates_def split: option.splits)

text \<open>Ports: what the assignments hold after the segments seen so far.\<close>

definition read_use :: "RFAllocatedMapping \<Rightarrow> nat \<Rightarrow> StorageSegment \<Rightarrow> PortKey \<times> nat" where
  "read_use m ii s = ((sg_tile s, pr_bank (sa_reg (alloc_of m s)), sg_readTime s mod ii), sa_readPort (alloc_of m s))"

definition write_use :: "RFAllocatedMapping \<Rightarrow> nat \<Rightarrow> StorageSegment \<Rightarrow> PortKey \<times> nat" where
  "write_use m ii s = ((sg_tile s, pr_bank (sa_reg (alloc_of m s)), sg_writeTime s mod ii), sa_writePort (alloc_of m s))"

definition ports_seen :: "RFAllocatedMapping \<Rightarrow> nat \<Rightarrow> PortState \<Rightarrow> StorageSegment list \<Rightarrow> bool" where
  "ports_seen m ii ps pre \<longleftrightarrow>
     distinct (map (read_use m ii) pre) \<and> distinct (map (write_use m ii) pre) \<and>
     (\<forall>k p. p \<in> ps_readAssignments ps k \<longleftrightarrow> (k, p) \<in> read_use m ii ` set pre) \<and>
     (\<forall>k p. p \<in> ps_writeAssignments ps k \<longleftrightarrow> (k, p) \<in> write_use m ii ` set pre)"

definition ports_ok :: "TargetDFG \<Rightarrow> TargetModel \<Rightarrow> RFAllocatedMapping \<Rightarrow> StorageSegment \<Rightarrow> bool" where
  "ports_ok g t m s \<longleftrightarrow>
     (\<exists>bank source boundarySource. segmentBank t s = Some bank \<and>
        sa_readPort (alloc_of m s) < rf_readPorts bank \<and> sa_writePort (alloc_of m s) < rf_writePorts bank \<and>
        storageWriteSource g t (ra_staged m) s = Inr source \<and> portAccepts bank (sa_writePort (alloc_of m s)) source \<and>
        boundaryWriteSource g s = Inr boundarySource \<and>
        (case sa_boundaryWritePort (alloc_of m s) of
           None \<Rightarrow> boundarySource = ''''
         | Some port \<Rightarrow> boundarySource \<noteq> '''' \<and> port < rf_writePorts bank \<and> portAccepts bank port boundarySource))"

lemma verifyBoundaryPort_silent:
  "verifyBoundaryPort bank a source d = [] \<longleftrightarrow>
   (case sa_boundaryWritePort a of
      None \<Rightarrow> source = ''''
    | Some port \<Rightarrow> source \<noteq> '''' \<and> port < rf_writePorts bank \<and> portAccepts bank port source)"
  by (auto simp: verifyBoundaryPort_def split: option.splits)

lemma assignPort_cases:
  "assignPort key port capacity f = (True, f') \<longleftrightarrow>
   port < capacity \<and> port \<notin> f key \<and> f' = f(key := insert port (f key))"
  by (auto simp: assignPort_def)

lemma verifyPorts_silent:
  assumes "verifyPorts g t (ra_staged m) ii (ra_allocations m) (ps, []) s = Inr (ps', [])"
    and seen: "ports_seen m ii ps pre"
  shows "ports_ok g t m s" and "ports_seen m ii ps' (pre @ [s])"
proof -
  obtain bank source boundary where
    b: "segmentBank t s = Some bank" "storageWriteSource g t (ra_staged m) s = Inr source"
      "boundaryWriteSource g s = Inr boundary"
    and a: "alloc_at (ra_allocations m) (sg_id s) = Inr (alloc_of m s)"
    using assms(1) by (auto simp: verifyPorts_def bindR_eq_Inr alloc_at_eq Let_def split: option.splits)
  let ?r = "assignPort (fst (read_use m ii s)) (snd (read_use m ii s)) (rf_readPorts bank) (ps_readAssignments ps)"
  let ?w = "assignPort (fst (write_use m ii s)) (snd (write_use m ii s)) (rf_writePorts bank) (ps_writeAssignments ps)"
  have x: "fst ?r" "fst ?w" "portAccepts bank (sa_writePort (alloc_of m s)) source"
    "verifyBoundaryPort bank (alloc_of m s) boundary (RVDiag RFV_WRITE_PORT_CONFLICT (Some (sg_id s)) None) = []"
    "ps_readAssignments ps' = snd ?r" "ps_writeAssignments ps' = snd ?w"
    using assms(1) by (auto simp: verifyPorts_def a b Let_def countAccess_def read_use_def write_use_def)
  have r: "?r = (True, snd ?r)" and w: "?w = (True, snd ?w)" using x(1,2) by (metis prod.collapse)+
  note r = r [unfolded assignPort_cases] and w = w [unfolded assignPort_cases]
  show "ports_ok g t m s"
    using r w b x(3,4) by (auto simp: ports_ok_def read_use_def write_use_def verifyBoundaryPort_silent)
  have "read_use m ii s \<notin> read_use m ii ` set pre" "write_use m ii s \<notin> write_use m ii ` set pre"
    using r w seen by (metis ports_seen_def prod.collapse)+
  moreover obtain rk rp wk wp where "read_use m ii s = (rk, rp)" "write_use m ii s = (wk, wp)" by fastforce
  ultimately show "ports_seen m ii ps' (pre @ [s])"
    using seen r w x(5,6) by (auto simp: ports_seen_def)
qed

lemma verifyPorts_grows: "verifyPorts g t sm ii as (ps, ds) s = Inr (ps', ds') \<Longrightarrow> \<exists>y. ds' = ds @ y"
  by (auto simp: verifyPorts_def Let_def bindR_eq_Inr split: option.splits)

lemma verifyPorts_all:
  assumes "foldR (verifyPorts g t (ra_staged m) ii (ra_allocations m)) (empty_ports, []) segs = Inr (ps, [])"
  shows "(\<forall>s \<in> set segs. ports_ok g t m s) \<and> distinct (map (read_use m ii) segs) \<and> distinct (map (write_use m ii) segs)"
proof -
  let ?I = "\<lambda>ps pre. (\<forall>s \<in> set pre. ports_ok g t m s) \<and> ports_seen m ii ps pre"
  have "([] :: RFAllocationVerificationDiagnostic list) = [] \<and> ?I ps ([] @ segs)"
  proof (rule foldR_silent [where I = ?I, OF assms])
    show "?I empty_ports []" by (simp add: ports_seen_def empty_ports_def)
  next
    fix T ds x T' ds'
    assume "verifyPorts g t (ra_staged m) ii (ra_allocations m) (T, ds) x = Inr (T', ds')"
    then show "\<exists>y. ds' = ds @ y" by (rule verifyPorts_grows)
  next
    fix T pre x T'
    assume "?I T pre" "verifyPorts g t (ra_staged m) ii (ra_allocations m) (T, []) x = Inr (T', [])"
    with verifyPorts_silent [of g t m ii T x T' pre] show "?I T' (pre @ [x])" by simp
  qed
  then show ?thesis by (simp add: ports_seen_def)
qed

lemma verifyPair_grows: "verifyPair t ii as lhs ds rhs = Inr ds' \<Longrightarrow> \<exists>y. ds' = ds @ y"
  by (auto simp: verifyPair_def bindR_eq_Inr split: option.splits if_splits)

definition pair_ok :: "TargetModel \<Rightarrow> RFAllocatedMapping \<Rightarrow> nat \<Rightarrow> StorageSegment \<Rightarrow> StorageSegment \<Rightarrow> bool" where
  "pair_ok t m ii a b \<longleftrightarrow>
     (\<forall>bank. sa_reg (alloc_of m a) = sa_reg (alloc_of m b) \<longrightarrow> segmentBank t a = Some bank \<longrightarrow>
        \<not> periodicLifetimesConflict a b ii (rf_sameAddressReadWritePolicy bank))"

lemma verifyPair_silent: "verifyPair t ii (ra_allocations m) a [] b = Inr [] \<Longrightarrow> pair_ok t m ii a b"
  by (auto simp: verifyPair_def pair_ok_def bindR_eq_Inr alloc_at_eq split: option.splits if_splits)

lemma verifyPairs_silent:
  assumes "verifyPairs t ii (ra_allocations m) ds segs = Inr []"
  shows "ds = [] \<and> sorted_wrt (pair_ok t m ii) segs"
  using assms
proof (induction segs arbitrary: ds)
  case (Cons s segs)
  then obtain ds' where d: "foldR (verifyPair t ii (ra_allocations m) s) ds segs = Inr ds'"
    "verifyPairs t ii (ra_allocations m) ds' segs = Inr []" by (auto simp: bindR_eq_Inr)
  from Cons.IH [OF d(2)] have "ds' = []" and so: "sorted_wrt (pair_ok t m ii) segs" by auto
  with d(1) have "ds = [] \<and> (\<forall>x \<in> set segs. verifyPair t ii (ra_allocations m) s [] x = Inr [])"
    by (intro foldR_list_silent) (auto dest: verifyPair_grows)
  with so verifyPair_silent show ?case by auto
qed simp

section \<open>Soundness\<close>

lemma allocated_okI:
  assumes "verifyRegister t ii (ra_allocations m) [] s = Inr []" and "ports_ok g t m s"
  shows "allocated_ok g t m s"
proof -
  from assms(2) obtain bank source boundary where p: "segmentBank t s = Some bank"
    "sa_readPort (alloc_of m s) < rf_readPorts bank" "sa_writePort (alloc_of m s) < rf_writePorts bank"
    "storageWriteSource g t (ra_staged m) s = Inr source" "portAccepts bank (sa_writePort (alloc_of m s)) source"
    "boundaryWriteSource g s = Inr boundary"
    "case sa_boundaryWritePort (alloc_of m s) of None \<Rightarrow> boundary = ''''
     | Some port \<Rightarrow> boundary \<noteq> '''' \<and> port < rf_writePorts bank \<and> portAccepts bank port boundary"
    unfolding ports_ok_def by blast
  show ?thesis
    unfolding allocated_ok_def
    by (intro conjI exI [of _ bank] exI [of _ source] exI [of _ boundary])
       (use p verifyRegister_silent [OF assms(1)] in auto)
qed

lemma instances_clash_sym: "instances_clash ii policy a i b j \<longleftrightarrow> instances_clash ii policy b j a i"
  unfolding instances_clash_iff Let_def by (simp add: max.commute min.commute)

lemma not_self_overlap: "\<not> fixedRegisterSelfOverlaps s ii policy \<Longrightarrow> 0 < ii \<and> sg_writeTime s < sg_readTime s"
  by (auto simp: fixedRegisterSelfOverlaps_def split: if_splits)

lemma survives_if_no_clash:
  assumes "\<not> instances_clash ii policy a i b j" and "sg_writeTime a < sg_readTime a" "sg_writeTime b < sg_readTime b"
  shows "survives ii policy a i b j"
  using no_clash_preserves [OF assms(1,3,2)] by (auto simp: survives_def boundaryReuseAllowed_def)

lemma rfv_verify_valid:
  assumes "rfv_verify g t m = Inr []"
  shows "valid_allocation g t m"
proof -
  let ?segs = "sr_segments (ra_requirements m)" and ?ii = "sr_ii (ra_requirements m)"
  note p = rfv_phases [OF assms]
  from p(4) obtain ps ds1 events where
    ports: "foldR (verifyPorts g t (ra_staged m) ?ii (ra_allocations m)) (empty_ports, []) ?segs = Inr (ps, ds1)"
    and pairs: "verifyPairs t ?ii (ra_allocations m)
      (ds1 @ concat (map (verifyRegisterEvent t events) (remdups (fst events @ snd events)))) ?segs = Inr []"
    by (auto simp: verifyAccesses_def bindR_eq_Inr split: prod.splits)
  from verifyPairs_silent [OF pairs] have ds1: "ds1 = []" and so: "sorted_wrt (pair_ok t m ?ii) ?segs" by auto
  note po = verifyPorts_all [OF ports [unfolded ds1]]
  have reg: "verifyRegister t ?ii (ra_allocations m) [] s = Inr []" if "s \<in> set ?segs" for s
    using foldR_list_silent [OF p(3)] verifyRegister_grows that by blast
  have alloc: "allocated_ok g t m s" if "s \<in> set ?segs" for s
    by (rule allocated_okI [OF reg [OF that]]) (use po that in blast)
  have surv: "survives ?ii (rf_sameAddressReadWritePolicy bank) (?segs ! k) i (?segs ! l) j"
    if kl: "k < length ?segs" "l < length ?segs" "(k, i) \<noteq> (l, j)" and same: "same_register m (?segs ! k) (?segs ! l)"
      and bank: "segmentBank t (?segs ! k) = Some bank" for k l i j bank
  proof -
    let ?a = "?segs ! k" and ?b = "?segs ! l" and ?p = "rf_sameAddressReadWritePolicy bank"
    have a: "?a \<in> set ?segs" and b: "?b \<in> set ?segs" using kl by simp_all
    note ra = verifyRegister_silent [OF reg [OF a]] and rb = verifyRegister_silent [OF reg [OF b]]
    have "sg_tile ?b = sg_tile ?a" using ra rb same by (metis same_register_def)
    with same bank have bank': "segmentBank t ?b = Some bank" by (simp add: segmentBank_def same_register_def)
    have ta: "0 < ?ii" "sg_writeTime ?a < sg_readTime ?a" "\<not> fixedRegisterSelfOverlaps ?a ?ii ?p"
      and tb: "sg_writeTime ?b < sg_readTime ?b"
      using ra rb bank bank' not_self_overlap [of ?a] not_self_overlap [of ?b] by (metis option.inject)+
    have "\<not> instances_clash ?ii ?p ?a i ?b j"
    proof (cases "k = l")
      case True
      with kl self_overlap_decides_clash [OF ta(1,2)] ta(3) show ?thesis by auto
    next
      case False
      have "pair_ok t m ?ii (?segs ! min k l) (?segs ! max k l)"
        using so kl False by (simp add: sorted_wrt_iff_nth_less min_def max_def)
      then have "pair_ok t m ?ii ?a ?b \<or> pair_ok t m ?ii ?b ?a" by (auto simp: min_def max_def split: if_splits)
      with same bank bank' have "\<not> periodicLifetimesConflict ?a ?b ?ii ?p \<or> \<not> periodicLifetimesConflict ?b ?a ?ii ?p"
        by (auto simp: pair_ok_def same_register_def)
      then show ?thesis
        using conflict_decides_clash [OF ta(1,2) tb] conflict_decides_clash [OF ta(1) tb ta(2)] instances_clash_sym by blast
    qed
    then show ?thesis using ta tb by (intro survives_if_no_clash)
  qed
  have slot: "x mod ?ii = y mod ?ii" if "x + i * ?ii = y + j * ?ii" for x y i j :: nat
    using that by (metis mod_mult_self1)
  have port: "(sg_readTime (?segs ! k) + i * ?ii = sg_readTime (?segs ! l) + j * ?ii \<longrightarrow>
            sa_readPort (alloc_of m (?segs ! k)) \<noteq> sa_readPort (alloc_of m (?segs ! l))) \<and>
         (sg_writeTime (?segs ! k) + i * ?ii = sg_writeTime (?segs ! l) + j * ?ii \<longrightarrow>
            sa_writePort (alloc_of m (?segs ! k)) \<noteq> sa_writePort (alloc_of m (?segs ! l)))"
    if "k < length ?segs" "l < length ?segs" "k \<noteq> l" "sg_tile (?segs ! k) = sg_tile (?segs ! l)"
      "pr_bank (sa_reg (alloc_of m (?segs ! k))) = pr_bank (sa_reg (alloc_of m (?segs ! l)))" for k l i j
  proof -
    have d: "read_use m ?ii (?segs ! k) \<noteq> read_use m ?ii (?segs ! l)" "write_use m ?ii (?segs ! k) \<noteq> write_use m ?ii (?segs ! l)"
      using po that(1-3) by (auto simp: distinct_conv_nth)
    show ?thesis
    proof (intro conjI impI)
      assume "sg_readTime (?segs ! k) + i * ?ii = sg_readTime (?segs ! l) + j * ?ii"
      from slot [OF this] d(1) that(4,5) show "sa_readPort (alloc_of m (?segs ! k)) \<noteq> sa_readPort (alloc_of m (?segs ! l))"
        by (simp add: read_use_def)
    next
      assume "sg_writeTime (?segs ! k) + i * ?ii = sg_writeTime (?segs ! l) + j * ?ii"
      from slot [OF this] d(2) that(4,5) show "sa_writePort (alloc_of m (?segs ! k)) \<noteq> sa_writePort (alloc_of m (?segs ! l))"
        by (simp add: write_use_def)
    qed
  qed
  show ?thesis
    unfolding valid_allocation_def Let_def
  proof (intro conjI)
    show "\<forall>s \<in> set ?segs. allocated_ok g t m s" using alloc by blast
  qed (use surv port in simp_all)
qed

text \<open>C11: A register allocation the verifier accepts is safe in the running pipeline: every storage
  segment has a register of the bank of its tile, with ports that exist and accept its steady-state
  and boundary sources; over all iterations no value is overwritten between its write and its read;
  and no read or write port of a bank is used by two segments in the same cycle.\<close>

theorem rfv_verify_sound:
  assumes "rfv_verify g t m = Inr []"
  shows "valid_allocation g t m"
  using assms by (rule rfv_verify_valid)

definition demo_allocated :: RFAllocatedMapping where
  "demo_allocated = \<lparr>ra_staged = demo_staged,
     ra_requirements = the (case storage_analyze demo_tdfg demo_target demo_staged of Inl _ \<Rightarrow> None | Inr r \<Rightarrow> srr_requirements r),
     ra_allocations =
       [\<lparr>sa_segment = 0, sa_reg = \<lparr>pr_tile = demo_tile 1, pr_bank = ''d'', pr_index = 0\<rparr>,
         sa_readPort = 0, sa_writePort = 1, sa_boundaryWritePort = None\<rparr>,
        \<lparr>sa_segment = 1, sa_reg = \<lparr>pr_tile = demo_tile 1, pr_bank = ''d'', pr_index = 1\<rparr>,
         sa_readPort = 1, sa_writePort = 0, sa_boundaryWritePort = Some 1\<rparr>]\<rparr>"

theorem rfv_verify_sound_witness: "valid_allocation demo_tdfg demo_target demo_allocated"
proof -
  have "rfv_verify demo_tdfg demo_target demo_allocated = Inr []" by code_simp
  then show ?thesis by (rule rfv_verify_sound)
qed

end
