(* ===== verification/RegAlloc_Coloring.thy ===== *)
theory RegAlloc_Coloring
  imports RegAlloc_Model
begin

text \<open>
  Colouring of the conflict graph of one register bank (\<open>RegisterAllocation/RFAllocator.cpp\<close>, function
  \<open>colorExact\<close> and the greedy pass, with \<open>RFAllocationBudget.h\<close> and the counters of
  \<open>RFAllocationResult.h\<close>).  The recursion of \<open>colorExact\<close> is bounded by a depth, which is the number of
  uncoloured vertices; running out of depth is the value \<open>None\<close>, and it is proved not to happen.
\<close>

section \<open>Data\<close>

record RFAllocationBudget =
  bu_maxColoringDecisions :: nat
  bu_maxColoringBacktracks :: nat

record RFAllocationStats =
  rs_storageSegments :: nat
  rs_dataSegments :: nat
  rs_predicateSegments :: nat
  rs_explicitHoldSegments :: nat
  rs_terminalSlackSegments :: nat
  rs_coalescedOrigins :: nat
  rs_conflictEdges :: nat
  rs_coloringDecisions :: nat
  rs_coloringBacktracks :: nat
  rs_maxRegistersUsedOnAnyBank :: nat
  rs_maxReadPortsUsed :: nat
  rs_maxWritePortsUsed :: nat

type_synonym SegmentIndex = nat
type_synonym Coloring = "nat option list"
type_synonym ConflictGraph = "bool list list"

record ColorState =
  co_colors :: Coloring
  co_stats :: RFAllocationStats
  co_exceeded :: bool

section \<open>The search\<close>

definition colorAvailable :: "SegmentIndex list \<Rightarrow> ConflictGraph \<Rightarrow> Coloring \<Rightarrow> SegmentIndex \<Rightarrow> nat \<Rightarrow> bool" where
  "colorAvailable vertices graph colors v color \<longleftrightarrow>
     (\<forall>neighbor \<in> set vertices. \<not> (graph ! v ! neighbor \<and> colors ! neighbor = Some color))"

text \<open>The vertex of highest saturation, then degree, then least id.\<close>

definition selectStep ::
  "SegmentIndex list \<Rightarrow> ConflictGraph \<Rightarrow> Coloring \<Rightarrow> (SegmentIndex \<times> nat \<times> nat \<times> nat) option \<Rightarrow> SegmentIndex \<Rightarrow>
   (SegmentIndex \<times> nat \<times> nat \<times> nat) option" where
  "selectStep vertices graph colors best v =
     (if colors ! v \<noteq> None then best
      else
        let neighbors = filter (\<lambda>n. graph ! v ! n) vertices;
            degree = length neighbors;
            saturation = card (set (map (\<lambda>n. the (colors ! n)) (filter (\<lambda>n. colors ! n \<noteq> None) neighbors)));
            vid = wrap32 v
        in case best of
             None \<Rightarrow> Some (v, saturation, degree, vid)
           | Some (_, bestSaturation, bestDegree, bestId) \<Rightarrow>
               if saturation > bestSaturation \<or>
                  (saturation = bestSaturation \<and> (degree > bestDegree \<or> (degree = bestDegree \<and> vid < bestId)))
               then Some (v, saturation, degree, vid) else best)"

definition selectVertex :: "SegmentIndex list \<Rightarrow> ConflictGraph \<Rightarrow> Coloring \<Rightarrow> SegmentIndex option" where
  "selectVertex vertices graph colors = map_option fst (foldl (selectStep vertices graph colors) None vertices)"

text \<open>The loop over the colours of the selected vertex; \<open>deeper\<close> is the recursive call.\<close>

fun tryColors ::
  "(ColorState \<Rightarrow> (bool \<times> ColorState) option) \<Rightarrow> SegmentIndex list \<Rightarrow> ConflictGraph \<Rightarrow> RFAllocationBudget \<Rightarrow> SegmentIndex \<Rightarrow>
   nat list \<Rightarrow> ColorState \<Rightarrow> (bool \<times> ColorState) option" where
  "tryColors deeper vertices graph budget v [] st = Some (False, st)"
| "tryColors deeper vertices graph budget v (color # rest) st =
     (if \<not> colorAvailable vertices graph (co_colors st) v color then tryColors deeper vertices graph budget v rest st
      else if rs_coloringDecisions (co_stats st) \<ge> bu_maxColoringDecisions budget then
        Some (False, st\<lparr>co_exceeded := True\<rparr>)
      else
        let st1 = st\<lparr>co_stats := (co_stats st)\<lparr>rs_coloringDecisions := rs_coloringDecisions (co_stats st) + 1\<rparr>,
                    co_colors := (co_colors st)[v := Some color]\<rparr>
        in case deeper st1 of
             None \<Rightarrow> None
           | Some (True, st2) \<Rightarrow> Some (True, st2)
           | Some (False, st2) \<Rightarrow>
               let st3 = st2\<lparr>co_colors := (co_colors st2)[v := None]\<rparr> in
               if co_exceeded st3 then Some (False, st3)
               else if rs_coloringBacktracks (co_stats st3) \<ge> bu_maxColoringBacktracks budget then
                 Some (False, st3\<lparr>co_exceeded := True\<rparr>)
               else
                 tryColors deeper vertices graph budget v rest
                   (st3\<lparr>co_stats := (co_stats st3)\<lparr>rs_coloringBacktracks := rs_coloringBacktracks (co_stats st3) + 1\<rparr>\<rparr>))"

fun colorExact ::
  "nat \<Rightarrow> SegmentIndex list \<Rightarrow> ConflictGraph \<Rightarrow> RegisterFileDesc \<Rightarrow> RFAllocationBudget \<Rightarrow> ColorState \<Rightarrow>
   (bool \<times> ColorState) option" where
  "colorExact 0 vertices graph bank budget st = None"
| "colorExact (Suc depth) vertices graph bank budget st =
     (case selectVertex vertices graph (co_colors st) of
        None \<Rightarrow> Some (True, st)
      | Some v \<Rightarrow>
          tryColors (colorExact depth vertices graph bank budget) vertices graph budget v
            (rf_allocatableIndices bank) st)"

text \<open>The greedy pass over one vertex: \<open>Inl\<close> when the budget is exhausted, otherwise whether a colour
  was found.\<close>

fun greedyVertex ::
  "SegmentIndex list \<Rightarrow> ConflictGraph \<Rightarrow> RFAllocationBudget \<Rightarrow> SegmentIndex \<Rightarrow> nat list \<Rightarrow> ColorState \<Rightarrow>
   ColorState + (bool \<times> ColorState)" where
  "greedyVertex vertices graph budget v [] st = Inr (False, st)"
| "greedyVertex vertices graph budget v (color # rest) st =
     (if rs_coloringDecisions (co_stats st) \<ge> bu_maxColoringDecisions budget then Inl st
      else if \<not> colorAvailable vertices graph (co_colors st) v color then
        greedyVertex vertices graph budget v rest st
      else Inr (True, st\<lparr>co_stats := (co_stats st)\<lparr>rs_coloringDecisions := rs_coloringDecisions (co_stats st) + 1\<rparr>,
                        co_colors := (co_colors st)[v := Some color]\<rparr>))"

text \<open>The pass over all vertices: the first vertex without a colour ends it.  The left value is the
  vertex at which the budget was exhausted.\<close>

fun greedyColors ::
  "SegmentIndex list \<Rightarrow> ConflictGraph \<Rightarrow> RegisterFileDesc \<Rightarrow> RFAllocationBudget \<Rightarrow> SegmentIndex list \<Rightarrow> ColorState \<Rightarrow>
   (SegmentIndex \<times> ColorState) + (bool \<times> ColorState)" where
  "greedyColors vertices graph bank budget [] st = Inr (True, st)"
| "greedyColors vertices graph bank budget (v # rest) st =
     (case greedyVertex vertices graph budget v (rf_allocatableIndices bank) st of
        Inl st' \<Rightarrow> Inl (v, st')
      | Inr (True, st') \<Rightarrow> greedyColors vertices graph bank budget rest st'
      | Inr (False, st') \<Rightarrow> Inr (False, st'))"

section \<open>Correctness of the search\<close>

text \<open>What is needed of the graph: the vertices are indices, and the relation is symmetric on them.\<close>

definition graph_ok :: "SegmentIndex list \<Rightarrow> ConflictGraph \<Rightarrow> Coloring \<Rightarrow> bool" where
  "graph_ok vertices graph colors \<longleftrightarrow>
     (\<forall>v \<in> set vertices. v < length colors \<and> \<not> graph ! v ! v) \<and>
     (\<forall>u \<in> set vertices. \<forall>v \<in> set vertices. graph ! u ! v = graph ! v ! u)"

text \<open>A partial colouring without a conflict, and its total extensions with the given colours.\<close>

definition proper :: "SegmentIndex list \<Rightarrow> ConflictGraph \<Rightarrow> Coloring \<Rightarrow> bool" where
  "proper vertices graph colors \<longleftrightarrow>
     (\<forall>u \<in> set vertices. \<forall>v \<in> set vertices. graph ! u ! v \<longrightarrow> colors ! u \<noteq> None \<longrightarrow> colors ! u \<noteq> colors ! v)"

definition extends ::
  "SegmentIndex list \<Rightarrow> ConflictGraph \<Rightarrow> nat set \<Rightarrow> Coloring \<Rightarrow> (SegmentIndex \<Rightarrow> nat) \<Rightarrow> bool" where
  "extends vertices graph indices colors f \<longleftrightarrow>
     (\<forall>v \<in> set vertices. f v \<in> indices \<and> (\<forall>c. colors ! v = Some c \<longrightarrow> f v = c)) \<and>
     (\<forall>u \<in> set vertices. \<forall>v \<in> set vertices. graph ! u ! v \<longrightarrow> f u \<noteq> f v)"

definition uncoloured :: "SegmentIndex list \<Rightarrow> Coloring \<Rightarrow> nat" where
  "uncoloured vertices colors = card {v \<in> set vertices. colors ! v = None}"

lemma selectStep_fold:
  assumes "foldl (selectStep vertices graph colors) best vs = r"
  shows "(r = None \<longleftrightarrow> best = None \<and> (\<forall>v \<in> set vs. colors ! v \<noteq> None)) \<and>
    (\<forall>x. r = Some x \<longrightarrow> r = best \<or> (fst x \<in> set vs \<and> colors ! fst x = None))"
  using assms
proof (induction vs arbitrary: best)
  case (Cons v vs)
  have step: "(selectStep vertices graph colors best v = None \<longleftrightarrow> best = None \<and> colors ! v \<noteq> None) \<and>
    (\<forall>x. selectStep vertices graph colors best v = Some x \<longrightarrow>
       selectStep vertices graph colors best v = best \<or> (fst x = v \<and> colors ! v = None))"
    by (auto simp: selectStep_def Let_def split: option.splits if_splits)
  from Cons.prems have "foldl (selectStep vertices graph colors) (selectStep vertices graph colors best v) vs = r" by simp
  note Cons.IH [OF this]
  with step show ?case by fastforce
qed auto

lemma selectVertex_None: "selectVertex vertices graph colors = None \<longleftrightarrow> (\<forall>v \<in> set vertices. colors ! v \<noteq> None)"
  using selectStep_fold [of vertices graph colors None vertices] by (simp add: selectVertex_def)

lemma selectVertex_Some:
  "selectVertex vertices graph colors = Some v \<Longrightarrow> v \<in> set vertices \<and> colors ! v = None"
  using selectStep_fold [of vertices graph colors None vertices] by (auto simp: selectVertex_def)

lemma uncoloured_update:
  assumes "v \<in> set vertices" "colors ! v = None" "v < length colors"
  shows "Suc (uncoloured vertices (colors[v := Some c])) = uncoloured vertices colors"
proof -
  have "{u \<in> set vertices. colors ! u = None} = insert v {u \<in> set vertices. colors[v := Some c] ! u = None}"
    using assms by (auto simp: nth_list_update)
  moreover have "v \<notin> {u \<in> set vertices. colors[v := Some c] ! u = None}" using assms by simp
  ultimately show ?thesis by (simp add: uncoloured_def)
qed

lemma proper_update:
  assumes "proper vertices graph colors" "graph_ok vertices graph colors" "v \<in> set vertices"
    and "colorAvailable vertices graph colors v c"
  shows "proper vertices graph (colors[v := Some c])"
  unfolding proper_def
proof (intro ballI impI)
  fix x y
  assume xy: "x \<in> set vertices" "y \<in> set vertices" "graph ! x ! y" "colors[v := Some c] ! x \<noteq> None"
  with assms(2) have l: "x < length colors" "y < length colors" "x \<noteq> y" "graph ! y ! x" by (auto simp: graph_ok_def)
  consider "x = v" | "y = v" | "x \<noteq> v" "y \<noteq> v" by blast
  then show "colors[v := Some c] ! x \<noteq> colors[v := Some c] ! y"
  proof cases
    case 3
    with assms(1) xy show ?thesis by (auto simp: proper_def)
  qed (use assms(4) xy l in \<open>auto simp: nth_list_update colorAvailable_def\<close>)
qed

text \<open>The outcome of a search from a state: a full proper colouring that changes only vertices of the
  bank, or, unless the budget is exhausted, the colours restored and no extension at all.\<close>

definition outcome ::
  "SegmentIndex list \<Rightarrow> ConflictGraph \<Rightarrow> nat set \<Rightarrow> ColorState \<Rightarrow> bool \<times> ColorState \<Rightarrow> bool" where
  "outcome vertices graph indices st r \<longleftrightarrow>
     (case r of (ok, st') \<Rightarrow>
        length (co_colors st') = length (co_colors st) \<and>
        (if ok then
           co_exceeded st' = co_exceeded st \<and> proper vertices graph (co_colors st') \<and>
           (\<forall>v \<in> set vertices. co_colors st' ! v \<noteq> None) \<and>
           (\<forall>v < length (co_colors st). co_colors st' ! v \<noteq> co_colors st ! v \<longrightarrow>
              v \<in> set vertices \<and> co_colors st ! v = None \<and> the (co_colors st' ! v) \<in> indices)
         else
           co_colors st' = co_colors st \<and>
           (\<not> co_exceeded st' \<longrightarrow> (\<nexists>f. extends vertices graph indices (co_colors st) f))))"

lemma outcome_cong:
  "co_colors st = co_colors st' \<Longrightarrow> co_exceeded st = co_exceeded st' \<Longrightarrow>
   outcome vertices graph indices st = outcome vertices graph indices st'"
  unfolding outcome_def by simp

lemma extends_first:
  assumes "extends vertices graph indices colors f" "v \<in> set vertices" "v < length colors" "colors ! v = None"
  shows "extends vertices graph indices (colors[v := Some (f v)]) f"
  using assms by (auto simp: extends_def nth_list_update)

lemma extends_available:
  assumes "extends vertices graph indices colors f" "v \<in> set vertices"
  shows "colorAvailable vertices graph colors v (f v)"
  using assms unfolding extends_def colorAvailable_def by metis

lemma tryColors_outcome:
  assumes deeper: "\<forall>st'. graph_ok vertices graph (co_colors st') \<longrightarrow> proper vertices graph (co_colors st') \<longrightarrow>
      Suc (uncoloured vertices (co_colors st')) = uncoloured vertices (co_colors st) \<longrightarrow> \<not> co_exceeded st' \<longrightarrow>
      (\<exists>r. deeper st' = Some r \<and> outcome vertices graph indices st' r)"
    and st: "graph_ok vertices graph (co_colors st)" "proper vertices graph (co_colors st)" "\<not> co_exceeded st"
    and v: "v \<in> set vertices" "co_colors st ! v = None" and cs: "set cs \<subseteq> indices"
    and tried: "\<forall>f. extends vertices graph indices (co_colors st) f \<longrightarrow> f v \<in> set cs"
  shows "\<exists>r. tryColors deeper vertices graph budget v cs st = Some r \<and> outcome vertices graph indices st r"
  using assms
proof (induction cs arbitrary: st)
  case Nil
  then show ?case by (auto simp: outcome_def)
next
  case (Cons c cs)
  let ?cs = "co_colors st"
  have len: "v < length ?cs" using Cons.prems(2,5) by (simp add: graph_ok_def)
  show ?case
  proof (cases "colorAvailable vertices graph ?cs v c")
    case False
    have "\<forall>f. extends vertices graph indices ?cs f \<longrightarrow> f v \<in> set cs"
    proof (intro allI impI)
      fix f
      assume f: "extends vertices graph indices ?cs f"
      with extends_available [OF f Cons.prems(5)] False have "f v \<noteq> c" by auto
      with Cons.prems(8) f show "f v \<in> set cs" by auto
    qed
    with Cons.IH [of st] Cons.prems False show ?thesis by simp
  next
    case True
    show ?thesis
    proof (cases "rs_coloringDecisions (co_stats st) \<ge> bu_maxColoringDecisions budget")
      case True
      with \<open>colorAvailable vertices graph ?cs v c\<close> show ?thesis by (simp add: outcome_def)
    next
      case False
      define st1 where "st1 = st\<lparr>co_stats := (co_stats st)\<lparr>rs_coloringDecisions := rs_coloringDecisions (co_stats st) + 1\<rparr>,
        co_colors := ?cs[v := Some c]\<rparr>"
      have c1: "co_colors st1 = ?cs[v := Some c]" "co_exceeded st1 = co_exceeded st" by (simp_all add: st1_def)
      have "\<exists>r. deeper st1 = Some r \<and> outcome vertices graph indices st1 r"
      proof (rule Cons.prems(1) [rule_format])
        show "graph_ok vertices graph (co_colors st1)" using Cons.prems(2) c1 by (simp add: graph_ok_def)
        show "proper vertices graph (co_colors st1)"
          unfolding c1 by (rule proper_update [OF Cons.prems(3,2,5) \<open>colorAvailable vertices graph ?cs v c\<close>])
        show "Suc (uncoloured vertices (co_colors st1)) = uncoloured vertices (co_colors st)"
          unfolding c1 by (rule uncoloured_update [OF Cons.prems(5,6) len])
      qed (use Cons.prems(4) c1 in simp)
      then obtain ok st2 where r: "deeper st1 = Some (ok, st2)" "outcome vertices graph indices st1 (ok, st2)" by auto
      show ?thesis
      proof (cases ok)
        case True
        with r(2) have o: "outcome vertices graph indices st (True, st2)"
          using Cons.prems(5-7) len unfolding outcome_def c1 by (auto simp: nth_list_update split: if_splits)
        have "tryColors deeper vertices graph budget v (c # cs) st = Some (True, st2)"
          using True r(1) [unfolded st1_def] False \<open>colorAvailable vertices graph ?cs v c\<close> by simp
        with o show ?thesis by blast
      next
        case notok: False
        define st3 where "st3 = st2\<lparr>co_colors := (co_colors st2)[v := None]\<rparr>"
        have c2: "co_colors st2 = ?cs[v := Some c]" "\<not> co_exceeded st2 \<longrightarrow> (\<nexists>f. extends vertices graph indices (?cs[v := Some c]) f)"
          using r(2) notok unfolding outcome_def c1 by auto
        have c3: "co_colors st3 = ?cs" "co_exceeded st3 = co_exceeded st2"
          using c2(1) Cons.prems(6) by (auto simp: st3_def) (metis list_update_id)
        let ?st4 = "st3\<lparr>co_stats := (co_stats st3)\<lparr>rs_coloringBacktracks := rs_coloringBacktracks (co_stats st3) + 1\<rparr>\<rparr>"
        have tr: "tryColors deeper vertices graph budget v (c # cs) st =
            (if co_exceeded st3 then Some (False, st3)
             else if rs_coloringBacktracks (co_stats st3) \<ge> bu_maxColoringBacktracks budget
             then Some (False, st3\<lparr>co_exceeded := True\<rparr>)
             else tryColors deeper vertices graph budget v cs ?st4)"
          using r(1) [unfolded st1_def] notok False \<open>colorAvailable vertices graph ?cs v c\<close>
          unfolding st3_def by simp
        show ?thesis
        proof (cases "co_exceeded st3 \<or> rs_coloringBacktracks (co_stats st3) \<ge> bu_maxColoringBacktracks budget")
          case True
          then show ?thesis unfolding tr using c3 by (auto simp: outcome_def)
        next
          case go: False
          have "\<forall>f. extends vertices graph indices ?cs f \<longrightarrow> f v \<in> set cs"
          proof (intro allI impI)
            fix f
            assume f: "extends vertices graph indices ?cs f"
            have "f v \<noteq> c"
            proof
              assume "f v = c"
              with extends_first [OF f Cons.prems(5) len Cons.prems(6)] c2(2) go c3(2) show False by auto
            qed
            with Cons.prems(8) f show "f v \<in> set cs" by auto
          qed
          with Cons.IH [of ?st4] Cons.prems c3 go have
            "\<exists>r. tryColors deeper vertices graph budget v cs ?st4 = Some r \<and> outcome vertices graph indices ?st4 r" by simp
          moreover have "outcome vertices graph indices ?st4 = outcome vertices graph indices st"
            by (rule outcome_cong) (use c3 go Cons.prems(4) in simp_all)
          ultimately show ?thesis unfolding tr using go by simp
        qed
      qed
    qed
  qed
qed

lemma colorExact_outcome:
  assumes "uncoloured vertices (co_colors st) < depth" and "graph_ok vertices graph (co_colors st)"
    and "proper vertices graph (co_colors st)" and "\<not> co_exceeded st"
  shows "\<exists>r. colorExact depth vertices graph bank budget st = Some r \<and>
    outcome vertices graph (set (rf_allocatableIndices bank)) st r"
  using assms
proof (induction depth arbitrary: st)
  case (Suc depth)
  show ?case
  proof (cases "selectVertex vertices graph (co_colors st)")
    case None
    then have "\<forall>v \<in> set vertices. co_colors st ! v \<noteq> None" by (simp add: selectVertex_None)
    with None Suc.prems show ?thesis by (intro exI [of _ "(True, st)"]) (simp add: outcome_def)
  next
    case (Some v)
    have "\<exists>r. tryColors (colorExact depth vertices graph bank budget) vertices graph budget v
        (rf_allocatableIndices bank) st = Some r \<and> outcome vertices graph (set (rf_allocatableIndices bank)) st r"
      by (rule tryColors_outcome)
         (use Suc selectVertex_Some [OF Some] in \<open>auto simp: extends_def\<close>)
    with Some show ?thesis by simp
  qed
qed simp

section \<open>The greedy pass\<close>

lemma greedyVertex_found:
  assumes "greedyVertex vertices graph budget v cs st = Inr (True, st')"
  shows "\<exists>c \<in> set cs. colorAvailable vertices graph (co_colors st) v c \<and>
    co_colors st' = (co_colors st)[v := Some c] \<and> co_exceeded st' = co_exceeded st"
  using assms by (induction cs) (auto split: if_splits)

lemma greedyVertex_kept:
  "greedyVertex vertices graph budget v cs st = Inr (False, st') \<Longrightarrow>
   co_colors st' = co_colors st \<and> co_exceeded st' = co_exceeded st"
  by (induction cs) (auto split: if_splits)

lemma greedyColors_proper:
  assumes "greedyColors vertices graph bank budget vs st = Inr (True, st')"
    and "graph_ok vertices graph (co_colors st)" "proper vertices graph (co_colors st)" and "set vs \<subseteq> set vertices"
  shows "proper vertices graph (co_colors st') \<and> length (co_colors st') = length (co_colors st) \<and>
    (\<forall>v \<in> set vs. co_colors st' ! v \<noteq> None) \<and>
    (\<forall>v < length (co_colors st). co_colors st' ! v \<noteq> co_colors st ! v \<longrightarrow>
       v \<in> set vs \<and> co_colors st' ! v \<noteq> None \<and> the (co_colors st' ! v) \<in> set (rf_allocatableIndices bank))"
  using assms
proof (induction vs arbitrary: st)
  case (Cons v vs)
  then obtain st1 where g: "greedyVertex vertices graph budget v (rf_allocatableIndices bank) st = Inr (True, st1)"
    "greedyColors vertices graph bank budget vs st1 = Inr (True, st')" by (auto split: sum.splits prod.splits bool.splits)
  from greedyVertex_found [OF g(1)] obtain c where c: "c \<in> set (rf_allocatableIndices bank)"
    "colorAvailable vertices graph (co_colors st) v c" "co_colors st1 = (co_colors st)[v := Some c]" by blast
  have v: "v \<in> set vertices" "v < length (co_colors st)" using Cons.prems(2,4) by (auto simp: graph_ok_def)
  have "graph_ok vertices graph (co_colors st1)" using Cons.prems(2) c(3) by (simp add: graph_ok_def)
  moreover have "proper vertices graph (co_colors st1)"
    unfolding c(3) by (rule proper_update [OF Cons.prems(3,2) v(1) c(2)])
  ultimately have ih: "proper vertices graph (co_colors st') \<and> length (co_colors st') = length (co_colors st1) \<and>
    (\<forall>v \<in> set vs. co_colors st' ! v \<noteq> None) \<and>
    (\<forall>v < length (co_colors st1). co_colors st' ! v \<noteq> co_colors st1 ! v \<longrightarrow>
       v \<in> set vs \<and> co_colors st' ! v \<noteq> None \<and> the (co_colors st' ! v) \<in> set (rf_allocatableIndices bank))"
    by (intro Cons.IH [OF g(2)]) (use Cons.prems(4) in auto)
  then have "co_colors st' ! v \<noteq> None" using c(3) v(2) by force
  moreover have "the (co_colors st' ! v) \<in> set (rf_allocatableIndices bank)"
    using ih c v(2) by (cases "co_colors st' ! v = Some c") auto
  ultimately show ?case using ih c(3) v(2) by (auto simp: nth_list_update split: if_splits)
qed simp

text \<open>Whatever happens, the pass leaves the other banks alone.\<close>

lemma greedyColors_others:
  assumes "greedyColors vertices graph bank budget vs st = Inr (ok, st')"
  shows "length (co_colors st') = length (co_colors st) \<and> co_exceeded st' = co_exceeded st \<and>
    (\<forall>v. v \<notin> set vs \<longrightarrow> co_colors st' ! v = co_colors st ! v)"
  using assms
proof (induction vs arbitrary: st)
  case (Cons v vs)
  then obtain found st1 where g: "greedyVertex vertices graph budget v (rf_allocatableIndices bank) st = Inr (found, st1)"
    by (auto split: sum.splits)
  show ?case
  proof (cases found)
    case True
    with g Cons.prems have "greedyColors vertices graph bank budget vs st1 = Inr (ok, st')" by simp
    moreover have "greedyVertex vertices graph budget v (rf_allocatableIndices bank) st = Inr (True, st1)"
      using g True by simp
    from greedyVertex_found [OF this] obtain c where
      "co_colors st1 = (co_colors st)[v := Some c]" "co_exceeded st1 = co_exceeded st" by blast
    ultimately show ?thesis using Cons.IH by simp
  next
    case False
    with g Cons.prems greedyVertex_kept show ?thesis by fastforce
  qed
qed simp

end
