(* ===== verification/RegAlloc_Ports.thy ===== *)
theory RegAlloc_Ports
  imports RegAlloc_Model
begin

text \<open>
  Matching of accesses to register-file ports (\<open>RegisterAllocation/RFAllocator.cpp\<close>, the local
  functions \<open>augment\<close> in \<open>assignPorts\<close> and in the boundary pass): augmenting paths in a bipartite graph.
  A port that is free, which the code marks with the number of segments, is \<open>None\<close>.  The recursion is
  bounded by the number of ports not yet visited; running out of depth is a stop of its own and is
  proved not to happen.
\<close>

section \<open>Augmenting paths\<close>

datatype augment_stop = Augment_Depth | Augment_Raises exn

type_synonym PortMatching = "nat option list"

record AugmentState =
  au_matched :: PortMatching
  au_visited :: "bool list"

definition lift_raise :: "'a result \<Rightarrow> augment_stop + 'a" where
  "lift_raise r = (case r of Inl x \<Rightarrow> Inl (Augment_Raises x) | Inr a \<Rightarrow> Inr a)"

text \<open>The loop over the ports; \<open>deeper\<close> is the recursive call.\<close>

fun augmentPorts ::
  "(nat \<Rightarrow> AugmentState \<Rightarrow> augment_stop + (bool \<times> AugmentState)) \<Rightarrow> (nat \<Rightarrow> nat \<Rightarrow> bool result) \<Rightarrow> nat \<Rightarrow> nat list \<Rightarrow>
   AugmentState \<Rightarrow> augment_stop + (bool \<times> AugmentState)" where
  "augmentPorts deeper candidates segmentId [] st = Inr (False, st)"
| "augmentPorts deeper candidates segmentId (port # rest) st =
     (if au_visited st ! port then augmentPorts deeper candidates segmentId rest st
      else bindR (lift_raise (candidates segmentId port)) (\<lambda>candidate.
        if \<not> candidate then augmentPorts deeper candidates segmentId rest st
        else
          let st1 = st\<lparr>au_visited := (au_visited st)[port := True]\<rparr> in
          case au_matched st1 ! port of
            None \<Rightarrow> Inr (True, st1\<lparr>au_matched := (au_matched st1)[port := Some segmentId]\<rparr>)
          | Some other \<Rightarrow>
              bindR (deeper other st1) (\<lambda>(found, st2).
                if found then Inr (True, st2\<lparr>au_matched := (au_matched st2)[port := Some segmentId]\<rparr>)
                else augmentPorts deeper candidates segmentId rest st2)))"

fun augment ::
  "nat \<Rightarrow> (nat \<Rightarrow> nat \<Rightarrow> bool result) \<Rightarrow> nat \<Rightarrow> nat \<Rightarrow> AugmentState \<Rightarrow> augment_stop + (bool \<times> AugmentState)" where
  "augment 0 candidates portCount segmentId st = Inl Augment_Depth"
| "augment (Suc depth) candidates portCount segmentId st =
     augmentPorts (augment depth candidates portCount) candidates segmentId [0..<portCount] st"

text \<open>The loop over the accesses of one slot; the left value of the result is the first access that
  cannot be matched.\<close>

fun matchEvents ::
  "(nat \<Rightarrow> nat \<Rightarrow> bool result) \<Rightarrow> nat \<Rightarrow> nat list \<Rightarrow> PortMatching \<Rightarrow> augment_stop + (nat + PortMatching)" where
  "matchEvents candidates portCount [] matched = Inr (Inr matched)"
| "matchEvents candidates portCount (segmentId # rest) matched =
     bindR (augment (Suc portCount) candidates portCount segmentId
              \<lparr>au_matched = matched, au_visited = replicate portCount False\<rparr>) (\<lambda>(found, st).
       if found then matchEvents candidates portCount rest (au_matched st) else Inr (Inl segmentId))"

section \<open>Matchings\<close>

text \<open>The matching on a set of ports, its segments, and that it respects the candidates.\<close>

definition segs_on :: "PortMatching \<Rightarrow> nat set \<Rightarrow> nat set" where
  "segs_on m U = {x. \<exists>p \<in> U. m ! p = Some x}"

definition match_on :: "(nat \<Rightarrow> nat \<Rightarrow> bool) \<Rightarrow> PortMatching \<Rightarrow> nat set \<Rightarrow> bool" where
  "match_on acc m U \<longleftrightarrow>
     (\<forall>p \<in> U. \<forall>x. m ! p = Some x \<longrightarrow> acc x p) \<and>
     (\<forall>p \<in> U. \<forall>q \<in> U. \<forall>x. m ! p = Some x \<longrightarrow> m ! q = Some x \<longrightarrow> p = q)"

definition unvisited :: "bool list \<Rightarrow> nat set" where
  "unvisited vis = {p. p < length vis \<and> \<not> vis ! p}"

text \<open>A found path adds the segment and touches only ports that were not visited; a failure leaves
  the matching alone and closes the visited ports under the candidates of their segments.\<close>

definition augmented ::
  "(nat \<Rightarrow> nat \<Rightarrow> bool) \<Rightarrow> nat \<Rightarrow> AugmentState \<Rightarrow> bool \<times> AugmentState \<Rightarrow> nat set \<Rightarrow> bool" where
  "augmented acc x st r tried \<longleftrightarrow>
     (case r of (found, st') \<Rightarrow>
        length (au_matched st') = length (au_matched st) \<and> length (au_visited st') = length (au_visited st) \<and>
        unvisited (au_visited st') \<subseteq> unvisited (au_visited st) \<and>
        (if found then
           match_on acc (au_matched st') (unvisited (au_visited st)) \<and>
           segs_on (au_matched st') (unvisited (au_visited st)) = insert x (segs_on (au_matched st) (unvisited (au_visited st))) \<and>
           (\<forall>p. p \<notin> unvisited (au_visited st) \<longrightarrow> au_matched st' ! p = au_matched st ! p)
         else
           au_matched st' = au_matched st \<and>
           (\<forall>p \<in> tried. p < length (au_visited st) \<longrightarrow> acc x p \<longrightarrow> p \<notin> unvisited (au_visited st')) \<and>
           (\<forall>p \<in> unvisited (au_visited st) - unvisited (au_visited st').
              \<exists>y. au_matched st ! p = Some y \<and>
                (\<forall>q < length (au_visited st). acc y q \<longrightarrow> q \<notin> unvisited (au_visited st')))))"

lemma unvisited_update:
  "p \<in> unvisited vis \<Longrightarrow> unvisited (vis[p := True]) = unvisited vis - {p}"
  by (auto simp: unvisited_def nth_list_update split: if_splits)

lemma finite_unvisited [simp]: "finite (unvisited vis)"
  by (simp add: unvisited_def)

lemma match_on_subset: "match_on acc m U \<Longrightarrow> V \<subseteq> U \<Longrightarrow> match_on acc m V"
  unfolding match_on_def by blast

lemma match_on_remove:
  assumes "match_on acc m U" "p \<in> U" "m ! p = Some x"
  shows "x \<notin> segs_on m (U - {p})" and "segs_on m U = insert x (segs_on m (U - {p}))"
proof -
  show "x \<notin> segs_on m (U - {p})" using assms unfolding match_on_def segs_on_def by blast
  show "segs_on m U = insert x (segs_on m (U - {p}))" using assms(2,3) by (auto simp: segs_on_def)
qed

lemma list_update_outside: "p \<in> U \<Longrightarrow> q \<notin> U \<Longrightarrow> m[p := v] ! q = m ! q"
  by (metis nth_list_update_neq)

text \<open>A port of the set is given to a new segment.\<close>

lemma match_on_assign:
  assumes "match_on acc m (U - {p})" "x \<notin> segs_on m (U - {p})" "acc x p" "p \<in> U" "p < length m"
  shows "match_on acc (m[p := Some x]) U"
    and "segs_on (m[p := Some x]) U = insert x (segs_on m (U - {p}))"
proof -
  have n: "m[p := Some x] ! q = (if q = p then Some x else m ! q)" for q using assms(5) by (simp add: nth_list_update)
  show "match_on acc (m[p := Some x]) U"
    unfolding match_on_def n using assms(1-4) by (auto simp: match_on_def segs_on_def split: if_splits)
  show "segs_on (m[p := Some x]) U = insert x (segs_on m (U - {p}))"
    unfolding segs_on_def n using assms(4) by auto
qed

text \<open>An assignment on a part of the ports that leaves the rest alone is one on all of them.\<close>

lemma match_on_extend:
  assumes m: "match_on acc m U" "x \<notin> segs_on m U" and V: "V \<subseteq> U"
    and m': "match_on acc m' V" "segs_on m' V = insert x (segs_on m V)" "\<forall>p. p \<notin> V \<longrightarrow> m' ! p = m ! p"
  shows "match_on acc m' U" and "segs_on m' U = insert x (segs_on m U)"
proof -
  have split: "segs_on n U = segs_on n V \<union> segs_on n (U - V)" for n using V by (auto simp: segs_on_def)
  have rest: "segs_on m' (U - V) = segs_on m (U - V)" using m'(3) by (simp add: segs_on_def)
  show "segs_on m' U = insert x (segs_on m U)" using split m'(2) rest by auto
  have disj: "segs_on m' V \<inter> segs_on m (U - V) = {}"
  proof -
    have "insert x (segs_on m V) \<inter> segs_on m (U - V) = {}"
      using m V unfolding segs_on_def match_on_def by blast
    then show ?thesis by (simp only: m'(2))
  qed
  show "match_on acc m' U"
    unfolding match_on_def
  proof (intro conjI ballI allI impI)
    fix p y
    assume "p \<in> U" "m' ! p = Some y"
    then show "acc y p" using m(1) m'(1,3) unfolding match_on_def by (cases "p \<in> V") auto
  next
    fix p q y
    assume pq: "p \<in> U" "q \<in> U" "m' ! p = Some y" "m' ! q = Some y"
    have same: "q \<in> V" if "p \<in> V" "p \<in> U" "q \<in> U" "m' ! p = Some y" "m' ! q = Some y" for p q
    proof (rule ccontr)
      assume "q \<notin> V"
      with that m'(3) have "y \<in> segs_on m' V" "y \<in> segs_on m (U - V)" unfolding segs_on_def by auto
      with disj show False by blast
    qed
    show "p = q"
    proof (cases "p \<in> V")
      case True
      with same pq m'(1) show ?thesis unfolding match_on_def by blast
    next
      case False
      with same pq have "q \<notin> V" by blast
      with False m'(3) pq m(1) show ?thesis unfolding match_on_def by metis
    qed
  qed
qed

section \<open>Correctness of a search\<close>

lemma augmented_skip:
  assumes "augmented acc x st r tried" and "acc x p \<longrightarrow> p \<notin> unvisited (au_visited st)"
  shows "augmented acc x st r (insert p tried)"
proof -
  obtain found st' where r: "r = (found, st')" by (cases r)
  have "unvisited (au_visited st') \<subseteq> unvisited (au_visited st)" using assms(1) by (simp add: augmented_def r)
  with assms show ?thesis unfolding augmented_def r by (cases found) (simp, simp, blast)
qed

lemma augmented_after_failure:
  assumes fail: "augmented acc y st1 (False, st2) {..<length (au_visited st)}"
    and st1: "au_matched st1 = au_matched st" "au_visited st1 = (au_visited st)[p := True]"
    and p: "p \<in> unvisited (au_visited st)" "au_matched st ! p = Some y"
    and m: "match_on acc (au_matched st) (unvisited (au_visited st))" "x \<notin> segs_on (au_matched st) (unvisited (au_visited st))"
    and rest: "augmented acc x st2 r tried"
  shows "augmented acc x st r (insert p tried)"
proof -
  obtain found st' where r: "r = (found, st')" by (cases r)
  let ?U = "unvisited (au_visited st)" and ?U2 = "unvisited (au_visited st2)" and ?U' = "unvisited (au_visited st')"
  have u1: "unvisited (au_visited st1) = ?U - {p}" using st1(2) unvisited_update [OF p(1)] by simp
  have f: "length (au_matched st2) = length (au_matched st)" "length (au_visited st2) = length (au_visited st)"
    "?U2 \<subseteq> ?U - {p}" "au_matched st2 = au_matched st"
    "\<forall>q < length (au_visited st). acc y q \<longrightarrow> q \<notin> ?U2"
    "\<forall>q \<in> ?U - {p} - ?U2. \<exists>z. au_matched st ! q = Some z \<and> (\<forall>u < length (au_visited st). acc z u \<longrightarrow> u \<notin> ?U2)"
    using fail unfolding augmented_def u1 by (simp_all add: st1 u1)
  have re: "length (au_matched st') = length (au_matched st)" "length (au_visited st') = length (au_visited st)" "?U' \<subseteq> ?U2"
    using rest f(1,2) by (simp_all add: augmented_def r)
  show ?thesis
  proof (cases found)
    case True
    have e: "match_on acc (au_matched st') ?U2" "segs_on (au_matched st') ?U2 = insert x (segs_on (au_matched st) ?U2)"
      "\<forall>q. q \<notin> ?U2 \<longrightarrow> au_matched st' ! q = au_matched st ! q"
      using rest True by (simp_all add: augmented_def r f(4))
    have sub: "?U2 \<subseteq> ?U" using f(3) by blast
    from match_on_extend [OF m sub e] e(3) f(3) re True sub show ?thesis by (auto simp: augmented_def r)
  next
    case False
    have g: "au_matched st' = au_matched st" "\<forall>q \<in> tried. q < length (au_visited st) \<longrightarrow> acc x q \<longrightarrow> q \<notin> ?U'"
      "\<forall>q \<in> ?U2 - ?U'. \<exists>z. au_matched st ! q = Some z \<and> (\<forall>u < length (au_visited st). acc z u \<longrightarrow> u \<notin> ?U')"
      using rest False f(2,4) by (simp_all add: augmented_def r)
    have closed: "\<exists>z. au_matched st ! q = Some z \<and> (\<forall>u < length (au_visited st). acc z u \<longrightarrow> u \<notin> ?U')" if q: "q \<in> ?U - ?U'" for q
    proof -
      consider "q = p" | "q \<in> ?U - {p} - ?U2" | "q \<in> ?U2 - ?U'" using q by blast
      then show ?thesis
      proof cases
        case 1
        with p(2) f(5) re(3) show ?thesis by blast
      next
        case 2
        with f(6) re(3) show ?thesis by blast
      qed (use g(3) in blast)
    qed
    have "p \<notin> ?U'" using f(3) re(3) by blast
    with False re f(3) g(1,2) closed show ?thesis by (auto simp: augmented_def r)
  qed
qed

text \<open>The candidates need to be known for the accesses of the slot only.\<close>

lemma augmentPorts_augmented:
  assumes cand: "\<forall>x \<in> A. \<forall>p < n. candidates x p = Inr (acc x p)"
    and deeper: "\<forall>y \<in> A. \<forall>st'. segs_on (au_matched st') {..<n} \<subseteq> A \<longrightarrow>
      length (au_matched st') = length (au_visited st') \<longrightarrow> length (au_visited st') = n \<longrightarrow>
      card (unvisited (au_visited st')) < k \<longrightarrow>
      match_on acc (au_matched st') (unvisited (au_visited st')) \<longrightarrow>
      y \<notin> segs_on (au_matched st') (unvisited (au_visited st')) \<longrightarrow>
      (\<exists>r. deeper y st' = Inr r \<and> augmented acc y st' r {..<n})"
    and "length (au_matched st) = n" "length (au_visited st) = n" "card (unvisited (au_visited st)) \<le> k"
    and "match_on acc (au_matched st) (unvisited (au_visited st))"
    and "x \<notin> segs_on (au_matched st) (unvisited (au_visited st))" and "\<forall>p \<in> set ports. p < n"
    and "x \<in> A" "segs_on (au_matched st) {..<n} \<subseteq> A"
  shows "\<exists>r. augmentPorts deeper candidates x ports st = Inr r \<and> augmented acc x st r (set ports)"
  using assms(3-)
proof (induction ports arbitrary: st)
  case Nil
  then show ?case by (simp add: augmented_def)
next
  case (Cons p ports)
  let ?U = "unvisited (au_visited st)"
  show ?case
  proof (cases "p \<in> ?U \<and> acc x p")
    case False
    have "augmentPorts deeper candidates x (p # ports) st = augmentPorts deeper candidates x ports st"
      using False cand Cons.prems(2,6,7) by (auto simp: unvisited_def lift_raise_def)
    moreover from Cons.IH [of st] Cons.prems obtain r where
      "augmentPorts deeper candidates x ports st = Inr r" "augmented acc x st r (set ports)" by auto
    ultimately show ?thesis using augmented_skip [of acc x st r "set ports" p] False by auto
  next
    case True
    define st1 where "st1 = st\<lparr>au_visited := (au_visited st)[p := True]\<rparr>"
    have st1: "au_matched st1 = au_matched st" "au_visited st1 = (au_visited st)[p := True]" by (simp_all add: st1_def)
    have u1: "unvisited (au_visited st1) = ?U - {p}" using st1(2) unvisited_update True by simp
    have vis: "\<not> au_visited st ! p" "p < length (au_matched st)" using True Cons.prems(1,2) by (auto simp: unvisited_def)
    have known: "candidates x p = Inr True" using cand Cons.prems(6,7) True by simp
    show ?thesis
    proof (cases "au_matched st ! p")
      case None
      let ?m = "(au_matched st)[p := Some x]"
      have "segs_on (au_matched st) (?U - {p}) = segs_on (au_matched st) ?U" using None by (auto simp: segs_on_def)
      moreover have "match_on acc (au_matched st) (?U - {p})" by (rule match_on_subset [OF Cons.prems(4)]) blast
      ultimately have "match_on acc ?m ?U" "segs_on ?m ?U = insert x (segs_on (au_matched st) ?U)"
        using match_on_assign [of acc "au_matched st" ?U p x] Cons.prems(5) True vis(2) by simp_all
      then have "augmented acc x st (True, st1\<lparr>au_matched := ?m\<rparr>) (set (p # ports))"
        using u1 True list_update_outside [of p ?U] by (auto simp: augmented_def st1)
      moreover have "augmentPorts deeper candidates x (p # ports) st = Inr (True, st1\<lparr>au_matched := ?m\<rparr>)"
        using None known vis by (simp add: lift_raise_def st1_def)
      ultimately show ?thesis by blast
    next
      case (Some y)
      have "card (?U - {p}) < card ?U" using True by (intro psubset_card_mono) auto
      then have small: "card (unvisited (au_visited st1)) < k" using Cons.prems(3) u1 by simp
      note rem = match_on_remove [OF Cons.prems(4) conjunct1 [OF True] Some]
      have y: "y \<in> A" using Cons.prems(6,8) Some by (auto simp: segs_on_def)
      have "\<exists>r. deeper y st1 = Inr r \<and> augmented acc y st1 r {..<n}"
        by (rule deeper [rule_format, OF y])
           (use Cons.prems(1,2,8) small match_on_subset [OF Cons.prems(4)] rem(1) in \<open>auto simp: st1 u1 [unfolded st1]\<close>)
      then obtain found st2 where d: "deeper y st1 = Inr (found, st2)" "augmented acc y st1 (found, st2) {..<n}" by auto
      have step: "augmentPorts deeper candidates x (p # ports) st =
          (if found then Inr (True, st2\<lparr>au_matched := (au_matched st2)[p := Some x]\<rparr>)
           else augmentPorts deeper candidates x ports st2)"
        using Some known vis d(1) by (simp add: lift_raise_def st1_def)
      show ?thesis
      proof (cases found)
        case found: True
        have e: "match_on acc (au_matched st2) (?U - {p})"
          "segs_on (au_matched st2) (?U - {p}) = segs_on (au_matched st) ?U"
          "\<forall>q. q \<notin> ?U - {p} \<longrightarrow> au_matched st2 ! q = au_matched st ! q"
          "length (au_matched st2) = n" "length (au_visited st2) = n" "unvisited (au_visited st2) \<subseteq> ?U"
          using d(2) found rem(2) Cons.prems(1,2) unfolding augmented_def by (auto simp: st1 u1 [unfolded st1])
        from match_on_assign [OF e(1), of x] e(2,4) Cons.prems(5) True vis(2) Cons.prems(1)
        have "match_on acc ((au_matched st2)[p := Some x]) ?U"
          "segs_on ((au_matched st2)[p := Some x]) ?U = insert x (segs_on (au_matched st) ?U)" by auto
        moreover have "\<forall>q. q \<notin> ?U \<longrightarrow> (au_matched st2)[p := Some x] ! q = au_matched st ! q"
          using e(3) True by (metis DiffD1 list_update_outside)
        ultimately have "augmented acc x st (True, st2\<lparr>au_matched := (au_matched st2)[p := Some x]\<rparr>) (set (p # ports))"
          using e(4-6) Cons.prems(1,2) by (simp add: augmented_def)
        with step found show ?thesis by simp
      next
        case False
        with d(2) have fail: "augmented acc y st1 (False, st2) {..<length (au_visited st)}" using Cons.prems(2) by simp
        then have s2: "au_matched st2 = au_matched st" "length (au_visited st2) = n" "unvisited (au_visited st2) \<subseteq> ?U"
          using Cons.prems(2) unfolding augmented_def by (auto simp: st1 u1 [unfolded st1])
        have "\<exists>r. augmentPorts deeper candidates x ports st2 = Inr r \<and> augmented acc x st2 r (set ports)"
        proof (rule Cons.IH)
          show "card (unvisited (au_visited st2)) \<le> k"
            using card_mono [OF finite_unvisited s2(3)] Cons.prems(3) by linarith
          show "match_on acc (au_matched st2) (unvisited (au_visited st2))"
            using match_on_subset [OF Cons.prems(4) s2(3)] s2(1) by simp
          show "x \<notin> segs_on (au_matched st2) (unvisited (au_visited st2))"
            using Cons.prems(5) s2(1,3) by (auto simp: segs_on_def)
        qed (use s2 Cons.prems in auto)
        then obtain r where r: "augmentPorts deeper candidates x ports st2 = Inr r" "augmented acc x st2 r (set ports)" by blast
        have "augmented acc x st r (insert p (set ports))"
          by (rule augmented_after_failure [OF fail st1 conjunct1 [OF True] Some Cons.prems(4,5) r(2)])
        with step False r(1) show ?thesis by simp
      qed
    qed
  qed
qed

lemma augment_augmented:
  assumes cand: "\<forall>x \<in> A. \<forall>p < n. candidates x p = Inr (acc x p)"
    and "length (au_matched st) = n" "length (au_visited st) = n" "card (unvisited (au_visited st)) < depth"
    and "match_on acc (au_matched st) (unvisited (au_visited st))"
    and "x \<notin> segs_on (au_matched st) (unvisited (au_visited st))" and "x \<in> A" "segs_on (au_matched st) {..<n} \<subseteq> A"
  shows "\<exists>r. augment depth candidates n x st = Inr r \<and> augmented acc x st r {..<n}"
  using assms(2-)
proof (induction depth arbitrary: x st)
  case (Suc depth)
  have "\<exists>r. augmentPorts (augment depth candidates n) candidates x [0..<n] st = Inr r \<and>
      augmented acc x st r (set [0..<n])"
    by (rule augmentPorts_augmented [OF cand, where k = depth]) (use Suc in auto)
  then show ?case by (simp add: atLeast_upt)
qed simp

section \<open>Correctness of the matching\<close>

definition port_assignment :: "(nat \<Rightarrow> nat \<Rightarrow> bool) \<Rightarrow> nat \<Rightarrow> nat set \<Rightarrow> (nat \<Rightarrow> nat) \<Rightarrow> bool" where
  "port_assignment acc n X f \<longleftrightarrow> inj_on f X \<and> (\<forall>x \<in> X. f x < n \<and> acc x (f x))"

lemma unvisited_fresh [simp]: "unvisited (replicate n False) = {..<n}"
  by (auto simp: unvisited_def)

text \<open>A set of ports all matched, closed under the candidates of the matched segments and of one more,
  is too small for these segments.\<close>

lemma closed_ports_too_few:
  assumes m: "match_on acc m V" and V: "finite V" "\<forall>p \<in> V. \<exists>y. m ! p = Some y \<and> (\<forall>q < n. acc y q \<longrightarrow> q \<in> V)"
    and x: "x \<notin> segs_on m V" "\<forall>q < n. acc x q \<longrightarrow> q \<in> V"
  shows "\<not> port_assignment acc n (insert x (segs_on m V)) f"
proof
  let ?X = "insert x (segs_on m V)"
  assume f: "port_assignment acc n ?X f"
  have segs: "segs_on m V = (\<lambda>p. the (m ! p)) ` V" using V(2) by (force simp: segs_on_def)
  have "inj_on (\<lambda>p. the (m ! p)) V"
    using m V(2) unfolding inj_on_def match_on_def by (metis option.sel)
  then have "card (segs_on m V) = card V" unfolding segs by (rule card_image)
  then have card: "card ?X = Suc (card V)" using x(1) V(1) by (simp add: segs)
  have "f ` ?X \<subseteq> V"
  proof
    fix p
    assume "p \<in> f ` ?X"
    then obtain y where y: "y \<in> ?X" "p = f y" by blast
    then have "f y < n" "acc y (f y)" using f by (auto simp: port_assignment_def)
    moreover have "\<forall>q < n. acc y q \<longrightarrow> q \<in> V"
    proof (cases "y = x")
      case False
      with y(1) obtain p where "p \<in> V" "m ! p = Some y" by (auto simp: segs_on_def)
      with V(2) show ?thesis by fastforce
    qed (use x(2) in simp)
    ultimately show "p \<in> V" using y(2) by blast
  qed
  then have "card (f ` ?X) \<le> card V" using V(1) by (rule card_mono [rotated])
  moreover have "card (f ` ?X) = card ?X" using f by (intro card_image) (simp add: port_assignment_def)
  ultimately show False using card by simp
qed

lemma port_assignment_subset: "port_assignment acc n X f \<Longrightarrow> Y \<subseteq> X \<Longrightarrow> port_assignment acc n Y f"
  by (auto simp: port_assignment_def intro: inj_on_subset)

lemma matchEvents_result:
  assumes cand: "\<forall>x \<in> X \<union> set xs. \<forall>p < n. candidates x p = Inr (acc x p)"
    and "length m = n" "match_on acc m {..<n}" "segs_on m {..<n} = X" "distinct xs" "set xs \<inter> X = {}"
  shows "\<exists>r. matchEvents candidates n xs m = Inr r \<and>
    (case r of
       Inr m' \<Rightarrow> length m' = n \<and> match_on acc m' {..<n} \<and> segs_on m' {..<n} = X \<union> set xs
     | Inl x \<Rightarrow> x \<in> set xs \<and> (\<nexists>f. port_assignment acc n (X \<union> set xs) f))"
  using assms
proof (induction xs arbitrary: m X)
  case (Cons x xs)
  let ?st = "\<lparr>au_matched = m, au_visited = replicate n False\<rparr>"
  have "\<exists>r. augment (Suc n) candidates n x ?st = Inr r \<and> augmented acc x ?st r {..<n}"
    by (rule augment_augmented [OF Cons.prems(1)]) (use Cons.prems(2-) in auto)
  then obtain found st where a: "augment (Suc n) candidates n x ?st = Inr (found, st)"
    "augmented acc x ?st (found, st) {..<n}" by auto
  show ?case
  proof (cases found)
    case True
    with a(2) Cons.prems(2,4) have "length (au_matched st) = n" "match_on acc (au_matched st) {..<n}"
      "segs_on (au_matched st) {..<n} = insert x X" by (simp_all add: augmented_def)
    from Cons.IH [OF _ this] Cons.prems(1,5,6) obtain r where "matchEvents candidates n xs (au_matched st) = Inr r"
      "case r of Inr m' \<Rightarrow> length m' = n \<and> match_on acc m' {..<n} \<and> segs_on m' {..<n} = insert x X \<union> set xs
       | Inl x' \<Rightarrow> x' \<in> set xs \<and> (\<nexists>f. port_assignment acc n (insert x X \<union> set xs) f)" by auto
    moreover have "insert x X \<union> set xs = X \<union> set (x # xs)" by simp
    moreover have "matchEvents candidates n (x # xs) m = matchEvents candidates n xs (au_matched st)"
      using a(1) True by simp
    ultimately show ?thesis by (cases r) auto
  next
    case False
    let ?V = "{..<n} - unvisited (au_visited st)"
    have f: "\<forall>p < n. acc x p \<longrightarrow> p \<in> ?V" "\<forall>p \<in> ?V. \<exists>y. m ! p = Some y \<and> (\<forall>q < n. acc y q \<longrightarrow> q \<in> ?V)"
      using a(2) False by (auto simp: augmented_def)
    have "match_on acc m ?V" by (rule match_on_subset [OF Cons.prems(3)]) blast
    moreover have sub: "segs_on m ?V \<subseteq> X" using Cons.prems(4) by (auto simp: segs_on_def)
    moreover have "x \<notin> segs_on m ?V" using sub Cons.prems(6) by auto
    ultimately have no: "\<not> port_assignment acc n (insert x (segs_on m ?V)) f" for f
      using closed_ports_too_few [OF _ _ f(2) _ f(1)] by simp
    have "insert x (segs_on m ?V) \<subseteq> X \<union> set (x # xs)" using sub by auto
    with no have "\<nexists>f. port_assignment acc n (X \<union> set (x # xs)) f" using port_assignment_subset by blast
    with a(1) False show ?thesis by simp
  qed
qed auto

lemma matching_exact:
  assumes "\<forall>x \<in> set xs. \<forall>p < n. candidates x p = Inr (acc x p)" and "distinct xs"
  shows "(\<exists>m. matchEvents candidates n xs (replicate n None) = Inr (Inr m) \<and> length m = n \<and>
            match_on acc m {..<n} \<and> segs_on m {..<n} = set xs) \<or>
         (\<exists>x \<in> set xs. matchEvents candidates n xs (replicate n None) = Inr (Inl x) \<and>
            (\<nexists>f. port_assignment acc n (set xs) f))"
proof -
  have empty: "match_on acc (replicate n None) {..<n}" "segs_on (replicate n None) {..<n} = {}"
    by (auto simp: match_on_def segs_on_def)
  have "\<forall>x \<in> {} \<union> set xs. \<forall>p < n. candidates x p = Inr (acc x p)" using assms(1) by simp
  from matchEvents_result [OF this length_replicate empty assms(2)] obtain r where
    r: "matchEvents candidates n xs (replicate n None) = Inr r"
    "case r of Inr m' \<Rightarrow> length m' = n \<and> match_on acc m' {..<n} \<and> segs_on m' {..<n} = {} \<union> set xs
     | Inl x \<Rightarrow> x \<in> set xs \<and> (\<nexists>f. port_assignment acc n ({} \<union> set xs) f)" by blast
  then show ?thesis by (cases r) auto
qed

end
