(* ===== verification/RegAlloc_Allocator.thy ===== *)
theory RegAlloc_Allocator
  imports RegAlloc_Sound RegAlloc_Coloring RegAlloc_Ports
begin

text \<open>
  The register allocator (\<open>RegisterAllocation/RFAllocator.cpp\<close>): grouping of the segments by bank, the
  port demand, the colouring of every bank, the matching of ports for the steady state and for the
  boundary writes, the check of same-register accesses and the final verification.  Ordered maps are
  association lists that are sorted before they are traversed.  Dereferencing a missing bank or colour,
  which the code does without a check, raises \<open>Logic_Error\<close> here.
\<close>

section \<open>Results\<close>

datatype RFAllocationStatus =
    RFA_Success | RFA_InvalidTargetDFG | RFA_InvalidStagedMapping | RFA_TargetRFContractError
  | RFA_FixedRegisterSelfOverlap | RFA_ReadPortConflict | RFA_WritePortConflict | RFA_SameAddressRWConflict
  | RFA_RegisterDepthInfeasible | RFA_BudgetExceeded | RFA_VerificationFailure | RFA_ArithmeticOverflow
  | RFA_InternalError

datatype RFAllocationDiagnosticCode =
    RFA_INVALID_TARGET_DFG | RFA_INVALID_STAGED_MAPPING | RFA_TARGET_BANK_MISSING
  | RFA_TARGET_RF_CONTRACT_INVALID | RFA_STORAGE_TIMING_INVALID | RFA_STORAGE_ARITHMETIC_OVERFLOW
  | RFA_FIXED_REGISTER_SELF_OVERLAP | RFA_READ_PORT_CONFLICT | RFA_WRITE_PORT_CONFLICT
  | RFA_SAME_ADDRESS_RW_CONFLICT | RFA_REGISTER_DEPTH_INFEASIBLE | RFA_COLORING_BUDGET_EXCEEDED
  | RFA_UNKNOWN_STORAGE_SEGMENT | RFA_DUPLICATE_STORAGE_ALLOCATION | RFA_UNALLOCATED_STORAGE_SEGMENT
  | RFA_INVALID_REGISTER_INDEX | RFA_BANK_DOMAIN_MISMATCH | RFA_FINAL_VERIFICATION_FAILED | RFA_INTERNAL_ERROR

record RFAllocationDiagnostic =
  rd_code :: RFAllocationDiagnosticCode
  rd_edge :: "TargetEdgeId option"
  rd_segment :: "StorageSegmentId option"
  rd_tile :: "TileCoord option"
  rd_bank :: "string option"
  rd_reg :: "nat option"
  rd_conflictingSegment :: "StorageSegmentId option"

record RFAllocationResult =
  rr_status :: RFAllocationStatus
  rr_mapping :: "RFAllocatedMapping option"
  rr_stats :: RFAllocationStats
  rr_diagnostics :: "RFAllocationDiagnostic list"

text \<open>An early return or an exception.\<close>

datatype alloc_stop =
    Alloc_Raises exn
  | Alloc_Returns RFAllocationResult

definition rfa_diag :: "RFAllocationDiagnosticCode \<Rightarrow> RFAllocationDiagnostic" where
  "rfa_diag c = \<lparr>rd_code = c, rd_edge = None, rd_segment = None, rd_tile = None, rd_bank = None, rd_reg = None,
     rd_conflictingSegment = None\<rparr>"

definition rfa_stop :: "RFAllocationStatus \<Rightarrow> RFAllocationDiagnostic \<Rightarrow> RFAllocationStats \<Rightarrow> alloc_stop + 'a" where
  "rfa_stop status d stats = Inl (Alloc_Returns \<lparr>rr_status = status, rr_mapping = None, rr_stats = stats, rr_diagnostics = [d]\<rparr>)"

definition empty_alloc_stats :: RFAllocationStats where
  "empty_alloc_stats = \<lparr>rs_storageSegments = 0, rs_dataSegments = 0, rs_predicateSegments = 0, rs_explicitHoldSegments = 0,
     rs_terminalSlackSegments = 0, rs_coalescedOrigins = 0, rs_conflictEdges = 0, rs_coloringDecisions = 0,
     rs_coloringBacktracks = 0, rs_maxRegistersUsedOnAnyBank = 0, rs_maxReadPortsUsed = 0, rs_maxWritePortsUsed = 0\<rparr>"

definition lift_alloc :: "'a result \<Rightarrow> alloc_stop + 'a" where
  "lift_alloc r = (case r of Inl x \<Rightarrow> Inl (Alloc_Raises x) | Inr a \<Rightarrow> Inr a)"

section \<open>Banks and groups\<close>

type_synonym BankKey = "(nat \<times> nat) \<times> string"

definition bank_key :: "StorageSegment \<Rightarrow> RegisterFileDesc \<Rightarrow> BankKey" where
  "bank_key s bank = ((tile_row (sg_tile s), tile_col (sg_tile s)), rf_id bank)"

definition key_tile :: "BankKey \<Rightarrow> TileCoord" where
  "key_tile key = \<lparr>tile_row = fst (fst key), tile_col = snd (fst key)\<rparr>"

text \<open>Appending to the entry of an ordered map.\<close>

fun push_group :: "'k \<Rightarrow> 'v \<Rightarrow> ('k \<times> 'v list) list \<Rightarrow> ('k \<times> 'v list) list" where
  "push_group k v [] = [(k, [v])]"
| "push_group k v (x # xs) = (if fst x = k then (k, snd x @ [v]) # xs else x # push_group k v xs)"

definition bank_at :: "RegisterFileDesc option list \<Rightarrow> SegmentIndex \<Rightarrow> alloc_stop + RegisterFileDesc" where
  "bank_at banks i =
     (if i < length banks then (case banks ! i of None \<Rightarrow> Inl (Alloc_Raises Logic_Error) | Some b \<Rightarrow> Inr b)
      else Inl (Alloc_Raises Logic_Error))"

definition groupSegment ::
  "TargetModel \<Rightarrow> nat \<Rightarrow> RFAllocationStats \<Rightarrow> RegisterFileDesc option list \<times> (BankKey \<times> SegmentIndex list) list \<Rightarrow>
   StorageSegment \<Rightarrow> alloc_stop + (RegisterFileDesc option list \<times> (BankKey \<times> SegmentIndex list) list)" where
  "groupSegment t ii stats st s =
     (let diag = (\<lambda>c. (rfa_diag c)\<lparr>rd_edge := Some (sg_edge s), rd_segment := Some (sg_id s), rd_tile := Some (sg_tile s)\<rparr>) in
      case segmentBank t s of
        None \<Rightarrow> rfa_stop RFA_TargetRFContractError (diag RFA_TARGET_BANK_MISSING) stats
      | Some bank \<Rightarrow>
          if rf_allocatableIndices bank = [] then
            rfa_stop RFA_TargetRFContractError ((diag RFA_TARGET_RF_CONTRACT_INVALID)\<lparr>rd_bank := Some (rf_id bank)\<rparr>) stats
          else if fixedRegisterSelfOverlaps s ii (rf_sameAddressReadWritePolicy bank) then
            rfa_stop RFA_FixedRegisterSelfOverlap
              ((diag RFA_FIXED_REGISTER_SELF_OVERLAP)\<lparr>rd_bank := Some (rf_id bank)\<rparr>) stats
          else Inr ((fst st)[sg_id s := Some bank], push_group (bank_key s bank) (sg_id s) (snd st)))"

section \<open>Port demand\<close>

record DemandCounts =
  pd_reads :: "BankKey \<times> nat \<Rightarrow> nat"
  pd_writes :: "BankKey \<times> nat \<Rightarrow> nat"
  pd_stats :: RFAllocationStats

definition portDemand ::
  "nat \<Rightarrow> RegisterFileDesc option list \<Rightarrow> DemandCounts \<Rightarrow> StorageSegment \<Rightarrow> alloc_stop + DemandCounts" where
  "portDemand ii banks st s =
     bindR (bank_at banks (sg_id s)) (\<lambda>bank.
       let key = bank_key s bank;
           wkey = (key, sg_writeTime s mod ii);
           rkey = (key, sg_readTime s mod ii);
           writes = (pd_writes st)(wkey := pd_writes st wkey + 1);
           reads = (pd_reads st)(rkey := pd_reads st rkey + 1);
           stats = (pd_stats st)\<lparr>rs_maxReadPortsUsed := max (rs_maxReadPortsUsed (pd_stats st)) (reads rkey),
                     rs_maxWritePortsUsed := max (rs_maxWritePortsUsed (pd_stats st)) (writes wkey)\<rparr>;
           diag = (\<lambda>c. (rfa_diag c)\<lparr>rd_edge := Some (sg_edge s), rd_segment := Some (sg_id s),
                     rd_tile := Some (sg_tile s), rd_bank := Some (rf_id bank)\<rparr>)
       in if writes wkey > rf_writePorts bank then
            rfa_stop RFA_WritePortConflict (diag RFA_WRITE_PORT_CONFLICT) stats
          else if reads rkey > rf_readPorts bank then
            rfa_stop RFA_ReadPortConflict (diag RFA_READ_PORT_CONFLICT) stats
          else Inr \<lparr>pd_reads = reads, pd_writes = writes, pd_stats = stats\<rparr>)"

section \<open>Colouring of the banks\<close>

fun index_pairs :: "'a list \<Rightarrow> ('a \<times> 'a) list" where
  "index_pairs [] = []"
| "index_pairs (x # xs) = map (Pair x) xs @ index_pairs xs"

definition mark_conflict :: "SegmentIndex \<Rightarrow> SegmentIndex \<Rightarrow> ConflictGraph \<Rightarrow> ConflictGraph" where
  "mark_conflict u v graph =
     (let graph' = graph[v := (graph ! v)[u := True]] in graph'[u := (graph' ! u)[v := True]])"

definition conflictStep ::
  "StorageRequirements \<Rightarrow> SameAddressReadWritePolicy \<Rightarrow> ConflictGraph \<times> RFAllocationStats \<Rightarrow>
   SegmentIndex \<times> SegmentIndex \<Rightarrow> alloc_stop + (ConflictGraph \<times> RFAllocationStats)" where
  "conflictStep req policy st uv =
     (case uv of (u, v) \<Rightarrow>
        bindR (lift_alloc (sr_segment req u)) (\<lambda>a.
        bindR (lift_alloc (sr_segment req v)) (\<lambda>b.
          if periodicLifetimesConflict a b (sr_ii req) policy then
            Inr (mark_conflict u v (fst st), (snd st)\<lparr>rs_conflictEdges := rs_conflictEdges (snd st) + 1\<rparr>)
          else Inr st)))"

definition reset_colors :: "SegmentIndex list \<Rightarrow> Coloring \<Rightarrow> Coloring" where
  "reset_colors vertices colors = fold (\<lambda>v cs. cs[v := None]) vertices colors"

definition count_used :: "SegmentIndex list \<Rightarrow> ColorState \<Rightarrow> alloc_stop + (Coloring \<times> RFAllocationStats)" where
  "count_used vertices st =
     (if \<exists>v \<in> set vertices. co_colors st ! v = None then Inl (Alloc_Raises Logic_Error)
      else Inr (co_colors st, (co_stats st)\<lparr>rs_maxRegistersUsedOnAnyBank :=
             max (rs_maxRegistersUsedOnAnyBank (co_stats st))
                 (wrap32 (card (set (map (\<lambda>v. the (co_colors st ! v)) vertices))))\<rparr>))"

definition colorBank ::
  "StorageRequirements \<Rightarrow> RFAllocationBudget \<Rightarrow> RegisterFileDesc \<Rightarrow> BankKey \<Rightarrow> SegmentIndex list \<Rightarrow> ConflictGraph \<Rightarrow>
   ColorState \<Rightarrow> alloc_stop + ColorState" where
  "colorBank req budget bank key vertices graph st =
     (let diag = (\<lambda>c. (rfa_diag c)\<lparr>rd_tile := Some (key_tile key), rd_bank := Some (snd key)\<rparr>) in
      case greedyColors vertices graph bank budget vertices st of
        Inl (v, st') \<Rightarrow>
          bindR (lift_alloc (sr_segment req v)) (\<lambda>s.
            rfa_stop RFA_BudgetExceeded
              ((diag RFA_COLORING_BUDGET_EXCEEDED)\<lparr>rd_edge := Some (sg_edge s), rd_segment := Some v\<rparr>) (co_stats st'))
      | Inr (True, st') \<Rightarrow> Inr st'
      | Inr (False, st') \<Rightarrow>
          (case colorExact (Suc (length vertices)) vertices graph bank budget
                  (st'\<lparr>co_colors := reset_colors vertices (co_colors st'), co_exceeded := False\<rparr>) of
             None \<Rightarrow> Inl (Alloc_Raises Logic_Error)
           | Some (True, st'') \<Rightarrow> Inr st''
           | Some (False, st'') \<Rightarrow>
               if co_exceeded st'' then
                 rfa_stop RFA_BudgetExceeded (diag RFA_COLORING_BUDGET_EXCEEDED) (co_stats st'')
               else
                 rfa_stop RFA_RegisterDepthInfeasible (diag RFA_REGISTER_DEPTH_INFEASIBLE) (co_stats st'')))"

definition colorGroup ::
  "StorageRequirements \<Rightarrow> RFAllocationBudget \<Rightarrow> RegisterFileDesc option list \<Rightarrow> Coloring \<times> RFAllocationStats \<Rightarrow>
   BankKey \<times> SegmentIndex list \<Rightarrow> alloc_stop + (Coloring \<times> RFAllocationStats)" where
  "colorGroup req budget banks st entry =
     (case entry of (key, vertices) \<Rightarrow>
        let n = length (sr_segments req) in
        bindR (bank_at banks (hd vertices)) (\<lambda>bank.
        bindR (foldR (conflictStep req (rf_sameAddressReadWritePolicy bank))
                 (replicate n (replicate n False), snd st) (index_pairs vertices)) (\<lambda>(graph, stats).
        bindR (colorBank req budget bank key vertices graph
                 \<lparr>co_colors = fst st, co_stats = stats, co_exceeded = False\<rparr>)
          (count_used vertices))))"

section \<open>Ports\<close>

definition allocate_segment ::
  "RegisterFileDesc option list \<Rightarrow> Coloring \<Rightarrow> StorageAllocation list \<Rightarrow> StorageSegment \<Rightarrow> alloc_stop + StorageAllocation list" where
  "allocate_segment banks colors as s =
     bindR (bank_at banks (sg_id s)) (\<lambda>bank.
       case colors ! sg_id s of
         None \<Rightarrow> Inl (Alloc_Raises Logic_Error)
       | Some c \<Rightarrow> Inr (as @ [\<lparr>sa_segment = sg_id s,
             sa_reg = \<lparr>pr_tile = sg_tile s, pr_bank = rf_id bank, pr_index = c\<rparr>,
             sa_readPort = 0, sa_writePort = 0, sa_boundaryWritePort = None\<rparr>]))"

type_synonym PortEvents = "((BankKey \<times> nat) \<times> SegmentIndex list) list"

definition portEvent ::
  "RegisterFileDesc option list \<Rightarrow> (StorageSegment \<Rightarrow> nat) \<Rightarrow> PortEvents \<Rightarrow> StorageSegment \<Rightarrow> alloc_stop + PortEvents" where
  "portEvent banks slot events s =
     bindR (bank_at banks (sg_id s)) (\<lambda>bank. Inr (push_group (bank_key s bank, slot s) (sg_id s) events))"

definition writeCandidate ::
  "TargetDFG \<Rightarrow> TargetModel \<Rightarrow> StagedMapping \<Rightarrow> StorageRequirements \<Rightarrow> RegisterFileDesc \<Rightarrow> SegmentIndex \<Rightarrow> nat \<Rightarrow> bool result" where
  "writeCandidate g t sm req bank segmentId port =
     bindR (sr_segment req segmentId) (\<lambda>s.
     bindR (storageWriteSource g t sm s) (\<lambda>source. Inr (portAccepts bank port source)))"

definition boundaryCandidate ::
  "TargetDFG \<Rightarrow> StorageRequirements \<Rightarrow> RegisterFileDesc \<Rightarrow> SegmentIndex \<Rightarrow> nat \<Rightarrow> bool result" where
  "boundaryCandidate g req bank segmentId port =
     bindR (sr_segment req segmentId) (\<lambda>s.
     bindR (boundaryWriteSource g s) (\<lambda>source. Inr (portAccepts bank port source)))"

definition lift_augment :: "augment_stop + 'a \<Rightarrow> alloc_stop + 'a" where
  "lift_augment r =
     (case r of
        Inl (Augment_Raises x) \<Rightarrow> Inl (Alloc_Raises x)
      | Inl Augment_Depth \<Rightarrow> Inl (Alloc_Raises Logic_Error)
      | Inr a \<Rightarrow> Inr a)"

text \<open>The matching of one slot: the ports are written back to the allocations of the matched segments.\<close>

definition store_ports ::
  "(nat \<Rightarrow> StorageAllocation \<Rightarrow> StorageAllocation) \<Rightarrow> PortMatching \<Rightarrow> StorageAllocation list \<Rightarrow> StorageAllocation list" where
  "store_ports set_port matched as =
     foldl (\<lambda>as (port, x). case x of None \<Rightarrow> as | Some i \<Rightarrow> as[i := set_port port (as ! i)]) as (enumerate 0 matched)"

definition assignSlot ::
  "StorageRequirements \<Rightarrow> RegisterFileDesc option list \<Rightarrow> (RegisterFileDesc \<Rightarrow> nat) \<Rightarrow>
   (RegisterFileDesc \<Rightarrow> SegmentIndex \<Rightarrow> nat \<Rightarrow> bool result) \<Rightarrow> (nat \<Rightarrow> StorageAllocation \<Rightarrow> StorageAllocation) \<Rightarrow>
   RFAllocationStatus \<Rightarrow> RFAllocationDiagnosticCode \<Rightarrow> RFAllocationStats \<Rightarrow>
   StorageAllocation list \<Rightarrow> (BankKey \<times> nat) \<times> SegmentIndex list \<Rightarrow> alloc_stop + StorageAllocation list" where
  "assignSlot req banks capacity candidates set_port status c stats as event =
     (case event of ((key, slot), ids) \<Rightarrow>
        bindR (bank_at banks (hd ids)) (\<lambda>bank.
        bindR (lift_augment (matchEvents (candidates bank) (capacity bank) (sort ids)
                 (replicate (capacity bank) None))) (\<lambda>r.
          case r of
            Inl segmentId \<Rightarrow>
              bindR (lift_alloc (sr_segment req segmentId)) (\<lambda>s.
                rfa_stop status ((rfa_diag c)\<lparr>rd_edge := Some (sg_edge s), rd_segment := Some segmentId,
                  rd_tile := Some (key_tile key), rd_bank := Some (snd key)\<rparr>) stats)
          | Inr matched \<Rightarrow> Inr (store_ports set_port matched as))))"

definition boundarySlot :: "nat \<Rightarrow> StorageSegment \<Rightarrow> nat" where
  "boundarySlot ii s =
     (let boundaryTime = if sg_writeTime s \<ge> ii then sg_writeTime s - ii else sg_writeTime s in boundaryTime mod ii)"

definition boundaryEvent ::
  "TargetDFG \<Rightarrow> nat \<Rightarrow> RegisterFileDesc option list \<Rightarrow> PortEvents \<Rightarrow> StorageSegment \<Rightarrow> alloc_stop + PortEvents" where
  "boundaryEvent g ii banks events s =
     bindR (lift_alloc (boundaryWriteSource g s)) (\<lambda>source.
       if source = '''' then Inr events else portEvent banks (boundarySlot ii) events s)"

definition assignAllPorts ::
  "TargetDFG \<Rightarrow> TargetModel \<Rightarrow> StagedMapping \<Rightarrow> StorageRequirements \<Rightarrow> RegisterFileDesc option list \<Rightarrow> RFAllocationStats \<Rightarrow>
   StorageAllocation list \<Rightarrow> alloc_stop + StorageAllocation list" where
  "assignAllPorts g t sm req banks stats as =
     (let segments = sr_segments req; ii = sr_ii req in
      bindR (foldR (portEvent banks (\<lambda>s. sg_readTime s mod ii)) [] segments) (\<lambda>readEvents.
      bindR (foldR (portEvent banks (\<lambda>s. sg_writeTime s mod ii)) [] segments) (\<lambda>writeEvents.
      bindR (foldR (assignSlot req banks rf_readPorts (\<lambda>_ _ _. Inr True) (\<lambda>p a. a\<lparr>sa_readPort := p\<rparr>)
               RFA_ReadPortConflict RFA_READ_PORT_CONFLICT stats) as (sort_key fst readEvents)) (\<lambda>as1.
      bindR (foldR (assignSlot req banks rf_writePorts (writeCandidate g t sm req) (\<lambda>p a. a\<lparr>sa_writePort := p\<rparr>)
               RFA_WritePortConflict RFA_WRITE_PORT_CONFLICT stats) as1 (sort_key fst writeEvents)) (\<lambda>as2.
      bindR (foldR (boundaryEvent g ii banks) [] segments) (\<lambda>boundaryEvents.
        foldR (assignSlot req banks rf_writePorts (boundaryCandidate g req) (\<lambda>p a. a\<lparr>sa_boundaryWritePort := Some p\<rparr>)
               RFA_WritePortConflict RFA_WRITE_PORT_CONFLICT stats) as2 (sort_key fst boundaryEvents)))))))"

section \<open>Same-register accesses\<close>

type_synonym AccessKey = "(nat \<times> nat) \<times> string \<times> nat \<times> nat"

definition access_key :: "StorageAllocation \<Rightarrow> nat \<Rightarrow> AccessKey" where
  "access_key a slot =
     ((tile_row (pr_tile (sa_reg a)), tile_col (pr_tile (sa_reg a))), pr_bank (sa_reg a), pr_index (sa_reg a), slot)"

definition accessBank :: "TargetModel \<Rightarrow> AccessKey \<Rightarrow> RegisterFileDesc option" where
  "accessBank t key =
     (case key of ((row, col), bank, _, _) \<Rightarrow>
        registerBank t (if bank = rf_id (tm_predicateRF t) then Bank_Predicate else Bank_Data) row col)"

fun checkAccesses ::
  "TargetModel \<Rightarrow> RFAllocationStats \<Rightarrow> AccessKey list \<Rightarrow> AccessKey list \<Rightarrow> AccessKey list \<Rightarrow> alloc_stop + unit" where
  "checkAccesses t stats writes reads [] = Inr ()"
| "checkAccesses t stats writes reads (key # keys) =
     (let d = (case key of ((row, col), bank, index, _) \<Rightarrow>
            (rfa_diag RFA_SAME_ADDRESS_RW_CONFLICT)\<lparr>rd_tile := Some \<lparr>tile_row = row, tile_col = col\<rparr>, rd_bank := Some bank,
              rd_reg := Some index\<rparr>)
      in if count_list writes key > 1 then rfa_stop RFA_SameAddressRWConflict d stats
         else if count_list reads key \<noteq> 0 \<and> count_list writes key \<noteq> 0 \<and>
           (case accessBank t key of None \<Rightarrow> False | Some bank \<Rightarrow> rf_sameAddressReadWritePolicy bank \<noteq> ReadOldThenWriteNew)
         then rfa_stop RFA_SameAddressRWConflict d stats
         else checkAccesses t stats writes reads keys)"

definition checkAllAccesses ::
  "TargetModel \<Rightarrow> StorageRequirements \<Rightarrow> RFAllocationStats \<Rightarrow> StorageAllocation list \<Rightarrow> alloc_stop + unit" where
  "checkAllAccesses t req stats as =
     (let segments = sr_segments req; ii = sr_ii req;
          writes = map (\<lambda>s. access_key (as ! sg_id s) (sg_writeTime s mod ii)) segments;
          reads = map (\<lambda>s. access_key (as ! sg_id s) (sg_readTime s mod ii)) segments
      in checkAccesses t stats writes reads (sort (remdups (writes @ reads))))"

section \<open>The allocator\<close>

definition storage_status :: "StorageRequirementStatus \<Rightarrow> RFAllocationStatus" where
  "storage_status status =
     (if status = SRS_InvalidTargetDFG then RFA_InvalidTargetDFG
      else if status = SRS_InvalidStagedMapping then RFA_InvalidStagedMapping
      else if status = SRS_TargetRFContractError then RFA_TargetRFContractError
      else if status = SRS_ArithmeticOverflow then RFA_ArithmeticOverflow
      else RFA_InternalError)"

definition storage_code :: "StorageRequirementDiagnosticCode \<Rightarrow> RFAllocationDiagnosticCode" where
  "storage_code c =
     (if c = SRD_TARGET_BANK_MISSING then RFA_TARGET_BANK_MISSING
      else if c = SRD_TARGET_RF_CONTRACT_INVALID then RFA_TARGET_RF_CONTRACT_INVALID
      else if c = SRD_STORAGE_ARITHMETIC_OVERFLOW then RFA_STORAGE_ARITHMETIC_OVERFLOW
      else if c = SRD_STORAGE_TIMING_INVALID then RFA_STORAGE_TIMING_INVALID
      else if c = SRD_INVALID_TARGET_DFG then RFA_INVALID_TARGET_DFG
      else RFA_INVALID_STAGED_MAPPING)"

definition storage_stop_result :: "StorageRequirementResult \<Rightarrow> RFAllocationResult" where
  "storage_stop_result r = \<lparr>rr_status = storage_status (srr_status r), rr_mapping = None, rr_stats = empty_alloc_stats,
     rr_diagnostics = map (\<lambda>d. (rfa_diag (storage_code (srd_code d)))\<lparr>rd_edge := srd_edge d, rd_segment := srd_segment d\<rparr>)
       (srr_diagnostics r)\<rparr>"

definition initial_alloc_stats :: "StorageRequirements \<Rightarrow> StorageRequirementStats \<Rightarrow> RFAllocationStats" where
  "initial_alloc_stats req su = empty_alloc_stats\<lparr>rs_storageSegments := length (sr_segments req),
     rs_dataSegments := su_dataSegments su, rs_predicateSegments := su_predicateSegments su,
     rs_explicitHoldSegments := su_explicitHoldSegments su, rs_terminalSlackSegments := su_terminalSlackSegments su,
     rs_coalescedOrigins := su_coalescedOrigins su\<rparr>"

definition finishAllocation ::
  "TargetDFG \<Rightarrow> TargetModel \<Rightarrow> StagedMapping \<Rightarrow> StorageRequirements \<Rightarrow> RFAllocationStats \<Rightarrow> StorageAllocation list \<Rightarrow>
   RFAllocationResult" where
  "finishAllocation g t sm req stats as =
     (case bindR (mk_RFAllocatedMapping sm req as) (\<lambda>allocated.
             bindR (rfv_verify g t allocated) (\<lambda>verification. Inr (allocated, verification))) of
        Inl _ \<Rightarrow> \<lparr>rr_status = RFA_InternalError, rr_mapping = None, rr_stats = stats,
                  rr_diagnostics = [rfa_diag RFA_INTERNAL_ERROR]\<rparr>
      | Inr (allocated, verification) \<Rightarrow>
          if verification \<noteq> [] then
            \<lparr>rr_status = RFA_VerificationFailure, rr_mapping = None, rr_stats = stats,
             rr_diagnostics = [rfa_diag RFA_FINAL_VERIFICATION_FAILED]\<rparr>
          else \<lparr>rr_status = RFA_Success, rr_mapping = Some allocated, rr_stats = stats, rr_diagnostics = []\<rparr>)"

definition allocateRequirements ::
  "TargetDFG \<Rightarrow> TargetModel \<Rightarrow> StagedMapping \<Rightarrow> RFAllocationBudget \<Rightarrow> StorageRequirements \<Rightarrow> RFAllocationStats \<Rightarrow>
   alloc_stop + RFAllocationResult" where
  "allocateRequirements g t sm budget req stats =
     (let segments = sr_segments req; ii = sr_ii req; n = length segments in
      bindR (foldR (groupSegment t ii stats) (replicate n None, []) segments) (\<lambda>(banks, groups).
      bindR (foldR (portDemand ii banks) \<lparr>pd_reads = (\<lambda>_. 0), pd_writes = (\<lambda>_. 0), pd_stats = stats\<rparr> segments) (\<lambda>demand.
      bindR (foldR (colorGroup req budget banks) (replicate n None, pd_stats demand) (sort_key fst groups)) (\<lambda>(colors, stats1).
      bindR (foldR (allocate_segment banks colors) [] segments) (\<lambda>as.
      bindR (assignAllPorts g t sm req banks stats1 as) (\<lambda>as1.
      bindR (checkAllAccesses t req stats1 as1) (\<lambda>_.
        Inr (finishAllocation g t sm req stats1 as1))))))))"

definition rfa_allocate ::
  "TargetDFG \<Rightarrow> TargetModel \<Rightarrow> StagedMapping \<Rightarrow> RFAllocationBudget \<Rightarrow> RFAllocationResult result" where
  "rfa_allocate g t sm budget =
     bindR (tdfg_verify g t None) (\<lambda>targetReport.
       if targetReport \<noteq> [] then
         Inr \<lparr>rr_status = RFA_InvalidTargetDFG, rr_mapping = None, rr_stats = empty_alloc_stats,
              rr_diagnostics = [rfa_diag RFA_INVALID_TARGET_DFG]\<rparr>
       else bindR (storage_analyze g t sm) (\<lambda>r.
         if \<not> srr_ok r then Inr (storage_stop_result r)
         else
           let req = the (srr_requirements r) in
           case allocateRequirements g t sm budget req (initial_alloc_stats req (srr_stats r)) of
             Inl (Alloc_Raises x) \<Rightarrow> Inl x
           | Inl (Alloc_Returns result) \<Rightarrow> Inr result
           | Inr result \<Rightarrow> Inr result))"

end
