(* ===== verification/RegAlloc_Exact.thy ===== *)
theory RegAlloc_Exact
  imports RegAlloc_Allocator
begin

text \<open>
  Correctness of the allocator.  A successful allocation is accepted by the verifier, and a report that
  a lifetime overlaps itself, that the read ports do not suffice or that the registers do not suffice
  is final: no allocation of the same staged mapping would be accepted.
\<close>

section \<open>Segment ids\<close>

definition dense_ids :: "StorageSegment list \<Rightarrow> bool" where
  "dense_ids segs \<longleftrightarrow> map sg_id segs = map wrap32 [0..<length segs]"

lemma appendSegment_ids:
  assumes "dense_ids (fst st)"
  shows "dense_ids (fst (appendSegment edge tile domain w r origin c st))"
proof (cases "c \<and> fst st \<noteq> [] \<and> coalesces edge tile (bankDomain domain) w (last (fst st))")
  case True
  then obtain ss s where st: "fst st = ss @ [s]" by (metis append_butlast_last_id)
  with assms True show ?thesis by (simp add: appendSegment_def Let_def dense_ids_def)
next
  case False
  with assms show ?thesis by (auto simp: appendSegment_def Let_def dense_ids_def)
qed

lemma storageAction_ids:
  "storageAction edge domain start st item = Inr st' \<Longrightarrow> dense_ids (fst (fst st)) \<Longrightarrow> dense_ids (fst (fst st'))"
  by (auto simp: storageAction_def appendSegment_ids split: TransportAction.splits option.splits if_splits)

lemma storageSlack_ids:
  "storageSlack sm e dep domain a b st = Inr st' \<Longrightarrow> dense_ids (fst (fst st)) \<Longrightarrow> dense_ids (fst st')"
  by (auto simp: storageSlack_def Let_def appendSegment_ids split: option.splits if_splits sum.splits)

lemma storageEdge_ids:
  assumes "storageEdge sm st e = Inr st'" and "dense_ids (fst st)"
  shows "dense_ids (fst st')"
proof (cases "te_kind e = Kind_Memory")
  case False
  with assms(1) obtain dep a b st1 and plan :: TransportPlan where
    s: "foldR (storageAction (te_id e) (tp_domain plan) a) (st, False) (enumerate 0 (tp_actions plan)) = Inr st1"
    "storageSlack sm e dep (tp_domain plan) a b st1 = Inr st'"
    by (auto simp: storageEdge_def bindR_eq_Inr split: sum.splits option.splits)
  have "dense_ids (fst (fst st1))"
    by (rule foldR_invariant [where I = "\<lambda>st. dense_ids (fst (fst st))", OF s(1)])
       (use assms(2) storageAction_ids in auto)
  with storageSlack_ids [OF s(2)] show ?thesis by blast
qed (use assms in \<open>simp add: storageEdge_def\<close>)

lemma storage_ids:
  assumes "storage_analyze g t sm = Inr r" and "srr_requirements r = Some req"
  shows "dense_ids (sr_segments req)" and "sr_ii req = mm_ii (sm_modulo sm)"
proof -
  from assms obtain st where st: "storageEdges g sm = Inr st"
    "req = \<lparr>sr_ii = mm_ii (sm_modulo sm), sr_segments = fst st\<rparr>"
    by (auto simp: storage_analyze_def storage_failure_def bindR_eq_Inr
        split: if_splits sum.splits storage_stop.splits exn.splits option.splits)
  have "dense_ids (fst st)"
    by (rule foldR_invariant [where I = "\<lambda>st. dense_ids (fst st)", OF st(1) [unfolded storageEdges_def]])
       (use storageEdge_ids in \<open>auto simp: dense_ids_def\<close>)
  then show "dense_ids (sr_segments req)" "sr_ii req = mm_ii (sm_modulo sm)" by (simp_all add: st(2))
qed

lemma dense_ids_nth:
  assumes "dense_ids segs" and "length segs \<le> 4294967296"
  shows "k < length segs \<Longrightarrow> sg_id (segs ! k) = k" and "distinct (map sg_id segs)" and "\<forall>s \<in> set segs. sg_id s < length segs"
proof -
  have ids: "map sg_id segs = [0..<length segs]"
    using assms by (auto simp: dense_ids_def intro!: map_idI)
  show "k < length segs \<Longrightarrow> sg_id (segs ! k) = k" using ids by (metis add_0 length_map nth_map nth_upt)
  show "distinct (map sg_id segs)" by (simp add: ids)
  have "sg_id ` set segs = {0..<length segs}" using ids by (metis atLeastLessThan_upt set_map)
  then show "\<forall>s \<in> set segs. sg_id s < length segs" by auto
qed

section \<open>Ordered maps of lists\<close>

definition grouped :: "('a \<Rightarrow> 'k) \<Rightarrow> ('a \<Rightarrow> 'v) \<Rightarrow> 'a list \<Rightarrow> ('k \<times> 'v list) list \<Rightarrow> bool" where
  "grouped key v xs groups \<longleftrightarrow>
     distinct (map fst groups) \<and>
     (\<forall>(k, vs) \<in> set groups. vs = map v (filter (\<lambda>x. key x = k) xs) \<and> vs \<noteq> []) \<and>
     (\<forall>x \<in> set xs. key x \<in> fst ` set groups)"

lemma push_group_keys: "fst ` set (push_group k v groups) = insert k (fst ` set groups)"
  by (induction groups) auto

lemma push_group_distinct: "distinct (map fst groups) \<Longrightarrow> distinct (map fst (push_group k v groups))"
  by (induction groups) (auto simp: push_group_keys image_iff [symmetric])

lemma push_group_entry:
  "distinct (map fst groups) \<Longrightarrow> (k', vs) \<in> set (push_group k v groups) \<longleftrightarrow>
   (if k' = k then vs = (case map_of groups k of None \<Rightarrow> [v] | Some ws \<Rightarrow> ws @ [v]) else (k', vs) \<in> set groups)"
proof (induction groups)
  case (Cons x groups)
  show ?case
  proof (cases "fst x = k")
    case True
    with Cons.prems have "(k, ws) \<notin> set groups" for ws by (force simp: image_iff)
    with True show ?thesis by (cases x) auto
  next
    case False
    with Cons show ?thesis by (cases x) auto
  qed
qed auto

lemma grouped_push:
  assumes "grouped key v xs groups"
  shows "grouped key v (xs @ [x]) (push_group (key x) (v x) groups)"
proof -
  have d: "distinct (map fst groups)" using assms by (simp add: grouped_def)
  have old: "(case map_of groups (key x) of None \<Rightarrow> [v x] | Some ws \<Rightarrow> ws @ [v x]) = map v (filter (\<lambda>y. key y = key x) xs) @ [v x]"
  proof (cases "map_of groups (key x)")
    case None
    then have "key x \<notin> fst ` set groups" by (simp add: map_of_eq_None_iff)
    with assms have "\<forall>y \<in> set xs. key y \<noteq> key x" unfolding grouped_def by metis
    then have "filter (\<lambda>y. key y = key x) xs = []" by (simp add: filter_empty_conv)
    with None show ?thesis by simp
  next
    case (Some ws)
    from map_of_SomeD [OF this] assms have "ws = map v (filter (\<lambda>y. key y = key x) xs)" by (auto simp: grouped_def)
    with Some show ?thesis by simp
  qed
  have "vs = map v (filter (\<lambda>y. key y = k) (xs @ [x])) \<and> vs \<noteq> []" if "(k, vs) \<in> set (push_group (key x) (v x) groups)" for k vs
    using that assms unfolding push_group_entry [OF d] old by (auto simp: grouped_def split: if_splits)
  then show ?thesis
    using assms push_group_distinct [OF d] by (auto simp: grouped_def push_group_keys)
qed

lemma grouped_Nil: "grouped key v [] []"
  by (simp add: grouped_def)

section \<open>An accepted allocation lets every phase pass\<close>

text \<open>The facts about an allocation the verifier accepts that the phases need: what it assigns to each
  segment, that the port uses differ, and that segments in one register do not conflict.\<close>

definition bank_of :: "TargetModel \<Rightarrow> StorageSegment \<Rightarrow> RegisterFileDesc" where
  "bank_of t s = the (segmentBank t s)"

definition served :: "TargetModel \<Rightarrow> nat \<Rightarrow> StorageSegment list \<Rightarrow> RFAllocatedMapping \<Rightarrow> bool" where
  "served t ii segs m \<longleftrightarrow>
     (\<forall>s \<in> set segs. segmentBank t s = Some (bank_of t s) \<and>
        pr_tile (sa_reg (alloc_of m s)) = sg_tile s \<and> pr_bank (sa_reg (alloc_of m s)) = rf_id (bank_of t s) \<and>
        pr_index (sa_reg (alloc_of m s)) \<in> set (rf_allocatableIndices (bank_of t s)) \<and>
        sa_readPort (alloc_of m s) < rf_readPorts (bank_of t s) \<and>
        sa_writePort (alloc_of m s) < rf_writePorts (bank_of t s) \<and>
        \<not> fixedRegisterSelfOverlaps s ii (rf_sameAddressReadWritePolicy (bank_of t s))) \<and>
     distinct (map (read_use m ii) segs) \<and> distinct (map (write_use m ii) segs) \<and>
     sorted_wrt (pair_ok t m ii) segs"

lemma verified_served:
  assumes "rfv_verify g t m = Inr []"
  shows "served t (sr_ii (ra_requirements m)) (sr_segments (ra_requirements m)) m"
proof -
  let ?segs = "sr_segments (ra_requirements m)" and ?ii = "sr_ii (ra_requirements m)"
  note p = rfv_phases [OF assms]
  from p(4) obtain ps ds1 events where
    ports: "foldR (verifyPorts g t (ra_staged m) ?ii (ra_allocations m)) (empty_ports, []) ?segs = Inr (ps, ds1)"
    and pairs: "verifyPairs t ?ii (ra_allocations m)
      (ds1 @ concat (map (verifyRegisterEvent t events) (remdups (fst events @ snd events)))) ?segs = Inr []"
    by (auto simp: verifyAccesses_def bindR_eq_Inr split: prod.splits)
  from verifyPairs_silent [OF pairs] have ds1: "ds1 = []" and so: "sorted_wrt (pair_ok t m ?ii) ?segs" by auto
  note po = verifyPorts_all [OF ports [unfolded ds1]]
  have "segmentBank t s = Some (bank_of t s) \<and>
        pr_tile (sa_reg (alloc_of m s)) = sg_tile s \<and> pr_bank (sa_reg (alloc_of m s)) = rf_id (bank_of t s) \<and>
        pr_index (sa_reg (alloc_of m s)) \<in> set (rf_allocatableIndices (bank_of t s)) \<and>
        sa_readPort (alloc_of m s) < rf_readPorts (bank_of t s) \<and>
        sa_writePort (alloc_of m s) < rf_writePorts (bank_of t s) \<and>
        \<not> fixedRegisterSelfOverlaps s ?ii (rf_sameAddressReadWritePolicy (bank_of t s))" if s: "s \<in> set ?segs" for s
  proof -
    have "verifyRegister t ?ii (ra_allocations m) [] s = Inr []"
      using foldR_list_silent [OF p(3)] verifyRegister_grows s by blast
    note r = verifyRegister_silent [OF this]
    from po s have "ports_ok g t m s" by blast
    then show ?thesis using r by (auto simp: ports_ok_def bank_of_def)
  qed
  with po so show ?thesis by (simp add: served_def)
qed

text \<open>Accesses of one bank in one slot have different ports, so they are not more than the ports.\<close>

lemma distinct_ports_bound:
  assumes "distinct (map f xs)" and "\<forall>x \<in> set xs. key x = k \<longrightarrow> f x = (fk, port x) \<and> port x < n"
  shows "length (filter (\<lambda>x. key x = k) xs) \<le> n"
proof -
  let ?ys = "filter (\<lambda>x. key x = k) xs"
  have "inj_on port (set ?ys)"
  proof (rule inj_onI)
    fix x y
    assume xy: "x \<in> set ?ys" "y \<in> set ?ys" "port x = port y"
    then have "f x = f y" using assms(2) by simp
    with xy assms(1) show "x = y" by (auto simp: distinct_map dest: inj_onD)
  qed
  moreover have "port ` set ?ys \<subseteq> {..<n}" using assms(2) by auto
  moreover have "distinct ?ys" using assms(1) by (simp add: distinct_map)
  ultimately show ?thesis by (metis card_inj_on_le card_lessThan distinct_card finite_lessThan)
qed

subsection \<open>Groups\<close>

definition seg_key :: "TargetModel \<Rightarrow> StorageSegment \<Rightarrow> BankKey" where
  "seg_key t s = bank_key s (bank_of t s)"

definition banks_known :: "TargetModel \<Rightarrow> StorageSegment list \<Rightarrow> RegisterFileDesc option list \<Rightarrow> bool" where
  "banks_known t segs banks \<longleftrightarrow> (\<forall>s \<in> set segs. sg_id s < length banks \<and> banks ! sg_id s = Some (bank_of t s))"

lemma banks_known_at: "banks_known t segs banks \<Longrightarrow> s \<in> set segs \<Longrightarrow> bank_at banks (sg_id s) = Inr (bank_of t s)"
  by (simp add: banks_known_def bank_at_def)

lemma groupSegment_pass:
  assumes "served t ii segs m" "s \<in> set segs"
  shows "groupSegment t ii stats st s =
    Inr ((fst st)[sg_id s := Some (bank_of t s)], push_group (seg_key t s) (sg_id s) (snd st))"
proof -
  from assms have "segmentBank t s = Some (bank_of t s)" "rf_allocatableIndices (bank_of t s) \<noteq> []"
    "\<not> fixedRegisterSelfOverlaps s ii (rf_sameAddressReadWritePolicy (bank_of t s))"
    unfolding served_def by force+
  then show ?thesis by (simp add: groupSegment_def seg_key_def)
qed

lemma groupSegments_pass:
  assumes sv: "served t ii segs m" and ids: "distinct (map sg_id segs)" "\<forall>s \<in> set segs. sg_id s < n"
    and sub: "segs = pre @ rest" and b: "length banks = n" "banks_known t pre banks"
    and gr: "grouped (seg_key t) sg_id pre groups"
  shows "\<exists>banks' groups'. foldR (groupSegment t ii stats) (banks, groups) rest = Inr (banks', groups') \<and>
    length banks' = n \<and> banks_known t segs banks' \<and> grouped (seg_key t) sg_id segs groups'"
  using sub b gr
proof (induction rest arbitrary: pre banks groups)
  case (Cons s rest)
  have s: "s \<in> set segs" using Cons.prems(1) by simp
  let ?banks = "banks[sg_id s := Some (bank_of t s)]" and ?groups = "push_group (seg_key t s) (sg_id s) groups"
  have "banks_known t (pre @ [s]) ?banks"
    using Cons.prems(1-3) ids s by (auto simp: banks_known_def nth_list_update)
  moreover have "grouped (seg_key t) sg_id (pre @ [s]) ?groups" by (rule grouped_push [OF Cons.prems(4)])
  ultimately have "\<exists>banks' groups'. foldR (groupSegment t ii stats) (?banks, ?groups) rest = Inr (banks', groups') \<and>
      length banks' = n \<and> banks_known t segs banks' \<and> grouped (seg_key t) sg_id segs groups'"
    by (intro Cons.IH [of "pre @ [s]"]) (use Cons.prems(1,2) in simp_all)
  then show ?case using groupSegment_pass [OF sv s] by simp
qed simp

text \<open>With different names for the two banks, a key determines the bank.\<close>

lemma seg_key_bank:
  assumes "rf_id (tm_dataRF t) \<noteq> rf_id (tm_predicateRF t)" and "served t ii segs m" "x \<in> set segs" "y \<in> set segs"
    and "seg_key t x = seg_key t y"
  shows "bank_of t x = bank_of t y" and "sg_tile x = sg_tile y"
proof -
  have "segmentBank t x = Some (bank_of t x)" "segmentBank t y = Some (bank_of t y)"
    using assms(2-4) by (auto simp: served_def)
  moreover have "bank_of t z = tm_dataRF t \<or> bank_of t z = tm_predicateRF t" if "segmentBank t z = Some (bank_of t z)" for z
    using that by (auto simp: segmentBank_def registerBank_def Let_def split: if_splits)
  moreover have "rf_id (bank_of t x) = rf_id (bank_of t y)" using assms(5) by (simp add: seg_key_def bank_key_def)
  ultimately show "bank_of t x = bank_of t y" using assms(1) by metis
  show "sg_tile x = sg_tile y"
    by (rule TileCoord.equality) (use assms(5) in \<open>simp_all add: seg_key_def bank_key_def\<close>)
qed

subsection \<open>Port demand\<close>

lemma served_ports:
  assumes apart: "rf_id (tm_dataRF t) \<noteq> rf_id (tm_predicateRF t)" and sv: "served t ii segs m" and s: "s \<in> set segs"
  shows "length (filter (\<lambda>x. (seg_key t x, sg_readTime x mod ii) = (seg_key t s, slot)) segs) \<le> rf_readPorts (bank_of t s)"
    and "length (filter (\<lambda>x. (seg_key t x, sg_writeTime x mod ii) = (seg_key t s, slot)) segs) \<le> rf_writePorts (bank_of t s)"
proof -
  note same = seg_key_bank [OF apart sv _ s]
  have x: "pr_bank (sa_reg (alloc_of m x)) = rf_id (bank_of t x)" "sa_readPort (alloc_of m x) < rf_readPorts (bank_of t x)"
    "sa_writePort (alloc_of m x) < rf_writePorts (bank_of t x)" if "x \<in> set segs" for x
    using sv that by (auto simp: served_def)
  let ?fk = "(sg_tile s, rf_id (bank_of t s), slot)"
  have d: "distinct (map (read_use m ii) segs)" "distinct (map (write_use m ii) segs)" using sv by (auto simp: served_def)
  show "length (filter (\<lambda>x. (seg_key t x, sg_readTime x mod ii) = (seg_key t s, slot)) segs) \<le> rf_readPorts (bank_of t s)"
    by (rule distinct_ports_bound [OF d(1), where fk = ?fk and port = "\<lambda>x. sa_readPort (alloc_of m x)"])
       (use same x in \<open>fastforce simp: read_use_def\<close>)
  show "length (filter (\<lambda>x. (seg_key t x, sg_writeTime x mod ii) = (seg_key t s, slot)) segs) \<le> rf_writePorts (bank_of t s)"
    by (rule distinct_ports_bound [OF d(2), where fk = ?fk and port = "\<lambda>x. sa_writePort (alloc_of m x)"])
       (use same x in \<open>fastforce simp: write_use_def\<close>)
qed

lemma filter_prefix_less: "xs = pre @ x # rest \<Longrightarrow> P x \<Longrightarrow> length (filter P pre) + 1 \<le> length (filter P xs)"
  by simp

lemma portDemand_pass:
  assumes apart: "rf_id (tm_dataRF t) \<noteq> rf_id (tm_predicateRF t)" and sv: "served t ii segs m"
    and b: "banks_known t segs banks" and sub: "segs = pre @ rest"
    and "\<forall>k. pd_reads st k = length (filter (\<lambda>s. (seg_key t s, sg_readTime s mod ii) = k) pre)"
    and "\<forall>k. pd_writes st k = length (filter (\<lambda>s. (seg_key t s, sg_writeTime s mod ii) = k) pre)"
  shows "\<exists>st'. foldR (portDemand ii banks) st rest = Inr st'"
  using sub assms(5,6)
proof (induction rest arbitrary: pre st)
  case (Cons s rest)
  have s: "s \<in> set segs" using Cons.prems(1) by simp
  let ?r = "(seg_key t s, sg_readTime s mod ii)" and ?w = "(seg_key t s, sg_writeTime s mod ii)"
  have "pd_reads st ?r + 1 \<le> rf_readPorts (bank_of t s)" "pd_writes st ?w + 1 \<le> rf_writePorts (bank_of t s)"
    unfolding Cons.prems(2) [rule_format] Cons.prems(3) [rule_format]
    by (rule order_trans [OF filter_prefix_less [OF Cons.prems(1)] served_ports(1) [OF apart sv s]], simp,
        rule order_trans [OF filter_prefix_less [OF Cons.prems(1)] served_ports(2) [OF apart sv s]], simp)
  then obtain stats where step: "portDemand ii banks st s = Inr \<lparr>pd_reads = (pd_reads st)(?r := pd_reads st ?r + 1),
      pd_writes = (pd_writes st)(?w := pd_writes st ?w + 1), pd_stats = stats\<rparr>" (is "_ = Inr ?st")
    by (auto simp: portDemand_def banks_known_at [OF b s] Let_def seg_key_def [symmetric])
  have "\<exists>st'. foldR (portDemand ii banks) ?st rest = Inr st'"
    by (rule Cons.IH [of "pre @ [s]"]) (use Cons.prems in auto)
  with step show ?case by simp
qed simp

subsection \<open>The conflict graph\<close>

definition square :: "nat \<Rightarrow> ConflictGraph \<Rightarrow> bool" where
  "square n graph \<longleftrightarrow> length graph = n \<and> (\<forall>row \<in> set graph. length row = n)"

lemma square_row: "square n graph \<Longrightarrow> x < n \<Longrightarrow> length (graph ! x) = n"
  by (simp add: square_def)

lemma square_update: "square n graph \<Longrightarrow> length row = n \<Longrightarrow> square n (graph[x := row])"
  using set_update_subset_insert [of graph x row] by (auto simp: square_def)

lemma mark_conflict_square: "square n graph \<Longrightarrow> u < n \<Longrightarrow> v < n \<Longrightarrow> square n (mark_conflict u v graph)"
  unfolding mark_conflict_def Let_def by (intro square_update) (simp_all add: square_row square_update)

lemma mark_conflict_nth:
  assumes "square n graph" "u < n" "v < n" "u \<noteq> v" "x < n" "y < n"
  shows "mark_conflict u v graph ! x ! y \<longleftrightarrow> graph ! x ! y \<or> (x = u \<and> y = v) \<or> (x = v \<and> y = u)"
  using assms square_row [OF assms(1)] by (auto simp: mark_conflict_def Let_def nth_list_update square_def)

lemma index_pairs_in: "(a, b) \<in> set (index_pairs vs) \<Longrightarrow> a \<in> set vs \<and> b \<in> set vs"
  by (induction vs) auto

lemma index_pairs_sorted: "sorted_wrt (<) vs \<Longrightarrow> (a, b) \<in> set (index_pairs vs) \<Longrightarrow> a < (b :: nat)"
  by (induction vs) auto

definition conflict_graph :: "nat \<Rightarrow> (nat \<Rightarrow> nat \<Rightarrow> bool) \<Rightarrow> (nat \<times> nat) set \<Rightarrow> ConflictGraph \<Rightarrow> bool" where
  "conflict_graph n C pairs graph \<longleftrightarrow> square n graph \<and>
     (\<forall>x < n. \<forall>y < n. graph ! x ! y \<longleftrightarrow> ((x, y) \<in> pairs \<and> C x y) \<or> ((y, x) \<in> pairs \<and> C y x))"

lemma conflictSteps_graph:
  assumes segs: "\<forall>k < n. sr_segment req k = Inr (segs ! k)"
    and pairs: "\<forall>(a, b) \<in> set ps. a < b \<and> b < n"
    and g: "conflict_graph n (\<lambda>a b. periodicLifetimesConflict (segs ! a) (segs ! b) (sr_ii req) policy) Q graph"
  shows "\<exists>graph' stats'. foldR (conflictStep req policy) (graph, stats) ps = Inr (graph', stats') \<and>
    conflict_graph n (\<lambda>a b. periodicLifetimesConflict (segs ! a) (segs ! b) (sr_ii req) policy) (Q \<union> set ps) graph'"
  using pairs g
proof (induction ps arbitrary: graph stats Q)
  case (Cons p ps)
  obtain a b where p: "p = (a, b)" by (cases p)
  let ?C = "\<lambda>a b. periodicLifetimesConflict (segs ! a) (segs ! b) (sr_ii req) policy"
  have ab: "a < b" "b < n" "a < n" using Cons.prems(1) p by auto
  define graph1 where "graph1 = (if ?C a b then mark_conflict a b graph else graph)"
  obtain stats1 where step: "conflictStep req policy (graph, stats) p = Inr (graph1, stats1)"
    using segs ab by (cases "?C a b") (auto simp: conflictStep_def p lift_alloc_def graph1_def)
  have sq: "square n graph" using Cons.prems(2) by (simp add: conflict_graph_def)
  have "conflict_graph n ?C (insert (a, b) Q) graph1"
  proof (cases "?C a b")
    case True
    then show ?thesis
      using Cons.prems(2) ab mark_conflict_square [OF sq ab(3,2)] mark_conflict_nth [OF sq ab(3,2)]
      by (auto simp: conflict_graph_def graph1_def)
  next
    case False
    with Cons.prems(2) show ?thesis by (auto simp: conflict_graph_def graph1_def)
  qed
  from Cons.IH [OF _ this, of stats1] Cons.prems(1) obtain graph' stats' where
    "foldR (conflictStep req policy) (graph1, stats1) ps = Inr (graph', stats')"
    "conflict_graph n ?C (insert (a, b) Q \<union> set ps) graph'" by auto
  with step show ?case by (simp add: p)
qed simp

lemma conflict_graph_empty: "conflict_graph n C {} (replicate n (replicate n False))"
  by (simp add: conflict_graph_def square_def)

lemma conflict_graph_ok:
  assumes "conflict_graph n C (set (index_pairs vs)) graph" "sorted_wrt (<) vs" "\<forall>v \<in> set vs. v < n" "length colors = n"
  shows "graph_ok vs graph colors"
  using assms index_pairs_sorted [OF assms(2)] by (force simp: graph_ok_def conflict_graph_def)

subsection \<open>Colouring\<close>

definition stops_with :: "(RFAllocationStatus \<Rightarrow> bool) \<Rightarrow> alloc_stop + 'a \<Rightarrow> bool" where
  "stops_with P x \<longleftrightarrow> (\<forall>r. x = Inl (Alloc_Returns r) \<longrightarrow> P (rr_status r))"

lemma stops_with_Inr [simp]: "stops_with P (Inr a)"
  by (simp add: stops_with_def)

lemma stops_with_raise [simp]: "stops_with P (Inl (Alloc_Raises x))"
  by (simp add: stops_with_def)

lemma stops_with_stop [simp]: "stops_with P (rfa_stop status d stats) \<longleftrightarrow> P status"
  by (simp add: stops_with_def rfa_stop_def)

lemma rfa_stop_neq [simp]: "rfa_stop status d stats \<noteq> Inr a"
  by (simp add: rfa_stop_def)

lemma stops_with_lift [simp]: "stops_with P (lift_alloc r)" "stops_with P (lift_augment q)"
  by (simp_all add: stops_with_def lift_alloc_def lift_augment_def split: sum.splits augment_stop.splits)

lemma stops_with_bank [simp]: "stops_with P (bank_at banks i)"
  by (simp add: stops_with_def bank_at_def split: option.splits)

lemma stops_with_bind:
  assumes "stops_with P x" and "\<forall>a. x = Inr a \<longrightarrow> stops_with P (f a)"
  shows "stops_with P (bindR x f)"
  using assms by (cases x) (auto simp: stops_with_def)

lemma stops_with_fold:
  assumes "\<forall>s. \<forall>x \<in> set xs. stops_with P (f s x)"
  shows "stops_with P (foldR f s xs)"
  using assms by (induction xs arbitrary: s) (auto intro!: stops_with_bind)

lemma reset_colors_nth:
  "length (reset_colors vs colors) = length colors \<and>
   (\<forall>v < length colors. reset_colors vs colors ! v = (if v \<in> set vs then None else colors ! v))"
  unfolding reset_colors_def
  by (induction vs arbitrary: colors) (auto simp: nth_list_update)

lemma uncoloured_le: "uncoloured vs colors \<le> length vs"
proof -
  have "card {v \<in> set vs. colors ! v = None} \<le> card (set vs)" by (rule card_mono) auto
  then show ?thesis using card_length [of vs] by (simp add: uncoloured_def)
qed

text \<open>The colouring of one bank: on success only its vertices change; it reports too few registers only
  when no colouring exists.\<close>

lemma colorBank_result:
  assumes g: "graph_ok vs graph (co_colors st)" and none: "\<forall>v \<in> set vs. co_colors st ! v = None"
  shows "(\<forall>st'. colorBank req budget bank key vs graph st = Inr st' \<longrightarrow>
           length (co_colors st') = length (co_colors st) \<and>
           (\<forall>v < length (co_colors st). v \<notin> set vs \<longrightarrow> co_colors st' ! v = co_colors st ! v)) \<and>
         stops_with (\<lambda>status. status = RFA_BudgetExceeded \<or>
           (status = RFA_RegisterDepthInfeasible \<and>
            (\<nexists>f. extends vs graph (set (rf_allocatableIndices bank)) (co_colors st) f)))
           (colorBank req budget bank key vs graph st)"
proof (cases "greedyColors vs graph bank budget vs st")
  case (Inl x)
  then show ?thesis by (cases x) (auto simp: colorBank_def bindR_eq_Inr intro!: stops_with_bind)
next
  case (Inr x)
  obtain ok st1 where x: "x = (ok, st1)" by (cases x)
  note o = greedyColors_others [OF Inr [unfolded x]]
  show ?thesis
  proof (cases ok)
    case True
    with Inr x have "colorBank req budget bank key vs graph st = Inr st1" by (simp add: colorBank_def)
    with o show ?thesis by simp
  next
    case False
    let ?st = "st1\<lparr>co_colors := reset_colors vs (co_colors st1), co_exceeded := False\<rparr>"
    have same: "reset_colors vs (co_colors st1) = co_colors st"
      using reset_colors_nth [of vs "co_colors st1"] o none by (auto intro!: nth_equalityI)
    have "proper vs graph (co_colors st)" using none by (simp add: proper_def)
    with colorExact_outcome [of vs ?st "Suc (length vs)" graph bank budget] g same uncoloured_le [of vs "co_colors st"]
    obtain found st2 where c: "colorExact (Suc (length vs)) vs graph bank budget ?st = Some (found, st2)"
      "outcome vs graph (set (rf_allocatableIndices bank)) ?st (found, st2)" by auto
    have e: "colorBank req budget bank key vs graph st =
        (if found then Inr st2
         else if co_exceeded st2 then rfa_stop RFA_BudgetExceeded
           ((rfa_diag RFA_COLORING_BUDGET_EXCEEDED)\<lparr>rd_tile := Some (key_tile key), rd_bank := Some (snd key)\<rparr>) (co_stats st2)
         else rfa_stop RFA_RegisterDepthInfeasible
           ((rfa_diag RFA_REGISTER_DEPTH_INFEASIBLE)\<lparr>rd_tile := Some (key_tile key), rd_bank := Some (snd key)\<rparr>) (co_stats st2))"
      using Inr x False c(1) by (simp add: colorBank_def)
    show ?thesis
    proof (cases found)
      case True
      with c(2) same have "length (co_colors st2) = length (co_colors st)"
        "\<forall>v < length (co_colors st). co_colors st2 ! v \<noteq> co_colors st ! v \<longrightarrow> v \<in> set vs"
        by (auto simp: outcome_def)
      with True e show ?thesis by auto
    next
      case False
      with c(2) same have "\<not> co_exceeded st2 \<longrightarrow> (\<nexists>f. extends vs graph (set (rf_allocatableIndices bank)) (co_colors st) f)"
        by (auto simp: outcome_def)
      with False e show ?thesis by auto
    qed
  qed
qed

lemma sr_segment_nth:
  assumes "dense_ids (sr_segments req)" "length (sr_segments req) \<le> 4294967296" "k < length (sr_segments req)"
  shows "sr_segment req k = Inr (sr_segments req ! k)"
  using find_by_distinct [OF dense_ids_nth(2) [OF assms(1,2)], of "sr_segments req ! k"]
    dense_ids_nth(1) [OF assms] assms(3) by (simp add: sr_segment_def)

lemma ids_sorted:
  assumes "dense_ids segs" "length segs \<le> 4294967296"
  shows "sorted_wrt (<) (map sg_id (filter P segs))"
proof -
  have "sorted_wrt (\<lambda>a b. sg_id a < sg_id b) segs"
    using dense_ids_nth(1) [OF assms] by (auto simp: sorted_wrt_iff_nth_less)
  then show ?thesis by (simp add: sorted_wrt_map sorted_wrt_filter)
qed

text \<open>The registers of an accepted allocation colour the conflict graph of every bank.\<close>

lemma served_extends:
  assumes apart: "rf_id (tm_dataRF t) \<noteq> rf_id (tm_predicateRF t)" and sv: "served t ii segs m"
    and ids: "dense_ids segs" "length segs \<le> 4294967296"
    and vs: "vs = map sg_id (filter (\<lambda>s. seg_key t s = key) segs)" and s0: "s0 \<in> set segs" "seg_key t s0 = key"
    and g: "conflict_graph (length segs)
      (\<lambda>a b. periodicLifetimesConflict (segs ! a) (segs ! b) ii (rf_sameAddressReadWritePolicy (bank_of t s0)))
      (set (index_pairs vs)) graph"
    and none: "\<forall>v \<in> set vs. colors ! v = None"
  shows "extends vs graph (set (rf_allocatableIndices (bank_of t s0))) colors (\<lambda>v. pr_index (sa_reg (alloc_of m (segs ! v))))"
proof -
  let ?f = "\<lambda>v. pr_index (sa_reg (alloc_of m (segs ! v)))"
  have v: "v < length segs \<and> segs ! v \<in> set segs \<and> seg_key t (segs ! v) = key \<and> bank_of t (segs ! v) = bank_of t s0 \<and>
      sg_tile (segs ! v) = sg_tile s0" if vin: "v \<in> set vs" for v
  proof -
    from vin vs obtain s where s: "s \<in> set segs" "seg_key t s = key" "v = sg_id s" by auto
    then obtain k where k: "k < length segs" "segs ! k = s" by (auto simp: in_set_conv_nth)
    with dense_ids_nth(1) [OF ids] s have "segs ! v = s" "v < length segs" by auto
    with s s0 seg_key_bank [OF apart sv s(1) s0(1)] show ?thesis by simp
  qed
  have reg: "pr_tile (sa_reg (alloc_of m s)) = sg_tile s \<and> pr_bank (sa_reg (alloc_of m s)) = rf_id (bank_of t s) \<and>
      pr_index (sa_reg (alloc_of m s)) \<in> set (rf_allocatableIndices (bank_of t s)) \<and>
      segmentBank t s = Some (bank_of t s)" if "s \<in> set segs" for s
    using sv that by (simp add: served_def)
  have diff: "?f a \<noteq> ?f b" if ab: "(a, b) \<in> set (index_pairs vs)"
    and c: "periodicLifetimesConflict (segs ! a) (segs ! b) ii (rf_sameAddressReadWritePolicy (bank_of t s0))" for a b
  proof
    assume e: "?f a = ?f b"
    note va = v [OF conjunct1 [OF index_pairs_in [OF ab]]] and vb = v [OF conjunct2 [OF index_pairs_in [OF ab]]]
    have "sa_reg (alloc_of m (segs ! a)) = sa_reg (alloc_of m (segs ! b))"
      by (rule PhysicalRegister.equality) (use e va vb reg [of "segs ! a"] reg [of "segs ! b"] in simp_all)
    moreover have "a < b" by (rule index_pairs_sorted [OF _ ab]) (use ids_sorted [OF ids] vs in simp)
    then have "pair_ok t m ii (segs ! a) (segs ! b)"
      using sv vb by (auto simp: served_def sorted_wrt_iff_nth_less)
    ultimately show False using c va reg [of "segs ! a"] by (simp add: pair_ok_def)
  qed
  show ?thesis
    unfolding extends_def
  proof (intro conjI ballI impI)
    fix x y
    assume x: "x \<in> set vs" and y: "y \<in> set vs" and e: "graph ! x ! y"
    have "x < length segs" "y < length segs" using v [OF x] v [OF y] by simp_all
    with g e consider
        "(x, y) \<in> set (index_pairs vs)"
          "periodicLifetimesConflict (segs ! x) (segs ! y) ii (rf_sameAddressReadWritePolicy (bank_of t s0))"
      | "(y, x) \<in> set (index_pairs vs)"
          "periodicLifetimesConflict (segs ! y) (segs ! x) ii (rf_sameAddressReadWritePolicy (bank_of t s0))"
      unfolding conflict_graph_def by blast
    then show "?f x \<noteq> ?f y"
    proof cases
      case 1
      then show ?thesis by (rule diff)
    next
      case 2
      then show ?thesis by (rule diff [THEN not_sym])
    qed
  next
    fix x
    assume x: "x \<in> set vs"
    from v [OF x] reg [of "segs ! x"] show "?f x \<in> set (rf_allocatableIndices (bank_of t s0))" by simp
    show "\<forall>c. colors ! x = Some c \<longrightarrow> ?f x = c" using none x by simp
  qed
qed

lemma colorGroup_pass:
  assumes apart: "rf_id (tm_dataRF t) \<noteq> rf_id (tm_predicateRF t)" and sv: "served t (sr_ii req) (sr_segments req) m"
    and ids: "dense_ids (sr_segments req)" "length (sr_segments req) \<le> 4294967296"
    and b: "banks_known t (sr_segments req) banks"
    and vs: "vs = map sg_id (filter (\<lambda>s. seg_key t s = key) (sr_segments req))" "vs \<noteq> []"
    and c: "length colors = length (sr_segments req)" "\<forall>v \<in> set vs. colors ! v = None"
  shows "stops_with (\<lambda>status. status = RFA_BudgetExceeded) (colorGroup req budget banks (colors, stats) (key, vs)) \<and>
    (\<forall>colors' stats'. colorGroup req budget banks (colors, stats) (key, vs) = Inr (colors', stats') \<longrightarrow>
       length colors' = length colors \<and> (\<forall>v < length colors. v \<notin> set vs \<longrightarrow> colors' ! v = colors ! v))"
proof -
  let ?segs = "sr_segments req" and ?n = "length (sr_segments req)"
  from vs(2) have "hd vs \<in> set vs" by simp
  then obtain s0 where s0: "s0 \<in> set ?segs" "seg_key t s0 = key" "hd vs = sg_id s0" using vs(1) by auto
  let ?bank = "bank_of t s0" and ?graph0 = "replicate ?n (replicate ?n False)"
  let ?policy = "rf_sameAddressReadWritePolicy ?bank"
  have small: "\<forall>v \<in> set vs. v < ?n" using vs(1) dense_ids_nth(3) [OF ids] by auto
  have sorted: "sorted_wrt (<) vs" using ids_sorted [OF ids] vs(1) by simp
  have "\<forall>(a, b) \<in> set (index_pairs vs). a < b \<and> b < ?n"
    using index_pairs_sorted [OF sorted] index_pairs_in small by fastforce
  from conflictSteps_graph [OF _ this conflict_graph_empty, of req ?segs ?policy stats] sr_segment_nth [OF ids]
  obtain graph stats1 where g: "foldR (conflictStep req ?policy) (?graph0, stats) (index_pairs vs) = Inr (graph, stats1)"
    "conflict_graph ?n (\<lambda>a b. periodicLifetimesConflict (?segs ! a) (?segs ! b) (sr_ii req) ?policy) (set (index_pairs vs)) graph"
    by auto
  let ?st = "\<lparr>co_colors = colors, co_stats = stats1, co_exceeded = False\<rparr>"
  have e: "colorGroup req budget banks (colors, stats) (key, vs) =
      bindR (colorBank req budget ?bank key vs graph ?st) (count_used vs)"
    using g(1) banks_known_at [OF b s0(1)] by (simp add: colorGroup_def s0(3))
  have "graph_ok vs graph colors" by (rule conflict_graph_ok [OF g(2) sorted small c(1)])
  moreover have "extends vs graph (set (rf_allocatableIndices ?bank)) colors (\<lambda>v. pr_index (sa_reg (alloc_of m (?segs ! v))))"
    by (rule served_extends [OF apart sv ids vs(1) s0(1,2) g(2) c(2)])
  ultimately have cb: "stops_with (\<lambda>status. status = RFA_BudgetExceeded) (colorBank req budget ?bank key vs graph ?st)"
    "\<forall>st'. colorBank req budget ?bank key vs graph ?st = Inr st' \<longrightarrow> length (co_colors st') = length colors \<and>
       (\<forall>v < length colors. v \<notin> set vs \<longrightarrow> co_colors st' ! v = colors ! v)"
    using colorBank_result [of vs graph ?st req budget ?bank key] c(2) by (auto simp: stops_with_def)
  have used: "stops_with P (count_used vs st)" for P st by (simp add: count_used_def)
  show ?thesis
    unfolding e using cb used by (auto intro!: stops_with_bind simp: bindR_eq_Inr count_used_def split: if_splits)
qed

lemma groups_disjoint:
  assumes "dense_ids segs" "length segs \<le> 4294967296" "k \<noteq> k'" "v \<in> set (map sg_id (filter (\<lambda>s. f s = k') segs))"
  shows "v \<notin> set (map sg_id (filter (\<lambda>s. f s = k) segs))"
proof
  assume "v \<in> set (map sg_id (filter (\<lambda>s. f s = k) segs))"
  with assms(4) obtain x y where "x \<in> set segs" "f x = k'" "y \<in> set segs" "f y = k" "sg_id x = sg_id y" by auto
  with dense_ids_nth(2) [OF assms(1,2)] assms(3) show False by (auto simp: distinct_map dest: inj_onD)
qed

lemma colorGroups_pass:
  assumes apart: "rf_id (tm_dataRF t) \<noteq> rf_id (tm_predicateRF t)" and sv: "served t (sr_ii req) (sr_segments req) m"
    and ids: "dense_ids (sr_segments req)" "length (sr_segments req) \<le> 4294967296"
    and b: "banks_known t (sr_segments req) banks"
    and gs: "\<forall>(key, vs) \<in> set gs. vs = map sg_id (filter (\<lambda>s. seg_key t s = key) (sr_segments req)) \<and> vs \<noteq> []"
      "distinct (map fst gs)"
    and c: "length colors = length (sr_segments req)" "\<forall>(key, vs) \<in> set gs. \<forall>v \<in> set vs. colors ! v = None"
  shows "stops_with (\<lambda>status. status = RFA_BudgetExceeded) (foldR (colorGroup req budget banks) (colors, stats) gs)"
  using gs c
proof (induction gs arbitrary: colors stats)
  case (Cons x gs)
  obtain key vs where x: "x = (key, vs)" by (cases x)
  from Cons.prems x have vs: "vs = map sg_id (filter (\<lambda>s. seg_key t s = key) (sr_segments req))" "vs \<noteq> []"
    and none: "\<forall>v \<in> set vs. colors ! v = None"
    using bspec [OF Cons.prems(1), of x] bspec [OF Cons.prems(4), of x] unfolding x by simp_all
  note p = colorGroup_pass [OF apart sv ids b vs Cons.prems(3) none, of budget stats]
  show ?case
    unfolding foldR.simps
  proof (rule stops_with_bind)
    show "stops_with (\<lambda>status. status = RFA_BudgetExceeded) (colorGroup req budget banks (colors, stats) x)"
      unfolding x by (rule conjunct1 [OF p])
    show "\<forall>a. colorGroup req budget banks (colors, stats) x = Inr a \<longrightarrow>
        stops_with (\<lambda>status. status = RFA_BudgetExceeded) (foldR (colorGroup req budget banks) a gs)"
    proof (intro allI impI)
      fix a
      assume a: "colorGroup req budget banks (colors, stats) x = Inr a"
      obtain colors' stats' where a': "a = (colors', stats')" by (cases a)
      have kept: "length colors' = length colors" "\<forall>v < length colors. v \<notin> set vs \<longrightarrow> colors' ! v = colors ! v"
        using conjunct2 [OF p] a unfolding a' x by blast+
      have "\<forall>(key', ws) \<in> set gs. \<forall>v \<in> set ws. colors' ! v = None"
      proof safe
        fix key' ws v
        assume w: "(key', ws) \<in> set gs" "v \<in> set ws"
        have key: "key \<noteq> key'" using w(1) Cons.prems(2) x by (force simp: image_iff)
        have ws: "ws = map sg_id (filter (\<lambda>s. seg_key t s = key') (sr_segments req))"
          using bspec [OF Cons.prems(1), of "(key', ws)"] w(1) by simp
        have out: "v \<notin> set vs" unfolding vs(1) by (rule groups_disjoint [OF ids key w(2) [unfolded ws]])
        have "v < length colors" using w(2) dense_ids_nth(3) [OF ids] Cons.prems(3) unfolding ws by auto
        moreover
        have "colors ! v = None" using bspec [OF Cons.prems(4), of "(key', ws)"] w by simp
        ultimately show "colors' ! v = None" using kept(2) out by simp
      qed
      then show "stops_with (\<lambda>status. status = RFA_BudgetExceeded) (foldR (colorGroup req budget banks) a gs)"
        unfolding a' using Cons.prems kept(1) by (intro Cons.IH) auto
    qed
  qed
qed simp

subsection \<open>Ports\<close>

lemma portEvents_grouped:
  assumes b: "banks_known t segs banks" and sub: "segs = pre @ rest"
    and gr: "grouped (\<lambda>s. (seg_key t s, slot s)) sg_id pre events"
  shows "\<exists>events'. foldR (portEvent banks slot) events rest = Inr events' \<and>
    grouped (\<lambda>s. (seg_key t s, slot s)) sg_id segs events'"
  using sub gr
proof (induction rest arbitrary: pre events)
  case (Cons s rest)
  have "portEvent banks slot events s = Inr (push_group (seg_key t s, slot s) (sg_id s) events)"
    using banks_known_at [OF b, of s] Cons.prems(1) by (simp add: portEvent_def seg_key_def)
  moreover from Cons.IH [of "pre @ [s]"] grouped_push [OF Cons.prems(2), of s] Cons.prems(1)
  have "\<exists>events'. foldR (portEvent banks slot) (push_group (seg_key t s, slot s) (sg_id s) events) rest = Inr events' \<and>
      grouped (\<lambda>s. (seg_key t s, slot s)) sg_id segs events'" by simp
  ultimately show ?case by simp
qed simp

lemma grouped_sort: "grouped key v xs groups \<Longrightarrow> grouped key v xs (sort_key fst groups)"
  by (simp add: grouped_def distinct_map)

text \<open>Without a constraint on the candidates, accesses that are not more than the ports are matched.\<close>

lemma matchEvents_free:
  assumes "distinct xs" "length xs \<le> n"
  shows "\<exists>m. matchEvents (\<lambda>_ _. Inr True) n xs (replicate n None) = Inr (Inr m)"
proof -
  have "\<exists>f. inj_on f (set xs) \<and> f ` set xs \<subseteq> {..<n}"
    using assms distinct_card [OF assms(1)] by (subst inj_on_iff_card_le) auto
  then obtain f where "port_assignment (\<lambda>_ _. True) n (set xs) f" by (auto simp: port_assignment_def)
  then show ?thesis
    using matchEvents_result [of "{}" xs n "\<lambda>_ _. Inr True" "\<lambda>_ _. True" "replicate n None"] assms(1)
    by (fastforce simp: match_on_def segs_on_def split: sum.splits)
qed

lemma readSlot_pass:
  assumes apart: "rf_id (tm_dataRF t) \<noteq> rf_id (tm_predicateRF t)" and sv: "served t ii segs m"
    and d: "distinct (map sg_id segs)" and b: "banks_known t segs banks"
    and xs: "xs = map sg_id (filter (\<lambda>s. (seg_key t s, sg_readTime s mod ii) = (key, slot)) segs)" "xs \<noteq> []"
  shows "\<exists>as'. assignSlot req banks rf_readPorts (\<lambda>_ _ _. Inr True) set_port status c stats as ((key, slot), xs) = Inr as'"
proof -
  from xs(2) have "hd xs \<in> set xs" by simp
  then obtain s where s: "s \<in> set segs" "seg_key t s = key" "hd xs = sg_id s" using xs(1) by auto
  have "length xs \<le> rf_readPorts (bank_of t s)"
    using served_ports(1) [OF apart sv s(1), of slot] xs(1) s(2) by simp
  moreover have "distinct xs" using d xs(1) by (simp add: distinct_map_filter)
  ultimately obtain ms where
    "matchEvents (\<lambda>_ _. Inr True) (rf_readPorts (bank_of t s)) (sort xs) (replicate (rf_readPorts (bank_of t s)) None) = Inr (Inr ms)"
    using matchEvents_free [of "sort xs"] by fastforce
  then show ?thesis
    using banks_known_at [OF b s(1)] by (simp add: assignSlot_def s(3) lift_augment_def)
qed

lemma foldR_total: "\<forall>s. \<forall>x \<in> set xs. \<exists>s'. f s x = Inr s' \<Longrightarrow> \<exists>s'. foldR f s xs = Inr s'"
proof (induction xs arbitrary: s)
  case (Cons x xs)
  then obtain s' where "f s x = Inr s'" by fastforce
  with Cons show ?case by simp
qed simp

lemma assignSlot_stops: "stops_with (\<lambda>x. x = status) (assignSlot req banks capacity candidates set_port status c stats as event)"
  by (auto simp: assignSlot_def intro!: stops_with_bind split: prod.splits sum.splits)

lemma assignAllPorts_pass:
  assumes apart: "rf_id (tm_dataRF t) \<noteq> rf_id (tm_predicateRF t)" and sv: "served t (sr_ii req) (sr_segments req) m"
    and d: "distinct (map sg_id (sr_segments req))" and b: "banks_known t (sr_segments req) banks"
  shows "stops_with (\<lambda>status. status = RFA_WritePortConflict) (assignAllPorts g t sm req banks stats as)"
proof -
  let ?segs = "sr_segments req" and ?ii = "sr_ii req"
  from portEvents_grouped [OF b _ grouped_Nil, of ?segs] obtain reads where
    r: "foldR (portEvent banks (\<lambda>s. sg_readTime s mod ?ii)) [] ?segs = Inr reads"
    "grouped (\<lambda>s. (seg_key t s, sg_readTime s mod ?ii)) sg_id ?segs reads" by auto
  have "\<exists>as'. foldR (assignSlot req banks rf_readPorts (\<lambda>_ _ _. Inr True) (\<lambda>p a. a\<lparr>sa_readPort := p\<rparr>)
      RFA_ReadPortConflict RFA_READ_PORT_CONFLICT stats) as (sort_key fst reads) = Inr as'"
  proof (intro foldR_total allI ballI)
    fix as e
    assume e: "e \<in> set (sort_key fst reads)"
    obtain key slot xs where x: "e = ((key, slot), xs)" by (metis prod.exhaust)
    with e grouped_sort [OF r(2)] have
      "xs = map sg_id (filter (\<lambda>s. (seg_key t s, sg_readTime s mod ?ii) = (key, slot)) ?segs)" "xs \<noteq> []"
      unfolding grouped_def by blast+
    from readSlot_pass [OF apart sv d b this]
    show "\<exists>as'. assignSlot req banks rf_readPorts (\<lambda>_ _ _. Inr True) (\<lambda>p a. a\<lparr>sa_readPort := p\<rparr>)
      RFA_ReadPortConflict RFA_READ_PORT_CONFLICT stats as e = Inr as'" unfolding x .
  qed
  then obtain as1 where as1: "foldR (assignSlot req banks rf_readPorts (\<lambda>_ _ _. Inr True) (\<lambda>p a. a\<lparr>sa_readPort := p\<rparr>)
      RFA_ReadPortConflict RFA_READ_PORT_CONFLICT stats) as (sort_key fst reads) = Inr as1" by blast
  have event: "stops_with P (portEvent banks slot events s)" for P slot events s
    by (auto simp: portEvent_def intro!: stops_with_bind)
  then have "stops_with P (boundaryEvent g ?ii banks events s)" for P events s
    by (auto simp: boundaryEvent_def intro!: stops_with_bind)
  with event show ?thesis
    unfolding assignAllPorts_def Let_def r(1) bindR_Inr as1
    by (auto intro!: stops_with_bind stops_with_fold assignSlot_stops)
qed

section \<open>The allocator\<close>

text \<open>The reports that the allocator gives on its own account, after the storage analysis succeeded.\<close>

abbreviation infeasible_status :: "RFAllocationStatus \<Rightarrow> bool" where
  "infeasible_status status \<equiv>
     status \<in> {RFA_FixedRegisterSelfOverlap, RFA_ReadPortConflict, RFA_RegisterDepthInfeasible}"

lemma stops_with_weaken: "stops_with P x \<Longrightarrow> \<forall>status. P status \<longrightarrow> Q status \<Longrightarrow> stops_with Q x"
  by (simp add: stops_with_def)

lemma checkAccesses_stops: "stops_with (\<lambda>status. status = RFA_SameAddressRWConflict) (checkAccesses t stats ws rs keys)"
  by (induction keys) (auto simp: Let_def)

lemma finishAllocation_status:
  "rr_status (finishAllocation g t sm req stats as) \<in> {RFA_InternalError, RFA_VerificationFailure, RFA_Success}"
  by (auto simp: finishAllocation_def split: sum.splits)

lemma allocateRequirements_pass:
  assumes apart: "rf_id (tm_dataRF t) \<noteq> rf_id (tm_predicateRF t)" and sv: "served t (sr_ii req) (sr_segments req) m"
    and ids: "dense_ids (sr_segments req)" "length (sr_segments req) \<le> 4294967296"
  shows "stops_with (\<lambda>status. \<not> infeasible_status status) (allocateRequirements g t sm budget req stats)"
proof -
  let ?segs = "sr_segments req" and ?ii = "sr_ii req" and ?n = "length (sr_segments req)"
  note d = dense_ids_nth(2) [OF ids]
  have "\<exists>banks groups. foldR (groupSegment t ?ii stats) (replicate ?n None, []) ?segs = Inr (banks, groups) \<and>
      length banks = ?n \<and> banks_known t ?segs banks \<and> grouped (seg_key t) sg_id ?segs groups"
    by (rule groupSegments_pass [OF sv d dense_ids_nth(3) [OF ids], of "[]"])
       (simp_all add: banks_known_def grouped_Nil)
  then obtain banks groups where g: "foldR (groupSegment t ?ii stats) (replicate ?n None, []) ?segs = Inr (banks, groups)"
    and b: "banks_known t ?segs banks" and gr: "grouped (seg_key t) sg_id ?segs (sort_key fst groups)"
    using grouped_sort by blast
  from portDemand_pass [OF apart sv b, of "[]" ?segs "\<lparr>pd_reads = (\<lambda>_. 0), pd_writes = (\<lambda>_. 0), pd_stats = stats\<rparr>"]
  obtain demand where p: "foldR (portDemand ?ii banks) \<lparr>pd_reads = (\<lambda>_. 0), pd_writes = (\<lambda>_. 0), pd_stats = stats\<rparr> ?segs = Inr demand"
    by auto
  have small: "\<forall>(key, vs) \<in> set (sort_key fst groups). \<forall>v \<in> set vs. replicate ?n None ! v = (None :: nat option)"
    using gr dense_ids_nth(3) [OF ids] by (fastforce simp: grouped_def)
  have colour: "stops_with (\<lambda>status. \<not> infeasible_status status)
      (foldR (colorGroup req budget banks) (replicate ?n None, pd_stats demand) (sort_key fst groups))"
    by (rule stops_with_weaken [OF colorGroups_pass [OF apart sv ids b _ _ _ small]])
       (use gr in \<open>auto simp: grouped_def\<close>)
  have segment: "stops_with P (allocate_segment banks colors as s)" for P colors as s
    by (auto simp: allocate_segment_def intro!: stops_with_bind split: option.splits)
  have port: "stops_with (\<lambda>status. \<not> infeasible_status status) (assignAllPorts g t sm req banks stats1 as)" for stats1 as
    by (rule stops_with_weaken [OF assignAllPorts_pass [OF apart sv d b]]) simp
  have access: "stops_with (\<lambda>status. \<not> infeasible_status status) (checkAllAccesses t req stats1 as)" for stats1 as
    unfolding checkAllAccesses_def Let_def by (rule stops_with_weaken [OF checkAccesses_stops]) simp
  show ?thesis
    unfolding allocateRequirements_def Let_def g bindR_Inr prod.case p
  proof (intro stops_with_bind [OF colour] allI impI)
    fix x
    show "stops_with (\<lambda>status. \<not> infeasible_status status)
        (case x of (colors, stats1) \<Rightarrow>
           bindR (foldR (allocate_segment banks colors) [] ?segs) (\<lambda>as.
           bindR (assignAllPorts g t sm req banks stats1 as) (\<lambda>as1.
           bindR (checkAllAccesses t req stats1 as1) (\<lambda>_. Inr (finishAllocation g t sm req stats1 as1)))))"
      unfolding split_beta
      by (intro stops_with_bind stops_with_fold segment port access allI ballI impI stops_with_Inr)
  qed
qed

lemma rfa_allocate_cases:
  assumes "rfa_allocate g t sm budget = Inr r" and "rr_status r = RFA_Success \<or> infeasible_status (rr_status r)"
  shows "\<exists>q req. storage_analyze g t sm = Inr q \<and> srr_requirements q = Some req \<and>
    allocateRequirements g t sm budget req (initial_alloc_stats req (srr_stats q)) \<in> {Inl (Alloc_Returns r), Inr r}"
proof -
  from assms obtain q where q: "storage_analyze g t sm = Inr q" by (auto simp: rfa_allocate_def bindR_eq_Inr split: if_splits)
  have stop: "rr_status (storage_stop_result q) \<noteq> RFA_Success \<and> \<not> infeasible_status (rr_status (storage_stop_result q))"
    by (simp add: storage_stop_result_def storage_status_def)
  have ok: "srr_ok q"
  proof (rule ccontr)
    assume "\<not> srr_ok q"
    with assms q stop show False by (auto simp: rfa_allocate_def bindR_eq_Inr split: if_splits)
  qed
  then obtain req where req: "srr_requirements q = Some req" by (auto simp: srr_ok_def)
  with assms q ok have
    "allocateRequirements g t sm budget req (initial_alloc_stats req (srr_stats q)) \<in> {Inl (Alloc_Returns r), Inr r}"
    by (auto simp: rfa_allocate_def bindR_eq_Inr Let_def split: if_splits sum.splits alloc_stop.splits)
  with q req show ?thesis by blast
qed

lemma allocateRequirements_finish:
  assumes "allocateRequirements g t sm budget req stats = Inr r"
  shows "\<exists>stats1 as. r = finishAllocation g t sm req stats1 as"
  using assms by (auto simp: allocateRequirements_def bindR_eq_Inr Let_def split: prod.splits)

text \<open>An early return is never a success.\<close>

lemma allocateRequirements_stops:
  "stops_with (\<lambda>status. status \<noteq> RFA_Success) (allocateRequirements g t sm budget req stats)"
proof -
  have group: "stops_with (\<lambda>status. status \<noteq> RFA_Success) (groupSegment t ii stats st s)" for ii stats st s
    by (auto simp: groupSegment_def Let_def split: option.splits)
  have demand: "stops_with (\<lambda>status. status \<noteq> RFA_Success) (portDemand ii banks st s)" for ii banks st s
    by (auto simp: portDemand_def Let_def intro!: stops_with_bind)
  have step: "stops_with P (conflictStep req policy st p)" for P policy st p
    by (auto simp: conflictStep_def intro!: stops_with_bind split: prod.splits)
  have bank: "stops_with (\<lambda>status. status \<noteq> RFA_Success) (colorBank req budget bank key vs graph st)" for bank key vs graph st
    by (auto simp: colorBank_def Let_def intro!: stops_with_bind split: sum.splits option.splits bool.splits prod.splits)
  have "stops_with P (count_used vs st)" for P vs st by (simp add: count_used_def)
  with step bank have colour: "stops_with (\<lambda>status. status \<noteq> RFA_Success) (colorGroup req budget banks st e)" for banks st e
    by (auto simp: colorGroup_def Let_def intro!: stops_with_bind stops_with_fold split: prod.splits)
  have segment: "stops_with P (allocate_segment banks colors as s)" for P banks colors as s
    by (auto simp: allocate_segment_def intro!: stops_with_bind split: option.splits)
  have event: "stops_with P (portEvent banks slot events s)" for P banks slot events s
    by (auto simp: portEvent_def intro!: stops_with_bind)
  then have boundary: "stops_with P (boundaryEvent g ii banks events s)" for P ii banks events s
    by (auto simp: boundaryEvent_def intro!: stops_with_bind)
  have slot: "stops_with (\<lambda>status. status \<noteq> RFA_Success) (assignSlot req banks cap cand sp status c stats as e)"
    if "status \<noteq> RFA_Success" for banks cap cand sp status c stats as e
    by (rule stops_with_weaken [OF assignSlot_stops]) (use that in simp)
  then have port: "stops_with (\<lambda>status. status \<noteq> RFA_Success) (assignAllPorts g t sm req banks stats as)" for banks stats as
    unfolding assignAllPorts_def Let_def
    by (intro stops_with_bind stops_with_fold event boundary allI ballI impI) simp_all
  have access: "stops_with (\<lambda>status. status \<noteq> RFA_Success) (checkAllAccesses t req stats1 as)" for stats1 as
    unfolding checkAllAccesses_def Let_def by (rule stops_with_weaken [OF checkAccesses_stops]) simp
  show ?thesis
    unfolding allocateRequirements_def Let_def split_beta
    by (intro stops_with_bind stops_with_fold group demand colour segment port access allI ballI impI stops_with_Inr)
qed

lemma allocate_success:
  assumes "allocateRequirements g t sm budget req stats = Inr r" and "rr_status r = RFA_Success"
  shows "\<exists>m. rr_mapping r = Some m \<and> ra_staged m = sm \<and> rfv_verify g t m = Inr []"
proof -
  from allocateRequirements_finish [OF assms(1)] obtain stats1 as where "r = finishAllocation g t sm req stats1 as" by blast
  with assms(2) show ?thesis
    by (auto simp: finishAllocation_def bindR_eq_Inr mk_RFAllocatedMapping_def Let_def split: sum.splits if_splits)
qed

text \<open>C12: Success of the allocator.  When the allocator reports success for a staged mapping, the
  result holds an allocated mapping of it that the verifier accepts; every value stays in its register
  from its write to its read, over all iterations, and no port is used twice in a cycle of a bank.\<close>

theorem allocator_sound:
  assumes "rfa_allocate g t sm budget = Inr r" and "rr_status r = RFA_Success"
  shows "\<exists>m. rr_mapping r = Some m \<and> ra_staged m = sm \<and> rfv_verify g t m = Inr [] \<and> valid_allocation g t m"
proof -
  from rfa_allocate_cases [OF assms(1) disjI1 [OF assms(2)]] obtain q :: StorageRequirementResult and req where
    "allocateRequirements g t sm budget req (initial_alloc_stats req (srr_stats q)) \<in> {Inl (Alloc_Returns r), Inr r}"
    by blast
  moreover have "stops_with (\<lambda>status. status \<noteq> RFA_Success)
      (allocateRequirements g t sm budget req (initial_alloc_stats req (srr_stats q)))"
    by (rule allocateRequirements_stops)
  ultimately have "allocateRequirements g t sm budget req (initial_alloc_stats req (srr_stats q)) = Inr r"
    using assms(2) by (auto simp: stops_with_def)
  from allocate_success [OF this assms(2)] rfv_verify_valid show ?thesis by blast
qed

text \<open>The loop of the example, allocated within a budget of a hundred decisions.\<close>

definition demo_budget :: RFAllocationBudget where
  "demo_budget = \<lparr>bu_maxColoringDecisions = 100, bu_maxColoringBacktracks = 100\<rparr>"

theorem allocator_sound_witness:
  "\<exists>m. ra_staged m = demo_staged \<and> rfv_verify demo_tdfg demo_target m = Inr [] \<and>
     valid_allocation demo_tdfg demo_target m"
proof -
  have "case rfa_allocate demo_tdfg demo_target demo_staged demo_budget of Inl _ \<Rightarrow> False
        | Inr r \<Rightarrow> rr_status r = RFA_Success" by code_simp
  then obtain r where "rfa_allocate demo_tdfg demo_target demo_staged demo_budget = Inr r" "rr_status r = RFA_Success"
    by (auto split: sum.splits)
  from allocator_sound [OF this] show ?thesis by blast
qed

text \<open>C13: A refusal of the allocator is final.  When the allocator reports that a lifetime overlaps
  itself in a fixed register, that the read ports of a bank do not suffice, or that its registers do
  not suffice, then no assignment of registers and ports whatsoever makes an allocated mapping of this
  staged mapping that the verifier accepts.  The banks have different names, as the loader gives them,
  and segment ids do not wrap around.\<close>

theorem allocator_infeasible_exact:
  assumes "rfa_allocate g t sm budget = Inr r"
    and "rr_status r \<in> {RFA_FixedRegisterSelfOverlap, RFA_ReadPortConflict, RFA_RegisterDepthInfeasible}"
    and "rf_id (tm_dataRF t) \<noteq> rf_id (tm_predicateRF t)"
    and "ra_staged m = sm" and "length (sr_segments (ra_requirements m)) \<le> 4294967296"
  shows "rfv_verify g t m \<noteq> Inr []"
proof
  assume v: "rfv_verify g t m = Inr []"
  from rfa_allocate_cases [OF assms(1) disjI2 [OF assms(2)]] obtain q :: StorageRequirementResult and req where
    q: "storage_analyze g t sm = Inr q" "srr_requirements q = Some req" and
    out: "allocateRequirements g t sm budget req (initial_alloc_stats req (srr_stats q)) \<in> {Inl (Alloc_Returns r), Inr r}"
    by blast
  from rfv_phases(2) [OF v] assms(4) q have req: "ra_requirements m = req" by simp
  from storage_ids(1) [OF q] verified_served [OF v] assms(5)
  have "stops_with (\<lambda>status. \<not> infeasible_status status)
      (allocateRequirements g t sm budget req (initial_alloc_stats req (srr_stats q)))"
    unfolding req by (intro allocateRequirements_pass [OF assms(3)])
  moreover have "allocateRequirements g t sm budget req stats \<noteq> Inr r" for stats
  proof
    assume "allocateRequirements g t sm budget req stats = Inr r"
    from allocateRequirements_finish [OF this] obtain stats1 as where "r = finishAllocation g t sm req stats1 as" by blast
    with finishAllocation_status [of g t sm req stats1 as] assms(2) show False by auto
  qed
  ultimately show False using out assms(2) by (auto simp: stops_with_def)
qed

text \<open>With a single register in the data bank, the two values of the example do not fit.\<close>

definition demo_narrow :: TargetModel where
  "demo_narrow = demo_target\<lparr>tm_dataRF := (tm_dataRF demo_target)\<lparr>rf_allocatableIndices := [0]\<rparr>\<rparr>"

theorem allocator_infeasible_exact_witness: "rfv_verify demo_tdfg demo_narrow demo_allocated \<noteq> Inr []"
proof -
  have "case rfa_allocate demo_tdfg demo_narrow demo_staged demo_budget of Inl _ \<Rightarrow> False
        | Inr r \<Rightarrow> rr_status r = RFA_RegisterDepthInfeasible" by code_simp
  then obtain r where "rfa_allocate demo_tdfg demo_narrow demo_staged demo_budget = Inr r"
      "rr_status r \<in> {RFA_FixedRegisterSelfOverlap, RFA_ReadPortConflict, RFA_RegisterDepthInfeasible}"
    by (auto split: sum.splits)
  moreover have "rf_id (tm_dataRF demo_narrow) \<noteq> rf_id (tm_predicateRF demo_narrow)" by code_simp
  moreover have "ra_staged demo_allocated = demo_staged" by (simp add: demo_allocated_def)
  moreover have "length (sr_segments (ra_requirements demo_allocated)) \<le> 4294967296" by code_simp
  ultimately show ?thesis by (rule allocator_infeasible_exact)
qed

text \<open>C14: The port matching is exact.  For any number of accesses in one slot, if the sources of these
  accesses can be determined for the ports of the bank, the matching terminates and either gives every
  access a port of its own that accepts it, or reports an access, and then no assignment of the
  accesses to different accepting ports exists.\<close>

theorem port_matching_exact:
  assumes "\<forall>x \<in> set xs. \<forall>p < n. candidates x p = Inr (acc x p)" and "distinct xs"
  shows "(\<exists>m. matchEvents candidates n xs (replicate n None) = Inr (Inr m) \<and> length m = n \<and>
            match_on acc m {..<n} \<and> segs_on m {..<n} = set xs) \<or>
         (\<exists>x \<in> set xs. matchEvents candidates n xs (replicate n None) = Inr (Inl x) \<and>
            (\<nexists>f. port_assignment acc n (set xs) f))"
  by (rule matching_exact [OF assms])

text \<open>The writes of the two segments of the example: the value of the link is accepted by the second
  port, the result of the unit by the first; one port is not enough for both.\<close>

definition demo_write :: "nat \<Rightarrow> nat \<Rightarrow> bool result" where
  "demo_write = writeCandidate demo_tdfg demo_target demo_staged (ra_requirements demo_allocated) (tm_dataRF demo_target)"

definition demo_accepts :: "nat \<Rightarrow> nat \<Rightarrow> bool" where
  "demo_accepts x p \<longleftrightarrow> p \<noteq> x"

lemma demo_write_known: "\<forall>x \<in> set [0, 1]. \<forall>p < 2. demo_write x p = Inr (demo_accepts x p)"
proof -
  have "\<forall>x \<in> set [0, 1]. \<forall>p \<in> set [0, 1]. demo_write x p = Inr (demo_accepts x p)" by code_simp
  then show ?thesis by (simp add: less_2_cases_iff)
qed

theorem port_matching_exact_witness:
  "(\<exists>m. matchEvents demo_write 2 [0, 1] (replicate 2 None) = Inr (Inr m) \<and> match_on demo_accepts m {..<2} \<and>
      segs_on m {..<2} = {0, 1}) \<and>
   (\<nexists>f. port_assignment demo_accepts 1 {0, 1} f)"
proof
  have "case matchEvents demo_write 2 [0, 1] (replicate 2 None) of Inr (Inr m) \<Rightarrow> True | _ \<Rightarrow> False" by code_simp
  with port_matching_exact [OF demo_write_known]
  show "\<exists>m. matchEvents demo_write 2 [0, 1] (replicate 2 None) = Inr (Inr m) \<and> match_on demo_accepts m {..<2} \<and>
      segs_on m {..<2} = {0, 1}" by fastforce
  have "case matchEvents demo_write 1 [0, 1] (replicate 1 None) of Inr (Inl m) \<Rightarrow> True | _ \<Rightarrow> False" by code_simp
  moreover have "\<forall>x \<in> set [0, 1]. \<forall>p < 1. demo_write x p = Inr (demo_accepts x p)" using demo_write_known by simp
  ultimately show "\<nexists>f. port_assignment demo_accepts 1 {0, 1} f"
    using port_matching_exact [of "[0, 1]" 1 demo_write demo_accepts] by fastforce
qed

end
