(* ===== verification/Route_Search.thy ===== *)
theory Route_Search
  imports Mapping_Sound
begin

text \<open>
  The search of a route for one value (\<open>Mapping/ModuloRouteSearch.cpp\<close>): a shortest-path search over the
  states (tile, modulo slot) with costs ordered by elapsed cycles, then holds, then hops.  The priority
  queue is a list sorted by the queue's order.  The main loop takes the number of iterations it may
  still do; the queue budget bounds it, and running out is the value \<open>None\<close>.  Costs are naturals with
  the guards and the maximal values of their 64-bit and 32-bit types written out.
\<close>

section \<open>Requests and results\<close>

record RouteSearchRequest =
  rq_edge :: TargetEdgeId
  rq_producer :: NodePlacement
  rq_consumer :: NodePlacement

datatype RouteTieBreakPolicy = MinSeparationThenHoldsThenHops

record RouteSearchBudget =
  rb_maxStateExpansions :: nat
  rb_maxQueuePushes :: nat

record RouteSearchOptions =
  ro_budget :: RouteSearchBudget
  ro_allowVirtualHold :: bool
  ro_tieBreak :: RouteTieBreakPolicy

datatype RouteSearchStatus =
  Route_Success | Route_NoPath | Route_BudgetExceeded | Route_InvalidInput | Route_UnsupportedEdge
| Route_TargetContractError | Route_InternalError

datatype RouteSearchDiagnosticCode =
  ROUTE_INVALID_TARGET_DFG | ROUTE_INVALID_EDGE | ROUTE_EDGE_NOT_VALUE_CARRYING
| ROUTE_PRODUCER_PLACEMENT_MISMATCH | ROUTE_CONSUMER_PLACEMENT_MISMATCH | ROUTE_SLOT_OUT_OF_RANGE
| ROUTE_TILE_OUT_OF_RANGE | ROUTE_OPERATION_UNSUPPORTED_ON_TILE | ROUTE_TARGET_TIMING_MISSING | ROUTE_NO_PATH
| ROUTE_BUDGET_EXCEEDED | ROUTE_INTERNAL_SELF_CONFLICT | ROUTE_INTERNAL_RECONSTRUCTION_ERROR
| ROUTE_INTERNAL_VERIFIER_REJECTED

datatype RouteSearchDiagnostic = RDiag RouteSearchDiagnosticCode TargetEdgeId

record RouteSearchStats =
  st_stateExpansions :: nat
  st_queuePushes :: nat
  st_linkTransitionsConsidered :: nat
  st_holdTransitionsConsidered :: nat
  st_blockedLinks :: nat
  st_invalidBorderLinks :: nat
  st_maxQueueSize :: nat
  st_resultSeparation :: "nat option"
  st_resultHopCount :: nat
  st_resultHoldCycles :: nat

record RouteSearchResult =
  rsr_status :: RouteSearchStatus
  rsr_plan :: "TransportPlan option"
  rsr_stats :: RouteSearchStats
  rsr_diagnostics :: "RouteSearchDiagnostic list"

definition empty_route_stats :: RouteSearchStats where
  "empty_route_stats = \<lparr>st_stateExpansions = 0, st_queuePushes = 0, st_linkTransitionsConsidered = 0,
     st_holdTransitionsConsidered = 0, st_blockedLinks = 0, st_invalidBorderLinks = 0, st_maxQueueSize = 0,
     st_resultSeparation = None, st_resultHopCount = 0, st_resultHoldCycles = 0\<rparr>"

text \<open>An early return or an exception.\<close>

datatype route_stop = Route_Raises exn | Route_Returns RouteSearchResult

definition lift_route :: "'a result \<Rightarrow> route_stop + 'a" where
  "lift_route r = (case r of Inl x \<Rightarrow> Inl (Route_Raises x) | Inr a \<Rightarrow> Inr a)"

definition route_failure :: "RouteSearchStatus \<Rightarrow> RouteSearchDiagnostic list \<Rightarrow> RouteSearchStats \<Rightarrow> route_stop" where
  "route_failure status ds stats =
     Route_Returns \<lparr>rsr_status = status, rsr_plan = None, rsr_stats = stats, rsr_diagnostics = ds\<rparr>"

definition route_stop_with ::
  "RouteSearchStatus \<Rightarrow> RouteSearchDiagnostic list \<Rightarrow> RouteSearchStats \<Rightarrow> route_stop + 'a" where
  "route_stop_with status ds stats = Inl (route_failure status ds stats)"

section \<open>Search state\<close>

text \<open>Costs in the order of their comparison: elapsed cycles, holds, hops.\<close>

type_synonym Cost = "nat \<times> nat \<times> nat"

definition max_Cost :: Cost where
  "max_Cost = (u64_max, u32_max, u32_max)"

datatype PredecessorKind = Pred_None | Pred_Link | Pred_Hold

record Predecessor =
  pe_previous :: nat
  pe_kind :: PredecessorKind
  pe_direction :: Direction

definition no_Predecessor :: Predecessor where
  "no_Predecessor = \<lparr>pe_previous = 0, pe_kind = Pred_None, pe_direction = North\<rparr>"

text \<open>A queue entry is its cost, its state and its sequence number: the order of the queue is the
  lexicographic one.\<close>

type_synonym QueueEntry = "Cost \<times> nat \<times> nat"

record SearchState =
  se_best :: "Cost list"
  se_predecessors :: "Predecessor list"
  se_finalized :: "bool list"
  se_queue :: "QueueEntry list"
  se_sequence :: nat
  se_stats :: RouteSearchStats

text \<open>What does not change during a search: target, resources, reservations, the issue slot of the producer,
  the network domain, and the options.\<close>

record SearchContext =
  cx_target :: TargetModel
  cx_resources :: ModuloResourceModel
  cx_reservations :: ReservationTable
  cx_request :: RouteSearchRequest
  cx_options :: RouteSearchOptions
  cx_domain :: NetworkDomain

definition stateId :: "TargetModel \<Rightarrow> TileCoord \<Rightarrow> ModuloSlot \<Rightarrow> nat" where
  "stateId t tile slot = (slot * arr_rows (tm_array t) + tile_row tile) * arr_cols (tm_array t) + tile_col tile"

definition stateFor :: "TargetModel \<Rightarrow> nat \<Rightarrow> TileCoord \<times> ModuloSlot" where
  "stateFor t i =
     (let cols = arr_cols (tm_array t); rowCount = arr_rows (tm_array t) * cols;
          slot = i div rowCount; within = i mod rowCount
      in (\<lparr>tile_row = wrap32 (within div cols), tile_col = wrap32 (within mod cols)\<rparr>, wrap32 slot))"

section \<open>Transitions\<close>

definition push :: "SearchContext \<Rightarrow> Cost \<Rightarrow> nat \<Rightarrow> SearchState \<Rightarrow> SearchState option" where
  "push cx cost state st =
     (let stats = se_stats st in
      if st_queuePushes stats \<ge> rb_maxQueuePushes (ro_budget (cx_options cx)) then None
      else
        let queue = insort (cost, state, se_sequence st) (se_queue st) in
        Some (st\<lparr>se_queue := queue, se_sequence := se_sequence st + 1,
          se_stats := stats\<lparr>st_queuePushes := st_queuePushes stats + 1,
            st_maxQueueSize := max (st_maxQueueSize stats) (wrap32 (length queue))\<rparr>\<rparr>))"

definition relaxTo ::
  "SearchContext \<Rightarrow> nat \<Rightarrow> nat \<Rightarrow> Cost \<Rightarrow> PredecessorKind \<Rightarrow> Direction \<Rightarrow> SearchState \<Rightarrow> route_stop + SearchState" where
  "relaxTo cx previous destination cost kind direction st =
     (if se_finalized st ! destination \<or> \<not> cost < se_best st ! destination then Inr st
      else
        let st' = st\<lparr>se_best := (se_best st)[destination := cost],
              se_predecessors := (se_predecessors st)[destination :=
                \<lparr>pe_previous = previous, pe_kind = kind, pe_direction = direction\<rparr>]\<rparr>
        in case push cx cost destination st' of
             None \<Rightarrow> route_stop_with Route_BudgetExceeded [] (se_stats st')
           | Some st'' \<Rightarrow> Inr st'')"

definition hop_latency :: "SearchContext \<Rightarrow> nat" where
  "hop_latency cx = ic_hopLatency (tm_interconnect (cx_target cx))"

definition overflow_stop :: "SearchContext \<Rightarrow> SearchState \<Rightarrow> route_stop + 'a" where
  "overflow_stop cx st =
     (let d = RDiag ROUTE_INTERNAL_RECONSTRUCTION_ERROR (rq_edge (cx_request cx)) in
      route_stop_with Route_InternalError [d, d] (se_stats st))"

definition expandLink ::
  "SearchContext \<Rightarrow> nat \<Rightarrow> Cost \<Rightarrow> SearchState \<Rightarrow> Direction \<Rightarrow> route_stop + SearchState" where
  "expandLink cx currentId current st0 direction =
     (case (stateFor (cx_target cx) currentId, current) of
        ((tile, slot), (elapsed, holds, hops)) \<Rightarrow>
        let st = st0\<lparr>se_stats := (se_stats st0)\<lparr>st_linkTransitionsConsidered := st_linkTransitionsConsidered (se_stats st0) + 1\<rparr>\<rparr>;
            border = st\<lparr>se_stats := (se_stats st)\<lparr>st_invalidBorderLinks := st_invalidBorderLinks (se_stats st) + 1\<rparr>\<rparr>;
            blocked = st\<lparr>se_stats := (se_stats st)\<lparr>st_blockedLinks := st_blockedLinks (se_stats st) + 1\<rparr>\<rparr>;
            ii = rm_ii (cx_resources cx); hop = hop_latency cx
        in case neighbor_in (cx_target cx) tile direction of
             None \<Rightarrow> Inr border
           | Some nextTile \<Rightarrow>
               bindR (lift_route (advance ii (pl_issueSlot (rq_producer (cx_request cx))) elapsed)) (\<lambda>launchSlot.
               bindR (lift_route (linkResource (cx_resources cx) (cx_domain cx) tile direction launchSlot)) (\<lambda>resource.
                 case resource of
                   None \<Rightarrow> Inr border
                 | Some r \<Rightarrow>
                     bindR (lift_route (isFree (cx_reservations cx) r)) (\<lambda>free.
                       if \<not> free then Inr blocked
                       else if elapsed > u64_max - hop \<or> hops = u32_max then overflow_stop cx st
                       else
                         bindR (lift_route (advance ii slot hop)) (\<lambda>nextSlot.
                           relaxTo cx currentId (stateId (cx_target cx) nextTile nextSlot)
                             (elapsed + hop, holds, hops + 1) Pred_Link direction st)))))"

definition expandHold :: "SearchContext \<Rightarrow> nat \<Rightarrow> Cost \<Rightarrow> SearchState \<Rightarrow> route_stop + SearchState" where
  "expandHold cx currentId current st0 =
     (case (stateFor (cx_target cx) currentId, current) of
        ((tile, slot), (elapsed, holds, hops)) \<Rightarrow>
        let st = st0\<lparr>se_stats := (se_stats st0)\<lparr>st_holdTransitionsConsidered := st_holdTransitionsConsidered (se_stats st0) + 1\<rparr>\<rparr>
        in if elapsed = u64_max \<or> holds = u32_max then overflow_stop cx st
           else
             bindR (lift_route (advance (rm_ii (cx_resources cx)) slot 1)) (\<lambda>nextSlot.
               relaxTo cx currentId (stateId (cx_target cx) tile nextSlot) (elapsed + 1, holds + 1, hops)
                 Pred_Hold North st))"

section \<open>Reconstruction\<close>

text \<open>The chain of predecessors from the goal back to the start, and its bound of one step more than there
  are states.\<close>

function predecessorChain ::
  "nat \<Rightarrow> Predecessor list \<Rightarrow> (nat \<times> Predecessor) list \<Rightarrow> nat \<Rightarrow> (nat \<times> Predecessor) list option" where
  "predecessorChain start predecessors reversed current =
     (if current = start then Some reversed
      else if current \<ge> length predecessors \<or> pe_kind (predecessors ! current) = Pred_None \<or>
              length reversed > length predecessors then None
      else predecessorChain start predecessors ((current, predecessors ! current) # reversed)
             (pe_previous (predecessors ! current)))"
  by pat_completeness auto

termination
  by (relation "measure (\<lambda>(start, predecessors, reversed, current). Suc (length predecessors) - length reversed)") auto

declare predecessorChain.simps [simp del]

definition addAction ::
  "SearchContext \<Rightarrow> Cost list \<Rightarrow> TransportAction list \<Rightarrow> nat \<times> Predecessor \<Rightarrow> TransportAction list option" where
  "addAction cx best actions entry =
     (case entry of (child, predecessor) \<Rightarrow>
        let (tile, _) = stateFor (cx_target cx) (pe_previous predecessor);
            parentElapsed = fst (best ! pe_previous predecessor);
            childElapsed = fst (best ! child)
        in if pe_kind predecessor = Pred_Link then
             if parentElapsed > u32_max then None
             else Some (actions @ [Action_Link \<lparr>ls_domain = cx_domain cx, ls_source = tile,
                    ls_direction = pe_direction predecessor, ls_elapsed = parentElapsed\<rparr>])
           else
             if parentElapsed > u32_max \<or> childElapsed > u32_max then None
             else
               let new = Action_Hold \<lparr>vh_domain = cx_domain cx, vh_tile = tile, vh_captureElapsed = parentElapsed,
                           vh_releaseElapsed = childElapsed\<rparr>
               in case rev actions of
                    Action_Hold h # earlier \<Rightarrow>
                      if vh_domain h = cx_domain cx \<and> vh_tile h = tile \<and> vh_releaseElapsed h = parentElapsed
                      then Some (rev earlier @ [Action_Hold (h\<lparr>vh_releaseElapsed := childElapsed\<rparr>)])
                      else Some (actions @ [new])
                  | _ \<Rightarrow> Some (actions @ [new]))"

fun addActions ::
  "SearchContext \<Rightarrow> Cost list \<Rightarrow> TransportAction list \<Rightarrow> (nat \<times> Predecessor) list \<Rightarrow> TransportAction list option" where
  "addActions cx best actions [] = Some actions"
| "addActions cx best actions (e # es) =
     (case addAction cx best actions e of None \<Rightarrow> None | Some actions' \<Rightarrow> addActions cx best actions' es)"

text \<open>The check that no link resource is used twice.\<close>

fun selfConflict :: "SearchContext \<Rightarrow> ResourceId list \<Rightarrow> TransportAction list \<Rightarrow> bool result" where
  "selfConflict cx seen [] = Inr False"
| "selfConflict cx seen (Action_Hold h # as) = selfConflict cx seen as"
| "selfConflict cx seen (Action_Link l # as) =
     bindR (advance (rm_ii (cx_resources cx)) (pl_issueSlot (rq_producer (cx_request cx))) (ls_elapsed l)) (\<lambda>slot.
     bindR (linkResource (cx_resources cx) (cx_domain cx) (ls_source l) (ls_direction l) slot) (\<lambda>resource.
       case resource of
         None \<Rightarrow> Inr True
       | Some r \<Rightarrow> if r \<in> set seen then Inr True else selfConflict cx (seen @ [r]) as))"

definition reconstruct ::
  "SearchContext \<Rightarrow> nat \<Rightarrow> SearchState \<Rightarrow> nat \<Rightarrow> (RouteSearchDiagnostic list + TransportPlan) result" where
  "reconstruct cx start st goal =
     (case predecessorChain start (se_predecessors st) [] goal of
        None \<Rightarrow> Inr (Inl [])
      | Some chain \<Rightarrow>
          (case addActions cx (se_best st) [] chain of
             None \<Rightarrow> Inr (Inl [])
           | Some actions \<Rightarrow>
               if fst (se_best st ! goal) > u32_max then Inr (Inl [])
               else
                 bindR (selfConflict cx [] actions) (\<lambda>conflict.
                   if conflict then Inr (Inl [RDiag ROUTE_INTERNAL_SELF_CONFLICT (rq_edge (cx_request cx))])
                   else Inr (Inr \<lparr>tp_edge = rq_edge (cx_request cx), tp_domain = cx_domain cx, tp_actions = actions,
                          tp_requiredSeparation = fst (se_best st ! goal)\<rparr>))))"

definition countAction :: "RouteSearchStats \<Rightarrow> TransportAction \<Rightarrow> RouteSearchStats" where
  "countAction stats a =
     (case a of
        Action_Link _ \<Rightarrow> stats\<lparr>st_resultHopCount := st_resultHopCount stats + 1\<rparr>
      | Action_Hold h \<Rightarrow> stats\<lparr>st_resultHoldCycles := st_resultHoldCycles stats + (vh_releaseElapsed h - vh_captureElapsed h)\<rparr>)"

definition route_success :: "SearchContext \<Rightarrow> nat \<Rightarrow> SearchState \<Rightarrow> nat \<Rightarrow> route_stop + 'a" where
  "route_success cx start st goal =
     bindR (lift_route (reconstruct cx start st goal)) (\<lambda>r.
       case r of
         Inl ds \<Rightarrow> route_stop_with Route_InternalError
           (ds @ [RDiag ROUTE_INTERNAL_RECONSTRUCTION_ERROR (rq_edge (cx_request cx))]) (se_stats st)
       | Inr plan \<Rightarrow>
           Inl (Route_Returns \<lparr>rsr_status = Route_Success, rsr_plan = Some plan,
             rsr_stats = foldl countAction ((se_stats st)\<lparr>st_resultSeparation := Some (tp_requiredSeparation plan)\<rparr>)
               (tp_actions plan),
             rsr_diagnostics = []\<rparr>))"

section \<open>The search\<close>

definition expand :: "SearchContext \<Rightarrow> nat \<Rightarrow> Cost \<Rightarrow> SearchState \<Rightarrow> route_stop + SearchState" where
  "expand cx state cost st =
     bindR (foldR (expandLink cx state cost) st [North, East, South, West]) (\<lambda>st'.
       if ro_allowVirtualHold (cx_options cx) then expandHold cx state cost st' else Inr st')"

text \<open>One iteration of the main loop, after the entry was taken from the queue.\<close>

definition searchStep :: "SearchContext \<Rightarrow> nat \<Rightarrow> QueueEntry \<Rightarrow> SearchState \<Rightarrow> route_stop + SearchState" where
  "searchStep cx start entry st =
     (case entry of (cost, state, _) \<Rightarrow>
        if se_finalized st ! state \<or> cost \<noteq> se_best st ! state then Inr st
        else
          let st' = st\<lparr>se_finalized := (se_finalized st)[state := True]\<rparr> in
          if fst (stateFor (cx_target cx) state) = pl_tile (rq_consumer (cx_request cx)) then route_success cx start st' state
          else if st_stateExpansions (se_stats st') \<ge> rb_maxStateExpansions (ro_budget (cx_options cx)) then
            route_stop_with Route_BudgetExceeded [RDiag ROUTE_BUDGET_EXCEEDED (rq_edge (cx_request cx))] (se_stats st')
          else
            expand cx state cost
              (st'\<lparr>se_stats := (se_stats st')\<lparr>st_stateExpansions := st_stateExpansions (se_stats st') + 1\<rparr>\<rparr>))"

definition noPath :: "SearchContext \<Rightarrow> RouteSearchStats \<Rightarrow> route_stop" where
  "noPath cx stats = route_failure Route_NoPath [RDiag ROUTE_NO_PATH (rq_edge (cx_request cx))] stats"

fun searchLoop :: "nat \<Rightarrow> SearchContext \<Rightarrow> nat \<Rightarrow> SearchState \<Rightarrow> route_stop option" where
  "searchLoop 0 cx start st = None"
| "searchLoop (Suc n) cx start st =
     (case se_queue st of
        [] \<Rightarrow> Some (noPath cx (se_stats st))
      | entry # queue \<Rightarrow>
          (case searchStep cx start entry (st\<lparr>se_queue := queue\<rparr>) of
             Inl r \<Rightarrow> Some r
           | Inr st' \<Rightarrow> searchLoop n cx start st'))"

definition validPlacement ::
  "TargetDFG \<Rightarrow> TargetModel \<Rightarrow> ModuloResourceModel \<Rightarrow> TargetEdgeId \<Rightarrow> NodePlacement \<Rightarrow> TargetNodeId \<Rightarrow>
   RouteSearchDiagnosticCode \<Rightarrow> route_stop + unit" where
  "validPlacement g t rm edge placement expected mismatch =
     (let bad = (\<lambda>c. route_stop_with Route_InvalidInput [RDiag c edge] empty_route_stats) in
      if pl_node placement \<noteq> expected then bad mismatch
      else if tile_row (pl_tile placement) \<ge> arr_rows (tm_array t) \<or> tile_col (pl_tile placement) \<ge> arr_cols (tm_array t)
      then bad ROUTE_TILE_OUT_OF_RANGE
      else if pl_issueSlot placement \<ge> rm_ii rm then bad ROUTE_SLOT_OUT_OF_RANGE
      else bindR (lift_route (tdfg_node g expected)) (\<lambda>node.
        if \<not> supportsOperation rm (pl_tile placement) node then bad ROUTE_OPERATION_UNSUPPORTED_ON_TILE else Inr ()))"

text \<open>On success the network domain and the readiness of the producer.\<close>

definition validateInput ::
  "TargetDFG \<Rightarrow> TargetModel \<Rightarrow> ModuloResourceModel \<Rightarrow> RouteSearchRequest \<Rightarrow> route_stop + (NetworkDomain \<times> nat)" where
  "validateInput g t rm rq =
     (let bad = (\<lambda>status c. route_stop_with status [RDiag c (rq_edge rq)] empty_route_stats) in
      bindR (lift_route (tdfg_verify g t None)) (\<lambda>targetReport.
      if targetReport \<noteq> [] then bad Route_InvalidInput ROUTE_INVALID_TARGET_DFG
      else if td_targetName g \<noteq> tm_name t \<or> tm_name (rm_target rm) \<noteq> tm_name t then
        bad Route_InvalidInput ROUTE_INVALID_TARGET_DFG
      else if rm_ii rm = 0 then bad Route_InvalidInput ROUTE_SLOT_OUT_OF_RANGE
      else if \<not> tdfg_containsEdge g (rq_edge rq) then bad Route_InvalidInput ROUTE_INVALID_EDGE
      else bindR (lift_route (tdfg_edge g (rq_edge rq))) (\<lambda>edge.
      if te_kind edge = Kind_Memory then bad Route_UnsupportedEdge ROUTE_EDGE_NOT_VALUE_CARRYING
      else if pl_node (rq_producer rq) \<noteq> te_src edge then bad Route_InvalidInput ROUTE_PRODUCER_PLACEMENT_MISMATCH
      else if pl_node (rq_consumer rq) \<noteq> te_dst edge then bad Route_InvalidInput ROUTE_CONSUMER_PLACEMENT_MISMATCH
      else
        bindR (validPlacement g t rm (rq_edge rq) (rq_producer rq) (te_src edge) ROUTE_PRODUCER_PLACEMENT_MISMATCH) (\<lambda>_.
        bindR (validPlacement g t rm (rq_edge rq) (rq_consumer rq) (te_dst edge) ROUTE_CONSUMER_PLACEMENT_MISMATCH) (\<lambda>_.
        bindR (lift_route (tdfg_node g (te_src edge))) (\<lambda>producer.
          case tn_producerOutputReadyOffset producer of
            None \<Rightarrow> bad Route_TargetContractError ROUTE_TARGET_TIMING_MISSING
          | Some ready \<Rightarrow>
              if ic_hopLatency (tm_interconnect t) = 0 then bad Route_TargetContractError ROUTE_TARGET_TIMING_MISSING
              else Inr (expectedDomain (te_kind edge), ready)))))))"

text \<open>A value that stays on its tile.\<close>

definition sameTileRoute :: "SearchContext \<Rightarrow> nat \<Rightarrow> RouteSearchStats \<Rightarrow> route_stop" where
  "sameTileRoute cx ready stats =
     (let rq = cx_request cx in
      if \<not> ro_allowVirtualHold (cx_options cx) then
        noPath cx stats
      else if ready = u32_max then
        route_failure Route_InternalError [RDiag ROUTE_INTERNAL_RECONSTRUCTION_ERROR (rq_edge rq)] stats
      else
        Route_Returns \<lparr>rsr_status = Route_Success,
          rsr_plan = Some \<lparr>tp_edge = rq_edge rq, tp_domain = cx_domain cx,
            tp_actions = [Action_Hold \<lparr>vh_domain = cx_domain cx, vh_tile = pl_tile (rq_producer rq),
              vh_captureElapsed = ready, vh_releaseElapsed = ready + 1\<rparr>],
            tp_requiredSeparation = ready + 1\<rparr>,
          rsr_stats = stats\<lparr>st_resultSeparation := Some (ready + 1), st_resultHoldCycles := 1\<rparr>,
          rsr_diagnostics = []\<rparr>)"

definition stateCount :: "TargetModel \<Rightarrow> ModuloResourceModel \<Rightarrow> nat" where
  "stateCount t rm = arr_rows (tm_array t) * arr_cols (tm_array t) * rm_ii rm mod (u64_max + 1)"

definition initialState :: "nat \<Rightarrow> nat \<Rightarrow> nat \<Rightarrow> SearchState" where
  "initialState n start ready =
     \<lparr>se_best = (replicate n max_Cost)[start := (ready, 0, 0)], se_predecessors = replicate n no_Predecessor,
      se_finalized = replicate n False, se_queue = [], se_sequence = 0, se_stats = empty_route_stats\<rparr>"

definition route_run ::
  "TargetModel \<Rightarrow> ModuloResourceModel \<Rightarrow> SearchContext \<Rightarrow> nat \<Rightarrow> route_stop option" where
  "route_run t rm cx ready =
     (let rq = cx_request cx; budget = rb_maxQueuePushes (ro_budget (cx_options cx)) in
      if stateCount t rm = 0 then
        Some (route_failure Route_InternalError [RDiag ROUTE_INTERNAL_RECONSTRUCTION_ERROR (rq_edge rq)] empty_route_stats)
      else
        case advance (rm_ii rm) (pl_issueSlot (rq_producer rq)) ready of
          Inl x \<Rightarrow> Some (Route_Raises x)
        | Inr startSlot \<Rightarrow>
            let start = stateId t (pl_tile (rq_producer rq)) startSlot in
            case push cx (ready, 0, 0) start (initialState (stateCount t rm) start ready) of
              None \<Rightarrow>
                Some (route_failure Route_BudgetExceeded [RDiag ROUTE_BUDGET_EXCEEDED (rq_edge rq)] empty_route_stats)
            | Some st \<Rightarrow>
                if pl_tile (rq_producer rq) = pl_tile (rq_consumer rq) then Some (sameTileRoute cx ready (se_stats st))
                else searchLoop (Suc budget) cx start st)"

definition search_context ::
  "TargetModel \<Rightarrow> ModuloResourceModel \<Rightarrow> ReservationTable \<Rightarrow> RouteSearchRequest \<Rightarrow> RouteSearchOptions \<Rightarrow> NetworkDomain \<Rightarrow>
   SearchContext" where
  "search_context t rm table rq options domain =
     \<lparr>cx_target = t, cx_resources = rm, cx_reservations = table, cx_request = rq, cx_options = options, cx_domain = domain\<rparr>"

definition route_search ::
  "TargetDFG \<Rightarrow> TargetModel \<Rightarrow> ModuloResourceModel \<Rightarrow> ReservationTable \<Rightarrow> RouteSearchRequest \<Rightarrow> RouteSearchOptions \<Rightarrow>
   route_stop option" where
  "route_search g t rm table rq options =
     (case mk_ModuloTimeDomain (rm_ii rm) of
        Inl x \<Rightarrow> Some (Route_Raises x)
      | Inr _ \<Rightarrow>
          (case validateInput g t rm rq of
             Inl stop \<Rightarrow> Some stop
           | Inr (domain, ready) \<Rightarrow>
               route_run t rm (search_context t rm table rq options domain) ready))"

end
