(* ===== verification/Mapper.thy ===== *)
theory Mapper
  imports Route_Search Analysis_MII
begin

text \<open>
  The modulo mapper (\<open>Mapping/ModuloMapper.cpp\<close>): backtracking placement of the nodes with routing of every
  dependence whose ends are placed, the check of a complete mapping, and the search over initiation
  intervals with its budgets.  The maps from ids to placements and dependences are lists in the order
  of their ids.  The recursion over the nodes takes a depth; running out of it (or of the iterations of
  a route search, which does not happen) is the value \<open>Map_Depth\<close>.
\<close>

section \<open>Options and results\<close>

datatype CompleteMappingDecision = Check_Accept | Check_Reject | Check_Abort

record CompleteMappingCheckResult =
  ck_decision :: CompleteMappingDecision
  ck_reasonCode :: string

type_synonym CompleteMappingChecker =
  "TargetDFG \<Rightarrow> TargetModel \<Rightarrow> ModuloMapping \<Rightarrow> CompleteMappingCheckResult result"

record ModuloMapperBudget =
  mu_maxNodeCandidateAttempts :: nat
  mu_maxBacktracks :: nat
  mu_maxRouteSearchCalls :: nat
  mu_perRouteBudget :: RouteSearchBudget

record ModuloMapperOptions =
  mo_maxII :: nat
  mo_minII :: nat
  mo_budget :: ModuloMapperBudget
  mo_routeOptions :: RouteSearchOptions
  mo_completeMappingChecker :: "CompleteMappingChecker option"

datatype ModuloMapperStatus =
  Map_Success | Map_InvalidTargetDFG | Map_MIIAnalysisFailure | Map_NoMappingWithinIILimit | Map_BudgetExceeded
| Map_RouteBudgetExceeded | Map_VerificationFailure | Map_TargetContractError | Map_InternalError

datatype ModuloMapperDiagnosticCode =
  MAP_INVALID_TARGET_DFG | MAP_MII_ANALYSIS_FAILED | MAP_NO_COMPATIBLE_CANDIDATE | MAP_NODE_RESOURCE_CONFLICT
| MAP_ROUTE_NO_PATH | MAP_ROUTE_BUDGET_EXCEEDED | MAP_POST_MAPPING_REJECTED | MAP_II_BUDGET_SHARE_EXHAUSTED
| MAP_GLOBAL_BUDGET_EXCEEDED | MAP_NO_MAPPING_WITHIN_II_LIMIT | MAP_FINAL_VERIFICATION_FAILED
| MAP_TARGET_CONTRACT_ERROR | MAP_INTERNAL_ERROR

datatype ModuloMapperDiagnostic =
  MapDiag ModuloMapperDiagnosticCode "nat option" "TargetNodeId option" "TargetEdgeId option"

record ModuloMapperStats =
  ma_startingMII :: nat
  ma_finalII :: nat
  ma_iiAttempts :: nat
  ma_nodeCandidateAttempts :: nat
  ma_successfulPlacements :: nat
  ma_rejectedPlacements :: nat
  ma_routeSearchCalls :: nat
  ma_routeSuccesses :: nat
  ma_routeNoPaths :: nat
  ma_routeBudgetExceeded :: nat
  ma_backtracks :: nat
  ma_maxSearchDepth :: nat
  ma_totalRouteStateExpansions :: nat
  ma_completedModuloMappings :: nat
  ma_postMappingRejected :: nat
  ma_stageRejected :: nat
  ma_rfRejected :: nat
  ma_postMappingAbort :: nat

record ModuloMapperResult =
  mr_status :: ModuloMapperStatus
  mr_mapping :: "ModuloMapping option"
  mr_stats :: ModuloMapperStats
  mr_diagnostics :: "ModuloMapperDiagnostic list"

definition empty_mapper_stats :: ModuloMapperStats where
  "empty_mapper_stats = \<lparr>ma_startingMII = 0, ma_finalII = 0, ma_iiAttempts = 0, ma_nodeCandidateAttempts = 0,
     ma_successfulPlacements = 0, ma_rejectedPlacements = 0, ma_routeSearchCalls = 0, ma_routeSuccesses = 0,
     ma_routeNoPaths = 0, ma_routeBudgetExceeded = 0, ma_backtracks = 0, ma_maxSearchDepth = 0,
     ma_totalRouteStateExpansions = 0, ma_completedModuloMappings = 0, ma_postMappingRejected = 0,
     ma_stageRejected = 0, ma_rfRejected = 0, ma_postMappingAbort = 0\<rparr>"

definition empty_mapper_result :: ModuloMapperResult where
  "empty_mapper_result = \<lparr>mr_status = Map_InternalError, mr_mapping = None, mr_stats = empty_mapper_stats, mr_diagnostics = []\<rparr>"

datatype map_stop = Map_Raises exn | Map_Depth

definition lift_map :: "'a result \<Rightarrow> map_stop + 'a" where
  "lift_map r = (case r of Inl x \<Rightarrow> Inl (Map_Raises x) | Inr a \<Rightarrow> Inr a)"

section \<open>The state of a search\<close>

datatype SearchOutcome =
  Out_Success | Out_Exhausted | Out_PerIIBudgetExceeded | Out_BudgetExceeded | Out_RouteBudgetExceeded
| Out_VerificationFailure | Out_InternalError | Out_PostMappingAbort

record SearchLimits =
  sl_nodeCandidateAttempts :: nat
  sl_backtracks :: nat
  sl_routeSearchCalls :: nat

record Candidate =
  cd_tile :: TileCoord
  cd_slot :: ModuloSlot
  cd_stageWraps :: nat
  cd_locality :: nat
  cd_slotAffinity :: nat

record CandidateDelta =
  de_node :: TargetNodeId
  de_nodeReservation :: ReservationDelta
  de_edges :: "TargetEdgeId list"
  de_edgeReservations :: "ReservationDelta list"

definition empty_delta :: CandidateDelta where
  "empty_delta = \<lparr>de_node = 0, de_nodeReservation = \<lparr>dl_owner = \<lparr>ro_kind = Owner_Node, ro_id = 0\<rparr>, dl_resources = []\<rparr>,
     de_edges = [], de_edgeReservations = []\<rparr>"

text \<open>What a search at one initiation interval does not change.\<close>

record MapContext =
  mc_dfg :: TargetDFG
  mc_target :: TargetModel
  mc_options :: ModuloMapperOptions
  mc_ii :: nat
  mc_resources :: ModuloResourceModel
  mc_limits :: SearchLimits

record MapState =
  ms_reservations :: ReservationTable
  ms_placements :: "NodePlacement list"
  ms_dependences :: "MappedDependence list"
  ms_mapping :: "ModuloMapping option"
  ms_verificationFailureReported :: bool
  ms_stats :: ModuloMapperStats
  ms_diagnostics :: "ModuloMapperDiagnostic list"

definition map_diag ::
  "ModuloMapperDiagnosticCode \<Rightarrow> nat option \<Rightarrow> TargetNodeId option \<Rightarrow> TargetEdgeId option \<Rightarrow> MapState \<Rightarrow> MapState" where
  "map_diag c ii node edge st = st\<lparr>ms_diagnostics := ms_diagnostics st @ [MapDiag c ii node edge]\<rparr>"

definition map_count :: "(ModuloMapperStats \<Rightarrow> ModuloMapperStats) \<Rightarrow> MapState \<Rightarrow> MapState" where
  "map_count f st = st\<lparr>ms_stats := f (ms_stats st)\<rparr>"

text \<open>Insertion into the ordered maps keeps an entry that is there.\<close>

definition emplace_by :: "('a \<Rightarrow> nat) \<Rightarrow> 'a \<Rightarrow> 'a list \<Rightarrow> 'a list" where
  "emplace_by key x xs = (if key x \<in> key ` set xs then xs else insort_key key x xs)"

definition hasPlacement :: "MapState \<Rightarrow> TargetNodeId \<Rightarrow> bool" where
  "hasPlacement st i \<longleftrightarrow> find_by pl_node i (ms_placements st) \<noteq> None"

definition placement_at :: "MapState \<Rightarrow> TargetNodeId \<Rightarrow> NodePlacement result" where
  "placement_at st i = (case find_by pl_node i (ms_placements st) of None \<Rightarrow> Inl Out_Of_Range | Some p \<Rightarrow> Inr p)"

definition allNodesMapped :: "MapContext \<Rightarrow> MapState \<Rightarrow> bool" where
  "allNodesMapped mc st \<longleftrightarrow> length (ms_placements st) = length (td_nodes (mc_dfg mc))"

section \<open>Choice of node and candidates\<close>

text \<open>The cast of a 32-bit unsigned value to a 32-bit signed one.\<close>

definition int_of_u32 :: "nat \<Rightarrow> int" where
  "int_of_u32 n = (if n < 2147483648 then int n else int n - 4294967296)"

definition other_end :: "TargetNodeId \<Rightarrow> TargetEdge \<Rightarrow> TargetNodeId" where
  "other_end node e = (if te_src e = node then te_dst e else te_src e)"

definition touches :: "TargetNodeId \<Rightarrow> TargetEdge \<Rightarrow> bool" where
  "touches node e \<longleftrightarrow> te_src e = node \<or> te_dst e = node"

definition locality :: "MapContext \<Rightarrow> MapState \<Rightarrow> TargetNodeId \<Rightarrow> TileCoord \<Rightarrow> nat" where
  "locality mc st node tile =
     foldl (\<lambda>score e.
       if \<not> touches node e then score
       else case find_by pl_node (other_end node e) (ms_placements st) of
              None \<Rightarrow> score
            | Some p \<Rightarrow>
                score + nat (\<bar>int_of_u32 (tile_row tile) - int_of_u32 (tile_row (pl_tile p))\<bar> +
                             \<bar>int_of_u32 (tile_col tile) - int_of_u32 (tile_col (pl_tile p))\<bar>))
       0 (td_edges (mc_dfg mc))"

text \<open>The numbers by which nodes are compared: unplaced inputs, placed neighbours, degree, loop edges.\<close>

definition node_counts :: "MapContext \<Rightarrow> MapState \<Rightarrow> TargetNodeId \<Rightarrow> nat \<times> nat \<times> nat \<times> nat" where
  "node_counts mc st node =
     (let es = filter (touches node) (td_edges (mc_dfg mc)) in
      (length (filter (\<lambda>e. te_dst e = node \<and> te_src e \<noteq> node \<and> te_distance e = 0 \<and> te_kind e \<noteq> Kind_Memory \<and>
                            \<not> hasPlacement st (te_src e)) es),
       length (filter (\<lambda>e. hasPlacement st (other_end node e)) es),
       length es,
       length (filter (\<lambda>e. te_distance e \<noteq> 0) es)))"

definition node_rank :: "MapContext \<Rightarrow> MapState \<Rightarrow> TargetNodeId \<Rightarrow> nat \<times> nat \<times> nat \<times> nat \<times> nat" where
  "node_rank mc st node =
     (case node_counts mc st node of (unmappedInputs, mapped, degree, loop) \<Rightarrow>
        (u64_max - unmappedInputs, mapped, degree, loop, u32_max - node))"

definition selectNode :: "MapContext \<Rightarrow> MapState \<Rightarrow> TargetNodeId result" where
  "selectNode mc st =
     (case foldl (\<lambda>selected n.
              if hasPlacement st (tn_id n) then selected
              else case selected of
                     None \<Rightarrow> Some (tn_id n)
                   | Some s \<Rightarrow> if node_rank mc st (tn_id n) > node_rank mc st s then Some (tn_id n) else selected)
            None (td_nodes (mc_dfg mc)) of
        None \<Rightarrow> Inl Logic_Error
      | Some s \<Rightarrow> Inr s)"

text \<open>What one edge adds to the counters of a candidate slot: its stage wraps and its affinity.\<close>

definition edgeScore ::
  "MapContext \<Rightarrow> MapState \<Rightarrow> TargetNodeId \<Rightarrow> ModuloSlot \<Rightarrow> nat \<times> nat \<Rightarrow> TargetEdge \<Rightarrow> (nat \<times> nat) result" where
  "edgeScore mc st node slot score e =
     (case score of (stageWraps, affinity) \<Rightarrow>
      let ii = mc_ii mc in
      if \<not> touches node e \<or> te_kind e = Kind_Memory then Inr score
      else
        bindR (tdfg_node (mc_dfg mc) (te_src e)) (\<lambda>source.
          let ready = wrap32 ((case tn_producerOutputReadyOffset source of None \<Rightarrow> 0 | Some r \<Rightarrow> r) + 1) in
          case find_by pl_node (other_end node e) (ms_placements st) of
            None \<Rightarrow>
              if te_distance e = 0 \<or> te_src e = te_dst e then Inr score
              else
                let preferred = (if te_src e = node then (ii - ready mod ii) mod ii else 0) in
                Inr (stageWraps, if slot \<noteq> preferred then affinity + 1 else affinity)
          | Some p \<Rightarrow>
              let separation = (if te_dst e = node then int slot - int (pl_issueSlot p) else int (pl_issueSlot p) - int slot);
                  wraps = (if te_distance e = 0 \<and> separation < int ready then stageWraps + 1 else stageWraps);
                  preferred = (if te_dst e = node then wrap32 (pl_issueSlot p + ready) mod ii
                               else wrap32 (pl_issueSlot p + ii - ready mod ii) mod ii)
              in Inr (wraps, if slot \<noteq> preferred then affinity + 1 else affinity)))"

definition candidateAt ::
  "MapContext \<Rightarrow> MapState \<Rightarrow> TargetNodeId \<Rightarrow> TileCoord \<times> ModuloSlot \<Rightarrow> Candidate result" where
  "candidateAt mc st node place =
     (case place of (tile, slot) \<Rightarrow>
        bindR (foldR (edgeScore mc st node slot) (0, 0) (td_edges (mc_dfg mc))) (\<lambda>(stageWraps, affinity).
          Inr \<lparr>cd_tile = tile, cd_slot = slot, cd_stageWraps = stageWraps, cd_locality = locality mc st node tile,
               cd_slotAffinity = affinity\<rparr>))"

definition candidate_key :: "Candidate \<Rightarrow> nat \<times> nat \<times> nat \<times> nat \<times> nat \<times> nat" where
  "candidate_key c = (cd_stageWraps c, cd_locality c, cd_slotAffinity c, tile_row (cd_tile c), tile_col (cd_tile c), cd_slot c)"

definition candidate_places :: "MapContext \<Rightarrow> TargetNode \<Rightarrow> (TileCoord \<times> ModuloSlot) list" where
  "candidate_places mc n =
     concat (map (\<lambda>(row, col). map (\<lambda>slot. (\<lparr>tile_row = row, tile_col = col\<rparr>, slot)) [0..<mc_ii mc])
       (compatibleTiles (mc_target mc) (tn_operation n)))"

definition candidates :: "MapContext \<Rightarrow> MapState \<Rightarrow> TargetNodeId \<Rightarrow> Candidate list result" where
  "candidates mc st node =
     bindR (tdfg_node (mc_dfg mc) node) (\<lambda>n.
     bindR (foldR (\<lambda>cs place. bindR (candidateAt mc st node place) (\<lambda>c. Inr (cs @ [c]))) [] (candidate_places mc n)) (\<lambda>cs.
       Inr (sort_key candidate_key cs)))"

section \<open>Realising dependences\<close>

definition closedEdges :: "MapContext \<Rightarrow> MapState \<Rightarrow> TargetNodeId \<Rightarrow> TargetEdgeId list" where
  "closedEdges mc st node =
     sort (map te_id (filter (\<lambda>e. touches node e \<and> hasPlacement st (te_src e) \<and> hasPlacement st (te_dst e) \<and>
        find_by md_edge (te_id e) (ms_dependences st) = None) (td_edges (mc_dfg mc))))"

definition routeStep ::
  "MapContext \<Rightarrow> TransportPlan \<Rightarrow> NodePlacement \<Rightarrow> ResourceId list \<Rightarrow> TransportAction \<Rightarrow> ResourceId list result" where
  "routeStep mc plan producer resources a =
     (case a of
        Action_Hold _ \<Rightarrow> Inr resources
      | Action_Link l \<Rightarrow>
          bindR (advance (mc_ii mc) (pl_issueSlot producer) (ls_elapsed l)) (\<lambda>slot.
          bindR (linkResource (mc_resources mc) (tp_domain plan) (ls_source l) (ls_direction l) slot) (\<lambda>resource.
            case resource of
              None \<Rightarrow> Inl Logic_Error
            | Some r \<Rightarrow> if r \<in> set resources then Inl Logic_Error else Inr (resources @ [r]))))"

definition routeResources :: "MapContext \<Rightarrow> TransportPlan \<Rightarrow> NodePlacement \<Rightarrow> ResourceId list result" where
  "routeResources mc plan producer =
     bindR (mk_ModuloTimeDomain (mc_ii mc)) (\<lambda>_. foldR (routeStep mc plan producer) [] (tp_actions plan))"

definition findRoute ::
  "MapContext \<Rightarrow> MapState \<Rightarrow> TargetEdgeId \<Rightarrow> NodePlacement \<Rightarrow> NodePlacement \<Rightarrow> map_stop + RouteSearchResult" where
  "findRoute mc st edge producer consumer =
     (let routeOptions = (mo_routeOptions (mc_options mc))\<lparr>ro_budget := mu_perRouteBudget (mo_budget (mc_options mc))\<rparr> in
      case route_search (mc_dfg mc) (mc_target mc) (mc_resources mc) (ms_reservations st)
             \<lparr>rq_edge = edge, rq_producer = producer, rq_consumer = consumer\<rparr> routeOptions of
        None \<Rightarrow> Inl Map_Depth
      | Some (Route_Raises x) \<Rightarrow> Inl (Map_Raises x)
      | Some (Route_Returns r) \<Rightarrow> Inr r)"

text \<open>The reservation and the record of a route that was found.\<close>

definition acceptRoute ::
  "MapContext \<Rightarrow> TargetEdge \<Rightarrow> NodePlacement \<Rightarrow> TransportPlan \<Rightarrow> MapState \<Rightarrow> CandidateDelta \<Rightarrow>
   map_stop + (SearchOutcome \<times> MapState \<times> CandidateDelta)" where
  "acceptRoute mc e producer plan st delta =
     bindR (lift_map (routeResources mc plan producer)) (\<lambda>routeIds.
       case tryReserve routeIds \<lparr>ro_kind = Owner_Edge, ro_id = te_id e\<rparr> (ms_reservations st) of
         (table, None) \<Rightarrow>
           Inr (Out_InternalError, map_diag MAP_INTERNAL_ERROR (Some (mc_ii mc)) None (Some (te_id e)) st, delta)
       | (table, Some granted) \<Rightarrow>
           Inr (Out_Success,
             st\<lparr>ms_reservations := table,
               ms_dependences := emplace_by md_edge \<lparr>md_edge = te_id e, md_kind = te_kind e,
                 md_requiredSeparation = tp_requiredSeparation plan, md_transport = Some plan\<rparr> (ms_dependences st)\<rparr>,
             delta\<lparr>de_edgeReservations := de_edgeReservations delta @ [granted], de_edges := de_edges delta @ [te_id e]\<rparr>))"

definition realizeMemory ::
  "MapContext \<Rightarrow> TargetEdge \<Rightarrow> MemoryDepKind \<Rightarrow> MapState \<Rightarrow> CandidateDelta \<Rightarrow> SearchOutcome \<times> MapState \<times> CandidateDelta" where
  "realizeMemory mc e dependence st delta =
     (Out_Success,
      st\<lparr>ms_dependences := emplace_by md_edge \<lparr>md_edge = te_id e, md_kind = te_kind e,
        md_requiredSeparation = memoryDependenceSeparation (mc_target mc) dependence, md_transport = None\<rparr> (ms_dependences st)\<rparr>,
      delta\<lparr>de_edges := de_edges delta @ [te_id e]\<rparr>)"

definition realizeEdge ::
  "MapContext \<Rightarrow> TargetEdgeId \<Rightarrow> MapState \<Rightarrow> CandidateDelta \<Rightarrow> map_stop + (SearchOutcome \<times> MapState \<times> CandidateDelta)" where
  "realizeEdge mc edgeId st delta =
     bindR (lift_map (tdfg_edge (mc_dfg mc) edgeId)) (\<lambda>e.
     bindR (lift_map (placement_at st (te_src e))) (\<lambda>producer.
     bindR (lift_map (placement_at st (te_dst e))) (\<lambda>consumer.
       let fail = (\<lambda>c st'. map_diag c (Some (mc_ii mc)) None (Some (te_id e)) st') in
       case te_info e of
         MemoryEdgeInfo dependence \<Rightarrow> Inr (realizeMemory mc e dependence st delta)
       | _ \<Rightarrow>
           if ma_routeSearchCalls (ms_stats st) \<ge> sl_routeSearchCalls (mc_limits mc) then
             Inr (Out_PerIIBudgetExceeded, fail MAP_II_BUDGET_SHARE_EXHAUSTED st, delta)
           else
             bindR (findRoute mc st (te_id e) producer consumer) (\<lambda>route.
               let st1 = map_count (\<lambda>s. s\<lparr>ma_routeSearchCalls := ma_routeSearchCalls s + 1,
                     ma_totalRouteStateExpansions := ma_totalRouteStateExpansions s + st_stateExpansions (rsr_stats route)\<rparr>) st
               in case rsr_status route of
                    Route_NoPath \<Rightarrow>
                      Inr (Out_Exhausted, fail MAP_ROUTE_NO_PATH (map_count (\<lambda>s. s\<lparr>ma_routeNoPaths := ma_routeNoPaths s + 1\<rparr>) st1), delta)
                  | Route_BudgetExceeded \<Rightarrow>
                      Inr (Out_RouteBudgetExceeded,
                        fail MAP_ROUTE_BUDGET_EXCEEDED (map_count (\<lambda>s. s\<lparr>ma_routeBudgetExceeded := ma_routeBudgetExceeded s + 1\<rparr>) st1), delta)
                  | Route_TargetContractError \<Rightarrow> Inr (Out_InternalError, fail MAP_TARGET_CONTRACT_ERROR st1, delta)
                  | Route_Success \<Rightarrow>
                      (case rsr_plan route of
                         None \<Rightarrow> Inr (Out_InternalError, fail MAP_INTERNAL_ERROR st1, delta)
                       | Some plan \<Rightarrow>
                           acceptRoute mc e producer plan (map_count (\<lambda>s. s\<lparr>ma_routeSuccesses := ma_routeSuccesses s + 1\<rparr>) st1) delta)
                  | _ \<Rightarrow> Inr (Out_InternalError, fail MAP_INTERNAL_ERROR st1, delta)))))"

fun realizeEdges ::
  "MapContext \<Rightarrow> TargetEdgeId list \<Rightarrow> MapState \<Rightarrow> CandidateDelta \<Rightarrow> map_stop + (SearchOutcome \<times> MapState \<times> CandidateDelta)" where
  "realizeEdges mc [] st delta = Inr (Out_Success, st, delta)"
| "realizeEdges mc (e # es) st delta =
     bindR (realizeEdge mc e st delta) (\<lambda>(outcome, st', delta').
       if outcome \<noteq> Out_Success then Inr (outcome, st', delta') else realizeEdges mc es st' delta')"

definition tryCandidate ::
  "MapContext \<Rightarrow> TargetNodeId \<Rightarrow> Candidate \<Rightarrow> MapState \<Rightarrow> map_stop + (SearchOutcome \<times> MapState \<times> CandidateDelta)" where
  "tryCandidate mc node c st =
     bindR (lift_map (tdfg_node (mc_dfg mc) node)) (\<lambda>n.
       let rejected = map_count (\<lambda>s. s\<lparr>ma_rejectedPlacements := ma_rejectedPlacements s + 1\<rparr>) st in
       case operationFootprint (mc_resources mc) n (cd_tile c) (cd_slot c) of
         Inl _ \<Rightarrow> Inr (Out_Exhausted, rejected, empty_delta)
       | Inr footprint \<Rightarrow>
           (case tryReserve footprint \<lparr>ro_kind = Owner_Node, ro_id = node\<rparr> (ms_reservations st) of
              (table, None) \<Rightarrow>
                Inr (Out_Exhausted, map_diag MAP_NODE_RESOURCE_CONFLICT (Some (mc_ii mc)) (Some node) None rejected, empty_delta)
            | (table, Some granted) \<Rightarrow>
                let st1 = map_count (\<lambda>s. s\<lparr>ma_successfulPlacements := ma_successfulPlacements s + 1\<rparr>)
                      (st\<lparr>ms_reservations := table, ms_placements := emplace_by pl_node
                        \<lparr>pl_node = node, pl_tile = cd_tile c, pl_issueSlot = cd_slot c\<rparr> (ms_placements st)\<rparr>)
                in realizeEdges mc (closedEdges mc st1 node) st1
                     (empty_delta\<lparr>de_node := node, de_nodeReservation := granted\<rparr>)))"

section \<open>Backtracking\<close>

definition rollback :: "CandidateDelta \<Rightarrow> MapState \<Rightarrow> MapState result" where
  "rollback delta st =
     bindR (foldR (\<lambda>table d. undo d table) (ms_reservations st) (rev (de_edgeReservations delta))) (\<lambda>table.
     bindR (if dl_resources (de_nodeReservation delta) \<noteq> [] then undo (de_nodeReservation delta) table else Inr table) (\<lambda>table'.
       Inr (st\<lparr>ms_reservations := table',
         ms_dependences := filter (\<lambda>d. md_edge d \<notin> set (de_edges delta)) (ms_dependences st),
         ms_placements := filter (\<lambda>p. pl_node p \<noteq> de_node delta) (ms_placements st)\<rparr>)))"

definition materialize :: "MapContext \<Rightarrow> MapState \<Rightarrow> ModuloMapping result" where
  "materialize mc st =
     bindR (mk_ModuloMappingBuilder (mc_dfg mc) (mc_ii mc)) (\<lambda>b.
     bindR (foldR (\<lambda>b p. mb_place (pl_node p) (pl_tile p) (pl_issueSlot p) b) b (ms_placements st)) (\<lambda>b.
     bindR (foldR (\<lambda>b d. case md_transport d of
                Some plan \<Rightarrow> mb_setTransport (md_edge d) plan b
              | None \<Rightarrow> mb_setMemorySeparation (md_edge d) (md_requiredSeparation d) b) b (ms_dependences st)) mb_finish))"

definition starts_with :: "string \<Rightarrow> string \<Rightarrow> bool" where
  "starts_with s p \<longleftrightarrow> take (length p) s = p"

definition checkComplete ::
  "MapContext \<Rightarrow> ModuloMapping \<Rightarrow> CompleteMappingChecker \<Rightarrow> MapState \<Rightarrow> (SearchOutcome \<times> MapState) result" where
  "checkComplete mc m checker st =
     bindR (checker (mc_dfg mc) (mc_target mc) m) (\<lambda>check.
       case ck_decision check of
         Check_Accept \<Rightarrow> Inr (Out_Success, st)
       | Check_Reject \<Rightarrow>
           Inr (Out_Exhausted, (map_diag MAP_POST_MAPPING_REJECTED (Some (mc_ii mc)) None None (map_count (\<lambda>s.
             s\<lparr>ma_postMappingRejected := ma_postMappingRejected s + 1,
               ma_stageRejected := ma_stageRejected s + (if starts_with (ck_reasonCode check) ''stage'' then 1 else 0),
               ma_rfRejected := ma_rfRejected s + (if starts_with (ck_reasonCode check) ''rf'' then 1 else 0)\<rparr>) st))
             \<lparr>ms_mapping := None\<rparr>)
       | Check_Abort \<Rightarrow>
           Inr (if starts_with (ck_reasonCode check) ''budget'' then Out_BudgetExceeded
                else if starts_with (ck_reasonCode check) ''verification'' then Out_VerificationFailure
                else Out_InternalError,
                (map_diag MAP_INTERNAL_ERROR (Some (mc_ii mc)) None None
                   (map_count (\<lambda>s. s\<lparr>ma_postMappingAbort := ma_postMappingAbort s + 1\<rparr>) st))\<lparr>ms_mapping := None\<rparr>))"

definition complete :: "MapContext \<Rightarrow> MapState \<Rightarrow> (SearchOutcome \<times> MapState) result" where
  "complete mc st =
     (case materialize mc st of
        Inl _ \<Rightarrow> Inr (Out_InternalError, (map_diag MAP_INTERNAL_ERROR (Some (mc_ii mc)) None None st)\<lparr>ms_mapping := None\<rparr>)
      | Inr m \<Rightarrow>
          bindR (mapping_verify (mc_dfg mc) (mc_target mc) m) (\<lambda>report.
            let st1 = st\<lparr>ms_mapping := Some m\<rparr> in
            if report \<noteq> [] then
              Inr (Out_VerificationFailure,
                if ms_verificationFailureReported st1 then st1
                else (map_diag MAP_FINAL_VERIFICATION_FAILED (Some (mc_ii mc)) None None st1)
                  \<lparr>ms_verificationFailureReported := True\<rparr>)
            else
              let st2 = map_count (\<lambda>s. s\<lparr>ma_completedModuloMappings := ma_completedModuloMappings s + 1\<rparr>) st1 in
              case mo_completeMappingChecker (mc_options mc) of
                None \<Rightarrow> Inr (Out_Success, st2)
              | Some checker \<Rightarrow> checkComplete mc m checker st2))"

text \<open>The loop over the candidates of a node; \<open>deeper\<close> is the recursive search.\<close>

fun tryCandidates ::
  "(MapState \<Rightarrow> map_stop + (SearchOutcome \<times> MapState)) \<Rightarrow> MapContext \<Rightarrow> TargetNodeId \<Rightarrow> Candidate list \<Rightarrow> MapState \<Rightarrow>
   map_stop + (SearchOutcome \<times> MapState)" where
  "tryCandidates deeper mc node [] st = Inr (Out_Exhausted, st)"
| "tryCandidates deeper mc node (c # cs) st =
     (if ma_nodeCandidateAttempts (ms_stats st) \<ge> sl_nodeCandidateAttempts (mc_limits mc) then
        Inr (Out_PerIIBudgetExceeded, map_diag MAP_II_BUDGET_SHARE_EXHAUSTED (Some (mc_ii mc)) (Some node) None st)
      else
        bindR (tryCandidate mc node c
            (map_count (\<lambda>s. s\<lparr>ma_nodeCandidateAttempts := ma_nodeCandidateAttempts s + 1\<rparr>) st)) (\<lambda>(outcome, st1, delta).
          if outcome = Out_Exhausted then
            if dl_resources (de_nodeReservation delta) = [] then tryCandidates deeper mc node cs st1
            else bindR (lift_map (rollback delta st1)) (\<lambda>st2. tryCandidates deeper mc node cs st2)
          else if outcome \<noteq> Out_Success then
            bindR (lift_map (rollback delta st1)) (\<lambda>st2. Inr (outcome, st2))
          else
            bindR (deeper st1) (\<lambda>(childOutcome, st2).
              if childOutcome = Out_Success then Inr (Out_Success, st2)
              else
                bindR (lift_map (rollback delta st2)) (\<lambda>st3.
                  if childOutcome \<noteq> Out_Exhausted then Inr (childOutcome, st3)
                  else if ma_backtracks (ms_stats st3) \<ge> sl_backtracks (mc_limits mc) then
                    Inr (Out_PerIIBudgetExceeded,
                      map_diag MAP_II_BUDGET_SHARE_EXHAUSTED (Some (mc_ii mc)) (Some node) None st3)
                  else
                    tryCandidates deeper mc node cs
                      (map_count (\<lambda>s. s\<lparr>ma_backtracks := ma_backtracks s + 1\<rparr>) st3)))))"

fun map_search :: "nat \<Rightarrow> MapContext \<Rightarrow> nat \<Rightarrow> MapState \<Rightarrow> map_stop + (SearchOutcome \<times> MapState)" where
  "map_search 0 mc depth st = Inl Map_Depth"
| "map_search (Suc n) mc depth st =
     (let st1 = map_count (\<lambda>s. s\<lparr>ma_maxSearchDepth := max (ma_maxSearchDepth s) depth\<rparr>) st in
      if allNodesMapped mc st1 then lift_map (complete mc st1)
      else
        bindR (lift_map (selectNode mc st1)) (\<lambda>node.
        bindR (lift_map (candidates mc st1 node)) (\<lambda>cs.
          if cs = [] then
            Inr (Out_Exhausted, map_diag MAP_NO_COMPATIBLE_CANDIDATE (Some (mc_ii mc)) (Some node) None st1)
          else tryCandidates (map_search n mc (depth + 1)) mc node cs st1)))"

section \<open>The search over initiation intervals\<close>

definition fairShareLimit :: "nat \<Rightarrow> nat \<Rightarrow> nat \<Rightarrow> nat" where
  "fairShareLimit maximum used attemptsRemaining =
     (if used \<ge> maximum then used
      else
        let remaining = maximum - used;
            share = (if attemptsRemaining = 1 then remaining else remaining div 2 + remaining mod 2)
        in used + share)"

text \<open>One attempt: the search from an empty state that shares statistics and diagnostics with the result.\<close>

definition attemptII ::
  "TargetDFG \<Rightarrow> TargetModel \<Rightarrow> ModuloMapperOptions \<Rightarrow> nat \<Rightarrow> ModuloMapperResult \<Rightarrow> nat \<Rightarrow>
   map_stop + (SearchOutcome \<times> MapState)" where
  "attemptII g t options maxII r ii =
     (let stats = (mr_stats r)\<lparr>ma_iiAttempts := ma_iiAttempts (mr_stats r) + 1\<rparr>; budget = mo_budget options;
          attemptsRemaining = maxII - ii + 1;
          limits = \<lparr>sl_nodeCandidateAttempts = fairShareLimit (mu_maxNodeCandidateAttempts budget) (ma_nodeCandidateAttempts stats) attemptsRemaining,
            sl_backtracks = fairShareLimit (mu_maxBacktracks budget) (ma_backtracks stats) attemptsRemaining,
            sl_routeSearchCalls = fairShareLimit (mu_maxRouteSearchCalls budget) (ma_routeSearchCalls stats) attemptsRemaining\<rparr>
      in bindR (lift_map (mk_ModuloResourceModel t ii)) (\<lambda>rm.
           map_search (Suc (length (td_nodes g)))
             \<lparr>mc_dfg = g, mc_target = t, mc_options = options, mc_ii = ii, mc_resources = rm, mc_limits = limits\<rparr> 0
             \<lparr>ms_reservations = mk_ReservationTable rm, ms_placements = [], ms_dependences = [], ms_mapping = None,
              ms_verificationFailureReported = False, ms_stats = stats, ms_diagnostics = mr_diagnostics r\<rparr>))"

fun mapIIs ::
  "TargetDFG \<Rightarrow> TargetModel \<Rightarrow> ModuloMapperOptions \<Rightarrow> nat \<Rightarrow> bool \<Rightarrow> ModuloMapperResult \<Rightarrow> nat list \<Rightarrow>
   map_stop + ModuloMapperResult" where
  "mapIIs g t options maxII exceeded r [] =
     Inr (if exceeded then r\<lparr>mr_status := Map_BudgetExceeded\<rparr>
          else r\<lparr>mr_status := Map_NoMappingWithinIILimit,
                 mr_diagnostics := mr_diagnostics r @ [MapDiag MAP_NO_MAPPING_WITHIN_II_LIMIT None None None]\<rparr>)"
| "mapIIs g t options maxII exceeded r (ii # iis) =
     bindR (attemptII g t options maxII r ii) (\<lambda>(outcome, st).
       let r1 = r\<lparr>mr_stats := (ms_stats st)\<lparr>ma_finalII := ii\<rparr>, mr_diagnostics := ms_diagnostics st\<rparr> in
       case outcome of
         Out_Success \<Rightarrow> Inr (r1\<lparr>mr_status := Map_Success, mr_mapping := ms_mapping st\<rparr>)
       | Out_PerIIBudgetExceeded \<Rightarrow> mapIIs g t options maxII True r1 iis
       | Out_BudgetExceeded \<Rightarrow> Inr (r1\<lparr>mr_status := Map_BudgetExceeded\<rparr>)
       | Out_RouteBudgetExceeded \<Rightarrow> Inr (r1\<lparr>mr_status := Map_RouteBudgetExceeded\<rparr>)
       | Out_VerificationFailure \<Rightarrow> Inr (r1\<lparr>mr_status := Map_VerificationFailure, mr_mapping := None\<rparr>)
       | Out_InternalError \<Rightarrow> Inr (r1\<lparr>mr_status := Map_InternalError, mr_mapping := None\<rparr>)
       | Out_Exhausted \<Rightarrow> mapIIs g t options maxII exceeded r1 iis
       | Out_PostMappingAbort \<Rightarrow> mapIIs g t options maxII exceeded r1 iis)"

definition map_failure ::
  "ModuloMapperStatus \<Rightarrow> ModuloMapperDiagnosticCode \<Rightarrow> nat option \<Rightarrow> ModuloMapperResult \<Rightarrow> map_stop + ModuloMapperResult" where
  "map_failure status c ii r = Inr (r\<lparr>mr_status := status, mr_diagnostics := mr_diagnostics r @ [MapDiag c ii None None]\<rparr>)"

definition modulo_map :: "TargetDFG \<Rightarrow> TargetModel \<Rightarrow> ModuloMapperOptions \<Rightarrow> map_stop + ModuloMapperResult" where
  "modulo_map g t options =
     bindR (lift_map (mii_analyze g t)) (\<lambda>mii.
       let r = empty_mapper_result in
       if mi_status mii \<noteq> MII_Success then
         (case mi_status mii of
            MII_InvalidTargetDFG \<Rightarrow> map_failure Map_InvalidTargetDFG MAP_INVALID_TARGET_DFG None r
          | MII_TargetContractError \<Rightarrow> map_failure Map_TargetContractError MAP_TARGET_CONTRACT_ERROR None r
          | _ \<Rightarrow> map_failure Map_MIIAnalysisFailure MAP_MII_ANALYSIS_FAILED None r)
       else if mi_mii mii = 0 \<or> mi_mii mii = u32_max then map_failure Map_MIIAnalysisFailure MAP_MII_ANALYSIS_FAILED None r
       else
         let r1 = r\<lparr>mr_stats := (mr_stats r)\<lparr>ma_startingMII := mi_mii mii\<rparr>\<rparr>;
             startII = max (mi_mii mii) (if mo_minII options = 0 then mi_mii mii else mo_minII options);
             maxII = (if mo_maxII options = 0 then startII else mo_maxII options)
         in if maxII < startII then
              map_failure Map_NoMappingWithinIILimit MAP_NO_MAPPING_WITHIN_II_LIMIT (Some (mi_mii mii)) r1
            else mapIIs g t options maxII False r1 [startII..<Suc maxII])"

end
