(* ===== verification/Best_First.thy ===== *)
theory Best_First
  imports Prelude
begin

text \<open>
  Shortest paths by best-first search, as the route search does it.  States are reached from a start
  along weighted moves; the locale \<open>best_first\<close> asks of the costs only that extending a path is
  monotone and never makes it cheaper.  Its invariant relates the table of best costs, the set of
  finished states, the set of finished states whose moves are all relaxed, and the queue; its lemmas
  say what taking an entry and relaxing a move do to the invariant, that a finished goal is reached at
  the least cost, and that an exhausted queue leaves no goal to reach.
\<close>

inductive reached :: "('s \<Rightarrow> 'm \<Rightarrow> 's \<Rightarrow> bool) \<Rightarrow> ('c \<Rightarrow> 'm \<Rightarrow> 'c) \<Rightarrow> 's \<Rightarrow> 'c \<Rightarrow> 's \<Rightarrow> 'c \<Rightarrow> bool"
  for move extend start c0 where
  reached_start: "reached move extend start c0 start c0"
| reached_step: "reached move extend start c0 s c \<Longrightarrow> move s m s' \<Longrightarrow> reached move extend start c0 s' (extend c m)"

locale best_first =
  fixes move :: "'s \<Rightarrow> 'm \<Rightarrow> 's \<Rightarrow> bool"
    and extend :: "'c :: linorder \<Rightarrow> 'm \<Rightarrow> 'c"
    and start :: 's and c0 :: 'c and top :: 'c
  assumes extend_mono: "c \<le> c' \<Longrightarrow> extend c m \<le> extend c' m"
    and extend_ge: "c \<le> extend c m"
begin

abbreviation reach :: "'s \<Rightarrow> 'c \<Rightarrow> bool" where
  "reach \<equiv> reached move extend start c0"

definition search_inv :: "'s set \<Rightarrow> 's set \<Rightarrow> ('s \<Rightarrow> 'c) \<Rightarrow> ('c \<times> 's) set \<Rightarrow> bool" where
  "search_inv F K best Q \<longleftrightarrow>
     K \<subseteq> F \<and> (\<forall>s. best s \<le> top) \<and> (\<forall>s. best s < top \<longrightarrow> reach s (best s)) \<and> best start \<le> c0 \<and>
     (\<forall>s \<in> K. \<forall>m s'. move s m s' \<longrightarrow> best s' \<le> extend (best s) m) \<and>
     (\<forall>s. s \<notin> F \<longrightarrow> best s < top \<longrightarrow> (best s, s) \<in> Q) \<and>
     (\<forall>s \<in> F. \<forall>(c, s') \<in> Q. best s \<le> c) \<and> (\<forall>(c, s) \<in> Q. c < top) \<and> (\<forall>s \<in> F. best s < top)"

lemma search_invD:
  assumes "search_inv F K best Q"
  shows "K \<subseteq> F" "best s \<le> top" "best s < top \<Longrightarrow> reach s (best s)" "best start \<le> c0"
    "s \<in> K \<Longrightarrow> move s m s' \<Longrightarrow> best s' \<le> extend (best s) m"
    "s \<notin> F \<Longrightarrow> best s < top \<Longrightarrow> (best s, s) \<in> Q"
    "s \<in> F \<Longrightarrow> (c, s') \<in> Q \<Longrightarrow> best s \<le> c" "(c, s') \<in> Q \<Longrightarrow> c < top" "s \<in> F \<Longrightarrow> best s < top"
  using assms unfolding search_inv_def by blast+

lemma search_inv_init:
  assumes "c0 < top"
  shows "search_inv {} {} ((\<lambda>_. top)(start := c0)) {(c0, start)}"
  using assms by (auto simp: search_inv_def intro: reached_start)

lemma search_inv_stale:
  assumes inv: "search_inv F K best Q" and "s \<in> F \<or> c \<noteq> best s"
    and Q': "Q \<subseteq> insert (c, s) Q'" "Q' \<subseteq> Q"
  shows "search_inv F K best Q'"
  using assms unfolding search_inv_def by blast

lemma search_inv_take:
  assumes inv: "search_inv F F best Q" and s: "s \<notin> F" and c: "c = best s" and mem: "(c, s) \<in> Q"
    and least: "\<forall>(c', s') \<in> Q. c \<le> c'"
    and Q': "Q \<subseteq> insert (c, s) Q'" "Q' \<subseteq> Q"
  shows "search_inv (insert s F) F best Q'" and "\<forall>s' \<in> insert s F. best s' \<le> best s"
proof -
  note D = search_invD [OF inv]
  show "\<forall>s' \<in> insert s F. best s' \<le> best s" using D(7) [OF _ mem] c by auto
  show "search_inv (insert s F) F best Q'"
    unfolding search_inv_def
  proof (intro conjI ballI allI impI)
    fix x assume x: "x \<notin> insert s F" "best x < top"
    with D(6) [of x] have "(best x, x) \<in> Q" by simp
    with x Q' show "(best x, x) \<in> Q'" by auto
  next
    fix x p assume "x \<in> insert s F" "p \<in> Q'"
    with Q' D(7) least c show "case p of (c, s') \<Rightarrow> best x \<le> c" by (cases p) blast
  next
    fix p assume "p \<in> Q'"
    with Q' D(8) show "case p of (c, s) \<Rightarrow> c < top" by (cases p) auto
  next
    fix x assume "x \<in> insert s F"
    with D(8) [OF mem] D(9) c show "best x < top" by auto
  qed (use D in auto)
qed

lemma search_inv_relax:
  assumes inv: "search_inv F K best Q" and x: "x \<in> F" and le: "\<forall>s \<in> F. best s \<le> best x"
    and move: "move x m d" and c: "c = extend (best x) m" and d: "d \<notin> F" "c < best d"
  shows "search_inv F K (best(d := c)) (insert (c, d) Q)"
proof -
  note D = search_invD [OF inv]
  have reach: "reach d c" unfolding c by (rule reached_step [OF D(3) [OF D(9) [OF x]] move])
  have KF: "s \<noteq> d" if "s \<in> F" for s using d that by blast
  have low: "(best(d := c)) s \<le> best s" for s using d by (simp add: less_imp_le)
  show ?thesis unfolding search_inv_def
  proof (intro conjI ballI allI impI)
    fix s assume "(best(d := c)) s < top"
    with D(3) [of s] reach show "reach s ((best(d := c)) s)" by (cases "s = d") auto
  next
    show "(best(d := c)) start \<le> c0" using low [of start] D(4) by simp
  next
    fix s m s' assume s: "s \<in> K" "move s m s'"
    with D(1) KF have "(best(d := c)) s = best s" by auto
    with low [of s'] D(5) [OF s] show "(best(d := c)) s' \<le> extend ((best(d := c)) s) m" by simp
  next
    fix s p assume s: "s \<in> F" "p \<in> insert (c, d) Q"
    have "best s \<le> c" using le s(1) extend_ge [of "best x" m] c by (meson order_trans)
    with s KF D(7) [OF s(1)] show "case p of (e, s') \<Rightarrow> (best(d := c)) s \<le> e" by (cases p) auto
  next
    fix p assume "p \<in> insert (c, d) Q"
    with D(8) d D(2) [of d] show "case p of (c, s) \<Rightarrow> c < top" by (cases p) auto
  next
    show "(best(d := c)) s \<le> top" for s by (rule order_trans [OF low D(2)])
  qed (use D d KF in auto)
qed

lemma relax_not_needed:
  assumes "search_inv F K best Q" "x \<in> F" "\<forall>s \<in> F. best s \<le> best x" "d \<in> F \<or> \<not> extend (best x) m < best d"
  shows "best d \<le> extend (best x) m"
  using assms extend_ge [of "best x" m] by (meson not_less order_trans)

lemma search_inv_close:
  assumes "search_inv F K best Q" "x \<in> F" "\<And>m s'. move x m s' \<Longrightarrow> best s' \<le> extend (best x) m"
  shows "search_inv F (insert x K) best Q"
  using assms unfolding search_inv_def by blast

text \<open>A path from the start stays inside the finished states or meets an open state that is not dearer.\<close>

lemma first_open:
  assumes "reach s c" and inv: "search_inv F F best Q"
  shows "s \<in> F \<and> best s \<le> c \<or> (\<exists>x. x \<notin> F \<and> best x \<le> c)"
  using assms(1)
proof (induction rule: reached.induct)
  case reached_start
  then show ?case using search_invD(4) [OF inv] by blast
next
  case (reached_step s c m s')
  note ge = extend_ge [of c m]
  show ?case
  proof (cases "s \<in> F \<and> best s \<le> c")
    case True
    with search_invD(5) [OF inv] reached_step.hyps(2) extend_mono have "best s' \<le> extend c m"
      by (meson order_trans)
    then show ?thesis by blast
  next
    case False
    with reached_step.IH ge show ?thesis by (meson order_trans)
  qed
qed

theorem goal_least:
  assumes inv: "search_inv F F best Q" and mem: "(c, s) \<in> Q" and least: "\<forall>(c', s') \<in> Q. c \<le> c'"
    and goal: "reach g c'" "g \<notin> F"
  shows "c \<le> c'"
proof -
  obtain x where x: "x \<notin> F" "best x \<le> c'" using first_open [OF goal(1) inv] goal(2) by blast
  show ?thesis
  proof (cases "best x < top")
    case True
    with search_invD(6) [OF inv x(1)] least have "c \<le> best x" by blast
    with x show ?thesis by simp
  next
    case False
    with search_invD(8) [OF inv mem] x show ?thesis by simp
  qed
qed

theorem goal_exhausted:
  assumes inv: "search_inv F F best {}" and goal: "reach g c'" "g \<notin> F"
  shows "top \<le> c'"
  using first_open [OF goal(1) inv] goal(2) search_invD(6) [OF inv] by (meson empty_iff not_less order_trans)

end

end
