(* ===== verification/Route_Inv.thy ===== *)
theory Route_Inv
  imports Route_Search Best_First
begin

text \<open>
  The main loop of the route search as a best-first search: its moves over free links and holds, the
  invariant of its tables and its queue, and that every iteration keeps it.
\<close>

section \<open>States and moves\<close>

definition on_mesh :: "TargetModel \<Rightarrow> TileCoord \<Rightarrow> bool" where
  "on_mesh t tile \<longleftrightarrow> tile_row tile < arr_rows (tm_array t) \<and> tile_col tile < arr_cols (tm_array t)"

text \<open>The sizes of the table of states: mesh and initiation interval are 32-bit values whose product
  fits the 64-bit index.\<close>

definition states_fit :: "TargetModel \<Rightarrow> nat \<Rightarrow> bool" where
  "states_fit t ii \<longleftrightarrow> arr_rows (tm_array t) \<le> u32_max \<and> arr_cols (tm_array t) \<le> u32_max \<and> ii \<le> u32_max \<and>
     arr_rows (tm_array t) * arr_cols (tm_array t) * ii \<le> u64_max"

definition stateTotal :: "TargetModel \<Rightarrow> nat \<Rightarrow> nat" where
  "stateTotal t ii = arr_rows (tm_array t) * arr_cols (tm_array t) * ii"

lemma mixed_radix_less:
  fixes a b c n m :: nat
  assumes "a < l" "b < m" "c < k"
  shows "(a * m + b) * k + c < m * k * l"
proof -
  have "a * m + b < l * m" using assms(1,2)
    by (metis add.commute less_le_trans mult_Suc mult_le_mono1 Suc_leI add_strict_right_mono)
  then have "(a * m + b) * k + k \<le> l * m * k"
    by (metis Suc_leI mult_Suc add.commute mult_le_mono1)
  with assms(3) show ?thesis by (simp add: algebra_simps)
qed

lemma stateId_less: "on_mesh t tile \<Longrightarrow> slot < ii \<Longrightarrow> stateId t tile slot < stateTotal t ii"
  unfolding on_mesh_def stateId_def stateTotal_def by (rule mixed_radix_less) simp_all

lemma stateFor_stateId:
  assumes "on_mesh t tile" "slot < ii" "states_fit t ii"
  shows "stateFor t (stateId t tile slot) = (tile, slot)"
proof -
  let ?R = "arr_rows (tm_array t)" and ?C = "arr_cols (tm_array t)"
  have lt: "tile_row tile < ?R" "tile_col tile < ?C" using assms(1) by (simp_all add: on_mesh_def)
  have id: "stateId t tile slot = slot * (?R * ?C) + (tile_row tile * ?C + tile_col tile)"
    by (simp add: stateId_def algebra_simps)
  have in_row: "tile_row tile * ?C + tile_col tile < ?R * ?C"
    using mixed_radix_less [of 0 1 "tile_row tile" ?R "tile_col tile" ?C] lt by simp
  have "stateId t tile slot div (?R * ?C) = slot"
    "stateId t tile slot mod (?R * ?C) = tile_row tile * ?C + tile_col tile"
    unfolding id using in_row
    by (metis add.right_neutral div_less div_mult_self3 less_nat_zero_code, metis mod_less mod_mult_self3)
  moreover have "(tile_row tile * ?C + tile_col tile) div ?C = tile_row tile"
    "(tile_row tile * ?C + tile_col tile) mod ?C = tile_col tile"
    using lt by (simp_all add: div_mult_self3)
  moreover have "tile_row tile < 4294967296" "tile_col tile < 4294967296" "slot < 4294967296"
    using lt assms(2,3) by (simp_all add: states_fit_def)
  ultimately show ?thesis by (simp add: stateFor_def Let_def)
qed

lemma stateFor_eq:
  assumes "i < stateTotal t ii" "states_fit t ii"
  defines "rowCount \<equiv> arr_rows (tm_array t) * arr_cols (tm_array t)"
  shows "i mod rowCount div arr_cols (tm_array t) < arr_rows (tm_array t)"
    "i mod rowCount mod arr_cols (tm_array t) < arr_cols (tm_array t)" "i div rowCount < ii"
    "stateFor t i = (\<lparr>tile_row = i mod rowCount div arr_cols (tm_array t),
       tile_col = i mod rowCount mod arr_cols (tm_array t)\<rparr>, i div rowCount)"
proof -
  let ?R = "arr_rows (tm_array t)" and ?C = "arr_cols (tm_array t)"
  have pos: "0 < rowCount" "0 < ?C" using assms(1) unfolding rowCount_def by (cases "?R * ?C = 0"; auto simp: stateTotal_def)+
  have "i mod rowCount < ?R * ?C" using pos by (simp add: rowCount_def)
  then show r: "i mod rowCount div ?C < ?R" by (simp add: less_mult_imp_div_less)
  show c: "i mod rowCount mod ?C < ?C" using pos by simp
  show s: "i div rowCount < ii"
    using assms(1) by (simp add: stateTotal_def rowCount_def less_mult_imp_div_less mult.commute)
  have "i mod rowCount div ?C < 4294967296" "i mod rowCount mod ?C < 4294967296" "i div rowCount < 4294967296"
    using r c s assms(2) by (simp_all only: states_fit_def) linarith+
  then show "stateFor t i = (\<lparr>tile_row = i mod rowCount div ?C, tile_col = i mod rowCount mod ?C\<rparr>, i div rowCount)"
    by (simp add: stateFor_def Let_def rowCount_def)
qed

lemma stateFor_on_mesh:
  assumes "i < stateTotal t ii" "states_fit t ii"
  shows "on_mesh t (fst (stateFor t i))" "snd (stateFor t i) < ii"
  using stateFor_eq [OF assms] by (simp_all add: on_mesh_def)

lemma stateId_stateFor:
  assumes "i < stateTotal t ii" "states_fit t ii"
  shows "stateId t (fst (stateFor t i)) (snd (stateFor t i)) = i"
proof -
  let ?R = "arr_rows (tm_array t)" and ?C = "arr_cols (tm_array t)"
  have "stateId t (fst (stateFor t i)) (snd (stateFor t i)) =
      i div (?R * ?C) * (?R * ?C) + (i mod (?R * ?C) div ?C * ?C + i mod (?R * ?C) mod ?C)"
    by (simp add: stateFor_eq(4) [OF assms] stateId_def algebra_simps)
  also have "\<dots> = i div (?R * ?C) * (?R * ?C) + i mod (?R * ?C)" by (simp only: div_mult_mod_eq)
  also have "\<dots> = i" by (rule div_mult_mod_eq)
  finally show ?thesis .
qed

lemma stateFor_inj:
  assumes "i < stateTotal t ii" "j < stateTotal t ii" "states_fit t ii" "stateFor t i = stateFor t j"
  shows "i = j"
  using stateId_stateFor [OF assms(1,3)] stateId_stateFor [OF assms(2,3)] assms(4) by metis

lemma neighbor_on_mesh: "neighbor_in t tile d = Some tile' \<Longrightarrow> on_mesh t tile \<and> on_mesh t tile'"
  by (cases d) (auto simp: neighbor_in_def on_mesh_def split: if_splits)

text \<open>A link that exists and is free in a modulo slot.\<close>

definition link_free ::
  "ModuloResourceModel \<Rightarrow> ReservationTable \<Rightarrow> NetworkDomain \<Rightarrow> TileCoord \<Rightarrow> Direction \<Rightarrow> ModuloSlot \<Rightarrow> bool" where
  "link_free rm table domain tile d slot \<longleftrightarrow>
     (\<exists>r. linkResource rm domain tile d slot = Inr (Some r) \<and> isFree table r = Inr True)"

fun plus_Cost :: "Cost \<Rightarrow> Cost \<Rightarrow> Cost" where
  "plus_Cost (e, h, p) (e', h', p') = (e + e', h + h', p + p')"

definition move_cost :: "nat \<Rightarrow> PredecessorKind \<Rightarrow> Cost" where
  "move_cost hop k = (case k of Pred_None \<Rightarrow> (0, 0, 0) | Pred_Link \<Rightarrow> (hop, 0, 1) | Pred_Hold \<Rightarrow> (1, 1, 0))"

definition route_move :: "SearchContext \<Rightarrow> nat \<Rightarrow> PredecessorKind \<Rightarrow> Direction \<Rightarrow> nat \<Rightarrow> bool" where
  "route_move cx i k d j \<longleftrightarrow> i < stateTotal (cx_target cx) (rm_ii (cx_resources cx)) \<and>
     (case k of
        Pred_None \<Rightarrow> False
      | Pred_Link \<Rightarrow>
          (\<exists>tile'. neighbor_in (cx_target cx) (fst (stateFor (cx_target cx) i)) d = Some tile' \<and>
             link_free (cx_resources cx) (cx_reservations cx) (cx_domain cx) (fst (stateFor (cx_target cx) i)) d
               (snd (stateFor (cx_target cx) i)) \<and>
             j = stateId (cx_target cx) tile' ((snd (stateFor (cx_target cx) i) + hop_latency cx) mod rm_ii (cx_resources cx)))
      | Pred_Hold \<Rightarrow>
          ro_allowVirtualHold (cx_options cx) \<and> d = North \<and>
          j = stateId (cx_target cx) (fst (stateFor (cx_target cx) i))
                ((snd (stateFor (cx_target cx) i) + 1) mod rm_ii (cx_resources cx)))"

definition some_move :: "SearchContext \<Rightarrow> nat \<Rightarrow> PredecessorKind \<Rightarrow> nat \<Rightarrow> bool" where
  "some_move cx i k j \<longleftrightarrow> (\<exists>d. route_move cx i k d j)"

definition extend_route :: "SearchContext \<Rightarrow> Cost \<Rightarrow> PredecessorKind \<Rightarrow> Cost" where
  "extend_route cx c k = plus_Cost c (move_cost (hop_latency cx) k)"

lemma plus_Cost_mono: "c \<le> c' \<Longrightarrow> plus_Cost c w \<le> plus_Cost c' w"
  by (cases c; cases c'; cases w) (auto simp: less_eq_prod_def)

lemma plus_Cost_ge: "c \<le> plus_Cost c w"
  by (cases c; cases w) (auto simp: less_eq_prod_def)

interpretation route: best_first "some_move cx" "extend_route cx" start c0 max_Cost for cx start c0
  by unfold_locales (simp_all add: extend_route_def plus_Cost_mono plus_Cost_ge)

text \<open>What the search relies on: the tables fit, the producer's slot is a slot, hops take time.\<close>

definition search_ok :: "SearchContext \<Rightarrow> bool" where
  "search_ok cx \<longleftrightarrow> states_fit (cx_target cx) (rm_ii (cx_resources cx)) \<and>
     pl_issueSlot (rq_producer (cx_request cx)) < rm_ii (cx_resources cx) \<and> 0 < hop_latency cx"

lemma route_move_state:
  assumes "route_move cx i k d j" "search_ok cx"
  shows "j < stateTotal (cx_target cx) (rm_ii (cx_resources cx))"
    and "snd (stateFor (cx_target cx) j) =
      (snd (stateFor (cx_target cx) i) + fst (move_cost (hop_latency cx) k)) mod rm_ii (cx_resources cx)"
    and "k = Pred_Hold \<Longrightarrow> fst (stateFor (cx_target cx) j) = fst (stateFor (cx_target cx) i)"
    and "k = Pred_Link \<Longrightarrow> neighbor_in (cx_target cx) (fst (stateFor (cx_target cx) i)) d = Some (fst (stateFor (cx_target cx) j))"
proof -
  let ?t = "cx_target cx" and ?ii = "rm_ii (cx_resources cx)"
  have fit: "states_fit ?t ?ii" and ii: "0 < ?ii" using assms(2) by (auto simp: search_ok_def)
  have i: "i < stateTotal ?t ?ii" using assms(1) by (simp add: route_move_def)
  have mesh: "on_mesh ?t (fst (stateFor ?t i))" by (rule stateFor_on_mesh(1) [OF i fit])
  obtain tile' where j: "j = stateId ?t tile' ((snd (stateFor ?t i) + fst (move_cost (hop_latency cx) k)) mod ?ii)"
    and tile': "on_mesh ?t tile'" "k = Pred_Hold \<longrightarrow> tile' = fst (stateFor ?t i)"
      "k = Pred_Link \<longrightarrow> neighbor_in ?t (fst (stateFor ?t i)) d = Some tile'"
    using assms(1) mesh by (cases k) (auto simp: route_move_def move_cost_def dest: neighbor_on_mesh)
  show "j < stateTotal ?t ?ii" unfolding j by (rule stateId_less [OF tile'(1)]) (simp add: ii)
  have "stateFor ?t j = (tile', (snd (stateFor ?t i) + fst (move_cost (hop_latency cx) k)) mod ?ii)"
    unfolding j by (rule stateFor_stateId [OF tile'(1) _ fit]) (simp add: ii)
  with tile' show "snd (stateFor ?t j) = (snd (stateFor ?t i) + fst (move_cost (hop_latency cx) k)) mod ?ii"
    "k = Pred_Hold \<Longrightarrow> fst (stateFor ?t j) = fst (stateFor ?t i)"
    "k = Pred_Link \<Longrightarrow> neighbor_in ?t (fst (stateFor ?t i)) d = Some (fst (stateFor ?t j))" by simp_all
qed

text \<open>On the start of the search the slot agrees with the elapsed time, and so on every state reached.\<close>

definition start_ok :: "SearchContext \<Rightarrow> nat \<Rightarrow> Cost \<Rightarrow> bool" where
  "start_ok cx start c0 \<longleftrightarrow> start < stateTotal (cx_target cx) (rm_ii (cx_resources cx)) \<and>
     snd (stateFor (cx_target cx) start) =
       (pl_issueSlot (rq_producer (cx_request cx)) + fst c0) mod rm_ii (cx_resources cx)"

lemma reached_slot:
  assumes "reached (some_move cx) (extend_route cx) start c0 i c" "search_ok cx" "start_ok cx start c0"
  shows "i < stateTotal (cx_target cx) (rm_ii (cx_resources cx)) \<and>
    snd (stateFor (cx_target cx) i) = (pl_issueSlot (rq_producer (cx_request cx)) + fst c) mod rm_ii (cx_resources cx)"
  using assms(1)
proof (induction rule: reached.induct)
  case reached_start
  then show ?case using assms(3) by (simp add: start_ok_def)
next
  case (reached_step s c k s')
  then obtain d where m: "route_move cx s k d s'" by (auto simp: some_move_def)
  show ?case using route_move_state(1,2) [OF m assms(2)] reached_step.IH
    by (cases c; cases "move_cost (hop_latency cx) k") (auto simp: extend_route_def mod_simps add.assoc)
qed

section \<open>The invariant of the loop\<close>

definition best_of :: "SearchState \<Rightarrow> nat \<Rightarrow> Cost" where
  "best_of st i = (if i < length (se_best st) then se_best st ! i else max_Cost)"

definition finished :: "SearchState \<Rightarrow> nat set" where
  "finished st = {i. i < length (se_finalized st) \<and> se_finalized st ! i}"

definition open_entries :: "SearchState \<Rightarrow> (Cost \<times> nat) set" where
  "open_entries st = (\<lambda>(c, s, q). (c, s)) ` set (se_queue st)"

definition tables_ok :: "nat \<Rightarrow> SearchState \<Rightarrow> bool" where
  "tables_ok n st \<longleftrightarrow> length (se_best st) = n \<and> length (se_predecessors st) = n \<and> length (se_finalized st) = n \<and>
     sorted (se_queue st) \<and> (\<forall>(c, s) \<in> open_entries st. s < n)"

definition back_ok :: "SearchContext \<Rightarrow> nat \<Rightarrow> SearchState \<Rightarrow> bool" where
  "back_ok cx start st \<longleftrightarrow>
     (\<forall>i < length (se_best st). i \<noteq> start \<longrightarrow> best_of st i < max_Cost \<longrightarrow>
        (case se_predecessors st ! i of p \<Rightarrow>
           route_move cx (pe_previous p) (pe_kind p) (pe_direction p) i \<and> pe_previous p \<in> finished st \<and>
           best_of st i = extend_route cx (best_of st (pe_previous p)) (pe_kind p)))"

abbreviation context_states :: "SearchContext \<Rightarrow> nat" where
  "context_states cx \<equiv> stateTotal (cx_target cx) (rm_ii (cx_resources cx))"

definition route_inv :: "SearchContext \<Rightarrow> nat \<Rightarrow> Cost \<Rightarrow> nat set \<Rightarrow> SearchState \<Rightarrow> bool" where
  "route_inv cx start c0 K st \<longleftrightarrow> tables_ok (context_states cx) st \<and> back_ok cx start st \<and>
     route.search_inv cx start c0 (finished st) K (best_of st) (open_entries st)"

text \<open>During an expansion costs only improve, and those of finished states stay.\<close>

definition improves :: "SearchState \<Rightarrow> SearchState \<Rightarrow> bool" where
  "improves st st' \<longleftrightarrow> finished st' = finished st \<and> (\<forall>s \<in> finished st. best_of st' s = best_of st s) \<and>
     (\<forall>s. best_of st' s \<le> best_of st s)"

lemma improves_refl [simp]: "improves st st"
  by (simp add: improves_def)

lemma improves_trans: "improves a b \<Longrightarrow> improves b c \<Longrightarrow> improves a c"
  unfolding improves_def by (auto intro: order_trans)

lemma stats_irrelevant [simp]:
  "best_of (st\<lparr>se_stats := x\<rparr>) = best_of st" "finished (st\<lparr>se_stats := x\<rparr>) = finished st"
  "open_entries (st\<lparr>se_stats := x\<rparr>) = open_entries st"
  by (simp_all add: best_of_def finished_def open_entries_def fun_eq_iff)

lemma invariant_stats [simp]:
  "route_inv cx start c0 K (st\<lparr>se_stats := x\<rparr>) = route_inv cx start c0 K st"
  "improves st (st'\<lparr>se_stats := x\<rparr>) = improves st st'" "improves (st\<lparr>se_stats := x\<rparr>) st' = improves st st'"
  by (simp_all add: tables_ok_def back_ok_def route_inv_def improves_def)

text \<open>A state being expanded: finished, and no finished state is dearer.\<close>

definition expanding :: "nat \<Rightarrow> SearchState \<Rightarrow> bool" where
  "expanding x st \<longleftrightarrow> x \<in> finished st \<and> (\<forall>s \<in> finished st. best_of st s \<le> best_of st x)"

lemma expanding_improves: "expanding x st \<Longrightarrow> improves st st' \<Longrightarrow> expanding x st'"
  by (auto simp: expanding_def improves_def)

lemma expanding_stats [simp]: "expanding x (st\<lparr>se_stats := y\<rparr>) = expanding x st"
  by (simp add: expanding_def)

lemma relaxTo_inv:
  assumes relax: "relaxTo cx x j cost k d st = Inr st'" and inv: "route_inv cx start c0 K st" and x: "expanding x st"
    and move: "route_move cx x k d j" and cost: "cost = extend_route cx (best_of st x) k" and ok: "search_ok cx"
  shows "route_inv cx start c0 K st' \<and> improves st st' \<and> best_of st' j \<le> cost"
proof (cases "se_finalized st ! j \<or> \<not> cost < se_best st ! j")
  case True
  have j: "j < context_states cx" by (rule route_move_state(1) [OF move ok])
  from True relax have st': "st' = st" by (simp add: relaxTo_def)
  from inv have tab: "tables_ok (context_states cx) st"
    and search: "route.search_inv cx start c0 (finished st) K (best_of st) (open_entries st)"
    by (simp_all add: route_inv_def)
  have "best_of st j \<le> cost" unfolding cost
  proof (rule route.relax_not_needed [OF search])
    show "j \<in> finished st \<or> \<not> extend_route cx (best_of st x) k < best_of st j"
      using True j tab unfolding cost by (simp add: tables_ok_def finished_def best_of_def)
  qed (use x in \<open>simp_all add: expanding_def\<close>)
  with st' inv show ?thesis by simp
next
  case False
  let ?n = "context_states cx"
  have j: "j < ?n" by (rule route_move_state(1) [OF move ok])
  from inv have tab: "tables_ok ?n st" and bk: "back_ok cx start st"
    and search: "route.search_inv cx start c0 (finished st) K (best_of st) (open_entries st)"
    by (simp_all add: route_inv_def)
  from False relax have
    best': "se_best st' = (se_best st)[j := cost]"
    and preds': "se_predecessors st' = (se_predecessors st)[j := \<lparr>pe_previous = x, pe_kind = k, pe_direction = d\<rparr>]"
    and fin': "se_finalized st' = se_finalized st"
    and queue': "se_queue st' = insort (cost, j, se_sequence st) (se_queue st)"
    by (auto simp: relaxTo_def push_def Let_def route_stop_with_def split: if_splits)
  have bo: "best_of st' = (best_of st)(j := cost)" using j tab by (auto simp: best_of_def best' tables_ok_def)
  have fo: "finished st' = finished st" by (simp add: finished_def fin')
  have qo: "open_entries st' = insert (cost, j) (open_entries st)" by (simp add: open_entries_def queue' set_insort_key)
  have jF: "j \<notin> finished st" and less: "cost < best_of st j"
    using False j tab by (simp_all add: finished_def best_of_def tables_ok_def)
  have search': "route.search_inv cx start c0 (finished st') K (best_of st') (open_entries st')"
    unfolding bo fo qo
    by (rule route.search_inv_relax [OF search _ _ _ cost jF less])
      (use x move in \<open>auto simp: expanding_def some_move_def\<close>)
  have tab': "tables_ok ?n st'"
    using tab j unfolding tables_ok_def qo by (simp add: best' preds' fin' queue' sorted_insort)
  have bk': "back_ok cx start st'" unfolding back_ok_def
  proof (intro allI impI)
    fix i assume i: "i < length (se_best st')" "i \<noteq> start" "best_of st' i < max_Cost"
    show "case se_predecessors st' ! i of p \<Rightarrow>
       route_move cx (pe_previous p) (pe_kind p) (pe_direction p) i \<and> pe_previous p \<in> finished st' \<and>
       best_of st' i = extend_route cx (best_of st' (pe_previous p)) (pe_kind p)"
    proof (cases "i = j")
      case True
      with x jF tab i(1) move cost show ?thesis
        by (auto simp: preds' bo fo best' tables_ok_def expanding_def)
    next
      case False
      with bk i have *: "case se_predecessors st ! i of p \<Rightarrow>
         route_move cx (pe_previous p) (pe_kind p) (pe_direction p) i \<and> pe_previous p \<in> finished st \<and>
         best_of st i = extend_route cx (best_of st (pe_previous p)) (pe_kind p)"
        by (simp add: back_ok_def best' bo)
      with False jF show ?thesis by (auto simp: preds' bo fo)
    qed
  qed
  have "improves st st'" using jF less by (auto simp: improves_def bo fo)
  then show ?thesis using search' tab' bk' by (simp add: route_inv_def bo)
qed

end
