(* ===== verification/Route_Loop.thy ===== *)
theory Route_Loop
  imports Route_Inv
begin

text \<open>
  The iterations of the route search keep the invariant, the queue budget bounds their number, and the
  state in which the loop ends decides between success and absence of a route.
\<close>

section \<open>Expansion\<close>

lemma lift_route_Inr [simp]: "lift_route r = Inr a \<longleftrightarrow> r = Inr a"
  by (auto simp: lift_route_def split: sum.splits)

lemma stop_not_Inr [simp]: "route_stop_with s ds stats \<noteq> Inr a" "overflow_stop cx st \<noteq> Inr a"
  by (simp_all add: route_stop_with_def overflow_stop_def Let_def)

lemma expanding_slot:
  assumes "route_inv cx start c0 K st" "expanding x st" "search_ok cx" "start_ok cx start c0"
  shows "x < context_states cx"
    and "snd (stateFor (cx_target cx) x) =
      (pl_issueSlot (rq_producer (cx_request cx)) + fst (best_of st x)) mod rm_ii (cx_resources cx)"
proof -
  have "reached (some_move cx) (extend_route cx) start c0 x (best_of st x)"
    using assms(1,2) route.search_invD(3,9) [of cx start c0 "finished st" K "best_of st" "open_entries st"]
    by (auto simp: route_inv_def expanding_def)
  from reached_slot [OF this assms(3,4)] show "x < context_states cx"
    "snd (stateFor (cx_target cx) x) =
      (pl_issueSlot (rq_producer (cx_request cx)) + fst (best_of st x)) mod rm_ii (cx_resources cx)" by simp_all
qed

lemma expandLink_inv:
  assumes expand: "expandLink cx x (best_of st x) st d = Inr st'"
    and inv: "route_inv cx start c0 K st" and x: "expanding x st" and ok: "search_ok cx" "start_ok cx start c0"
  shows "route_inv cx start c0 K st' \<and> improves st st' \<and>
    (\<forall>j. route_move cx x Pred_Link d j \<longrightarrow> best_of st' j \<le> extend_route cx (best_of st x) Pred_Link)"
proof -
  let ?t = "cx_target cx" and ?ii = "rm_ii (cx_resources cx)" and ?hop = "hop_latency cx"
  obtain tile slot where ts: "stateFor ?t x = (tile, slot)" by fastforce
  obtain e h p where c: "best_of st x = (e, h, p)" by (metis surj_pair)
  have xn: "x < context_states cx" and slot: "slot = (pl_issueSlot (rq_producer (cx_request cx)) + e) mod ?ii"
    using expanding_slot [OF inv x ok] by (simp_all add: ts c)
  have moves: "route_move cx x Pred_Link d j \<longleftrightarrow> (\<exists>tile'. neighbor_in ?t tile d = Some tile' \<and>
      link_free (cx_resources cx) (cx_reservations cx) (cx_domain cx) tile d slot \<and>
      j = stateId ?t tile' ((slot + ?hop) mod ?ii))" for j
    using xn by (simp add: route_move_def ts)
  consider (stay) y where "st' = st\<lparr>se_stats := y\<rparr>" "\<And>j. \<not> route_move cx x Pred_Link d j"
    | (move) tile' y where "neighbor_in ?t tile d = Some tile'"
        "link_free (cx_resources cx) (cx_reservations cx) (cx_domain cx) tile d slot"
        "relaxTo cx x (stateId ?t tile' ((slot + ?hop) mod ?ii)) (e + ?hop, h, p + 1) Pred_Link d (st\<lparr>se_stats := y\<rparr>) = Inr st'"
  proof (cases "neighbor_in ?t tile d")
    case None
    with expand show ?thesis by (intro stay) (auto simp: expandLink_def ts c moves Let_def)
  next
    case (Some tile')
    from expand Some slot obtain res where
      res: "linkResource (cx_resources cx) (cx_domain cx) tile d slot = Inr res"
      by (auto simp: expandLink_def ts c Let_def bindR_eq_Inr advance_eq)
    show ?thesis
    proof (cases res)
      case None
      with expand Some res slot show ?thesis
        by (intro stay) (auto simp: expandLink_def ts c moves Let_def bindR_eq_Inr advance_eq link_free_def)
    next
      case (Some r)
      show ?thesis
      proof (cases "isFree (cx_reservations cx) r = Inr True")
        case True
        with expand \<open>neighbor_in ?t tile d = Some tile'\<close> res Some slot show ?thesis
          by (intro move) (auto simp: expandLink_def ts c Let_def bindR_eq_Inr advance_eq link_free_def split: if_splits)
      next
        case False
        with expand \<open>neighbor_in ?t tile d = Some tile'\<close> res Some slot show ?thesis
          by (intro stay) (auto simp: expandLink_def ts c moves Let_def bindR_eq_Inr advance_eq link_free_def split: if_splits)
      qed
    qed
  qed
  then show ?thesis
  proof cases
    case stay
    then show ?thesis using inv by simp
  next
    case move
    then have mv: "route_move cx x Pred_Link d (stateId ?t tile' ((slot + ?hop) mod ?ii))" using moves by blast
    have "route_inv cx start c0 K st' \<and> improves (st\<lparr>se_stats := y\<rparr>) st' \<and>
        best_of st' (stateId ?t tile' ((slot + ?hop) mod ?ii)) \<le> (e + ?hop, h, p + 1)"
      by (rule relaxTo_inv [OF move(3) _ _ mv _ ok(1)])
        (use inv x in \<open>simp_all add: c extend_route_def move_cost_def\<close>)
    then show ?thesis using moves move(1) by (auto simp: c extend_route_def move_cost_def)
  qed
qed

lemma expandHold_inv:
  assumes expand: "expandHold cx x (best_of st x) st = Inr st'" and allow: "ro_allowVirtualHold (cx_options cx)"
    and inv: "route_inv cx start c0 K st" and x: "expanding x st" and ok: "search_ok cx" "start_ok cx start c0"
  shows "route_inv cx start c0 K st' \<and> improves st st' \<and>
    (\<forall>d j. route_move cx x Pred_Hold d j \<longrightarrow> best_of st' j \<le> extend_route cx (best_of st x) Pred_Hold)"
proof -
  let ?t = "cx_target cx" and ?ii = "rm_ii (cx_resources cx)"
  obtain tile slot where ts: "stateFor ?t x = (tile, slot)" by fastforce
  obtain e h p where c: "best_of st x = (e, h, p)" by (metis surj_pair)
  have xn: "x < context_states cx" using expanding_slot [OF inv x ok] by simp
  have mv: "route_move cx x Pred_Hold North (stateId ?t tile ((slot + 1) mod ?ii))"
    using xn allow by (simp add: route_move_def ts)
  from expand obtain y where
    relax: "relaxTo cx x (stateId ?t tile ((slot + 1) mod ?ii)) (e + 1, h + 1, p) Pred_Hold North (st\<lparr>se_stats := y\<rparr>) = Inr st'"
    by (auto simp: expandHold_def ts c Let_def bindR_eq_Inr advance_eq split: if_splits)
  have "route_inv cx start c0 K st' \<and> improves (st\<lparr>se_stats := y\<rparr>) st' \<and>
      best_of st' (stateId ?t tile ((slot + 1) mod ?ii)) \<le> (e + 1, h + 1, p)"
    by (rule relaxTo_inv [OF relax _ _ mv _ ok(1)])
      (use inv x in \<open>simp_all add: c extend_route_def move_cost_def\<close>)
  then show ?thesis using xn by (auto simp: route_move_def ts c extend_route_def move_cost_def)
qed

lemma improves_keeps: "improves st st' \<Longrightarrow> expanding x st \<Longrightarrow> best_of st' x = best_of st x"
  by (simp add: improves_def expanding_def)

lemma improves_bound: "improves st st' \<Longrightarrow> best_of st j \<le> b \<Longrightarrow> best_of st' j \<le> b"
  by (meson improves_def order_trans)

lemma expandLinks_inv:
  assumes "foldR (expandLink cx x (best_of st x)) st ds = Inr st'"
    and "route_inv cx start c0 K st" "expanding x st" "search_ok cx" "start_ok cx start c0"
  shows "route_inv cx start c0 K st' \<and> improves st st' \<and>
    (\<forall>d \<in> set ds. \<forall>j. route_move cx x Pred_Link d j \<longrightarrow> best_of st' j \<le> extend_route cx (best_of st x) Pred_Link)"
  using assms(1-3)
proof (induction ds arbitrary: st)
  case (Cons d ds)
  from Cons.prems(1) obtain st1 where 1: "expandLink cx x (best_of st x) st d = Inr st1"
    and 2: "foldR (expandLink cx x (best_of st x)) st1 ds = Inr st'" by (auto simp: bindR_eq_Inr)
  note s1 = expandLink_inv [OF 1 Cons.prems(2,3) assms(4,5)]
  have same: "best_of st1 x = best_of st x" using s1 Cons.prems(3) improves_keeps by blast
  have s2: "route_inv cx start c0 K st' \<and> improves st1 st' \<and>
    (\<forall>d \<in> set ds. \<forall>j. route_move cx x Pred_Link d j \<longrightarrow> best_of st' j \<le> extend_route cx (best_of st x) Pred_Link)"
    using Cons.IH [of st1] 2 s1 Cons.prems(3) expanding_improves same by (metis (no_types, lifting))
  then show ?case using s1 improves_trans improves_bound by (metis set_ConsD)
qed simp

lemma expand_inv:
  assumes expand: "expand cx x (best_of st x) st = Inr st'"
    and inv: "route_inv cx start c0 K st" and x: "expanding x st" and ok: "search_ok cx" "start_ok cx start c0"
  shows "route_inv cx start c0 (insert x K) st'" and "improves st st'"
proof -
  from expand obtain st1 where 1: "foldR (expandLink cx x (best_of st x)) st [North, East, South, West] = Inr st1"
    and 2: "(if ro_allowVirtualHold (cx_options cx) then expandHold cx x (best_of st x) st1 else Inr st1) = Inr st'"
    unfolding expand_def bindR_eq_Inr by blast
  note all = expandLinks_inv [OF 1 inv x ok]
  then have s1: "route_inv cx start c0 K st1" "improves st st1" by simp_all
  have l1: "best_of st1 j \<le> extend_route cx (best_of st x) Pred_Link" if "route_move cx x Pred_Link d j" for d j
    using all that by (cases d) simp_all
  have x1: "expanding x st1" "best_of st1 x = best_of st x"
    using x s1(2) expanding_improves improves_keeps by blast+
  have s2: "route_inv cx start c0 K st' \<and> improves st1 st' \<and>
    (\<forall>d j. route_move cx x Pred_Hold d j \<longrightarrow> best_of st' j \<le> extend_route cx (best_of st x) Pred_Hold)"
  proof (cases "ro_allowVirtualHold (cx_options cx)")
    case True
    with 2 have "expandHold cx x (best_of st1 x) st1 = Inr st'" by (simp add: x1(2))
    from expandHold_inv [OF this True s1(1) x1(1) ok, unfolded x1(2)] show ?thesis .
  next
    case False
    with 2 s1 show ?thesis by (simp add: route_move_def)
  qed
  show imp: "improves st st'" using s1 s2 improves_trans by blast
  have fin: "x \<in> finished st'" using imp x by (simp add: improves_def expanding_def)
  have same: "best_of st' x = best_of st x" by (rule improves_keeps [OF imp x])
  have closed: "best_of st' j \<le> extend_route cx (best_of st' x) k" if m: "some_move cx x k j" for k j
  proof (cases k)
    case Pred_None
    with m show ?thesis by (auto simp: some_move_def route_move_def)
  next
    case Pred_Link
    with m l1 improves_bound s2 same show ?thesis unfolding some_move_def by metis
  next
    case Pred_Hold
    with m s2 same show ?thesis unfolding some_move_def by metis
  qed
  show "route_inv cx start c0 (insert x K) st'"
    using s2 route.search_inv_close [of cx start c0 "finished st'" K "best_of st'" "open_entries st'" x] fin closed
    by (simp add: route_inv_def)
qed

section \<open>Iterations\<close>

definition at_goal :: "SearchContext \<Rightarrow> nat \<Rightarrow> bool" where
  "at_goal cx i \<longleftrightarrow> fst (stateFor (cx_target cx) i) = pl_tile (rq_consumer (cx_request cx))"

text \<open>The invariant between two iterations.\<close>

definition loop_inv :: "SearchContext \<Rightarrow> nat \<Rightarrow> Cost \<Rightarrow> SearchState \<Rightarrow> bool" where
  "loop_inv cx start c0 st \<longleftrightarrow> route_inv cx start c0 (finished st) st \<and> (\<forall>i \<in> finished st. \<not> at_goal cx i)"

lemma least_entry:
  assumes "sorted q" "q = e # es" "(c', s') \<in> (\<lambda>(c, s, k). (c, s)) ` set q"
  shows "fst (e :: QueueEntry) \<le> c'"
  using assms by (cases e) (auto simp: less_eq_prod_def)

lemma pop_entries:
  assumes "se_queue st = (c, s, k) # queue"
  shows "open_entries st \<subseteq> insert (c, s) (open_entries (st\<lparr>se_queue := queue\<rparr>))"
    "open_entries (st\<lparr>se_queue := queue\<rparr>) \<subseteq> open_entries st" "(c, s) \<in> open_entries st"
  by (simp_all add: open_entries_def assms) blast+

lemma best_of_queue [simp]:
  "best_of (st\<lparr>se_queue := q\<rparr>) = best_of st" "best_of (st\<lparr>se_finalized := f\<rparr>) = best_of st"
  "finished (st\<lparr>se_queue := q\<rparr>) = finished st" "open_entries (st\<lparr>se_finalized := f\<rparr>) = open_entries st"
  by (simp_all add: best_of_def finished_def open_entries_def fun_eq_iff)

lemma finished_update:
  "s < length (se_finalized st) \<Longrightarrow> finished (st\<lparr>se_finalized := (se_finalized st)[s := True]\<rparr>) = insert s (finished st)"
  by (auto simp: finished_def nth_list_update)

lemma loop_inv_stale:
  assumes inv: "loop_inv cx start c0 st" and q: "se_queue st = (c, s, k) # queue"
    and stale: "s \<in> finished st \<or> c \<noteq> best_of st s"
  shows "loop_inv cx start c0 (st\<lparr>se_queue := queue\<rparr>)"
proof -
  from inv have search: "route.search_inv cx start c0 (finished st) (finished st) (best_of st) (open_entries st)"
    and tab: "tables_ok (context_states cx) st" and bk: "back_ok cx start st"
    by (simp_all add: loop_inv_def route_inv_def)
  have "tables_ok (context_states cx) (st\<lparr>se_queue := queue\<rparr>)"
    using tab pop_entries(2) [OF q] q by (auto simp: tables_ok_def)
  moreover have "back_ok cx start (st\<lparr>se_queue := queue\<rparr>)" using bk by (simp add: back_ok_def)
  ultimately show ?thesis
    using route.search_inv_stale [OF search stale pop_entries(1,2) [OF q]] inv by (simp add: loop_inv_def route_inv_def)
qed

lemma take_inv:
  assumes inv: "loop_inv cx start c0 st" and q: "se_queue st = (c, s, k) # queue"
    and fresh: "s \<notin> finished st" "c = best_of st s"
  defines "st' \<equiv> st\<lparr>se_queue := queue, se_finalized := (se_finalized st)[s := True]\<rparr>"
  shows "route_inv cx start c0 (finished st) st'" and "expanding s st'" and "finished st' = insert s (finished st)"
    and "best_of st' = best_of st"
proof -
  from inv have search: "route.search_inv cx start c0 (finished st) (finished st) (best_of st) (open_entries st)"
    and tab: "tables_ok (context_states cx) st" and bk: "back_ok cx start st"
    by (simp_all add: loop_inv_def route_inv_def)
  have least: "\<forall>(c', s') \<in> open_entries st. c \<le> c'"
    using least_entry [OF _ q] tab unfolding tables_ok_def open_entries_def by (metis (no_types, lifting) case_prodI2 fst_conv)
  have s: "s < context_states cx" using tab pop_entries(3) [OF q] by (auto simp: tables_ok_def)
  show fin: "finished st' = insert s (finished st)"
    using s tab finished_update [of s st] by (simp add: st'_def tables_ok_def finished_def)
  show best: "best_of st' = best_of st" by (simp add: st'_def best_of_def fun_eq_iff)
  have opens: "open_entries st' = open_entries (st\<lparr>se_queue := queue\<rparr>)" by (simp add: st'_def open_entries_def)
  note take = route.search_inv_take [OF search fresh(1,2) pop_entries(3) [OF q] least pop_entries(1,2) [OF q]]
  show "expanding s st'" using take(2) by (simp add: expanding_def fin best)
  have "tables_ok (context_states cx) st'"
    using tab pop_entries(2) [OF q] q by (auto simp: tables_ok_def st'_def opens [unfolded st'_def])
  moreover have "back_ok cx start st'"
    using bk unfolding back_ok_def best fin by (simp add: st'_def)
  ultimately show "route_inv cx start c0 (finished st) st'"
    using take(1) by (simp add: route_inv_def fin best opens)
qed

lemma searchStep_cases:
  fixes entry :: QueueEntry
  assumes q: "se_queue st = (c, s, k) # queue" and tab: "tables_ok (context_states cx) st"
  defines "st' \<equiv> st\<lparr>se_queue := queue, se_finalized := (se_finalized st)[s := True]\<rparr>"
  shows "searchStep cx start (c, s, k) (st\<lparr>se_queue := queue\<rparr>) =
    (if s \<in> finished st \<or> c \<noteq> best_of st s then Inr (st\<lparr>se_queue := queue\<rparr>)
     else if at_goal cx s then route_success cx start st' s
     else if st_stateExpansions (se_stats st) \<ge> rb_maxStateExpansions (ro_budget (cx_options cx)) then
       route_stop_with Route_BudgetExceeded [RDiag ROUTE_BUDGET_EXCEEDED (rq_edge (cx_request cx))] (se_stats st)
     else expand cx s c
       (st'\<lparr>se_stats := (se_stats st)\<lparr>st_stateExpansions := st_stateExpansions (se_stats st) + 1\<rparr>\<rparr>))"
proof -
  have "s < context_states cx" using tab pop_entries(3) [OF q] by (auto simp: tables_ok_def)
  with tab have "se_finalized st ! s \<longleftrightarrow> s \<in> finished st" "se_best st ! s = best_of st s"
    by (simp_all add: tables_ok_def finished_def best_of_def)
  then show ?thesis by (simp add: searchStep_def st'_def at_goal_def Let_def)
qed

lemma route_success_not_Inr [simp]: "route_success cx start st s \<noteq> Inr a"
  by (simp add: route_success_def bindR_def split: sum.splits)

lemma searchStep_inv:
  assumes step: "searchStep cx start (c, s, k) (st\<lparr>se_queue := queue\<rparr>) = Inr st'"
    and inv: "loop_inv cx start c0 st" and q: "se_queue st = (c, s, k) # queue"
    and ok: "search_ok cx" "start_ok cx start c0"
  shows "loop_inv cx start c0 st'"
proof -
  have tab: "tables_ok (context_states cx) st" using inv by (simp add: loop_inv_def route_inv_def)
  show ?thesis
  proof (cases "s \<in> finished st \<or> c \<noteq> best_of st s")
    case True
    with step loop_inv_stale [OF inv q True] show ?thesis by (simp add: searchStep_cases [OF q tab])
  next
    case False
    define st1 where "st1 = st\<lparr>se_queue := queue, se_finalized := (se_finalized st)[s := True]\<rparr>"
    from False step have goal: "\<not> at_goal cx s"
      and ex: "\<exists>y. expand cx s c (st1\<lparr>se_stats := y\<rparr>) = Inr st'"
      unfolding searchStep_cases [OF q tab] st1_def
      by (auto split: if_splits)
    note take = take_inv [OF inv q, folded st1_def]
    have inv1: "route_inv cx start c0 (finished st) st1" and x1: "expanding s st1"
      and f1: "finished st1 = insert s (finished st)" and b1: "best_of st1 s = c"
      using take False by auto
    from ex obtain y where ex': "expand cx s (best_of (st1\<lparr>se_stats := y\<rparr>) s) (st1\<lparr>se_stats := y\<rparr>) = Inr st'"
      using b1 by auto
    have "route_inv cx start c0 (insert s (finished st)) st'" "improves (st1\<lparr>se_stats := y\<rparr>) st'"
      using expand_inv [OF ex' _ _ ok, of "finished st"] inv1 x1 by simp_all
    then show ?thesis using f1 goal inv by (auto simp: loop_inv_def improves_def)
  qed
qed

section \<open>The end of the loop\<close>

text \<open>The entry taken when the search succeeds, and the queue when it gives up.\<close>

definition goal_taken :: "SearchContext \<Rightarrow> nat \<Rightarrow> Cost \<Rightarrow> SearchState \<Rightarrow> nat \<Rightarrow> bool" where
  "goal_taken cx start c0 st s \<longleftrightarrow> loop_inv cx start c0 st \<and> at_goal cx s \<and> s \<notin> finished st \<and> s < context_states cx \<and>
     (best_of st s, s) \<in> open_entries st \<and> (\<forall>(c', s') \<in> open_entries st. best_of st s \<le> c')"

lemma expandLink_stop:
  assumes "expandLink cx x c st d = Inl (Route_Returns r)"
  shows "rsr_status r = Route_BudgetExceeded \<or> rsr_status r = Route_InternalError"
  using assms
  by (auto simp: expandLink_def relaxTo_def route_stop_with_def route_failure_def overflow_stop_def lift_route_def bindR_def Let_def
      split: prod.splits option.splits if_splits sum.splits)

lemma expandHold_stop:
  assumes "expandHold cx x c st = Inl (Route_Returns r)"
  shows "rsr_status r = Route_BudgetExceeded \<or> rsr_status r = Route_InternalError"
  using assms
  by (auto simp: expandHold_def relaxTo_def route_stop_with_def route_failure_def overflow_stop_def lift_route_def bindR_def Let_def
      split: prod.splits option.splits if_splits sum.splits)

lemma foldR_stop:
  assumes "foldR f s xs = Inl e" and "\<And>s x. f s x = Inl e \<Longrightarrow> P"
  shows P
  using assms(1)
proof (induction xs arbitrary: s)
  case (Cons x xs)
  then show ?case using assms(2) by (cases "f s x") auto
qed simp

lemma expand_stop:
  assumes "expand cx x c st = Inl (Route_Returns r)"
  shows "rsr_status r = Route_BudgetExceeded \<or> rsr_status r = Route_InternalError"
proof (cases "foldR (expandLink cx x c) st [North, East, South, West]")
  case (Inl e)
  with assms have "foldR (expandLink cx x c) st [North, East, South, West] = Inl (Route_Returns r)"
    by (simp add: expand_def del: foldR.simps)
  then show ?thesis by (rule foldR_stop) (rule expandLink_stop)
next
  case (Inr st1)
  with assms show ?thesis
    by (simp add: expand_def del: foldR.simps split: if_splits) (rule expandHold_stop)
qed

lemma route_success_returns:
  assumes "route_success cx start st s = Inl (Route_Returns r)"
  shows "rsr_status r = Route_InternalError \<or>
    rsr_status r = Route_Success \<and> (\<exists>plan. reconstruct cx start st s = Inr (Inr plan) \<and> rsr_plan r = Some plan)"
proof (cases "reconstruct cx start st s")
  case (Inl e)
  with assms show ?thesis by (simp add: route_success_def lift_route_def)
next
  case (Inr a)
  with assms show ?thesis
    by (cases a) (auto simp: route_success_def lift_route_def route_stop_with_def route_failure_def)
qed

lemma reconstruct_tables:
  "reconstruct cx start (st\<lparr>se_queue := q, se_finalized := f\<rparr>) s = reconstruct cx start st s"
  by (simp add: reconstruct_def cong: option.case_cong if_cong)

lemma searchLoop_end:
  assumes "searchLoop n cx start st = Some (Route_Returns r)" and "loop_inv cx start c0 st"
    and ok: "search_ok cx" "start_ok cx start c0"
  shows "(rsr_status r = Route_Success \<longrightarrow>
      (\<exists>st s plan. goal_taken cx start c0 st s \<and> reconstruct cx start st s = Inr (Inr plan) \<and> rsr_plan r = Some plan)) \<and>
    (rsr_status r = Route_NoPath \<longrightarrow> (\<exists>st. loop_inv cx start c0 st \<and> open_entries st = {}))"
  using assms(1,2)
proof (induction n arbitrary: st)
  case (Suc n)
  show ?case
  proof (cases "se_queue st")
    case Nil
    with Suc.prems show ?thesis by (auto simp: noPath_def route_failure_def open_entries_def)
  next
    case (Cons entry queue)
    obtain c s k where e: "entry = (c, s, k)" by (metis surj_pair)
    note q = Cons [unfolded e]
    have tab: "tables_ok (context_states cx) st" using Suc.prems(2) by (simp add: loop_inv_def route_inv_def)
    show ?thesis
    proof (cases "searchStep cx start (c, s, k) (st\<lparr>se_queue := queue\<rparr>)")
      case (Inr st')
      from searchStep_inv [OF Inr Suc.prems(2) q ok] Suc.IH [of st'] Suc.prems(1) Inr q show ?thesis by simp
    next
      case (Inl stop)
      with Suc.prems(1) q have stop: "stop = Route_Returns r" by simp
      show ?thesis
      proof (cases "s \<notin> finished st \<and> c = best_of st s \<and> at_goal cx s")
        case True
        have least: "\<forall>(c', s') \<in> open_entries st. c \<le> c'"
          using least_entry [OF _ q] tab unfolding tables_ok_def open_entries_def by (metis (no_types, lifting) case_prodI2 fst_conv)
        have s: "s < context_states cx" using tab pop_entries(3) [OF q] by (auto simp: tables_ok_def)
        have g: "goal_taken cx start c0 st s"
          using True Suc.prems(2) pop_entries(3) [OF q] least s by (simp add: goal_taken_def)
        have "route_success cx start (st\<lparr>se_queue := queue, se_finalized := (se_finalized st)[s := True]\<rparr>) s =
            (Inl (Route_Returns r) :: route_stop + SearchState)"
          using Inl [unfolded searchStep_cases [OF q tab] stop] True by simp
        from route_success_returns [OF this, unfolded reconstruct_tables] g show ?thesis by auto
      next
        case False
        with Inl [unfolded searchStep_cases [OF q tab] stop]
        have "rsr_status r = Route_BudgetExceeded \<or> rsr_status r = Route_InternalError"
          by (auto simp: route_stop_with_def route_failure_def dest: expand_stop split: if_splits)
        then show ?thesis by auto
      qed
    qed
  qed
qed simp

section \<open>Termination\<close>

text \<open>Entries in the queue and pushes left: an expansion never raises their sum, and taking an entry lowers it.\<close>

definition work_left :: "SearchContext \<Rightarrow> SearchState \<Rightarrow> nat" where
  "work_left cx st = length (se_queue st) + (rb_maxQueuePushes (ro_budget (cx_options cx)) - st_queuePushes (se_stats st))"

lemma relaxTo_work: "relaxTo cx x j cost k d st = Inr st' \<Longrightarrow> work_left cx st' \<le> work_left cx st"
  by (auto simp: relaxTo_def push_def work_left_def Let_def length_insort split: if_splits)

lemma expandLink_work: "expandLink cx x c st d = Inr st' \<Longrightarrow> work_left cx st' \<le> work_left cx st"
  by (auto simp: expandLink_def Let_def bindR_eq_Inr split: prod.splits option.splits if_splits dest!: relaxTo_work)
    (simp_all add: work_left_def)

lemma expandHold_work: "expandHold cx x c st = Inr st' \<Longrightarrow> work_left cx st' \<le> work_left cx st"
  by (auto simp: expandHold_def Let_def bindR_eq_Inr split: prod.splits if_splits dest!: relaxTo_work)
    (simp_all add: work_left_def)

lemma expand_work:
  assumes "expand cx x c st = Inr st'"
  shows "work_left cx st' \<le> work_left cx st"
proof -
  from assms obtain st1 where 1: "foldR (expandLink cx x c) st [North, East, South, West] = Inr st1"
    and 2: "(if ro_allowVirtualHold (cx_options cx) then expandHold cx x c st1 else Inr st1) = Inr st'"
    unfolding expand_def bindR_eq_Inr by blast
  have "work_left cx st1 \<le> work_left cx st"
    by (rule foldR_invariant [OF 1]) (auto dest: expandLink_work)
  with 2 expandHold_work show ?thesis by (fastforce split: if_splits)
qed

lemma searchStep_work:
  assumes "searchStep cx start e (st\<lparr>se_queue := queue\<rparr>) = Inr st'" "se_queue st = e # queue"
  shows "work_left cx st' < work_left cx st"
proof -
  have "work_left cx (st\<lparr>se_queue := queue, se_finalized := f, se_stats := (se_stats st)\<lparr>st_stateExpansions := y\<rparr>\<rparr>) <
      work_left cx st" for f y
    using assms(2) by (simp add: work_left_def)
  moreover have "work_left cx (st\<lparr>se_queue := queue\<rparr>) < work_left cx st" using assms(2) by (simp add: work_left_def)
  ultimately show ?thesis using assms(1)
    by (auto simp: searchStep_def Let_def split: prod.splits if_splits dest!: expand_work intro: le_less_trans)
qed

lemma searchLoop_returns: "work_left cx st < n \<Longrightarrow> searchLoop n cx start st \<noteq> None"
proof (induction n arbitrary: st)
  case (Suc n)
  show ?case
  proof (cases "se_queue st")
    case (Cons e queue)
    show ?thesis
    proof (cases "searchStep cx start e (st\<lparr>se_queue := queue\<rparr>)")
      case (Inr st')
      with searchStep_work [OF Inr Cons] Suc.IH [of st'] Suc.prems Cons show ?thesis by simp
    qed (simp add: Cons)
  qed simp
qed simp

end
