(* ===== verification/Route_Exact.thy ===== *)
theory Route_Exact
  imports Route_Loop
begin

text \<open>
  What the route search returns.  \<open>open_route\<close> states what a usable route is without the search: an
  unbroken path of links and holds from the producer's tile at the time its value is ready to the
  consumer's tile, over links that exist and are free in the slots they are used in.  A success is
  such a route, without a link used twice, and the cheapest one in the order separation, hold cycles,
  hops; \<open>Route_NoPath\<close> means that there is none.
\<close>

section \<open>Usable routes\<close>

fun hold_cycles :: "TransportAction list \<Rightarrow> nat" where
  "hold_cycles [] = 0"
| "hold_cycles (Action_Link l # as) = hold_cycles as"
| "hold_cycles (Action_Hold h # as) = (vh_releaseElapsed h - vh_captureElapsed h) + hold_cycles as"

fun hop_count :: "TransportAction list \<Rightarrow> nat" where
  "hop_count [] = 0"
| "hop_count (Action_Link l # as) = Suc (hop_count as)"
| "hop_count (Action_Hold h # as) = hop_count as"

definition action_open ::
  "ModuloResourceModel \<Rightarrow> ReservationTable \<Rightarrow> NetworkDomain \<Rightarrow> bool \<Rightarrow> ModuloSlot \<Rightarrow> TransportAction \<Rightarrow> bool" where
  "action_open rm table domain allowHold slot a =
     (case a of
        Action_Link l \<Rightarrow> link_free rm table domain (ls_source l) (ls_direction l) ((slot + ls_elapsed l) mod rm_ii rm)
      | Action_Hold h \<Rightarrow> allowHold)"

definition open_route ::
  "TargetModel \<Rightarrow> ModuloResourceModel \<Rightarrow> ReservationTable \<Rightarrow> NetworkDomain \<Rightarrow> bool \<Rightarrow> ModuloSlot \<Rightarrow>
   TileCoord \<times> nat \<Rightarrow> TransportAction list \<Rightarrow> TileCoord \<times> nat \<Rightarrow> bool" where
  "open_route t rm table domain allowHold slot p as q \<longleftrightarrow>
     transport_path t domain p as q \<and> list_all (action_open rm table domain allowHold slot) as"

lemma hold_cycles_append [simp]: "hold_cycles (as @ bs) = hold_cycles as + hold_cycles bs"
  by (induction as rule: hold_cycles.induct) auto

lemma hop_count_append [simp]: "hop_count (as @ bs) = hop_count as + hop_count bs"
  by (induction as rule: hop_count.induct) auto

inductive_simps transport_path_simps:
  "transport_path t domain p [] q"
  "transport_path t domain p (Action_Link l # as) q"
  "transport_path t domain p (Action_Hold h # as) q"

lemma transport_path_append:
  "transport_path t domain p (as @ bs) q \<longleftrightarrow>
     (\<exists>m. transport_path t domain p as m \<and> transport_path t domain m bs q)"
proof (induction as arbitrary: p)
  case (Cons a as)
  show ?case by (cases a) (simp_all add: transport_path_simps Cons.IH del: split_paired_Ex, blast+)
qed (simp add: transport_path_simps del: split_paired_Ex)

section \<open>Every usable route is reached\<close>

lemma extend_route_simps:
  "extend_route cx (e, h, p) Pred_Link = (e + hop_latency cx, h, p + 1)"
  "extend_route cx (e, h, p) Pred_Hold = (e + 1, h + 1, p)"
  by (simp_all add: extend_route_def move_cost_def)

lemma some_moveI: "route_move cx i k d j \<Longrightarrow> some_move cx i k j"
  by (auto simp: some_move_def)

abbreviation context_reach :: "SearchContext \<Rightarrow> nat \<Rightarrow> Cost \<Rightarrow> nat \<Rightarrow> Cost \<Rightarrow> bool" where
  "context_reach cx \<equiv> reached (some_move cx) (extend_route cx)"

abbreviation context_route ::
  "SearchContext \<Rightarrow> TileCoord \<times> nat \<Rightarrow> TransportAction list \<Rightarrow> TileCoord \<times> nat \<Rightarrow> bool" where
  "context_route cx \<equiv> open_route (cx_target cx) (cx_resources cx) (cx_reservations cx) (cx_domain cx)
     (ro_allowVirtualHold (cx_options cx)) (pl_issueSlot (rq_producer (cx_request cx)))"

lemma reach_hold:
  assumes "context_reach cx start c0 i (e, h, p)" "search_ok cx" "start_ok cx start c0"
    and "ro_allowVirtualHold (cx_options cx)"
  shows "\<exists>j. context_reach cx start c0 j (e + k, h + k, p) \<and>
    fst (stateFor (cx_target cx) j) = fst (stateFor (cx_target cx) i)"
proof (induction k)
  case 0
  show ?case using assms(1) by auto
next
  case (Suc k)
  then obtain j where j: "context_reach cx start c0 j (e + k, h + k, p)"
    "fst (stateFor (cx_target cx) j) = fst (stateFor (cx_target cx) i)" by blast
  define j' where "j' = stateId (cx_target cx) (fst (stateFor (cx_target cx) j))
    ((snd (stateFor (cx_target cx) j) + 1) mod rm_ii (cx_resources cx))"
  have m: "route_move cx j Pred_Hold North j'"
    using reached_slot [OF j(1) assms(2,3)] assms(4) by (simp add: route_move_def j'_def)
  have "context_reach cx start c0 j' (extend_route cx (e + k, h + k, p) Pred_Hold)"
    by (rule reached_step [OF j(1) some_moveI [OF m]])
  with route_move_state(3) [OF m assms(2)] j(2) show ?case by (auto simp: extend_route_simps)
qed

lemma reach_route:
  assumes "transport_path (cx_target cx) (cx_domain cx) p as q"
    and "list_all (action_open (cx_resources cx) (cx_reservations cx) (cx_domain cx)
      (ro_allowVirtualHold (cx_options cx)) (pl_issueSlot (rq_producer (cx_request cx)))) as"
    and "context_reach cx start c0 i (snd p, h, n)" "fst (stateFor (cx_target cx) i) = fst p"
    and ok: "search_ok cx" "start_ok cx start c0"
  shows "\<exists>j. context_reach cx start c0 j (snd q, h + hold_cycles as, n + hop_count as) \<and>
    fst (stateFor (cx_target cx) j) = fst q"
  using assms(1-4)
proof (induction arbitrary: i h n rule: transport_path.induct)
  case (arrived p)
  then show ?case by auto
next
  case (link l tile time tile' as q)
  let ?t = "cx_target cx"
  have i: "i < context_states cx"
    "snd (stateFor ?t i) = (pl_issueSlot (rq_producer (cx_request cx)) + time) mod rm_ii (cx_resources cx)"
    using reached_slot [OF link.prems(2) ok] by simp_all
  define j where "j = stateId ?t tile' ((snd (stateFor ?t i) + hop_latency cx) mod rm_ii (cx_resources cx))"
  have m: "route_move cx i Pred_Link (ls_direction l) j"
    using link i by (simp add: route_move_def action_open_def j_def)
  have "context_reach cx start c0 i (time, h, n)" using link.prems(2) by simp
  from reached_step [OF this some_moveI [OF m]]
  have r: "context_reach cx start c0 j (time + hop_latency cx, h, Suc n)" by (simp add: extend_route_simps)
  have "fst (stateFor ?t j) = tile'" using route_move_state(4) [OF m ok(1)] link by simp
  with link.IH [of j h "Suc n"] r link.prems(1) show ?case by (simp add: hop_latency_def)
next
  case (hold h' tile time as q)
  from hold.prems(1) have allow: "ro_allowVirtualHold (cx_options cx)" by (simp add: action_open_def)
  have "context_reach cx start c0 i (time, h, n)" using hold.prems(2) by simp
  from reach_hold [OF this ok allow, of "vh_releaseElapsed h' - time"] obtain j where
    j: "context_reach cx start c0 j (vh_releaseElapsed h', h + (vh_releaseElapsed h' - time), n)"
    "fst (stateFor (cx_target cx) j) = tile"
    using hold by auto
  with hold.IH [of j "h + (vh_releaseElapsed h' - time)" n] hold show ?case by (simp add: add.assoc)
qed

section \<open>Reconstruction\<close>

fun linked_chain :: "SearchContext \<Rightarrow> SearchState \<Rightarrow> nat \<Rightarrow> (nat \<times> Predecessor) list \<Rightarrow> nat \<Rightarrow> bool" where
  "linked_chain cx st s [] e \<longleftrightarrow> s = e"
| "linked_chain cx st s ((c, p) # xs) e \<longleftrightarrow> pe_previous p = s \<and>
     route_move cx s (pe_kind p) (pe_direction p) c \<and> best_of st c = extend_route cx (best_of st s) (pe_kind p) \<and>
     linked_chain cx st c xs e"

lemma chain_linked:
  assumes "predecessorChain start (se_predecessors st) rest cur = Some chain"
    and "linked_chain cx st cur rest goal" "best_of st cur < max_Cost" "loop_inv cx start c0 st"
  shows "linked_chain cx st start chain goal"
  using assms
proof (induction start "se_predecessors st" rest cur rule: predecessorChain.induct)
  case (1 start rest cur)
  show ?case
  proof (cases "cur = start")
    case True
    with 1 show ?thesis by (simp add: predecessorChain.simps)
  next
    case False
    define p where "p = se_predecessors st ! cur"
    from 1(2) False have guards: "\<not> (cur \<ge> length (se_predecessors st) \<or> pe_kind p = Pred_None \<or>
        length rest > length (se_predecessors st))"
      and step: "predecessorChain start (se_predecessors st) ((cur, p) # rest) (pe_previous p) = Some chain"
      by (auto simp: p_def predecessorChain.simps [of start _ rest cur] split: if_splits)
    from 1(5) have tab: "tables_ok (context_states cx) st" and bk: "back_ok cx start st"
      and search: "route.search_inv cx start c0 (finished st) (finished st) (best_of st) (open_entries st)"
      by (simp_all add: loop_inv_def route_inv_def)
    have p: "route_move cx (pe_previous p) (pe_kind p) (pe_direction p) cur" "pe_previous p \<in> finished st"
      "best_of st cur = extend_route cx (best_of st (pe_previous p)) (pe_kind p)"
      using bk False 1(4) guards tab by (auto simp: back_ok_def tables_ok_def p_def)
    have "linked_chain cx st (pe_previous p) ((cur, p) # rest) goal" using p 1(3) by simp
    moreover have "best_of st (pe_previous p) < max_Cost" by (rule route.search_invD(9) [OF search p(2)])
    ultimately show ?thesis using 1(1) [OF False] guards step 1(5) by (simp add: p_def)
  qed
qed

text \<open>The actions gathered so far are a usable route to a state, at the cost the tables have for it.\<close>

definition built :: "SearchContext \<Rightarrow> nat \<Rightarrow> Cost \<Rightarrow> TileCoord \<times> nat \<Rightarrow> SearchState \<Rightarrow> TransportAction list \<Rightarrow> nat \<Rightarrow> bool" where
  "built cx start c0 p st as s \<longleftrightarrow> context_reach cx start c0 s (best_of st s) \<and>
     best_of st s = (fst (best_of st s), hold_cycles as, hop_count as) \<and>
     context_route cx p as (fst (stateFor (cx_target cx) s), fst (best_of st s))"

lemma context_route_snoc:
  assumes "context_route cx p as m" "context_route cx m [a] q"
  shows "context_route cx p (as @ [a]) q"
  using assms by (simp add: open_route_def transport_path_append del: split_paired_Ex) blast

lemma context_route_merge:
  assumes "context_route cx p (as @ [Action_Hold h]) (tile, e)" "vh_releaseElapsed h < e'"
  shows "context_route cx p (as @ [Action_Hold (h\<lparr>vh_releaseElapsed := e'\<rparr>)]) (tile, e')"
    and "vh_captureElapsed h \<le> vh_releaseElapsed h"
proof -
  from assms(1) obtain m where m: "transport_path (cx_target cx) (cx_domain cx) p as m"
    "transport_path (cx_target cx) (cx_domain cx) m [Action_Hold h] (tile, e)"
    and free: "list_all (action_open (cx_resources cx) (cx_reservations cx) (cx_domain cx)
      (ro_allowVirtualHold (cx_options cx)) (pl_issueSlot (rq_producer (cx_request cx)))) (as @ [Action_Hold h])"
    by (auto simp: open_route_def transport_path_append)
  from m(2) have h: "vh_domain h = cx_domain cx" "m = (tile, vh_captureElapsed h)" "vh_tile h = tile"
    "vh_captureElapsed h < vh_releaseElapsed h"
    by (auto simp: transport_path_simps)
  have "transport_path (cx_target cx) (cx_domain cx) m [Action_Hold (h\<lparr>vh_releaseElapsed := e'\<rparr>)] (tile, e')"
    using h assms(2) by (simp add: transport_path_simps)
  with m(1) free show "context_route cx p (as @ [Action_Hold (h\<lparr>vh_releaseElapsed := e'\<rparr>)]) (tile, e')"
    by (auto simp: open_route_def transport_path_append action_open_def simp del: split_paired_Ex)
  show "vh_captureElapsed h \<le> vh_releaseElapsed h" using h(4) by simp
qed

lemma addAction_cases:
  assumes "addAction cx best as (c, p) = Some as'" "pe_kind p \<noteq> Pred_None"
  shows "pe_kind p = Pred_Link \<and> as' = as @ [Action_Link \<lparr>ls_domain = cx_domain cx,
        ls_source = fst (stateFor (cx_target cx) (pe_previous p)), ls_direction = pe_direction p,
        ls_elapsed = fst (best ! pe_previous p)\<rparr>] \<or>
    pe_kind p = Pred_Hold \<and>
      (as' = as @ [Action_Hold \<lparr>vh_domain = cx_domain cx, vh_tile = fst (stateFor (cx_target cx) (pe_previous p)),
         vh_captureElapsed = fst (best ! pe_previous p), vh_releaseElapsed = fst (best ! c)\<rparr>] \<or>
       (\<exists>before h. as = before @ [Action_Hold h] \<and> vh_releaseElapsed h = fst (best ! pe_previous p) \<and>
          as' = before @ [Action_Hold (h\<lparr>vh_releaseElapsed := fst (best ! c)\<rparr>)]))"
proof (cases "pe_kind p = Pred_Link")
  case True
  with assms show ?thesis by (auto simp: addAction_def Let_def split: prod.splits if_splits)
next
  case False
  then have k: "pe_kind p = Pred_Hold" using assms(2) by (cases "pe_kind p") simp_all
  consider (hold) before h where "rev as = Action_Hold h # before" | (other) "\<nexists>h before. rev as = Action_Hold h # before" by blast
  then show ?thesis
  proof cases
    case hold
    then have "as = rev before @ [Action_Hold h]" by (simp add: rev_swap)
    with assms(1) k hold show ?thesis by (auto simp: addAction_def Let_def split: prod.splits if_splits)
  next
    case other
    with assms(1) k show ?thesis
      by (auto simp: addAction_def Let_def split: prod.splits if_splits list.splits TransportAction.splits)
  qed
qed

lemma built_step:
  assumes add: "addAction cx (se_best st) as (c, p) = Some as'"
    and built: "built cx start c0 p0 st as (pe_previous p)"
    and move: "route_move cx (pe_previous p) (pe_kind p) (pe_direction p) c"
    and best: "best_of st c = extend_route cx (best_of st (pe_previous p)) (pe_kind p)"
    and len: "length (se_best st) = context_states cx" and ok: "search_ok cx" "start_ok cx start c0"
  shows "built cx start c0 p0 st as' c"
proof -
  let ?t = "cx_target cx" and ?s = "pe_previous p"
  let ?here = "fst (stateFor ?t ?s)" and ?there = "fst (stateFor ?t c)"
  obtain e h n where b: "best_of st ?s = (e, h, n)" by (metis surj_pair)
  have reach: "context_reach cx start c0 ?s (e, h, n)" and hn: "h = hold_cycles as" "n = hop_count as"
    and route: "context_route cx p0 as (?here, e)" using built by (auto simp: built_def b)
  have bs: "se_best st ! ?s = (e, h, n)" and bc: "se_best st ! c = best_of st c"
    using b len reached_slot [OF reach ok] route_move_state(1) [OF move ok(1)] by (simp_all add: best_of_def split: if_splits)
  have reach': "context_reach cx start c0 c (best_of st c)"
    unfolding best b by (rule reached_step [OF reach some_moveI [OF move]])
  have "pe_kind p \<noteq> Pred_None" using move by (auto simp: route_move_def)
  note cases = addAction_cases [OF add this, unfolded bs bc fst_conv]
  show ?thesis
  proof (cases "pe_kind p = Pred_Link")
    case True
    have c: "best_of st c = (e + hop_latency cx, h, n + 1)" by (simp add: best b True extend_route_simps)
    have as': "as' = as @ [Action_Link \<lparr>ls_domain = cx_domain cx, ls_source = ?here, ls_direction = pe_direction p,
        ls_elapsed = e\<rparr>]" using cases True by simp
    have "context_route cx (?here, e) [Action_Link \<lparr>ls_domain = cx_domain cx, ls_source = ?here,
        ls_direction = pe_direction p, ls_elapsed = e\<rparr>] (?there, e + hop_latency cx)"
      using move route_move_state(4) [OF move ok(1) True] reached_slot [OF reach ok]
      by (auto simp: open_route_def transport_path_simps action_open_def route_move_def True hop_latency_def)
    from context_route_snoc [OF route this] show ?thesis using reach' c hn as' by (simp add: built_def)
  next
    case False
    then have k: "pe_kind p = Pred_Hold" using cases by blast
    have c: "best_of st c = (e + 1, h + 1, n)" by (simp add: best b k extend_route_simps)
    have tile: "?there = ?here" by (rule route_move_state(3) [OF move ok(1) k])
    have allow: "ro_allowVirtualHold (cx_options cx)" using move by (simp add: route_move_def k)
    from cases k consider
        (new) "as' = as @ [Action_Hold \<lparr>vh_domain = cx_domain cx, vh_tile = ?here, vh_captureElapsed = e, vh_releaseElapsed = e + 1\<rparr>]"
      | (merge) before h' where "as = before @ [Action_Hold h']" "vh_releaseElapsed h' = e"
          "as' = before @ [Action_Hold (h'\<lparr>vh_releaseElapsed := e + 1\<rparr>)]"
      by (auto simp: c)
    then show ?thesis
    proof cases
      case new
      have "context_route cx (?here, e) [Action_Hold \<lparr>vh_domain = cx_domain cx, vh_tile = ?here, vh_captureElapsed = e,
          vh_releaseElapsed = e + 1\<rparr>] (?there, e + 1)"
        by (simp add: open_route_def transport_path_simps action_open_def allow tile)
      from context_route_snoc [OF route this] show ?thesis using reach' c hn new by (simp add: built_def)
    next
      case merge
      have "vh_releaseElapsed h' < e + 1" using merge(2) by simp
      from context_route_merge [OF route [unfolded merge(1)] this] show ?thesis
        using reach' c hn merge tile by (simp add: built_def Suc_diff_le)
    qed
  qed
qed

lemma addActions_built:
  assumes "addActions cx (se_best st) as chain = Some as'" "built cx start c0 p0 st as s" "linked_chain cx st s chain goal"
    and len: "length (se_best st) = context_states cx" and ok: "search_ok cx" "start_ok cx start c0"
  shows "built cx start c0 p0 st as' goal"
  using assms(1-3)
proof (induction chain arbitrary: as s)
  case (Cons x chain)
  obtain c p where x: "x = (c, p)" by fastforce
  from Cons.prems(1) obtain as1 where 1: "addAction cx (se_best st) as (c, p) = Some as1"
    "addActions cx (se_best st) as1 chain = Some as'" by (auto simp: x split: option.splits)
  have "built cx start c0 p0 st as1 c"
    by (rule built_step [OF 1(1) _ _ _ len ok]) (use Cons.prems in \<open>auto simp: x\<close>)
  with Cons.IH [OF 1(2)] Cons.prems(3) show ?case by (simp add: x)
qed simp

text \<open>The last check of the reconstruction: no link resource is used twice.\<close>

lemma selfConflict_distinct:
  assumes "selfConflict cx seen as = Inr False"
  shows "distinct (link_resources (cx_domain cx) (rm_ii (cx_resources cx)) (pl_issueSlot (rq_producer (cx_request cx))) as) \<and>
    (\<forall>tile d slot r. LinkResource (cx_domain cx) tile d slot \<in> set (link_resources (cx_domain cx) (rm_ii (cx_resources cx))
       (pl_issueSlot (rq_producer (cx_request cx))) as) \<longrightarrow>
       linkResource (cx_resources cx) (cx_domain cx) tile d slot = Inr (Some r) \<longrightarrow> r \<notin> set seen)"
  using assms
proof (induction cx seen as rule: selfConflict.induct)
  case (3 cx seen l as)
  let ?slot = "(pl_issueSlot (rq_producer (cx_request cx)) + ls_elapsed l) mod rm_ii (cx_resources cx)"
  from 3(2) obtain r where r: "linkResource (cx_resources cx) (cx_domain cx) (ls_source l) (ls_direction l) ?slot = Inr (Some r)"
    "r \<notin> set seen" and rest: "selfConflict cx (seen @ [r]) as = Inr False"
    by (auto simp: bindR_eq_Inr advance_eq split: option.splits if_splits)
  note IH = 3(1) [OF r(2) rest]
  then have "LinkResource (cx_domain cx) (ls_source l) (ls_direction l) ?slot \<notin>
      set (link_resources (cx_domain cx) (rm_ii (cx_resources cx)) (pl_issueSlot (rq_producer (cx_request cx))) as)"
    using r(1) by fastforce
  with IH r show ?case by auto
qed simp_all

section \<open>The result of the loop\<close>

lemma reconstruct_built:
  assumes rec: "reconstruct cx start st s = Inr (Inr plan)" and taken: "goal_taken cx start c0 st s"
    and start: "fst (stateFor (cx_target cx) start) = src" "c0 = (ready, 0, 0)" "c0 < max_Cost"
    and ok: "search_ok cx" "start_ok cx start c0"
  shows "built cx start c0 (src, ready) st (tp_actions plan) s" and "tp_requiredSeparation plan = fst (best_of st s)"
    and "tp_edge plan = rq_edge (cx_request cx)" and "tp_domain plan = cx_domain cx"
    and "selfConflict cx [] (tp_actions plan) = Inr False"
proof -
  from taken have inv: "loop_inv cx start c0 st" and s: "s < context_states cx" "(best_of st s, s) \<in> open_entries st"
    by (auto simp: goal_taken_def)
  have search: "route.search_inv cx start c0 (finished st) (finished st) (best_of st) (open_entries st)"
    and len: "length (se_best st) = context_states cx"
    using inv by (simp_all add: loop_inv_def route_inv_def tables_ok_def)
  from rec obtain chain actions where
    chain: "predecessorChain start (se_predecessors st) [] s = Some chain" "addActions cx (se_best st) [] chain = Some actions"
    and plan: "plan = \<lparr>tp_edge = rq_edge (cx_request cx), tp_domain = cx_domain cx, tp_actions = actions,
        tp_requiredSeparation = fst (se_best st ! s)\<rparr>" "selfConflict cx [] actions = Inr False"
    by (auto simp: reconstruct_def bindR_eq_Inr split: option.splits if_splits)
  have le: "best_of st start \<le> c0" by (rule route.search_invD(4) [OF search])
  then have "context_reach cx start c0 start (best_of st start)"
    using route.search_invD(3) [OF search, of start] start(3) by simp
  moreover have "c0 \<le> c" if "context_reach cx start c0 i c" for i c
    using that by (induction rule: reached.induct) (auto intro: order_trans [OF _ route.extend_ge])
  ultimately have b0: "best_of st start = c0" using le by (meson antisym)
  have "built cx start c0 (src, ready) st [] start"
    using start b0 by (auto simp: built_def open_route_def transport_path_simps intro: reached_start)
  moreover have "linked_chain cx st start chain s"
    by (rule chain_linked [OF chain(1) _ _ inv]) (simp_all add: route.search_invD(8) [OF search s(2)])
  ultimately show "built cx start c0 (src, ready) st (tp_actions plan) s"
    using addActions_built [OF chain(2) _ _ len ok] plan(1) by simp
  show "tp_requiredSeparation plan = fst (best_of st s)" using plan(1) s(1) len by (simp add: best_of_def)
  show "tp_edge plan = rq_edge (cx_request cx)" "tp_domain plan = cx_domain cx"
    "selfConflict cx [] (tp_actions plan) = Inr False" using plan by simp_all
qed

lemma start_route_reached:
  assumes "context_route cx (src, ready) as (dst, sep)" "fst (stateFor (cx_target cx) start) = src"
    and "search_ok cx" "start_ok cx start (ready, 0, 0)"
  shows "\<exists>j. context_reach cx start (ready, 0, 0) j (sep, hold_cycles as, hop_count as) \<and>
    fst (stateFor (cx_target cx) j) = dst"
  using reach_route [of cx "(src, ready)" as "(dst, sep)" start "(ready, 0, 0)" start 0 0] assms
  by (auto simp: open_route_def intro: reached_start)

lemma searchLoop_success:
  assumes loop: "searchLoop n cx start st0 = Some (Route_Returns r)" "loop_inv cx start (ready, 0, 0) st0"
    and status: "rsr_status r = Route_Success"
    and start: "fst (stateFor (cx_target cx) start) = src" "ready \<le> u32_max"
    and ok: "search_ok cx" "start_ok cx start (ready, 0, 0)"
  defines "dst \<equiv> pl_tile (rq_consumer (cx_request cx))"
  shows "\<exists>plan. rsr_plan r = Some plan \<and> tp_edge plan = rq_edge (cx_request cx) \<and> tp_domain plan = cx_domain cx \<and>
    context_route cx (src, ready) (tp_actions plan) (dst, tp_requiredSeparation plan) \<and>
    distinct (link_resources (cx_domain cx) (rm_ii (cx_resources cx)) (pl_issueSlot (rq_producer (cx_request cx)))
      (tp_actions plan)) \<and>
    (\<forall>as sep. context_route cx (src, ready) as (dst, sep) \<longrightarrow>
       (tp_requiredSeparation plan, hold_cycles (tp_actions plan), hop_count (tp_actions plan)) \<le>
       (sep, hold_cycles as, hop_count as))"
proof -
  from searchLoop_end [OF loop ok] status obtain st s plan where
    taken: "goal_taken cx start (ready, 0, 0) st s" and rec: "reconstruct cx start st s = Inr (Inr plan)"
    and plan: "rsr_plan r = Some plan" by blast
  have small: "(ready, 0, 0) < max_Cost" using start(2) by (simp add: max_Cost_def less_prod_def)
  note R = reconstruct_built [OF rec taken start(1) refl small ok]
  from taken have goal: "fst (stateFor (cx_target cx) s) = dst" by (simp add: goal_taken_def at_goal_def dst_def)
  have cost: "best_of st s = (tp_requiredSeparation plan, hold_cycles (tp_actions plan), hop_count (tp_actions plan))"
    using R(1,2) by (simp add: built_def)
  have "best_of st s \<le> (sep, hold_cycles as, hop_count as)" if "context_route cx (src, ready) as (dst, sep)" for as sep
  proof -
    from start_route_reached [OF that start(1) ok] obtain j where
      j: "context_reach cx start (ready, 0, 0) j (sep, hold_cycles as, hop_count as)" "fst (stateFor (cx_target cx) j) = dst" by blast
    have "j \<notin> finished st" using j(2) taken by (auto simp: goal_taken_def loop_inv_def at_goal_def dst_def)
    with taken j(1) show ?thesis
      by (intro route.goal_least [of cx start "(ready, 0, 0)" "finished st" "best_of st" "open_entries st" _ s j])
        (auto simp: goal_taken_def loop_inv_def route_inv_def)
  qed
  note least = this [unfolded cost]
  have path: "context_route cx (src, ready) (tp_actions plan) (dst, tp_requiredSeparation plan)"
    using R(1,2) goal by (simp add: built_def)
  note dist = conjunct1 [OF selfConflict_distinct [OF R(5)]]
  show ?thesis using plan R(3,4) path dist least by blast
qed

lemma searchLoop_no_path:
  assumes loop: "searchLoop n cx start st0 = Some (Route_Returns r)" "loop_inv cx start (ready, 0, 0) st0"
    and status: "rsr_status r = Route_NoPath"
    and start: "fst (stateFor (cx_target cx) start) = src"
    and ok: "search_ok cx" "start_ok cx start (ready, 0, 0)"
    and route: "context_route cx (src, ready) as (pl_tile (rq_consumer (cx_request cx)), sep)"
  shows "u64_max \<le> sep"
proof -
  from searchLoop_end [OF loop ok] status obtain st where
    st: "loop_inv cx start (ready, 0, 0) st" "open_entries st = {}" by blast
  from start_route_reached [OF route start ok] obtain j where
    j: "context_reach cx start (ready, 0, 0) j (sep, hold_cycles as, hop_count as)"
    "fst (stateFor (cx_target cx) j) = pl_tile (rq_consumer (cx_request cx))" by blast
  have "j \<notin> finished st" using j(2) st(1) by (auto simp: loop_inv_def at_goal_def)
  with st j(1) have "max_Cost \<le> (sep, hold_cycles as, hop_count as)"
    by (intro route.goal_exhausted [of cx start "(ready, 0, 0)" "finished st" "best_of st" j])
      (auto simp: loop_inv_def route_inv_def)
  then show ?thesis by (auto simp: max_Cost_def less_eq_prod_def)
qed

section \<open>The whole search\<close>

text \<open>What the validated request gives.\<close>

lemma validPlacement_ok:
  assumes "validPlacement g t rm e p n c = Inr u"
  shows "on_mesh t (pl_tile p)" "pl_issueSlot p < rm_ii rm"
  using assms by (auto simp: validPlacement_def Let_def on_mesh_def split: if_splits)

lemma validateInput_ok:
  assumes "validateInput g t rm rq = Inr (domain, ready)"
  shows "on_mesh t (pl_tile (rq_producer rq))" "pl_issueSlot (rq_producer rq) < rm_ii rm" "0 < ic_hopLatency (tm_interconnect t)"
  using assms
  by (auto simp: validateInput_def Let_def bindR_eq_Inr split: if_splits option.splits dest: validPlacement_ok)

lemma initial_inv:
  assumes start: "start < stateTotal t ii" and ready: "ready \<le> u32_max"
    and n: "stateTotal (cx_target cx) (rm_ii (cx_resources cx)) = stateTotal t ii"
    and push: "push cx (ready, 0, 0) start (initialState (stateTotal t ii) start ready) = Some st"
  shows "loop_inv cx start (ready, 0, 0) st"
proof -
  let ?n = "stateTotal t ii"
  from push have st: "se_best st = (replicate ?n max_Cost)[start := (ready, 0, 0)]" "se_predecessors st = replicate ?n no_Predecessor"
    "se_finalized st = replicate ?n False" "se_queue st = [((ready, 0, 0), start, 0)]"
    by (auto simp: push_def initialState_def Let_def split: if_splits)
  have best: "best_of st = (\<lambda>_. max_Cost)(start := (ready, 0, 0))"
    using start by (auto simp: best_of_def st fun_eq_iff nth_list_update)
  have fin: "finished st = {}" by (auto simp: finished_def st)
  have opens: "open_entries st = {((ready, 0, 0), start)}" by (simp add: open_entries_def st)
  have small: "(ready, 0, 0) < max_Cost" using ready by (simp add: max_Cost_def less_prod_def)
  have "tables_ok (context_states cx) st" using start n by (simp add: tables_ok_def opens st)
  moreover have "back_ok cx start st" by (simp add: back_ok_def best)
  ultimately show ?thesis
    using route.search_inv_init [OF small, of cx start] by (simp add: loop_inv_def route_inv_def fin best opens)
qed

text \<open>The run of a validated search: the loop from its initial state, or the route of a value that stays.\<close>

lemma search_context_simps [simp]:
  "cx_target (search_context t rm table rq options domain) = t"
  "cx_resources (search_context t rm table rq options domain) = rm"
  "cx_reservations (search_context t rm table rq options domain) = table"
  "cx_request (search_context t rm table rq options domain) = rq"
  "cx_options (search_context t rm table rq options domain) = options"
  "cx_domain (search_context t rm table rq options domain) = domain"
  by (simp_all add: search_context_def)

lemma route_run_cases:
  assumes cx: "cx = search_context t rm table rq options domain"
    and valid: "validateInput g t rm rq = Inr (domain, ready)" and fit: "states_fit t (rm_ii rm)" and ready: "ready \<le> u32_max"
    and run: "route_run t rm cx ready = Some (Route_Returns r)"
  shows "rsr_status r = Route_BudgetExceeded \<or>
    pl_tile (rq_producer rq) = pl_tile (rq_consumer rq) \<and> (\<exists>stats. sameTileRoute cx ready stats = Route_Returns r) \<or>
    pl_tile (rq_producer rq) \<noteq> pl_tile (rq_consumer rq) \<and>
    (\<exists>n start st. searchLoop n cx start st = Some (Route_Returns r) \<and> loop_inv cx start (ready, 0, 0) st \<and>
       fst (stateFor t start) = pl_tile (rq_producer rq) \<and> search_ok cx \<and> start_ok cx start (ready, 0, 0))"
proof -
  note V = validateInput_ok [OF valid]
  let ?slot = "(pl_issueSlot (rq_producer rq) + ready) mod rm_ii rm"
  let ?start = "stateId t (pl_tile (rq_producer rq)) ?slot"
  have ii: "?slot < rm_ii rm" using V(2) by (intro mod_less_divisor) linarith
  have start: "?start < stateTotal t (rm_ii rm)" by (rule stateId_less [OF V(1) ii])
  have count: "stateCount t rm = stateTotal t (rm_ii rm)"
    using fit by (simp add: stateCount_def stateTotal_def states_fit_def)
  have adv: "advance (rm_ii rm) (pl_issueSlot (rq_producer rq)) ready = Inr ?slot" using V(2) by (simp add: advance_eq)
  have at: "stateFor t ?start = (pl_tile (rq_producer rq), ?slot)" by (rule stateFor_stateId [OF V(1) ii fit])
  have ok: "search_ok cx" "start_ok cx ?start (ready, 0, 0)"
    using V fit start at by (simp_all add: search_ok_def start_ok_def cx hop_latency_def)
  show ?thesis
  proof (cases "push cx (ready, 0, 0) ?start (initialState (stateTotal t (rm_ii rm)) ?start ready)")
    case None
    with run start show ?thesis by (simp add: route_run_def Let_def count adv cx route_failure_def) auto
  next
    case (Some st)
    have inv: "loop_inv cx ?start (ready, 0, 0) st"
      by (rule initial_inv [OF start ready _ Some]) (simp add: cx)
    show ?thesis
    proof (cases "pl_tile (rq_producer rq) = pl_tile (rq_consumer rq)")
      case True
      with run Some start have "sameTileRoute cx ready (se_stats st) = Route_Returns r"
        by (simp add: route_run_def Let_def count adv cx split: if_splits)
      with True show ?thesis by blast
    next
      case False
      with run Some start have "\<exists>n. searchLoop n cx ?start st = Some (Route_Returns r)"
        by (auto simp: route_run_def Let_def count adv cx simp del: searchLoop.simps split: if_splits)
      then show ?thesis using inv ok at False by auto
    qed
  qed
qed

lemma transport_path_away:
  assumes "transport_path t domain p as q" "fst p \<noteq> fst q"
  shows "snd p + ic_hopLatency (tm_interconnect t) \<le> snd q"
  using assms
proof (induction rule: transport_path.induct)
  case (link l tile time tile' as q)
  then show ?case using transport_path_time [OF link.hyps(5)] by simp
qed auto

lemma neighbor_moves: "neighbor_in t tile d = Some tile' \<Longrightarrow> tile' \<noteq> tile"
  by (cases tile; cases d) (auto simp: neighbor_in_def split: if_splits)

lemma same_tile_minimal:
  assumes path: "transport_path t domain (tile, ready) as (tile, sep)" "as \<noteq> []" and hop: "0 < ic_hopLatency (tm_interconnect t)"
  shows "(ready + 1, 1, 0) \<le> (sep, hold_cycles as, hop_count as)"
proof (cases as)
  case (Cons a bs)
  show ?thesis
  proof (cases a)
    case (Action_Link l)
    with path Cons obtain tile' where nb: "neighbor_in t tile (ls_direction l) = Some tile'"
      and rest: "transport_path t domain (tile', ready + ic_hopLatency (tm_interconnect t)) bs (tile, sep)"
      by (auto simp: transport_path_simps)
    have "ready + 1 < sep" using transport_path_away [OF rest] neighbor_moves [OF nb] hop by simp
    then show ?thesis by (simp add: less_eq_prod_def)
  next
    case (Action_Hold h)
    with path Cons have h: "vh_captureElapsed h = ready" "ready < vh_releaseElapsed h"
      and rest: "transport_path t domain (tile, vh_releaseElapsed h) bs (tile, sep)"
      by (auto simp: transport_path_simps)
    from transport_path_time [OF rest] h Action_Hold Cons show ?thesis by (auto simp: less_eq_prod_def)
  qed
qed (use path in simp)

lemma search_run:
  assumes "route_search g t rm table rq options = Some (Route_Returns r)" "validateInput g t rm rq = Inr (domain, ready)"
  shows "route_run t rm (search_context t rm table rq options domain) ready = Some (Route_Returns r)"
  using assms by (simp add: route_search_def split: sum.splits)

section \<open>The search on the example\<close>

text \<open>The example graph on the 1 x 2 array at initiation interval 2: the value of node 0 goes to the tile to
  the east, once with all links free and once with the links to the east taken in both slots.\<close>

definition demo_resources :: ModuloResourceModel where
  "demo_resources = (case mk_ModuloResourceModel demo_target 2 of Inl _ \<Rightarrow> empty_resourceModel demo_target 2 | Inr m \<Rightarrow> m)"

definition demo_request :: RouteSearchRequest where
  "demo_request = \<lparr>rq_edge = 0, rq_producer = \<lparr>pl_node = 0, pl_tile = demo_tile 0, pl_issueSlot = 0\<rparr>,
     rq_consumer = \<lparr>pl_node = 1, pl_tile = demo_tile 1, pl_issueSlot = 1\<rparr>\<rparr>"

definition demo_options :: RouteSearchOptions where
  "demo_options = \<lparr>ro_budget = \<lparr>rb_maxStateExpansions = 100, rb_maxQueuePushes = 100\<rparr>, ro_allowVirtualHold = True,
     ro_tieBreak = MinSeparationThenHoldsThenHops\<rparr>"

definition demo_blocked :: ReservationTable where
  "demo_blocked = map (\<lambda>x. case x of LinkResource Net_Data _ East _ \<Rightarrow> Some \<lparr>ro_kind = Owner_Edge, ro_id = 7\<rparr> | _ \<Rightarrow> None)
     (rm_resources demo_resources)"

definition found_route :: "route_stop option \<Rightarrow> RouteSearchResult" where
  "found_route r = (case r of Some (Route_Returns x) \<Rightarrow> x | _ \<Rightarrow>
     \<lparr>rsr_status = Route_InternalError, rsr_plan = None, rsr_stats = empty_route_stats, rsr_diagnostics = []\<rparr>)"

definition demo_found :: RouteSearchResult where
  "demo_found = found_route (route_search demo_tdfg demo_target demo_resources (mk_ReservationTable demo_resources) demo_request demo_options)"

definition demo_refused :: RouteSearchResult where
  "demo_refused = found_route (route_search demo_tdfg demo_target demo_resources demo_blocked demo_request demo_options)"

lemma demo_found_status:
  "route_search demo_tdfg demo_target demo_resources (mk_ReservationTable demo_resources) demo_request demo_options =
     Some (Route_Returns demo_found) \<and> rsr_status demo_found = Route_Success"
  by code_simp

lemma demo_refused_status:
  "route_search demo_tdfg demo_target demo_resources demo_blocked demo_request demo_options =
     Some (Route_Returns demo_refused) \<and> rsr_status demo_refused = Route_NoPath"
  by code_simp

lemma demo_request_valid: "validateInput demo_tdfg demo_target demo_resources demo_request = Inr (Net_Data, 1)"
  by code_simp

lemma demo_states_fit: "states_fit demo_target (rm_ii demo_resources)"
  by code_simp

lemma route_search_total: "route_search g t rm table rq options \<noteq> None"
proof (cases "\<exists>v. validateInput g t rm rq = Inr v \<and> rm_ii rm \<noteq> 0")
  case True
  then obtain domain ready where v: "validateInput g t rm rq = Inr (domain, ready)" and ii: "rm_ii rm \<noteq> 0" by auto
  let ?cx = "search_context t rm table rq options domain"
  have loop: "searchLoop (Suc (rb_maxQueuePushes (ro_budget options))) ?cx start st \<noteq> None"
    if "push ?cx (ready, 0, 0) start (initialState n start ready) = Some st" for n start st
    using that by (intro searchLoop_returns)
      (auto simp: work_left_def push_def initialState_def empty_route_stats_def Let_def split: if_splits)
  then have "route_run t rm ?cx ready \<noteq> None"
    by (auto simp: route_run_def Let_def simp del: searchLoop.simps split: sum.splits option.splits)
  with v ii show ?thesis by (simp add: route_search_def mk_ModuloTimeDomain_def)
next
  case False
  then show ?thesis by (auto simp: route_search_def mk_ModuloTimeDomain_def split: sum.splits)
qed

section \<open>What the search promises\<close>

text \<open>C3: A successful search returns a usable route: an unbroken path of links and holds of the edge's
  network from the producer's tile, at the time its value is ready, to the consumer's tile, over links
  that exist and are free in the slots they are used in, no link resource twice, and arriving at the
  separation the plan states.  No other usable route (for a value that stays on its tile: none that
  stores it at all) is cheaper in the order separation, hold cycles, hops.\<close>

theorem route_search_optimal:
  assumes search: "route_search g t rm table rq options = Some (Route_Returns r)" and status: "rsr_status r = Route_Success"
    and valid: "validateInput g t rm rq = Inr (domain, ready)" and ready: "ready \<le> u32_max" and fit: "states_fit t (rm_ii rm)"
  defines "src \<equiv> pl_tile (rq_producer rq)" and "dst \<equiv> pl_tile (rq_consumer rq)"
    and "slot \<equiv> pl_issueSlot (rq_producer rq)" and "holds \<equiv> ro_allowVirtualHold options"
  shows "\<exists>plan. rsr_plan r = Some plan \<and> tp_edge plan = rq_edge rq \<and> tp_domain plan = domain \<and>
    open_route t rm table domain holds slot (src, ready) (tp_actions plan) (dst, tp_requiredSeparation plan) \<and>
    distinct (link_resources domain (rm_ii rm) slot (tp_actions plan)) \<and>
    (\<forall>as sep. open_route t rm table domain holds slot (src, ready) as (dst, sep) \<longrightarrow> as \<noteq> [] \<longrightarrow>
       (tp_requiredSeparation plan, hold_cycles (tp_actions plan), hop_count (tp_actions plan)) \<le>
       (sep, hold_cycles as, hop_count as))"
proof -
  let ?cx = "search_context t rm table rq options domain"
  note V = validateInput_ok [OF valid]
  from route_run_cases [OF refl valid fit ready search_run [OF search valid]] status consider
      (stays) stats where "src = dst" "sameTileRoute ?cx ready stats = Route_Returns r"
    | (moves) n start st where "searchLoop n ?cx start st = Some (Route_Returns r)" "loop_inv ?cx start (ready, 0, 0) st"
        "fst (stateFor t start) = src" "search_ok ?cx" "start_ok ?cx start (ready, 0, 0)"
    by (auto simp: src_def dst_def)
  then show ?thesis
  proof cases
    case stays
    let ?hold = "Action_Hold \<lparr>vh_domain = domain, vh_tile = src, vh_captureElapsed = ready, vh_releaseElapsed = ready + 1\<rparr>"
    from stays(2) status have allow: holds and plan: "rsr_plan r = Some \<lparr>tp_edge = rq_edge rq, tp_domain = domain,
        tp_actions = [?hold], tp_requiredSeparation = ready + 1\<rparr>"
      by (auto simp: sameTileRoute_def Let_def noPath_def route_failure_def holds_def src_def split: if_splits)
    have "open_route t rm table domain holds slot (src, ready) [?hold] (dst, ready + 1)"
      using allow stays(1) by (simp add: open_route_def transport_path_simps action_open_def)
    moreover have "(ready + 1, 1, 0) \<le> (sep, hold_cycles as, hop_count as)"
      if "open_route t rm table domain holds slot (src, ready) as (dst, sep)" "as \<noteq> []" for as sep
      using that same_tile_minimal [OF _ that(2) V(3), of domain src ready sep] stays(1) by (simp add: open_route_def)
    ultimately show ?thesis using plan by simp
  next
    case moves
    from searchLoop_success [OF moves(1,2) status _ ready moves(4,5), of src] moves(3) show ?thesis
      by (simp add: slot_def holds_def dst_def) blast
  qed
qed

theorem route_search_optimal_witness:
  "rsr_status demo_found = Route_Success \<and> (\<exists>plan. rsr_plan demo_found = Some plan \<and> tp_edge plan = 0 \<and>
     open_route demo_target demo_resources (mk_ReservationTable demo_resources) Net_Data True 0 (demo_tile 0, 1)
       (tp_actions plan) (demo_tile 1, tp_requiredSeparation plan))"
  using route_search_optimal [OF conjunct1 [OF demo_found_status] conjunct2 [OF demo_found_status] demo_request_valid _
    demo_states_fit] demo_found_status
  by (auto simp: demo_request_def demo_options_def)

text \<open>C4: When the search reports that there is no path between two different tiles, no usable route between
  them exists whose arrival fits the 64-bit cost of the search.\<close>

theorem route_search_no_path:
  assumes search: "route_search g t rm table rq options = Some (Route_Returns r)" and status: "rsr_status r = Route_NoPath"
    and valid: "validateInput g t rm rq = Inr (domain, ready)" and ready: "ready \<le> u32_max" and fit: "states_fit t (rm_ii rm)"
    and other: "pl_tile (rq_producer rq) \<noteq> pl_tile (rq_consumer rq)" and sep: "sep < u64_max"
  shows "\<not> open_route t rm table domain (ro_allowVirtualHold options) (pl_issueSlot (rq_producer rq))
    (pl_tile (rq_producer rq), ready) as (pl_tile (rq_consumer rq), sep)"
proof
  let ?cx = "search_context t rm table rq options domain"
  assume route: "open_route t rm table domain (ro_allowVirtualHold options) (pl_issueSlot (rq_producer rq))
    (pl_tile (rq_producer rq), ready) as (pl_tile (rq_consumer rq), sep)"
  from route_run_cases [OF refl valid fit ready search_run [OF search valid]] status other obtain n start st where
    loop: "searchLoop n ?cx start st = Some (Route_Returns r)" "loop_inv ?cx start (ready, 0, 0) st"
      "fst (stateFor t start) = pl_tile (rq_producer rq)" "search_ok ?cx" "start_ok ?cx start (ready, 0, 0)"
    by auto
  have "u64_max \<le> sep" by (rule searchLoop_no_path [OF loop(1,2) status _ loop(4,5)]) (use route loop(3) in simp_all)
  with sep show False by simp
qed

theorem route_search_no_path_witness:
  "rsr_status demo_refused = Route_NoPath \<and>
   \<not> open_route demo_target demo_resources demo_blocked Net_Data True 0 (demo_tile 0, 1) (tp_actions demo_route) (demo_tile 1, 2)"
  using route_search_no_path [OF conjunct1 [OF demo_refused_status] conjunct2 [OF demo_refused_status] demo_request_valid _
    demo_states_fit, of 2 "tp_actions demo_route"] demo_refused_status
  by (simp add: demo_request_def demo_options_def demo_tile_def)

text \<open>C5: The search always returns: the number of iterations its loop is given here is never used up, since
  every iteration takes an entry from the queue and the budget bounds the entries ever pushed.\<close>

theorem route_search_returns: "route_search g t rm table rq options \<noteq> None"
  by (rule route_search_total)

end
