(* ===== verification/Mapper_Sound.thy ===== *)
theory Mapper_Sound
  imports Mapper Route_Exact Analysis_Bound
begin

text \<open>
  What the modulo mapper guarantees.  Backtracking is exact: a search that does not succeed leaves the
  reservation table, the placements and the dependences as it found them.  The depth of the recursion is
  always enough.  A success is a mapping the verifier and the caller's check accept, at an initiation
  interval between the analysed bound and the limit.
\<close>

section \<open>Rolling back\<close>

lemma lift_map_Inr [simp]: "lift_map r = Inr a \<longleftrightarrow> r = Inr a"
  by (auto simp: lift_map_def split: sum.splits)

lemma lift_map_simps [simp]: "lift_map (Inr a) = Inr a" "lift_map (Inl x) = Inl (Map_Raises x)"
  by (simp_all add: lift_map_def)

lemma tryReserve_granted:
  assumes "tryReserve rs w t = (t', Some d)"
  shows "undo d t' = Inr t" and "dl_resources d = rs"
  using assms table.reserve_release [of rs w t]
  by (auto simp: tryReserve_def undo_def split: prod.splits bool.splits)

lemma tryReserve_refused: "tryReserve rs w t = (t', None) \<Longrightarrow> t' = t"
  using table.reserve_refused [of rs w t] by (auto simp: tryReserve_def split: prod.splits bool.splits)

lemma filter_emplace:
  "key x \<notin> key ` set xs \<Longrightarrow> filter (\<lambda>y. key y \<noteq> key x) (emplace_by key x xs) = xs"
proof -
  have "filter (\<lambda>y. key y \<noteq> key x) (insort_key key x ys) = filter (\<lambda>y. key y \<noteq> key x) ys" for ys
    by (induction ys) auto
  moreover assume "key x \<notin> key ` set xs"
  then have "filter (\<lambda>y. key y \<noteq> key x) xs = xs" by (induction xs) auto
  ultimately show ?thesis by (simp add: emplace_by_def)
qed

lemma filter_emplace_in: "P x = False \<Longrightarrow> filter P (emplace_by key x xs) = filter P xs"
proof -
  have "\<not> P x \<Longrightarrow> filter P (insort_key key x ys) = filter P ys" for ys by (induction ys) auto
  then show "P x = False \<Longrightarrow> ?thesis" by (simp add: emplace_by_def)
qed

definition same_tables :: "MapState \<Rightarrow> MapState \<Rightarrow> bool" where
  "same_tables a b \<longleftrightarrow> ms_reservations a = ms_reservations b \<and> ms_placements a = ms_placements b \<and>
     ms_dependences a = ms_dependences b"

lemma same_tables_simps [simp]:
  "same_tables a a" "same_tables (map_count f a) b = same_tables a b" "same_tables (map_diag c i n e a) b = same_tables a b"
  "same_tables a (map_count f b) = same_tables a b" "same_tables (a\<lparr>ms_mapping := m\<rparr>) b = same_tables a b"
  "same_tables (a\<lparr>ms_verificationFailureReported := v\<rparr>) b = same_tables a b"
  by (simp_all add: same_tables_def map_count_def map_diag_def)

lemma same_tables_trans: "same_tables a b \<Longrightarrow> same_tables b c \<Longrightarrow> same_tables a c"
  by (simp add: same_tables_def)

text \<open>A delta undoes the way from one state to another.\<close>

definition undoes :: "CandidateDelta \<Rightarrow> MapState \<Rightarrow> MapState \<Rightarrow> bool" where
  "undoes delta st st0 \<longleftrightarrow>
     filter (\<lambda>d. md_edge d \<notin> set (de_edges delta)) (ms_dependences st) = ms_dependences st0 \<and>
     filter (\<lambda>p. pl_node p \<noteq> de_node delta) (ms_placements st) = ms_placements st0 \<and>
     (\<exists>table. foldR (\<lambda>table d. undo d table) (ms_reservations st) (rev (de_edgeReservations delta)) = Inr table \<and>
        undo (de_nodeReservation delta) table = Inr (ms_reservations st0)) \<and> dl_resources (de_nodeReservation delta) \<noteq> []"

lemma rollback_undoes:
  assumes "undoes delta st st0"
  shows "\<exists>st'. rollback delta st = Inr st' \<and> same_tables st' st0"
  using assms by (auto simp: undoes_def rollback_def same_tables_def)

lemma undoes_same: "same_tables a b \<Longrightarrow> undoes delta a st0 = undoes delta b st0"
  by (simp add: undoes_def same_tables_def)

lemma undoes_dependence:
  assumes u: "undoes delta st st0" and k: "md_edge dep \<notin> md_edge ` set (ms_dependences st0)"
  shows "undoes (delta\<lparr>de_edges := de_edges delta @ [md_edge dep]\<rparr>)
    (st\<lparr>ms_dependences := emplace_by md_edge dep (ms_dependences st)\<rparr>) st0"
proof -
  have "filter (\<lambda>d. md_edge d \<notin> set (de_edges delta @ [md_edge dep])) (emplace_by md_edge dep (ms_dependences st)) =
      filter (\<lambda>d. md_edge d \<notin> set (de_edges delta @ [md_edge dep])) (ms_dependences st)"
    by (rule filter_emplace_in) simp
  also have "\<dots> = filter (\<lambda>d. md_edge d \<noteq> md_edge dep) (filter (\<lambda>d. md_edge d \<notin> set (de_edges delta)) (ms_dependences st))"
    by (simp add: conj_commute)
  also have "\<dots> = filter (\<lambda>d. md_edge d \<noteq> md_edge dep) (ms_dependences st0)" using u by (simp only: undoes_def)
  also have "\<dots> = ms_dependences st0" using k by (intro filter_True) (auto simp: image_iff)
  finally show ?thesis using u by (simp add: undoes_def)
qed

lemma undoes_edge:
  assumes "undoes delta st st0" and "md_edge dep \<notin> md_edge ` set (ms_dependences st0)"
    and "undo granted table = Inr (ms_reservations st)"
  shows "undoes (delta\<lparr>de_edgeReservations := de_edgeReservations delta @ [granted], de_edges := de_edges delta @ [md_edge dep]\<rparr>)
    (st\<lparr>ms_reservations := table, ms_dependences := emplace_by md_edge dep (ms_dependences st)\<rparr>) st0"
  using undoes_dependence [OF assms(1,2)] assms(3) by (simp add: undoes_def)

lemma undoes_count [simp]:
  "undoes d (map_count f st) st0 = undoes d st st0" "undoes d (map_diag c i n e st) st0 = undoes d st st0"
  by (simp_all add: undoes_def map_count_def map_diag_def)

definition route_dependence :: "TargetEdge \<Rightarrow> TransportPlan \<Rightarrow> MappedDependence" where
  "route_dependence e plan = \<lparr>md_edge = te_id e, md_kind = te_kind e, md_requiredSeparation = tp_requiredSeparation plan,
     md_transport = Some plan\<rparr>"

lemma acceptRoute_cases:
  assumes run: "acceptRoute mc e producer plan st delta = Inr (outcome, st', delta')"
  shows "outcome = Out_InternalError \<and> delta' = delta \<and> same_tables st' st \<or>
    (\<exists>ids table granted. tryReserve ids \<lparr>ro_kind = Owner_Edge, ro_id = te_id e\<rparr> (ms_reservations st) = (table, Some granted) \<and>
       st' = st\<lparr>ms_reservations := table, ms_dependences := emplace_by md_edge (route_dependence e plan) (ms_dependences st)\<rparr> \<and>
       delta' = delta\<lparr>de_edgeReservations := de_edgeReservations delta @ [granted], de_edges := de_edges delta @ [te_id e]\<rparr>)"
proof -
  from run obtain ids where ids: "routeResources mc plan producer = Inr ids" by (auto simp: acceptRoute_def bindR_eq_Inr)
  obtain table d where tr: "tryReserve ids \<lparr>ro_kind = Owner_Edge, ro_id = te_id e\<rparr> (ms_reservations st) = (table, d)" by fastforce
  show ?thesis
  proof (cases d)
    case None
    with run ids tr show ?thesis by (auto simp: acceptRoute_def)
  next
    case (Some granted)
    have "st' = st\<lparr>ms_reservations := table, ms_dependences := emplace_by md_edge (route_dependence e plan) (ms_dependences st)\<rparr>"
      "delta' = delta\<lparr>de_edgeReservations := de_edgeReservations delta @ [granted], de_edges := de_edges delta @ [te_id e]\<rparr>"
      using run ids tr Some by (auto simp: acceptRoute_def route_dependence_def)
    then show ?thesis using tr Some by blast
  qed
qed

lemma acceptRoute_undoes:
  assumes run: "acceptRoute mc e producer plan st delta = Inr (outcome, st', delta')" and u: "undoes delta st st0"
    and new: "te_id e \<notin> md_edge ` set (ms_dependences st0)"
  shows "undoes delta' st' st0"
proof -
  have id: "te_id e = md_edge (route_dependence e plan)" by (simp add: route_dependence_def)
  from acceptRoute_cases [OF run] show ?thesis
    using u undoes_same [of st' st] undoes_edge [OF u new [unfolded id] tryReserve_granted(1)]
    by (auto simp: id)
qed

lemma tdfg_edge_id: "tdfg_inv g \<Longrightarrow> tdfg_edge g i = Inr e \<Longrightarrow> te_id e = i"
  by (auto simp: tdfg_inv_def tdfg_edge_def at_index_def vec_at_def index_ok_def split: option.splits if_splits)

lemma realizeEdge_cases:
  assumes run: "realizeEdge mc i st delta = Inr (outcome, st', delta')"
  shows "\<exists>e. tdfg_edge (mc_dfg mc) i = Inr e \<and>
    (delta' = delta \<and> same_tables st' st \<or> (\<exists>k. (outcome, st', delta') = realizeMemory mc e k st delta) \<or>
     (\<exists>producer plan f g. acceptRoute mc e producer plan (map_count f (map_count g st)) delta = Inr (outcome, st', delta')))"
proof -
  from run obtain e producer consumer where e: "tdfg_edge (mc_dfg mc) i = Inr e"
    and p: "placement_at st (te_src e) = Inr producer" "placement_at st (te_dst e) = Inr consumer"
    by (auto simp: realizeEdge_def bindR_eq_Inr)
  show ?thesis
  proof (cases "\<exists>k. te_info e = MemoryEdgeInfo k")
    case True
    then obtain k where "te_info e = MemoryEdgeInfo k" by blast
    with run e p have "(outcome, st', delta') = realizeMemory mc e k st delta" by (simp add: realizeEdge_def)
    with e show ?thesis by blast
  next
    case False
    show ?thesis
    proof (cases "ma_routeSearchCalls (ms_stats st) \<ge> sl_routeSearchCalls (mc_limits mc)")
      case True
      with False run e p show ?thesis by (auto simp: realizeEdge_def Let_def split: EdgeInfo.splits)
    next
      case enough: False
      with False run e p obtain route where route: "findRoute mc st (te_id e) producer consumer = Inr route"
        by (auto simp: realizeEdge_def Let_def bindR_eq_Inr split: EdgeInfo.splits)
      show ?thesis
      proof (cases "rsr_status route = Route_Success \<and> rsr_plan route \<noteq> None")
        case True
        then obtain plan where "rsr_status route = Route_Success" "rsr_plan route = Some plan" by blast
        with enough False run e p route
        have "\<exists>f g. acceptRoute mc e producer plan (map_count f (map_count g st)) delta = Inr (outcome, st', delta')"
          by (auto simp: realizeEdge_def Let_def split: EdgeInfo.splits)
        with e show ?thesis by blast
      next
        case fails: False
        then have "delta' = delta \<and> same_tables st' st"
          using enough False run e p route
          by (cases "rsr_status route") (auto simp: realizeEdge_def Let_def split: EdgeInfo.splits)
        with e show ?thesis by blast
      qed
    qed
  qed
qed

lemma realizeEdge_undoes:
  assumes run: "realizeEdge mc i st delta = Inr (outcome, st', delta')" and u: "undoes delta st st0"
    and new: "i \<notin> md_edge ` set (ms_dependences st0)" and inv: "tdfg_inv (mc_dfg mc)"
  shows "undoes delta' st' st0"
proof -
  from realizeEdge_cases [OF run] obtain e where e: "tdfg_edge (mc_dfg mc) i = Inr e"
    and cases: "delta' = delta \<and> same_tables st' st \<or> (\<exists>k. (outcome, st', delta') = realizeMemory mc e k st delta) \<or>
     (\<exists>producer plan f g. acceptRoute mc e producer plan (map_count f (map_count g st)) delta = Inr (outcome, st', delta'))"
    by blast
  have id: "te_id e = i" by (rule tdfg_edge_id [OF inv e])
  from cases consider "delta' = delta" "same_tables st' st" | k where "(outcome, st', delta') = realizeMemory mc e k st delta"
    | producer plan f g where "acceptRoute mc e producer plan (map_count f (map_count g st)) delta = Inr (outcome, st', delta')"
    by blast
  then show ?thesis
  proof cases
    case 1
    then show ?thesis using u undoes_same by simp
  next
    case (2 k)
    define dep where "dep = \<lparr>md_edge = te_id e, md_kind = te_kind e,
      md_requiredSeparation = memoryDependenceSeparation (mc_target mc) k, md_transport = None\<rparr>"
    have "md_edge dep \<notin> md_edge ` set (ms_dependences st0)" using new id by (simp add: dep_def)
    from undoes_dependence [OF u this] 2 show ?thesis
      by (simp add: realizeMemory_def dep_def)
  next
    case 3
    then show ?thesis using acceptRoute_undoes [OF 3] u new id by simp
  qed
qed

lemma realizeEdge_node: "realizeEdge mc i st delta = Inr (outcome, st', delta') \<Longrightarrow>
  ms_placements st' = ms_placements st \<and> de_nodeReservation delta' = de_nodeReservation delta"
  by (drule realizeEdge_cases)
    (auto simp: same_tables_def realizeMemory_def map_count_def dest!: acceptRoute_cases)

lemma realizeEdges_undoes:
  assumes "realizeEdges mc es st delta = Inr (outcome, st', delta')" "undoes delta st st0"
    "\<forall>i \<in> set es. i \<notin> md_edge ` set (ms_dependences st0)" and inv: "tdfg_inv (mc_dfg mc)"
  shows "undoes delta' st' st0 \<and> ms_placements st' = ms_placements st"
  using assms(1-3)
proof (induction es arbitrary: st delta)
  case (Cons i es)
  from Cons.prems(1) obtain o1 st1 delta1 where 1: "realizeEdge mc i st delta = Inr (o1, st1, delta1)"
    and rest: "(if o1 \<noteq> Out_Success then Inr (o1, st1, delta1) else realizeEdges mc es st1 delta1) = Inr (outcome, st', delta')"
    by (auto simp: bindR_eq_Inr)
  have u1: "undoes delta1 st1 st0" by (rule realizeEdge_undoes [OF 1 Cons.prems(2) _ inv]) (use Cons.prems(3) in simp)
  show ?case
    using rest u1 realizeEdge_node [OF 1] Cons.IH [of st1 delta1] Cons.prems(3) by (auto split: if_splits)
qed simp

lemma operationFootprint_nonempty: "operationFootprint rm n tile slot = Inr fp \<Longrightarrow> fp \<noteq> []"
proof -
  assume fp: "operationFootprint rm n tile slot = Inr fp"
  then obtain d where d: "op_issueOccupancy d \<noteq> 0" "foldR (footprintStep rm d tile slot) [] [0..<op_issueOccupancy d] = Inr fp"
    by (auto simp: operationFootprint_def split: option.splits if_splits)
  from d(1) obtain k where k: "op_issueOccupancy d = Suc k" using not0_implies_Suc by blast
  have "foldR (footprintStep rm d tile slot) [] ([0..<k] @ [k]) = Inr fp" using d(2) unfolding k by simp
  then obtain fp' where "footprintStep rm d tile slot fp' k = Inr fp"
    by (auto simp: foldR_append bindR_eq_Inr)
  then show "fp \<noteq> []" unfolding footprintStep_def bindR_eq_Inr by (auto split: if_splits)
qed

text \<open>A tried candidate is either rejected at once, with nothing changed, or its delta undoes it.\<close>

lemma tryCandidate_undoes:
  assumes run: "tryCandidate mc node c st = Inr (outcome, st', delta)" and new: "\<not> hasPlacement st node"
    and inv: "tdfg_inv (mc_dfg mc)"
  shows "outcome = Out_Exhausted \<and> dl_resources (de_nodeReservation delta) = [] \<and> same_tables st' st \<or>
    undoes delta st' st \<and> dl_resources (de_nodeReservation delta) \<noteq> [] \<and>
    ms_placements st' = emplace_by pl_node \<lparr>pl_node = node, pl_tile = cd_tile c, pl_issueSlot = cd_slot c\<rparr> (ms_placements st)"
proof -
  from run obtain n where n: "tdfg_node (mc_dfg mc) node = Inr n" by (auto simp: tryCandidate_def bindR_eq_Inr)
  show ?thesis
  proof (cases "operationFootprint (mc_resources mc) n (cd_tile c) (cd_slot c)")
    case (Inl x)
    with run n show ?thesis by (auto simp: tryCandidate_def empty_delta_def)
  next
    case (Inr footprint)
    obtain table d where tr: "tryReserve footprint \<lparr>ro_kind = Owner_Node, ro_id = node\<rparr> (ms_reservations st) = (table, d)" by fastforce
    show ?thesis
    proof (cases d)
      case None
      with run n Inr tr show ?thesis by (auto simp: tryCandidate_def empty_delta_def)
    next
      case (Some granted)
      note G = tryReserve_granted [OF tr [unfolded Some]]
      define p where "p = \<lparr>pl_node = node, pl_tile = cd_tile c, pl_issueSlot = cd_slot c\<rparr>"
      define st1 where "st1 = map_count (\<lambda>s. s\<lparr>ma_successfulPlacements := ma_successfulPlacements s + 1\<rparr>)
        (st\<lparr>ms_reservations := table, ms_placements := emplace_by pl_node p (ms_placements st)\<rparr>)"
      define d0 where "d0 = empty_delta\<lparr>de_node := node, de_nodeReservation := granted\<rparr>"
      from run n Inr tr Some have edges: "realizeEdges mc (closedEdges mc st1 node) st1 d0 = Inr (outcome, st', delta)"
        by (simp add: tryCandidate_def Let_def st1_def d0_def p_def)
      have nonempty: "dl_resources granted \<noteq> []" using G(2) operationFootprint_nonempty [OF Inr] by simp
      have "pl_node p \<notin> pl_node ` set (ms_placements st)" using new by (simp add: p_def hasPlacement_def find_by_None_iff)
      from filter_emplace [OF this] have "undoes d0 st1 st"
        using G nonempty by (simp add: undoes_def d0_def st1_def map_count_def empty_delta_def p_def)
      moreover have "\<forall>i \<in> set (closedEdges mc st1 node). i \<notin> md_edge ` set (ms_dependences st)"
        by (auto simp: closedEdges_def st1_def map_count_def find_by_None_iff)
      ultimately have "undoes delta st' st \<and> ms_placements st' = ms_placements st1"
        by (rule realizeEdges_undoes [OF edges _ _ inv])
      then show ?thesis by (auto simp: undoes_def st1_def map_count_def p_def)
    qed
  qed
qed

section \<open>The search\<close>

definition accepted_by :: "MapContext \<Rightarrow> ModuloMapping \<Rightarrow> bool" where
  "accepted_by mc m \<longleftrightarrow> mapping_verify (mc_dfg mc) (mc_target mc) m = Inr [] \<and> mm_ii m = mc_ii mc \<and>
     (\<forall>checker. mo_completeMappingChecker (mc_options mc) = Some checker \<longrightarrow>
        (\<exists>c. checker (mc_dfg mc) (mc_target mc) m = Inr c \<and> ck_decision c = Check_Accept))"

text \<open>What a search from a state may answer.\<close>

definition search_ends :: "MapContext \<Rightarrow> MapState \<Rightarrow> SearchOutcome \<times> MapState \<Rightarrow> bool" where
  "search_ends mc st r \<longleftrightarrow>
     (if fst r = Out_Success then \<exists>m. ms_mapping (snd r) = Some m \<and> accepted_by mc m else same_tables (snd r) st)"

lemma selectNode_open:
  assumes "selectNode mc st = Inr node"
  shows "\<not> hasPlacement st node \<and> node \<in> tn_id ` set (td_nodes (mc_dfg mc))"
proof -
  let ?f = "\<lambda>selected n. if hasPlacement st (tn_id n) then selected
              else case selected of
                     None \<Rightarrow> Some (tn_id n)
                   | Some s \<Rightarrow> if node_rank mc st (tn_id n) > node_rank mc st s then Some (tn_id n) else selected"
  have "foldl ?f best ns = Some node \<Longrightarrow>
      (\<forall>s. best = Some s \<longrightarrow> \<not> hasPlacement st s \<and> s \<in> tn_id ` A) \<Longrightarrow> set ns \<subseteq> A \<Longrightarrow>
      \<not> hasPlacement st node \<and> node \<in> tn_id ` A" for best ns A
  proof (induction ns arbitrary: best)
    case (Cons n ns)
    from Cons.prems(1) have "foldl ?f (?f best n) ns = Some node" by simp
    then show ?case
      by (rule Cons.IH) (use Cons.prems(2,3) in \<open>auto split: option.splits if_splits\<close>)
  qed simp
  from this [of None "td_nodes (mc_dfg mc)" "set (td_nodes (mc_dfg mc))"] assms show ?thesis
    by (auto simp: selectNode_def split: option.splits)
qed

lemma mb_place_fields: "mb_place i tile slot b = Inr b' \<Longrightarrow> mb_ii b' = mb_ii b"
  by (auto simp: mb_place_def bindR_eq_Inr split: if_splits)

lemma mb_set_fields:
  "mb_setTransport i plan b = Inr b' \<Longrightarrow> mb_ii b' = mb_ii b" "mb_setMemorySeparation i k b = Inr b' \<Longrightarrow> mb_ii b' = mb_ii b"
  by (auto simp: mb_setTransport_def mb_setMemorySeparation_def Let_def split: if_splits)

lemma materialize_ii: "materialize mc st = Inr m \<Longrightarrow> mm_ii m = mc_ii mc"
proof -
  assume "materialize mc st = Inr m"
  then obtain b0 b1 b2 where b: "mk_ModuloMappingBuilder (mc_dfg mc) (mc_ii mc) = Inr b0"
    "foldR (\<lambda>b p. mb_place (pl_node p) (pl_tile p) (pl_issueSlot p) b) b0 (ms_placements st) = Inr b1"
    "foldR (\<lambda>b d. case md_transport d of Some plan \<Rightarrow> mb_setTransport (md_edge d) plan b
       | None \<Rightarrow> mb_setMemorySeparation (md_edge d) (md_requiredSeparation d) b) b1 (ms_dependences st) = Inr b2"
    "mb_finish b2 = Inr m"
    unfolding materialize_def bindR_eq_Inr by blast
  have "mb_ii b1 = mb_ii b0" by (rule foldR_invariant [OF b(2)]) (auto dest: mb_place_fields)
  moreover have "mb_ii b2 = mb_ii b1"
    by (rule foldR_invariant [OF b(3)]) (auto dest: mb_set_fields split: option.splits)
  moreover have "mb_ii b0 = mc_ii mc" using b(1) by (auto simp: mk_ModuloMappingBuilder_def bindR_eq_Inr)
  ultimately show "mm_ii m = mc_ii mc" using b(4) by (auto simp: mb_finish_def split: if_splits)
qed

lemma checkComplete_ends:
  assumes "checkComplete mc m checker st = Inr r" and "ms_mapping st = Some m"
    and "mapping_verify (mc_dfg mc) (mc_target mc) m = Inr []" "mm_ii m = mc_ii mc"
    and "mo_completeMappingChecker (mc_options mc) = Some checker"
  shows "search_ends mc st r"
proof -
  from assms(1) obtain check where check: "checker (mc_dfg mc) (mc_target mc) m = Inr check"
    by (auto simp: checkComplete_def bindR_eq_Inr)
  with assms show ?thesis
    by (cases "ck_decision check") (auto simp: checkComplete_def search_ends_def accepted_by_def split: if_splits)
qed

lemma search_ends_same: "same_tables a b \<Longrightarrow> search_ends mc a r \<Longrightarrow> search_ends mc b r"
  by (auto simp: search_ends_def intro: same_tables_trans)

lemma complete_ends:
  assumes "complete mc st = Inr r"
  shows "search_ends mc st r"
proof (cases "materialize mc st")
  case (Inl x)
  with assms show ?thesis by (auto simp: complete_def search_ends_def)
next
  case (Inr m)
  from assms Inr obtain report where v: "mapping_verify (mc_dfg mc) (mc_target mc) m = Inr report"
    by (auto simp: complete_def bindR_eq_Inr)
  define st2 where "st2 = map_count (\<lambda>s. s\<lparr>ma_completedModuloMappings := ma_completedModuloMappings s + 1\<rparr>) (st\<lparr>ms_mapping := Some m\<rparr>)"
  have st2: "ms_mapping st2 = Some m" "same_tables st2 st" by (simp_all add: st2_def) (simp add: map_count_def)
  show ?thesis
  proof (cases "report = []")
    case False
    with assms Inr v show ?thesis by (auto simp: complete_def search_ends_def Let_def)
  next
    case True
    show ?thesis
    proof (cases "mo_completeMappingChecker (mc_options mc)")
      case None
      with assms Inr v True have "r = (Out_Success, st2)" by (simp add: complete_def Let_def st2_def)
      with None v True st2(1) materialize_ii [OF Inr] show ?thesis by (simp add: search_ends_def accepted_by_def)
    next
      case (Some checker)
      with assms Inr v True have "checkComplete mc m checker st2 = Inr r"
        by (simp add: complete_def Let_def st2_def)
      from checkComplete_ends [OF this st2(1) _ materialize_ii [OF Inr] Some] v True search_ends_same [OF st2(2)]
      show ?thesis by simp
    qed
  qed
qed

text \<open>The body of the candidate loop after a candidate was tried, and after its subtree was searched.\<close>

definition afterChild ::
  "(MapState \<Rightarrow> map_stop + (SearchOutcome \<times> MapState)) \<Rightarrow> MapContext \<Rightarrow> TargetNodeId \<Rightarrow> CandidateDelta \<Rightarrow>
   SearchOutcome \<times> MapState \<Rightarrow> map_stop + (SearchOutcome \<times> MapState)" where
  "afterChild again mc node delta child =
     (case child of (childOutcome, st2) \<Rightarrow>
        if childOutcome = Out_Success then Inr (Out_Success, st2)
        else
          bindR (lift_map (rollback delta st2)) (\<lambda>st3.
            if childOutcome \<noteq> Out_Exhausted then Inr (childOutcome, st3)
            else if ma_backtracks (ms_stats st3) \<ge> sl_backtracks (mc_limits mc) then
              Inr (Out_PerIIBudgetExceeded, map_diag MAP_II_BUDGET_SHARE_EXHAUSTED (Some (mc_ii mc)) (Some node) None st3)
            else again (map_count (\<lambda>s. s\<lparr>ma_backtracks := ma_backtracks s + 1\<rparr>) st3)))"

definition afterCandidate ::
  "(MapState \<Rightarrow> map_stop + (SearchOutcome \<times> MapState)) \<Rightarrow> (MapState \<Rightarrow> map_stop + (SearchOutcome \<times> MapState)) \<Rightarrow>
   MapContext \<Rightarrow> TargetNodeId \<Rightarrow> SearchOutcome \<times> MapState \<times> CandidateDelta \<Rightarrow> map_stop + (SearchOutcome \<times> MapState)" where
  "afterCandidate deeper again mc node r =
     (case r of (outcome, st1, delta) \<Rightarrow>
        if outcome = Out_Exhausted then
          if dl_resources (de_nodeReservation delta) = [] then again st1
          else bindR (lift_map (rollback delta st1)) again
        else if outcome \<noteq> Out_Success then bindR (lift_map (rollback delta st1)) (\<lambda>st2. Inr (outcome, st2))
        else bindR (deeper st1) (afterChild again mc node delta))"

lemma tryCandidates_Cons:
  "tryCandidates deeper mc node (c # cs) st =
     (if ma_nodeCandidateAttempts (ms_stats st) \<ge> sl_nodeCandidateAttempts (mc_limits mc) then
        Inr (Out_PerIIBudgetExceeded, map_diag MAP_II_BUDGET_SHARE_EXHAUSTED (Some (mc_ii mc)) (Some node) None st)
      else bindR (tryCandidate mc node c (map_count (\<lambda>s. s\<lparr>ma_nodeCandidateAttempts := ma_nodeCandidateAttempts s + 1\<rparr>) st))
        (afterCandidate deeper (tryCandidates deeper mc node cs) mc node))"
  unfolding tryCandidates.simps afterCandidate_def [abs_def] afterChild_def [abs_def] ..

lemma tryCandidates_ends:
  assumes deeper: "\<And>st r. deeper st = Inr r \<Longrightarrow> search_ends mc st r" and inv: "tdfg_inv (mc_dfg mc)"
    and "tryCandidates deeper mc node cs st = Inr r" "\<not> hasPlacement st node"
  shows "search_ends mc st r"
  using assms(3,4)
proof (induction cs arbitrary: st)
  case Nil
  then show ?case by (auto simp: search_ends_def)
next
  case (Cons c cs)
  let ?st0 = "map_count (\<lambda>s. s\<lparr>ma_nodeCandidateAttempts := ma_nodeCandidateAttempts s + 1\<rparr>) st"
  have same0: "same_tables ?st0 st" by simp
  have placed: "\<not> hasPlacement x node" if "same_tables x st" for x
    using Cons.prems(2) that by (simp add: hasPlacement_def same_tables_def)
  have again: "search_ends mc st r" if "tryCandidates deeper mc node cs x = Inr r" "same_tables x st" for x
    using Cons.IH [OF that(1) placed [OF that(2)]] search_ends_same [OF that(2)] by blast
  show ?case
  proof (cases "ma_nodeCandidateAttempts (ms_stats st) \<ge> sl_nodeCandidateAttempts (mc_limits mc)")
    case True
    with Cons.prems(1) show ?thesis by (auto simp: search_ends_def)
  next
    case False
    with Cons.prems(1) obtain outcome st1 delta where try_c: "tryCandidate mc node c ?st0 = Inr (outcome, st1, delta)"
      by (auto simp: bindR_eq_Inr)
    from tryCandidate_undoes [OF try_c placed inv]
    consider (rejected) "outcome = Out_Exhausted" "dl_resources (de_nodeReservation delta) = []" "same_tables st1 st"
      | (placed) "undoes delta st1 st" "dl_resources (de_nodeReservation delta) \<noteq> []"
      by (auto simp: undoes_def same_tables_def map_count_def)
    then show ?thesis
    proof cases
      case rejected
      with Cons.prems(1) False try_c have "tryCandidates deeper mc node cs st1 = Inr r" by simp
      then show ?thesis by (rule again) (rule rejected(3))
    next
      case placed
      have rolled: "\<exists>y. rollback delta x = Inr y \<and> same_tables y st" if "same_tables x st1" for x
        using rollback_undoes [of delta x st] undoes_same [OF that] placed(1) by simp
      show ?thesis
      proof (cases "outcome = Out_Success")
        case False
        from rolled [of st1] obtain y where y: "rollback delta st1 = Inr y" "same_tables y st" by auto
        show ?thesis
        proof (cases "outcome = Out_Exhausted")
          case True
          with Cons.prems(1) \<open>\<not> ma_nodeCandidateAttempts _ \<ge> _\<close> try_c placed y
          have "tryCandidates deeper mc node cs y = Inr r" by simp
          then show ?thesis by (rule again) (rule y(2))
        next
          case other: False
          with Cons.prems(1) \<open>\<not> ma_nodeCandidateAttempts _ \<ge> _\<close> try_c placed y False
          show ?thesis by (auto simp: search_ends_def)
        qed
      next
        case True
        with Cons.prems(1) False try_c obtain child st2 where deep: "deeper st1 = Inr (child, st2)"
          by (auto simp: bindR_eq_Inr)
        note ends = deeper [OF deep]
        show ?thesis
        proof (cases "child = Out_Success")
          case True
          with ends Cons.prems(1) False try_c deep \<open>outcome = Out_Success\<close> show ?thesis
            by (auto simp: search_ends_def)
        next
          case bad: False
          with ends have "same_tables st2 st1" by (simp add: search_ends_def)
          from rolled [OF this] obtain y where y: "rollback delta st2 = Inr y" "same_tables y st" by auto
          show ?thesis
          proof (cases "child = Out_Exhausted \<and> \<not> ma_backtracks (ms_stats y) \<ge> sl_backtracks (mc_limits mc)")
            case go_on: True
            with Cons.prems(1) False try_c deep True y have
              "tryCandidates deeper mc node cs (map_count (\<lambda>s. s\<lparr>ma_backtracks := ma_backtracks s + 1\<rparr>) y) = Inr r"
              by simp
            then show ?thesis by (rule again) (simp add: y(2))
          next
            case stop: False
            with Cons.prems(1) False try_c deep True bad y show ?thesis by (auto simp: search_ends_def split: if_splits)
          qed
        qed
      qed
    qed
  qed
qed

lemma map_search_ends:
  assumes "map_search n mc depth st = Inr r" and inv: "tdfg_inv (mc_dfg mc)"
  shows "search_ends mc st r"
  using assms(1)
proof (induction n arbitrary: depth st r)
  case (Suc n)
  let ?st1 = "map_count (\<lambda>s. s\<lparr>ma_maxSearchDepth := max (ma_maxSearchDepth s) depth\<rparr>) st"
  have same: "same_tables ?st1 st" by simp
  show ?case
  proof (cases "allNodesMapped mc ?st1")
    case True
    with Suc.prems have "complete mc ?st1 = Inr r" by (simp add: Let_def)
    from search_ends_same [OF same complete_ends [OF this]] show ?thesis .
  next
    case False
    with Suc.prems obtain node cs where node: "selectNode mc ?st1 = Inr node" and cs: "candidates mc ?st1 node = Inr cs"
      by (auto simp: Let_def bindR_eq_Inr)
    show ?thesis
    proof (cases "cs = []")
      case True
      with Suc.prems False node cs show ?thesis by (auto simp: Let_def search_ends_def)
    next
      case some: False
      with Suc.prems False node cs have t: "tryCandidates (map_search n mc (depth + 1)) mc node cs ?st1 = Inr r"
        by (simp add: Let_def)
      have "search_ends mc ?st1 r"
        by (rule tryCandidates_ends [OF _ inv t]) (use Suc.IH selectNode_open [OF node] in blast)+
      from search_ends_same [OF same this] show ?thesis .
    qed
  qed
qed simp

section \<open>Termination\<close>

definition unplaced :: "MapContext \<Rightarrow> MapState \<Rightarrow> TargetNodeId set" where
  "unplaced mc st = tn_id ` set (td_nodes (mc_dfg mc)) - pl_node ` set (ms_placements st)"

lemma lift_map_not_Depth [simp]: "lift_map r \<noteq> Inl Map_Depth"
  by (auto simp: lift_map_def split: sum.splits)

lemma bindR_not_Depth: "r \<noteq> Inl Map_Depth \<Longrightarrow> (\<And>a. r = Inr a \<Longrightarrow> f a \<noteq> Inl Map_Depth) \<Longrightarrow> bindR r f \<noteq> Inl Map_Depth"
  by (cases r) simp_all

lemma findRoute_ends: "findRoute mc st e p c \<noteq> Inl Map_Depth"
  using route_search_total by (auto simp: findRoute_def Let_def split: option.splits route_stop.splits)

lemma acceptRoute_not_Depth: "acceptRoute mc e p plan st delta \<noteq> Inl Map_Depth"
  unfolding acceptRoute_def by (rule bindR_not_Depth) (auto split: prod.splits option.splits)

lemma realizeEdge_not_Depth: "realizeEdge mc i st delta \<noteq> Inl Map_Depth"
  unfolding realizeEdge_def
  by (intro bindR_not_Depth lift_map_not_Depth)
    (auto simp: Let_def bindR_not_Depth findRoute_ends acceptRoute_not_Depth
      split: EdgeInfo.splits RouteSearchStatus.splits option.splits intro!: bindR_not_Depth)

lemma realizeEdges_not_Depth: "realizeEdges mc es st delta \<noteq> Inl Map_Depth"
proof (induction es arbitrary: st delta)
  case (Cons e es)
  show ?case unfolding realizeEdges.simps
    by (rule bindR_not_Depth [OF realizeEdge_not_Depth]) (auto simp: Cons.IH split: prod.splits)
qed simp

lemma tryCandidate_not_Depth: "tryCandidate mc node c st \<noteq> Inl Map_Depth"
  unfolding tryCandidate_def
  by (rule bindR_not_Depth) (auto simp: Let_def realizeEdges_not_Depth split: sum.splits prod.splits option.splits)

lemma unplaced_emplace:
  assumes "ms_placements st' = emplace_by pl_node p (ms_placements st)" "pl_node p \<in> unplaced mc st"
  shows "card (unplaced mc st') < card (unplaced mc st)"
proof -
  have "unplaced mc st' = unplaced mc st - {pl_node p}"
    using assms by (auto simp: unplaced_def emplace_by_def set_insort_key)
  moreover have "finite (unplaced mc st)" by (simp add: unplaced_def)
  ultimately show ?thesis using assms(2) card_Diff1_less by metis
qed

lemma tryCandidates_not_Depth:
  assumes deeper: "\<And>x. card (unplaced mc x) < card (unplaced mc st) \<Longrightarrow> deeper x \<noteq> Inl Map_Depth"
    and ends: "\<And>x r. deeper x = Inr r \<Longrightarrow> search_ends mc x r" and inv: "tdfg_inv (mc_dfg mc)"
    and node: "\<not> hasPlacement st node" "node \<in> tn_id ` set (td_nodes (mc_dfg mc))"
  shows "same_tables x st \<Longrightarrow> tryCandidates deeper mc node cs x \<noteq> Inl Map_Depth"
proof (induction cs arbitrary: x)
  case (Cons c cs)
  let ?x0 = "map_count (\<lambda>s. s\<lparr>ma_nodeCandidateAttempts := ma_nodeCandidateAttempts s + 1\<rparr>) x"
  have free: "\<not> hasPlacement ?x0 node" using Cons.prems node(1) by (simp add: hasPlacement_def same_tables_def map_count_def)
  show ?case
  proof (cases "ma_nodeCandidateAttempts (ms_stats x) \<ge> sl_nodeCandidateAttempts (mc_limits mc)")
    case limit: False
    have "bindR (tryCandidate mc node c ?x0) (afterCandidate deeper (tryCandidates deeper mc node cs) mc node) \<noteq> Inl Map_Depth"
    proof (rule bindR_not_Depth [OF tryCandidate_not_Depth])
      fix r assume tried: "tryCandidate mc node c ?x0 = Inr r"
      obtain outcome st1 delta where r: "r = (outcome, st1, delta)" by (metis surj_pair)
      from tryCandidate_undoes [OF tried [unfolded r] free inv] Cons.prems
      consider (rejected) "outcome = Out_Exhausted" "dl_resources (de_nodeReservation delta) = []" "same_tables st1 st"
        | (placed) "undoes delta st1 st" "dl_resources (de_nodeReservation delta) \<noteq> []"
            "ms_placements st1 = emplace_by pl_node \<lparr>pl_node = node, pl_tile = cd_tile c, pl_issueSlot = cd_slot c\<rparr> (ms_placements st)"
        by (auto simp: undoes_def same_tables_def map_count_def)
      then show "afterCandidate deeper (tryCandidates deeper mc node cs) mc node r \<noteq> Inl Map_Depth"
      proof cases
        case rejected
        then show ?thesis using Cons.IH by (simp add: afterCandidate_def r)
      next
        case placed
        have rolled: "\<exists>y. rollback delta z = Inr y \<and> same_tables y st" if "same_tables z st1" for z
          using rollback_undoes [of delta z st] undoes_same [OF that] placed(1) by simp
        have "deeper st1 \<noteq> Inl Map_Depth"
          by (rule deeper, rule unplaced_emplace [OF placed(3)]) (use node in \<open>auto simp: unplaced_def hasPlacement_def find_by_None_iff\<close>)
        moreover have "afterChild (tryCandidates deeper mc node cs) mc node delta q \<noteq> Inl Map_Depth" if "deeper st1 = Inr q" for q
        proof (cases "fst q = Out_Success")
          case False
          with ends [OF that] have "same_tables (snd q) st1" by (simp add: search_ends_def)
          from rolled [OF this] obtain y where "rollback delta (snd q) = Inr y" "same_tables y st" by blast
          then show ?thesis using Cons.IH by (cases q) (auto simp: afterChild_def)
        qed (cases q, simp add: afterChild_def)
        ultimately have child: "bindR (deeper st1) (afterChild (tryCandidates deeper mc node cs) mc node delta) \<noteq> Inl Map_Depth"
          by (rule bindR_not_Depth)
        obtain y where "rollback delta st1 = Inr y" "same_tables y st" using rolled [of st1] by auto
        then show ?thesis using Cons.IH [of y] placed(2) child by (simp add: afterCandidate_def r)
      qed
    qed
    then show ?thesis unfolding tryCandidates_Cons using limit by simp
  qed simp
qed simp

lemma map_search_returns:
  assumes inv: "tdfg_inv (mc_dfg mc)"
  shows "card (unplaced mc st) < n \<Longrightarrow> map_search n mc depth st \<noteq> Inl Map_Depth"
proof (induction n arbitrary: depth st)
  case (Suc n)
  let ?st1 = "map_count (\<lambda>s. s\<lparr>ma_maxSearchDepth := max (ma_maxSearchDepth s) depth\<rparr>) st"
  have few: "card (unplaced mc ?st1) < Suc n" using Suc.prems by (simp add: unplaced_def map_count_def)
  have "tryCandidates (map_search n mc (depth + 1)) mc node cs ?st1 \<noteq> Inl Map_Depth" if "selectNode mc ?st1 = Inr node" for node cs
  proof (rule tryCandidates_not_Depth [OF _ _ inv])
    show "map_search n mc (depth + 1) x \<noteq> Inl Map_Depth" if "card (unplaced mc x) < card (unplaced mc ?st1)" for x
      using Suc.IH that few by simp
    show "search_ends mc x r" if "map_search n mc (depth + 1) x = Inr r" for x r by (rule map_search_ends [OF that inv])
  qed (use selectNode_open [OF that] in simp_all)
  then have "bindR (lift_map (selectNode mc ?st1)) (\<lambda>node. bindR (lift_map (candidates mc ?st1 node)) (\<lambda>cs.
      if cs = [] then Inr (Out_Exhausted, map_diag MAP_NO_COMPATIBLE_CANDIDATE (Some (mc_ii mc)) (Some node) None ?st1)
      else tryCandidates (map_search n mc (depth + 1)) mc node cs ?st1)) \<noteq> Inl Map_Depth"
    by (intro bindR_not_Depth lift_map_not_Depth) simp
  then show ?case by (simp add: Let_def)
qed simp

section \<open>The mapper\<close>

lemma attemptII_ends:
  assumes "attemptII g t options maxII r ii = Inr (outcome, st)" "tdfg_inv g" "outcome = Out_Success"
  shows "\<exists>m. ms_mapping st = Some m \<and> mapping_verify g t m = Inr [] \<and> mm_ii m = ii \<and>
    (\<forall>checker. mo_completeMappingChecker options = Some checker \<longrightarrow>
       (\<exists>c. checker g t m = Inr c \<and> ck_decision c = Check_Accept))"
proof -
  from assms(1) obtain mc n st0 where run: "map_search n mc 0 st0 = Inr (outcome, st)"
    and mc: "mc_dfg mc = g" "mc_target mc = t" "mc_options mc = options" "mc_ii mc = ii"
    by (auto simp: attemptII_def Let_def bindR_eq_Inr simp del: map_search.simps)
  from map_search_ends [OF run] assms(2,3) show ?thesis by (simp add: search_ends_def accepted_by_def mc)
qed

lemma mapIIs_success:
  assumes "mapIIs g t options maxII exceeded r iis = Inr r'" "mr_status r' = Map_Success" "tdfg_inv g"
  shows "\<exists>m. mr_mapping r' = Some m \<and> mapping_verify g t m = Inr [] \<and> mm_ii m \<in> set iis \<and>
    ma_finalII (mr_stats r') = mm_ii m \<and>
    (\<forall>checker. mo_completeMappingChecker options = Some checker \<longrightarrow>
       (\<exists>c. checker g t m = Inr c \<and> ck_decision c = Check_Accept))"
  using assms(1,2)
proof (induction iis arbitrary: exceeded r)
  case Nil
  then show ?case by (auto split: if_splits)
next
  case (Cons ii iis)
  from Cons.prems(1) obtain outcome st where 1: "attemptII g t options maxII r ii = Inr (outcome, st)"
    by (auto simp: bindR_eq_Inr)
  show ?case
  proof (cases "outcome = Out_Success")
    case True
    with attemptII_ends [OF 1 assms(3) True] Cons.prems 1 show ?thesis by (auto simp: Let_def)
  next
    case False
    define r1 where "r1 = r\<lparr>mr_stats := (ms_stats st)\<lparr>ma_finalII := ii\<rparr>, mr_diagnostics := ms_diagnostics st\<rparr>"
    have "\<exists>e. mapIIs g t options maxII e r1 iis = Inr r'"
      using Cons.prems 1 False by (cases outcome) (auto simp: Let_def r1_def)
    then obtain e where "mapIIs g t options maxII e r1 iis = Inr r'" by blast
    from Cons.IH [OF this Cons.prems(2)] show ?thesis by auto
  qed
qed

lemma attemptII_not_Depth:
  assumes "tdfg_inv g"
  shows "attemptII g t options maxII r ii \<noteq> Inl Map_Depth"
proof -
  have "card (unplaced mc st) < Suc (length (td_nodes g))" if "mc_dfg mc = g" for mc st
  proof -
    have "card (unplaced mc st) \<le> card (tn_id ` set (td_nodes g))" by (rule card_mono) (auto simp: unplaced_def that)
    also have "\<dots> \<le> length (td_nodes g)" by (rule order_trans [OF card_image_le card_length]) simp
    finally show ?thesis by simp
  qed
  with assms show ?thesis unfolding attemptII_def Let_def
    by (intro bindR_not_Depth lift_map_not_Depth map_search_returns) simp_all
qed

lemma mapIIs_not_Depth: "tdfg_inv g \<Longrightarrow> mapIIs g t options maxII exceeded r iis \<noteq> Inl Map_Depth"
proof (induction iis arbitrary: exceeded r)
  case (Cons ii iis)
  show ?case unfolding mapIIs.simps
    by (rule bindR_not_Depth [OF attemptII_not_Depth [OF Cons.prems]])
      (auto simp: Let_def Cons.IH [OF Cons.prems] split: prod.splits SearchOutcome.splits)
qed simp

lemma modulo_map_success:
  assumes "modulo_map g t options = Inr r" "mr_status r = Map_Success" "tdfg_inv g"
  shows "\<exists>mii m. mii_analyze g t = Inr mii \<and> mi_status mii = MII_Success \<and> mr_mapping r = Some m \<and>
    mapping_verify g t m = Inr [] \<and> ma_finalII (mr_stats r) = mm_ii m \<and> mi_mii mii \<le> mm_ii m \<and> mo_minII options \<le> mm_ii m \<and>
    mm_ii m \<le> (if mo_maxII options = 0 then max (mi_mii mii) (mo_minII options) else mo_maxII options) \<and>
    (\<forall>checker. mo_completeMappingChecker options = Some checker \<longrightarrow>
       (\<exists>c. checker g t m = Inr c \<and> ck_decision c = Check_Accept))"
proof -
  from assms(1) obtain mii where mii: "mii_analyze g t = Inr mii" by (auto simp: modulo_map_def bindR_eq_Inr)
  let ?start = "max (mi_mii mii) (if mo_minII options = 0 then mi_mii mii else mo_minII options)"
  let ?max = "if mo_maxII options = 0 then ?start else mo_maxII options"
  have ok: "mi_status mii = MII_Success" "mapIIs g t options ?max False
      (empty_mapper_result\<lparr>mr_stats := (mr_stats empty_mapper_result)\<lparr>ma_startingMII := mi_mii mii\<rparr>\<rparr>) [?start..<Suc ?max] = Inr r"
    using assms(1,2) mii
    by (auto simp: modulo_map_def map_failure_def Let_def simp del: upt_Suc split: if_splits MIIStatus.splits)
  from mapIIs_success [OF ok(2) assms(2,3)] obtain m where m: "mr_mapping r = Some m" "mapping_verify g t m = Inr []"
    "mm_ii m \<in> set [?start..<Suc ?max]" "ma_finalII (mr_stats r) = mm_ii m"
    "\<forall>checker. mo_completeMappingChecker options = Some checker \<longrightarrow>
       (\<exists>c. checker g t m = Inr c \<and> ck_decision c = Check_Accept)" by blast
  have "?start \<le> mm_ii m" "mm_ii m \<le> ?max" using m(3) by auto
  moreover have "mo_minII options \<le> ?start" "mi_mii mii \<le> ?start" "?start = max (mi_mii mii) (mo_minII options)" by auto
  ultimately show ?thesis using mii ok m by (intro exI [of _ mii] exI [of _ m]) (auto split: if_splits)
qed

section \<open>The mapper on the example\<close>

definition demo_map_options :: ModuloMapperOptions where
  "demo_map_options = \<lparr>mo_maxII = 3, mo_minII = 0,
     mo_budget = \<lparr>mu_maxNodeCandidateAttempts = 50, mu_maxBacktracks = 50, mu_maxRouteSearchCalls = 50,
       mu_perRouteBudget = \<lparr>rb_maxStateExpansions = 100, rb_maxQueuePushes = 100\<rparr>\<rparr>,
     mo_routeOptions = demo_options, mo_completeMappingChecker = None\<rparr>"

lemma demo_mapped_facts:
  "case modulo_map demo_tdfg demo_target demo_map_options of Inl _ \<Rightarrow> False
   | Inr r \<Rightarrow> mr_status r = Map_Success \<and> ma_finalII (mr_stats r) = 1 \<and>
       (case mii_analyze demo_tdfg demo_target of Inl _ \<Rightarrow> False | Inr mii \<Rightarrow> mi_mii mii = 1)"
  by code_simp

lemma demo_mapped: "\<exists>r mii. modulo_map demo_tdfg demo_target demo_map_options = Inr r \<and> mr_status r = Map_Success \<and>
    ma_finalII (mr_stats r) = 1 \<and> mii_analyze demo_tdfg demo_target = Inr mii \<and> mi_mii mii = 1"
  using demo_mapped_facts by (auto split: sum.splits)

text \<open>A search whose budget ends after the first node is placed, so that it has to be taken back.\<close>

definition demo_short_search :: MapContext where
  "demo_short_search = \<lparr>mc_dfg = demo_tdfg, mc_target = demo_target, mc_options = demo_map_options, mc_ii = 2,
     mc_resources = demo_resources, mc_limits = \<lparr>sl_nodeCandidateAttempts = 1, sl_backtracks = 5, sl_routeSearchCalls = 5\<rparr>\<rparr>"

definition demo_short_start :: MapState where
  "demo_short_start = \<lparr>ms_reservations = mk_ReservationTable demo_resources, ms_placements = [], ms_dependences = [],
     ms_mapping = None, ms_verificationFailureReported = False, ms_stats = empty_mapper_stats, ms_diagnostics = []\<rparr>"

lemma demo_short_outcome:
  "case map_search 3 demo_short_search 0 demo_short_start of Inl _ \<Rightarrow> False
   | Inr (outcome, st) \<Rightarrow> outcome = Out_PerIIBudgetExceeded \<and> ma_successfulPlacements (ms_stats st) = 1"
  by code_simp

section \<open>What the mapper promises\<close>

text \<open>C6: A successful run of the mapper yields a mapping that the verifier accepts, and hence is valid, that the
  caller's check of complete mappings accepts, and whose initiation interval, the one reported, is at
  least the analysed bound and the requested minimum and at most the limit.\<close>

theorem modulo_map_sound:
  assumes "modulo_map g t options = Inr r" "mr_status r = Map_Success" "tdfg_inv g"
  shows "\<exists>mii m. mii_analyze g t = Inr mii \<and> mr_mapping r = Some m \<and> mapping_verify g t m = Inr [] \<and> valid_mapping g t m \<and>
    ma_finalII (mr_stats r) = mm_ii m \<and> mi_mii mii \<le> mm_ii m \<and> mo_minII options \<le> mm_ii m \<and>
    mm_ii m \<le> (if mo_maxII options = 0 then max (mi_mii mii) (mo_minII options) else mo_maxII options) \<and>
    (case mo_completeMappingChecker options of None \<Rightarrow> True
     | Some checker \<Rightarrow> (\<exists>c. checker g t m = Inr c \<and> ck_decision c = Check_Accept))"
  using modulo_map_success [OF assms] mapping_verify_valid by (fastforce split: option.splits)

theorem modulo_map_sound_witness:
  "\<exists>r m. modulo_map demo_tdfg demo_target demo_map_options = Inr r \<and> mr_mapping r = Some m \<and> valid_mapping demo_tdfg demo_target m \<and>
    mm_ii m \<le> 3"
  using demo_mapped modulo_map_sound [of demo_tdfg demo_target demo_map_options] demo_tdfg_inv
  by (auto simp: demo_map_options_def)

text \<open>C7: Backtracking is exact: a search below any partial mapping that does not succeed leaves the reservation
  table, the placements and the realised dependences as it found them, whatever it tried.\<close>

theorem map_search_restores:
  assumes "map_search n mc depth st = Inr (outcome, st')" "outcome \<noteq> Out_Success" "tdfg_inv (mc_dfg mc)"
  shows "ms_reservations st' = ms_reservations st \<and> ms_placements st' = ms_placements st \<and>
    ms_dependences st' = ms_dependences st"
  using map_search_ends [OF assms(1,3)] assms(2) by (simp add: search_ends_def same_tables_def)

theorem map_search_restores_witness:
  "\<exists>st. map_search 3 demo_short_search 0 demo_short_start = Inr (Out_PerIIBudgetExceeded, st) \<and>
    ms_placements st = [] \<and> ms_reservations st = mk_ReservationTable demo_resources"
proof -
  obtain st where st: "map_search 3 demo_short_search 0 demo_short_start = Inr (Out_PerIIBudgetExceeded, st)"
    using demo_short_outcome by (auto split: sum.splits)
  have "tdfg_inv (mc_dfg demo_short_search)" using demo_tdfg_inv by (simp add: demo_short_search_def)
  from map_search_restores [OF st _ this] st show ?thesis by (simp add: demo_short_start_def)
qed

text \<open>C8: The recursion of the mapper over the nodes ends: the depth it is given here, one more than the number
  of nodes, is never used up.\<close>

theorem modulo_map_returns:
  assumes "tdfg_inv g"
  shows "modulo_map g t options \<noteq> Inl Map_Depth"
  unfolding modulo_map_def
  by (rule bindR_not_Depth)
    (auto simp: Let_def map_failure_def mapIIs_not_Depth [OF assms] simp del: upt_Suc split: MIIStatus.splits)

theorem modulo_map_returns_witness: "modulo_map demo_tdfg demo_target demo_map_options \<noteq> Inl Map_Depth"
  by (rule modulo_map_returns [OF demo_tdfg_inv])

text \<open>C9: A mapping found at the analysed bound is verified and optimal: the mapper returns a mapping that the
  verifier accepts, its initiation interval is the reported one, and no accepted mapping of the graph
  that can be pipelined has a smaller one.  As for the bound itself, result latencies are at most one more than
  the ready offsets of the producers, as in both contracts of the repository.\<close>

theorem modulo_map_optimal:
  assumes "modulo_map g t options = Inr r" "mr_status r = Map_Success" "tdfg_inv g"
    and "\<exists>mii. mii_analyze g t = Inr mii \<and> ma_finalII (mr_stats r) = mi_mii mii" and "latency_contract g"
  shows "\<exists>found. mr_mapping r = Some found \<and> mapping_verify g t found = Inr [] \<and>
    mm_ii found = ma_finalII (mr_stats r) \<and>
    (\<forall>m S. mapping_verify g t m = Inr [] \<longrightarrow> dependences_hold g m S \<longrightarrow> mm_ii found \<le> mm_ii m)"
  using modulo_map_success [OF assms(1-3)] assms(4) mii_bounds_mapping [OF _ _ _ _ assms(5)] by auto

theorem modulo_map_optimal_witness:
  "\<exists>r found. modulo_map demo_tdfg demo_target demo_map_options = Inr r \<and> mr_mapping r = Some found \<and>
    mm_ii found = 1 \<and> mm_ii found \<le> mm_ii demo_mapping"
proof -
  obtain r mii where r: "modulo_map demo_tdfg demo_target demo_map_options = Inr r" "mr_status r = Map_Success"
    and at: "ma_finalII (mr_stats r) = 1" "mii_analyze demo_tdfg demo_target = Inr mii" "mi_mii mii = 1"
    using demo_mapped by blast
  have "dependences_hold demo_tdfg demo_mapping (\<lambda>i. i)" unfolding dependences_hold_def dependence_iff by code_simp
  moreover have "latency_contract demo_tdfg" by code_simp
  ultimately show ?thesis
    using at r modulo_map_optimal [OF r demo_tdfg_inv] demo_mapping_accepted by fastforce
qed

end
