(* ===== verification/Spec2Isabelle.thy ===== *)
theory Spec2Isabelle
  imports IR_WellFormed Target_Legalizer Target_Contract Mapping_Sound Analysis_Bound RegAlloc_Exact
    Mapper_Sound
begin

text \<open>
  Verification of the compiler of a predicated mesh CGRA (\<open>src/compiler\<close>, C++).

  \<^bold>\<open>The program.\<close>  The compiler takes a loop body as a data-flow graph, legalises it for a target
  described by a contract, places its operations on a mesh of tiles for a fixed initiation interval
  (modulo scheduling with routed transports), assigns pipeline stages, allocates registers for the
  values that wait, and lowers the result to control words.  Every phase has a verifier of its own.
  The parts and the theories that model them, in the order of the pipeline:

  \<^item> \<open>Prelude\<close>: exceptions and early returns as left values of a sum (\<open>bindR\<close>, \<open>foldR\<close>), ranges of the
    machine integers, lookups, reports, the interface \<open>keyed_append\<close> of the indexed containers.
  \<^item> \<open>IR_Types\<close>, \<open>IR_DFG\<close>, \<open>IR_Builder\<close>, \<open>IR_Verifier\<close>, \<open>IR_WellFormed\<close>: \<open>include/cgra/IR\<close>, \<open>lib/IR\<close> (value types,
    opcodes, the graph container with its index and adjacency caches, the builder, and
    \<open>DFGVerifier\<close>).  The verifier is proved equivalent to a specification without checks, builder
    graphs keep the representation invariant, and the textual forms are read back.
  \<^item> \<open>Target_Model\<close>, \<open>Target_DFG\<close>, \<open>Target_Verifier\<close>, \<open>Target_Legalizer\<close>: \<open>include/cgra/Target\<close>, \<open>lib/Target\<close>
    (operation descriptors and queries of the target contract, target graphs, \<open>TargetDFGVerifier\<close>,
    \<open>TargetLegalizer\<close>).  Legalisation is total and yields the renamed graph, accepted by the verifier.
  \<^item> \<open>Target_Control\<close>, \<open>Target_Control_Sound\<close>, \<open>Target_Loader\<close>, \<open>Target_Loader_Sound\<close>, \<open>Target_Contract\<close>:
    \<open>lib/Target/ControlLayout.cpp\<close> (control words of four 32-bit chunks, encoding and decoding) and the
    loader \<open>TargetModel::loadFromFile\<close> on the values of a contract.  Loaded targets are well-formed, and
    for them encoding and decoding are inverse to each other.
  \<^item> \<open>Mapping_Resources\<close>, \<open>Mapping_Model\<close>, \<open>Mapping_Sound\<close>: \<open>include/cgra/Mapping\<close>, \<open>lib/Mapping\<close> (modulo time, mesh,
    resources, the reservation table, mappings and their builder, \<open>ModuloMappingVerifier\<close>).  An
    accepted mapping satisfies a declarative specification and is free of resource conflicts in
    every cycle of the running pipeline.
  \<^item> \<open>Best_First\<close>, \<open>Route_Search\<close>, \<open>Route_Inv\<close>, \<open>Route_Loop\<close>, \<open>Route_Exact\<close>: \<open>lib/Mapping/ModuloRouteSearch.cpp\<close>.  The locale
    \<open>best_first\<close> is the interface of a shortest-path search over a queue; it is interpreted for the moves
    of a value over free links and holds.  The search always returns, a success is the cheapest usable
    route, and its verdict that there is no path is right.
  \<^item> \<open>Mapper\<close>, \<open>Mapper_Sound\<close>: \<open>lib/Mapping/ModuloMapper.cpp\<close>, the backtracking placement and routing of a target
    graph over growing initiation intervals.  A failed branch restores the state it started from, the
    search always returns, a mapping it returns is accepted by the mapping verifier, and one at the
    reported bound is best possible.
  \<^item> \<open>Relaxation\<close>, \<open>Schedule_Stages\<close>, \<open>Schedule_Sound\<close>, \<open>Schedule_Complete\<close>: \<open>lib/Schedule/StageScheduler.cpp\<close>,
    \<open>StagedMapping.cpp\<close>, \<open>StageAssignmentVerifier.cpp\<close>.  The locale \<open>relaxation\<close> is the interface of the
    longest-path loops; it is interpreted for the stage scheduler and for the interval analysis.
    The scheduler finds the least stage assignment whenever there is one in machine range, and its
    verdict of infeasibility is right.
  \<^item> \<open>Analysis_MII\<close>, \<open>Analysis_Recurrence\<close>, \<open>Analysis_Bound\<close>: \<open>lib/Analysis/MIIAnalyzer.cpp\<close>.  The recurrence bound
    is exact, and the reported interval bounds every accepted, pipelined mapping from below.
  \<^item> \<open>RegAlloc_Lifetime\<close>, \<open>RegAlloc_Storage\<close>, \<open>RegAlloc_Storage_Sound\<close>, \<open>RegAlloc_Model\<close>, \<open>RegAlloc_Sound\<close>,
    \<open>RegAlloc_Coloring\<close>, \<open>RegAlloc_Ports\<close>, \<open>RegAlloc_Allocator\<close>, \<open>RegAlloc_Exact\<close>: \<open>lib/RegisterAllocation\<close>.  Storage
    segments cover exactly the waiting times of the transports, the periodic lifetime tests are exact,
    accepted allocations preserve every stored value, colouring and port matching are sound and
    complete, and the allocator as a whole succeeds only with accepted allocations and refuses a
    mapping for its lifetimes, read ports or registers only when none exists.
  \<^item> \<open>Example\<close>, \<open>Example_Mapping\<close>: a target with a 1 x 2 array and a two-node graph with a recurrence, on
    which the hypotheses of the theorems are evaluated.

  \<^bold>\<open>Conventions.\<close>  Unsigned integers are naturals with the guards and the wrap-around of the code
  written out (\<open>wrap32\<close>, \<open>u32_max\<close>, \<open>u64_max\<close>), control words and field values are machine words; signed 64-bit values and 128-bit distances are integers
  with the code's overflow checks.  A function that may throw returns a value of \<open>'a result\<close>, where the
  left values are the exception classes; early returns inside a function are left values of a type
  of their own.  Diagnostics keep their codes and ids, not their message texts.  Hash maps whose order
  does not matter are functions; ordered maps are association lists sorted before traversal.

  \<^bold>\<open>Bounds.\<close>  Loops over containers are structural recursion.  The relaxations run the number of rounds the
  code runs.  The recursive searches of the register allocator take a depth, the number of
  uncoloured vertices and of unvisited ports; running out of depth is a value of its own, and the
  theorems show that the depth used is always enough.  The loop of the route search gets one iteration
  more than its queue budget, which is proved to be enough for every input; the recursion of the mapper
  gets a depth from the numbers of nodes and edges, proved to be enough as well.

  \<^bold>\<open>Not modelled.\<close>  Reading and writing JSON, printing of reports, and the command-line tools are input and
  output around the library.  The LLVM front end works on LLVM IR through the LLVM libraries, which
  are not part of the sources.  The loader of the target contract starts from the values the JSON
  library reads.  \<open>ExactModuloOracle\<close> is an exhaustive search the tests compare the mapper with.  Schedule
  materialisation, lowering, the kernel ABI and the pipeline driver are not reached.
\<close>

end
